(* ===== verification/Vck_Prelude.thy ===== *)
theory Vck_Prelude
  imports Main "HOL-Library.Word"
begin

text \<open>
  Shared vocabulary of the development: the machine integers of the Rust code as
  fixed-width words, byte buffers as lists of 8-bit words, slices of buffers
  (\<open>buf[a..b]\<close>, \<open>copy_from_slice\<close>), \<open>chunks\<close>, the little-endian codecs
  \<open>to_le_bytes\<close> and \<open>from_le_bytes\<close>, and the sum type that stands for
  \<open>Result\<close> with its \<open>?\<close> operator.  The lemmas below are the generic facts the
  component theories share.
\<close>

unbundle bit_operations_syntax

type_synonym byte = "8 word"
type_synonym bytes = "8 word list"
type_synonym u16 = "16 word"
type_synonym u32 = "32 word"
type_synonym u64 = "64 word"

named_theorems le_simps "facts about little-endian codecs"
named_theorems slice_simps "facts about slices of buffers"
named_theorems res_simps "facts about results and their sequencing"


section \<open>Results\<close>

text \<open>\<open>Result<T, E>\<close> is the sum type with the error on the left; \<open>res_bind\<close> is
  the \<open>?\<close> operator followed by the rest of the function.\<close>

definition res_bind :: "'e + 'a \<Rightarrow> ('a \<Rightarrow> 'e + 'b) \<Rightarrow> 'e + 'b" where
  "res_bind r f = (case r of Inl e \<Rightarrow> Inl e | Inr x \<Rightarrow> f x)"

definition res_map :: "('a \<Rightarrow> 'b) \<Rightarrow> 'e + 'a \<Rightarrow> 'e + 'b" where
  "res_map f r = (case r of Inl e \<Rightarrow> Inl e | Inr x \<Rightarrow> Inr (f x))"

definition is_ok :: "'e + 'a \<Rightarrow> bool" where
  "is_ok r = (case r of Inl _ \<Rightarrow> False | Inr _ \<Rightarrow> True)"

definition res_ok :: "'e + 'a \<Rightarrow> 'a option" where
  "res_ok r = (case r of Inl _ \<Rightarrow> None | Inr x \<Rightarrow> Some x)"

definition ok_or :: "'e \<Rightarrow> 'a option \<Rightarrow> 'e + 'a" where
  "ok_or e x = (case x of None \<Rightarrow> Inl e | Some v \<Rightarrow> Inr v)"

definition guard_err :: "bool \<Rightarrow> 'e \<Rightarrow> 'e + unit" where
  "guard_err bad e = (if bad then Inl e else Inr ())"

lemma res_bind_simps [simp]:
  "res_bind (Inl e) f = Inl e"
  "res_bind (Inr x) f = f x"
  by (simp_all add: res_bind_def)

lemma res_map_simps [simp]:
  "res_map f (Inl e) = Inl e"
  "res_map f (Inr x) = Inr (f x)"
  by (simp_all add: res_map_def)

lemma is_ok_simps [simp]:
  "\<not> is_ok (Inl e)"
  "is_ok (Inr x)"
  by (simp_all add: is_ok_def)

lemma res_ok_simps [simp]:
  "res_ok (Inl e) = None"
  "res_ok (Inr x) = Some x"
  by (simp_all add: res_ok_def)

lemma ok_or_simps [simp]:
  "ok_or e None = Inl e"
  "ok_or e (Some v) = Inr v"
  by (simp_all add: ok_or_def)

lemma guard_err_simps [simp]:
  "guard_err True e = Inl e"
  "guard_err False e = Inr ()"
  by (simp_all add: guard_err_def)

lemma res_bind_Inr_iff [res_simps]:
  "res_bind r f = Inr y \<longleftrightarrow> (\<exists>x. r = Inr x \<and> f x = Inr y)"
  by (cases r) simp_all

lemma res_bind_Inl_iff [res_simps]:
  "res_bind r f = Inl e \<longleftrightarrow> r = Inl e \<or> (\<exists>x. r = Inr x \<and> f x = Inl e)"
  by (cases r) auto

lemma res_map_Inr_iff [res_simps]:
  "res_map f r = Inr y \<longleftrightarrow> (\<exists>x. r = Inr x \<and> f x = y)"
  by (cases r) auto

lemma guard_err_Inr_iff [res_simps]: "guard_err b e = Inr u \<longleftrightarrow> \<not> b"
  by (cases b) simp_all

lemma ok_or_Inr_iff [res_simps]: "ok_or e x = Inr y \<longleftrightarrow> x = Some y"
  by (cases x) simp_all

lemma is_ok_iff: "is_ok r \<longleftrightarrow> (\<exists>x. r = Inr x)"
  by (cases r) auto


section \<open>Slices and chunks of buffers\<close>

text \<open>\<open>buf_slice a b xs\<close> is \<open>xs[a..b]\<close>; \<open>buf_write a ys xs\<close> is
  \<open>xs[a..a + ys.len()].copy_from_slice(ys)\<close>.  Both are used within bounds, where
  the Rust operations do not panic.\<close>

definition buf_slice :: "nat \<Rightarrow> nat \<Rightarrow> 'a list \<Rightarrow> 'a list" where
  "buf_slice a b xs = take (b - a) (drop a xs)"

definition buf_write :: "nat \<Rightarrow> 'a list \<Rightarrow> 'a list \<Rightarrow> 'a list" where
  "buf_write a ys xs = take a xs @ ys @ drop (a + length ys) xs"

lemma length_buf_slice [simp]: "b \<le> length xs \<Longrightarrow> length (buf_slice a b xs) = b - a"
  by (simp add: buf_slice_def)

lemma length_buf_write [simp]: "a + length ys \<le> length xs \<Longrightarrow> length (buf_write a ys xs) = length xs"
  by (simp add: buf_write_def)

lemma slice_write_same [slice_simps]:
  assumes "a + length ys \<le> length xs" "b = a + length ys"
  shows "buf_slice a b (buf_write a ys xs) = ys"
  using assms by (simp add: buf_slice_def buf_write_def)

lemma slice_write_before [slice_simps]:
  assumes "b \<le> c" "c + length ys \<le> length xs"
  shows "buf_slice a b (buf_write c ys xs) = buf_slice a b xs"
  using assms
  by (intro nth_equalityI) (auto simp: buf_slice_def buf_write_def nth_append)

lemma slice_write_after [slice_simps]:
  assumes "c + length ys \<le> a" "c + length ys \<le> length xs"
  shows "buf_slice a b (buf_write c ys xs) = buf_slice a b xs"
proof -
  have "drop a (buf_write c ys xs) = drop a xs"
    using assms by (simp add: buf_write_def)
  then show ?thesis
    by (simp add: buf_slice_def)
qed

lemma slice_full [simp]: "b = length xs \<Longrightarrow> buf_slice 0 b xs = xs"
  by (simp add: buf_slice_def)

lemma nth_slice: "i < b - a \<Longrightarrow> b \<le> length xs \<Longrightarrow> buf_slice a b xs ! i = xs ! (a + i)"
  by (simp add: buf_slice_def)

lemma slice_slice: "d \<le> b - a \<Longrightarrow> buf_slice c d (buf_slice a b xs) = buf_slice (a + c) (a + d) xs"
  by (cases "c \<le> d") (simp_all add: buf_slice_def drop_take add.commute)

text \<open>A sequence of \<open>copy_from_slice\<close> statements at the given offsets.  When the fields lie
  inside the buffer and do not overlap, every field reads back what was stored, and the
  rest of the buffer is untouched.\<close>

definition write_fields :: "(nat \<times> 'a list) list \<Rightarrow> 'a list \<Rightarrow> 'a list" where
  "write_fields fs xs = fold (\<lambda>(off, b) s. buf_write off b s) fs xs"

definition fields_within :: "nat \<Rightarrow> (nat \<times> 'a list) list \<Rightarrow> bool" where
  "fields_within n fs = list_all (\<lambda>(off, b). off + length b \<le> n) fs"

primrec fields_disjoint :: "(nat \<times> 'a list) list \<Rightarrow> bool" where
  "fields_disjoint [] = True"
| "fields_disjoint (f # fs) =
     (list_all (\<lambda>(off, b). fst f + length (snd f) \<le> off \<or> off + length b \<le> fst f) fs \<and> fields_disjoint fs)"

lemma write_fields_simps:
  "write_fields [] xs = xs"
  "write_fields ((off, b) # fs) xs = write_fields fs (buf_write off b xs)"
  by (simp_all add: write_fields_def)

lemma length_write_fields [simp]:
  "fields_within (length xs) fs \<Longrightarrow> length (write_fields fs xs) = length xs"
  by (induction fs arbitrary: xs) (auto simp: write_fields_simps fields_within_def)

lemma slice_write_fields_outside:
  "fields_within (length xs) fs \<Longrightarrow> list_all (\<lambda>(off, b). off + length b \<le> lo \<or> hi \<le> off) fs \<Longrightarrow>
   buf_slice lo hi (write_fields fs xs) = buf_slice lo hi xs"
  by (induction fs arbitrary: xs)
    (auto simp: write_fields_simps fields_within_def slice_write_before slice_write_after)

lemma slice_write_fields:
  "fields_within (length xs) fs \<Longrightarrow> fields_disjoint fs \<Longrightarrow> (lo, b) \<in> set fs \<Longrightarrow> hi = lo + length b \<Longrightarrow>
   buf_slice lo hi (write_fields fs xs) = b"
proof (induction fs arbitrary: xs)
  case (Cons f fs)
  obtain off c where f: "f = (off, c)" by fastforce
  have w: "off + length c \<le> length xs" "fields_within (length xs) fs"
    using Cons.prems(1) by (auto simp: f fields_within_def)
  show ?case
  proof (cases "(lo, b) \<in> set fs")
    case True
    then show ?thesis
      using Cons.IH [of "buf_write off c xs"] Cons.prems w by (simp add: f write_fields_simps)
  next
    case False
    then have fb: "(off, c) = (lo, b)"
      using Cons.prems(3) f by simp
    have "list_all (\<lambda>(off, b). off + length b \<le> lo \<or> hi \<le> off) fs"
      using Cons.prems(2,4) f fb by (auto simp: list_all_iff)
    then show ?thesis
      using w fb Cons.prems(4)
      by (simp add: f write_fields_simps slice_write_fields_outside slice_write_same)
  qed
qed simp

lemma slice_write_fields_single:
  assumes "fields_within (length xs) fs" "fields_disjoint fs" "(lo, [v]) \<in> set fs"
  shows "write_fields fs xs ! lo = v"
proof -
  have "lo < length xs"
    using assms(1,3) by (force simp: fields_within_def list_all_iff)
  then have "write_fields fs xs ! lo = buf_slice lo (Suc lo) (write_fields fs xs) ! 0"
    using assms(1) by (simp add: nth_slice)
  then show ?thesis
    using slice_write_fields [OF assms, of "Suc lo"] by simp
qed

text \<open>\<open>slice::chunks(n)\<close>: consecutive pieces of \<open>n\<close> elements, the last one possibly
  shorter.  \<open>chunks(0)\<close> panics in Rust; the model never calls it there.\<close>

function chunks :: "nat \<Rightarrow> 'a list \<Rightarrow> 'a list list" where
  "chunks n xs = (if n = 0 \<or> xs = [] then [] else take n xs # chunks n (drop n xs))"
  by pat_completeness auto
termination by (relation "measure (\<lambda>(n, xs). length xs)") auto

declare chunks.simps [simp del]

lemma chunks_Nil [simp]: "chunks n [] = []"
  by (simp add: chunks.simps)

lemma chunks_append_one:
  assumes "0 < n" "length x = n"
  shows "chunks n (x @ xs) = x # chunks n xs"
  using assms by (subst chunks.simps) auto

lemma concat_chunks [simp]: "0 < n \<Longrightarrow> concat (chunks n xs) = xs"
proof (induction n xs rule: chunks.induct)
  case (1 n xs)
  then show ?case
    by (subst chunks.simps) auto
qed

lemma chunks_concat:
  assumes "0 < n" "\<forall>x\<in>set xss. length x = n"
  shows "chunks n (concat xss) = xss"
  using assms by (induction xss) (simp_all add: chunks_append_one)

lemma length_chunks_exact:
  "0 < n \<Longrightarrow> length xs = k * n \<Longrightarrow> length (chunks n xs) = k"
proof (induction k arbitrary: xs)
  case (Suc k)
  then have "xs \<noteq> []" by auto
  with Suc show ?case
    by (subst chunks.simps) (auto intro!: Suc.IH)
qed (simp)

lemma chunks_exact_lengths:
  "0 < n \<Longrightarrow> length xs = k * n \<Longrightarrow> x \<in> set (chunks n xs) \<Longrightarrow> length x = n"
proof (induction k arbitrary: xs)
  case (Suc k)
  then have ne: "xs \<noteq> []" by auto
  have len: "length (drop n xs) = k * n"
    using Suc.prems by simp
  from Suc.prems(3) ne Suc.prems(1) have "x = take n xs \<or> x \<in> set (chunks n (drop n xs))"
    by (subst (asm) chunks.simps) auto
  then show ?case
    using Suc.IH [OF Suc.prems(1) len] Suc.prems(2) by auto
qed (simp)

lemma nth_chunks:
  "0 < n \<Longrightarrow> length xs = k * n \<Longrightarrow> i < k \<Longrightarrow> chunks n xs ! i = buf_slice (i * n) ((i + 1) * n) xs"
proof (induction k arbitrary: xs i)
  case (Suc k)
  then have ne: "xs \<noteq> []" by auto
  have len: "length (drop n xs) = k * n"
    using Suc.prems by simp
  have step: "chunks n xs = take n xs # chunks n (drop n xs)"
    using ne Suc.prems(1) by (subst chunks.simps) simp
  show ?case
  proof (cases i)
    case 0
    then show ?thesis
      using step by (simp add: buf_slice_def)
  next
    case (Suc j)
    with Suc.prems have "chunks n (drop n xs) ! j = buf_slice (j * n) ((j + 1) * n) (drop n xs)"
      using Suc.IH [OF Suc.prems(1) len] by simp
    with step Suc show ?thesis
      by (simp add: buf_slice_def add.commute)
  qed
qed (simp)


section \<open>Little-endian integers\<close>

text \<open>\<open>le_bytes n w\<close> is \<open>w.to_le_bytes()\<close> for an \<open>8 n\<close>-bit \<open>w\<close>;
  \<open>of_le_bytes\<close> is \<open>from_le_bytes\<close>.\<close>

definition le_bytes :: "nat \<Rightarrow> 'a::len word \<Rightarrow> bytes" where
  "le_bytes n w = map (\<lambda>i. ucast (drop_bit (8 * i) w)) [0..<n]"

primrec of_le_bytes :: "bytes \<Rightarrow> 'a::len word" where
  "of_le_bytes [] = 0"
| "of_le_bytes (b # bs) = ucast b OR push_bit 8 (of_le_bytes bs)"

lemma length_le_bytes [simp]: "length (le_bytes n w) = n"
  by (simp add: le_bytes_def)

lemma bit_of_le_bytes [le_simps]:
  fixes dummy :: "'a::len itself"
  shows "bit (of_le_bytes bs :: 'a word) k \<longleftrightarrow>
    k < LENGTH('a) \<and> k div 8 < length bs \<and> bit (bs ! (k div 8)) (k mod 8)"
proof (induction bs arbitrary: k)
  case (Cons b bs)
  show ?case
  proof (cases "k < 8")
    case True
    then show ?thesis
      by (auto simp: bit_or_iff bit_push_bit_iff bit_ucast_iff)
  next
    case False
    then obtain j where j: "k = j + 8"
      by (metis add.commute le_Suc_ex not_less)
    have nb: "\<not> bit b (j + 8)"
      using bit_imp_le_length [of b "j + 8"] by auto
    have dj: "(j + 8) div 8 = Suc (j div 8)"
      by simp
    show ?thesis
      using nb Cons.IH [of j] dj by (auto simp: j bit_or_iff bit_push_bit_iff bit_ucast_iff)
  qed
qed simp

lemma nth_le_bytes: "i < n \<Longrightarrow> le_bytes n w ! i = ucast (drop_bit (8 * i) w)"
  by (simp add: le_bytes_def)

lemma of_le_bytes_le_bytes [simp]:
  fixes w :: "'a::len word"
  assumes "LENGTH('a) \<le> 8 * n"
  shows "of_le_bytes (le_bytes n w) = w"
proof (rule bit_word_eqI)
  fix k assume k: "k < LENGTH('a)"
  then have "k div 8 < n"
    using assms by auto
  then show "bit (of_le_bytes (le_bytes n w) :: 'a word) k \<longleftrightarrow> bit w k"
    using k by (simp add: bit_of_le_bytes nth_le_bytes bit_ucast_iff bit_drop_bit_eq)
qed

lemma le_bytes_of_le_bytes:
  assumes "length bs = n" "8 * n \<le> LENGTH('a::len)"
  shows "le_bytes n (of_le_bytes bs :: 'a word) = bs"
proof (rule nth_equalityI)
  fix i assume "i < length (le_bytes n (of_le_bytes bs :: 'a word))"
  then have i: "i < n" by simp
  show "le_bytes n (of_le_bytes bs :: 'a word) ! i = bs ! i"
  proof (rule bit_word_eqI)
    fix k assume k: "k < LENGTH(8)"
    have "8 * i + k < LENGTH('a)"
      using assms i k by simp
    with k i assms(1) show "bit (le_bytes n (of_le_bytes bs :: 'a word) ! i) k \<longleftrightarrow> bit (bs ! i) k"
      by (simp add: nth_le_bytes bit_ucast_iff bit_drop_bit_eq bit_of_le_bytes)
  qed
qed (simp add: assms)

lemma le_bytes_inj:
  fixes v w :: "'a::len word"
  assumes "LENGTH('a) \<le> 8 * n" "le_bytes n v = le_bytes n w"
  shows "v = w"
  using assms of_le_bytes_le_bytes by metis


text \<open>A byte string literal \<open>b"..."\<close>.\<close>

definition ascii :: "string \<Rightarrow> bytes" where
  "ascii s = map of_char s"


section \<open>Bytewise exclusive or\<close>

definition xor_bytes :: "bytes \<Rightarrow> bytes \<Rightarrow> bytes" where
  "xor_bytes xs ys = map2 (XOR) xs ys"

lemma length_xor_bytes [simp]: "length (xor_bytes xs ys) = min (length xs) (length ys)"
  by (simp add: xor_bytes_def)

lemma xor_bytes_cancel [simp]:
  "length xs \<le> length ys \<Longrightarrow> xor_bytes (xor_bytes xs ys) ys = xs"
  by (rule nth_equalityI) (auto simp: xor_bytes_def xor.assoc)


section \<open>Unsigned arithmetic without wrap-around\<close>

lemma unat_add_no_wrap:
  fixes a b :: "'a::len word"
  assumes "unat a + unat b < 2 ^ LENGTH('a)"
  shows "unat (a + b) = unat a + unat b"
  using assms by (simp add: unat_word_ariths)

lemma unat_sub_no_wrap:
  fixes a b :: "'a::len word"
  assumes "b \<le> a"
  shows "unat (a - b) = unat a - unat b"
  using assms by (simp add: unat_sub)

lemma unat_of_nat_less:
  assumes "n < 2 ^ LENGTH('a::len)"
  shows "unat (of_nat n :: 'a word) = n"
  using assms by (simp add: unat_of_nat)

lemma unat_add_of_nat:
  fixes a :: "'a::len word"
  assumes "unat a + n < 2 ^ LENGTH('a)"
  shows "unat (a + of_nat n) = unat a + n"
proof -
  have "n < 2 ^ LENGTH('a)"
    using assms by simp
  then show ?thesis
    using assms by (simp add: unat_add_no_wrap unat_of_nat_less)
qed

lemma word_less_unat: "(a :: 'a::len word) < b \<longleftrightarrow> unat a < unat b"
  by (simp add: word_less_nat_alt)

lemma word_le_unat: "(a :: 'a::len word) \<le> b \<longleftrightarrow> unat a \<le> unat b"
  by (simp add: word_le_nat_alt)

lemma unat_ucast_up [simp]:
  fixes w :: "'a::len word"
  assumes "LENGTH('a) \<le> LENGTH('b::len)"
  shows "unat (ucast w :: 'b word) = unat w"
proof -
  have "unat w < 2 ^ LENGTH('b)"
    using unsigned_less [of w, where ?'a = nat] assms by (meson order_less_le_trans power_increasing one_le_numeral)
  then show ?thesis
    by (simp add: unsigned_ucast_eq take_bit_nat_eq_self)
qed

lemma u64_lt: "unat (x :: u64) < 2 ^ 64"
  using unsigned_less [of x, where ?'a = nat] by (simp only: len_of_numeral_defs) simp

lemma u32_lt: "unat (x :: u32) < 2 ^ 32"
  using unsigned_less [of x, where ?'a = nat] by (simp only: len_of_numeral_defs) simp

lemma u8_lt: "unat (x :: byte) < 2 ^ 8"
  using unsigned_less [of x, where ?'a = nat] by (simp only: len_of_numeral_defs) simp

end
