(* ===== verification/Vck_Common.thy ===== *)
theory Vck_Common
  imports Vck_Prelude
begin

text \<open>
  The shared data of \<open>lib/common\<close>: the error enumeration (\<open>error.rs\<close>), volume
  identifiers, the sweep direction, the progressive-encryption offset and sector
  ranges (\<open>types.rs\<close>), the replica options (\<open>jvck/options.rs\<close>), the pluggable
  randomness source (\<open>rng.rs\<close>), and the trait objects the components call
  (\<open>VolumeCipher\<close>, \<open>VolumeCipherSupplier\<close>, \<open>SectorIo\<close>,
  \<open>EncryptedOffsetStore\<close>) as records of operations.

  A stateful trait object acts on a world \<open>'w\<close> that the caller threads through:
  writes return the new world, reads only look at it.  All integers keep their
  Rust width, so \<open>+\<close> and \<open>-\<close> wrap as in a release build.
\<close>


section \<open>Errors\<close>

datatype vck_error =
    InvalidData string
  | ValidationFailed string
  | Unsupported string
  | NotFound string
  | PermissionDenied string
  | SizeMismatch nat nat
  | SignatureMismatch
  | ChecksumMismatch
  | CryptoFailed string
  | MsgpackEncode string
  | MsgpackDecode string
  | Io string

type_synonym 'a vck_result = "vck_error + 'a"

fun decimal :: "nat \<Rightarrow> string" where
  "decimal n = (if n < 10 then [char_of (48 + n)]
     else decimal (n div 10) @ [char_of (48 + n mod 10)])"

declare decimal.simps [simp del]

fun vck_error_fmt :: "vck_error \<Rightarrow> string" where
  "vck_error_fmt (InvalidData msg) = ''invalid data: '' @ msg"
| "vck_error_fmt (ValidationFailed msg) = ''validation failed: '' @ msg"
| "vck_error_fmt (Unsupported msg) = ''unsupported: '' @ msg"
| "vck_error_fmt (NotFound msg) = ''not found: '' @ msg"
| "vck_error_fmt (PermissionDenied msg) = ''permission denied: '' @ msg"
| "vck_error_fmt (SizeMismatch expected actual) =
     ''size mismatch: expected '' @ decimal expected @ '', got '' @ decimal actual"
| "vck_error_fmt SignatureMismatch = ''signature mismatch''"
| "vck_error_fmt ChecksumMismatch = ''checksum mismatch''"
| "vck_error_fmt (CryptoFailed msg) = ''cryptography failed: '' @ msg"
| "vck_error_fmt (MsgpackEncode msg) = ''msgpack encode failed: '' @ msg"
| "vck_error_fmt (MsgpackDecode msg) = ''msgpack decode failed: '' @ msg"
| "vck_error_fmt (Io msg) = ''io failed: '' @ msg"


section \<open>Identifiers, sweep direction and progress\<close>

text \<open>A \<open>Guid\<close> is its 16 canonical bytes (\<open>uuid::Uuid\<close>).  \<open>from_bytes_le\<close> reads the
  first three fields little-endian, so it reverses bytes 0--3, 4--5 and 6--7.\<close>

type_synonym guid = bytes

definition guid_from_windows_bytes :: "bytes \<Rightarrow> guid" where
  "guid_from_windows_bytes b =
     rev (buf_slice 0 4 b) @ rev (buf_slice 4 6 b) @ rev (buf_slice 6 8 b) @ buf_slice 8 16 b"

datatype volume_state = Encrypt | Decrypt

definition as_u16 :: "volume_state \<Rightarrow> u16" where
  "as_u16 s = (case s of Encrypt \<Rightarrow> 0 | Decrypt \<Rightarrow> 1)"

definition from_u16 :: "u16 \<Rightarrow> volume_state" where
  "from_u16 v = (if v = 1 then Decrypt else Encrypt)"

record encrypted_offset =
  eo_sector :: u64
  eo_total_sectors :: u64

definition is_encrypted :: "encrypted_offset \<Rightarrow> u64 \<Rightarrow> bool" where
  "is_encrypted off sector = (sector < eo_sector off)"

definition is_fully_encrypted :: "encrypted_offset \<Rightarrow> bool" where
  "is_fully_encrypted off = (eo_sector off \<ge> eo_total_sectors off)"

record sector_range =
  sr_start :: u64
  sr_count :: u64

definition range_end :: "sector_range \<Rightarrow> u64" where
  "range_end r = sr_start r + sr_count r"

definition range_contains :: "sector_range \<Rightarrow> u64 \<Rightarrow> bool" where
  "range_contains r sector = (sector \<ge> sr_start r \<and> sector < range_end r)"

record volume_id =
  vid_partition_guid :: guid
  vid_device_path :: string


section \<open>Replica options\<close>

definition MIN_METADATA_SIZE :: u32 where
  "MIN_METADATA_SIZE = 128 * 1024"

record jvck_options =
  use_header :: u32
  use_footer :: u32
  metadata_size :: u32

definition replica_count :: "jvck_options \<Rightarrow> u32" where
  "replica_count opt = use_header opt + use_footer opt"

definition validate_options :: "jvck_options \<Rightarrow> unit vck_result" where
  "validate_options opt =
     (if metadata_size opt < MIN_METADATA_SIZE
      then Inl (ValidationFailed ''metadata_size must be at least 128 KiB'')
      else if replica_count opt = 0
      then Inl (ValidationFailed ''use_header + use_footer must be >= 1'')
      else Inr ())"


section \<open>Trait objects\<close>

text \<open>\<open>trait VolumeCipher\<close>: the in-place buffer operations return the new buffer.\<close>

record volume_cipher =
  vc_encrypt_sector :: "u64 \<Rightarrow> bytes \<Rightarrow> bytes"
  vc_decrypt_sector :: "u64 \<Rightarrow> bytes \<Rightarrow> bytes"
  vc_encrypt_area :: "bytes \<Rightarrow> nat \<Rightarrow> u64 \<Rightarrow> bytes"
  vc_decrypt_area :: "bytes \<Rightarrow> nat \<Rightarrow> u64 \<Rightarrow> bytes"

text \<open>\<open>trait VolumeCipherSupplier\<close>: \<open>get_cipher\<close>.\<close>

type_synonym cipher_supplier = "unit \<Rightarrow> volume_cipher option"

text \<open>\<open>trait SectorIo\<close>: the geometry is fixed for an object, the read takes the
  length of the buffer to fill, the write returns the new world.\<close>

record 'w sector_io =
  sio_sector_size :: u32
  sio_total_sectors :: u64
  sio_read_sectors :: "'w \<Rightarrow> u64 \<Rightarrow> nat \<Rightarrow> bytes vck_result"
  sio_write_sectors :: "'w \<Rightarrow> u64 \<Rightarrow> bytes \<Rightarrow> unit vck_result \<times> 'w"

text \<open>\<open>trait EncryptedOffsetStore\<close>.\<close>

record 'w offset_store =
  os_load :: "'w \<Rightarrow> encrypted_offset vck_result"
  os_store :: "'w \<Rightarrow> encrypted_offset \<Rightarrow> unit vck_result \<times> 'w"
  os_flush :: "'w \<Rightarrow> unit vck_result \<times> 'w"
  os_load_state :: "'w \<Rightarrow> volume_state vck_result"
  os_store_state :: "'w \<Rightarrow> volume_state \<Rightarrow> unit vck_result \<times> 'w"

text \<open>The installed \<open>RandomSource\<close>, if any, fills a buffer of a given length and
  advances its state, a part of the world.\<close>

type_synonym 'w random_source = "('w \<Rightarrow> nat \<Rightarrow> bytes vck_result \<times> 'w) option"

definition set_random_source ::
    "'w random_source \<Rightarrow> ('w \<Rightarrow> nat \<Rightarrow> bytes vck_result \<times> 'w) \<Rightarrow> 'w random_source" where
  "set_random_source rng source = (case rng of None \<Rightarrow> Some source | Some old \<Rightarrow> Some old)"

definition fill_random :: "'w random_source \<Rightarrow> 'w \<Rightarrow> nat \<Rightarrow> bytes vck_result \<times> 'w" where
  "fill_random rng w n = (case rng of
     Some src \<Rightarrow> src w n
   | None \<Rightarrow> (Inl (CryptoFailed ''no RandomSource installed''), w))"


section \<open>Basic facts\<close>

lemma from_u16_as_u16 [simp]: "from_u16 (as_u16 s) = s"
  by (cases s) (simp_all add: from_u16_def as_u16_def)

lemma length_guid_from_windows_bytes [simp]:
  "length b = 16 \<Longrightarrow> length (guid_from_windows_bytes b) = 16"
  by (simp add: guid_from_windows_bytes_def)

lemma validate_options_ok_iff:
  "validate_options opt = Inr () \<longleftrightarrow> MIN_METADATA_SIZE \<le> metadata_size opt \<and> replica_count opt \<noteq> 0"
  by (auto simp: validate_options_def)

text \<open>The mixed-endian conversion only permutes the bytes, and doing it twice is the
  identity: it is the inverse of the conversion to the Windows layout.\<close>

lemma guid_from_windows_bytes_invol:
  assumes "length b = 16"
  shows "guid_from_windows_bytes (guid_from_windows_bytes b) = b"
  using assms
  by (auto simp: numeral_eq_Suc length_Suc_conv guid_from_windows_bytes_def buf_slice_def)

lemma range_contains_no_wrap:
  assumes "unat (sr_start r) + unat (sr_count r) < 2 ^ 64"
  shows "range_contains r s \<longleftrightarrow>
    unat (sr_start r) \<le> unat s \<and> unat s < unat (sr_start r) + unat (sr_count r)"
  using assms
  by (simp add: range_contains_def range_end_def word_less_unat word_le_unat unat_add_no_wrap)

end
