(* ===== verification/Cipher_Spec.thy ===== *)
theory Cipher_Spec
  imports Vck_Common
begin

text \<open>
  The contract of \<open>trait VolumeCipher\<close> (\<open>lib/common/src/types.rs\<close>) as a locale: a
  sector operation keeps the length of the sector and is invertible for every
  data-region relative sector number, and an area operation is the sector
  operation applied to the consecutive sectors of the buffer.  The driver's
  pipeline, the sweep engine and the loader's hook rely on the contract only; the
  AES-XTS cipher provides it.
\<close>

text \<open>\<open>for (si, sector) in buf.chunks_mut(ss).enumerate() { f(first + si as u64, sector) }\<close>\<close>

definition area_map :: "(u64 \<Rightarrow> bytes \<Rightarrow> bytes) \<Rightarrow> u64 \<Rightarrow> nat \<Rightarrow> bytes \<Rightarrow> bytes" where
  "area_map f first ss buf =
     concat (map (\<lambda>(si, sector). f (first + of_nat si) sector) (enumerate 0 (chunks ss buf)))"

lemma chunks_area_map:
  assumes "0 < ss" "length buf = k * ss" "\<And>r s. length s = ss \<Longrightarrow> length (f r s) = ss"
  shows "chunks ss (area_map f first ss buf) =
    map (\<lambda>(si, sector). f (first + of_nat si) sector) (enumerate 0 (chunks ss buf))"
  unfolding area_map_def
proof (rule chunks_concat)
  show "\<forall>x\<in>set (map (\<lambda>(si, sector). f (first + of_nat si) sector) (enumerate 0 (chunks ss buf))).
      length x = ss"
    using assms(3) chunks_exact_lengths [OF assms(1,2)]
    by (auto simp: enumerate_eq_zip dest: set_zip_rightD)
qed (rule assms(1))

lemma nth_enumerate_zero: "i < length xs \<Longrightarrow> enumerate 0 xs ! i = (i, xs ! i)"
  by (simp add: nth_enumerate_eq)

lemma length_area_map:
  assumes "\<And>r s. length (f r s) = length s" "0 < ss"
  shows "length (area_map f first ss buf) = length buf"
proof -
  have "map length (map (\<lambda>(si, sector). f (first + of_nat si) sector) (enumerate 0 (chunks ss buf)))
      = map length (chunks ss buf)"
    using assms(1) by (intro nth_equalityI) (simp_all add: nth_enumerate_zero)
  then show ?thesis
    using assms(2) concat_chunks [of ss buf]
    by (metis area_map_def length_concat)
qed

text \<open>A sector operation that keeps lengths keeps the division into sectors, also for a
  last sector that is shorter than the rest.\<close>

lemma chunks_mono_lengths:
  assumes "0 < ss" "map length yss = map length (chunks ss buf)"
  shows "chunks ss (concat yss) = yss"
  using assms
proof (induction ss buf arbitrary: yss rule: chunks.induct)
  case (1 n xs)
  show ?case
  proof (cases "xs = []")
    case True
    then show ?thesis using 1 by simp
  next
    case False
    then have step: "chunks n xs = take n xs # chunks n (drop n xs)"
      using "1.prems" by (subst chunks.simps) simp
    then obtain y ys where yss: "yss = y # ys" and ly: "length y = min (length xs) n"
      and lys: "map length ys = map length (chunks n (drop n xs))"
      using "1.prems"(2) by (cases yss) (auto simp: min.commute)
    have ih: "chunks n (concat ys) = ys"
      using "1.IH" False "1.prems"(1) lys by simp
    show ?thesis
    proof (cases "length xs \<le> n")
      case True
      then have "ys = []" using lys by simp
      moreover have "y \<noteq> []" "length y \<le> n" using ly False True "1.prems"(1) by auto
      ultimately show ?thesis
        using "1.prems"(1) yss by (subst chunks.simps) simp
    next
      case False
      then show ?thesis
        using yss ih ly "1.prems"(1) by (simp add: chunks_append_one)
    qed
  qed
qed

lemma area_map_inverse:
  assumes "0 < ss" "\<And>r s. length (f r s) = length s" "\<And>r s. g r (f r s) = s"
  shows "area_map g first ss (area_map f first ss buf) = buf"
proof -
  let ?fs = "map (\<lambda>(si, sector). f (first + of_nat si) sector) (enumerate 0 (chunks ss buf))"
  have lens: "map length ?fs = map length (chunks ss buf)"
    using assms(2) by (intro nth_equalityI) (simp_all add: nth_enumerate_zero)
  have "chunks ss (area_map f first ss buf) = ?fs"
    unfolding area_map_def by (rule chunks_mono_lengths [OF assms(1) lens])
  moreover have "map (\<lambda>(si, sector). g (first + of_nat si) sector) (enumerate 0 ?fs) = chunks ss buf"
    using assms(3) by (intro nth_equalityI) (simp_all add: nth_enumerate_zero)
  ultimately show ?thesis
    using assms(1) by (simp add: area_map_def [of g])
qed

locale volume_cipher_spec =
  fixes c :: volume_cipher and ok :: bool
  assumes enc_length: "ok \<Longrightarrow> length (vc_encrypt_sector c r s) = length s"
    and dec_length: "ok \<Longrightarrow> length (vc_decrypt_sector c r s) = length s"
    and dec_enc: "ok \<Longrightarrow> vc_decrypt_sector c r (vc_encrypt_sector c r s) = s"
    and enc_dec: "ok \<Longrightarrow> vc_encrypt_sector c r (vc_decrypt_sector c r s) = s"
    and enc_area: "ok \<Longrightarrow> 0 < ss \<Longrightarrow>
      vc_encrypt_area c buf ss first = area_map (vc_encrypt_sector c) first ss buf"
    and dec_area: "ok \<Longrightarrow> 0 < ss \<Longrightarrow>
      vc_decrypt_area c buf ss first = area_map (vc_decrypt_sector c) first ss buf"
begin

lemma area_lengths:
  assumes ok "0 < ss"
  shows "length (vc_encrypt_area c buf ss first) = length buf"
    and "length (vc_decrypt_area c buf ss first) = length buf"
  using assms by (simp_all add: enc_area dec_area length_area_map enc_length dec_length)

lemma area_roundtrip:
  assumes ok "0 < ss"
  shows "vc_decrypt_area c (vc_encrypt_area c buf ss first) ss first = buf"
    and "vc_encrypt_area c (vc_decrypt_area c buf ss first) ss first = buf"
  using assms
  by (simp_all add: enc_area dec_area area_map_inverse enc_length dec_length dec_enc enc_dec)

lemma chunks_enc_area:
  assumes ok "0 < ss" "length buf = k * ss"
  shows "chunks ss (vc_encrypt_area c buf ss first) =
    map (\<lambda>(si, sector). vc_encrypt_sector c (first + of_nat si) sector) (enumerate 0 (chunks ss buf))"
  using assms by (simp add: enc_area chunks_area_map enc_length)

lemma chunks_dec_area:
  assumes ok "0 < ss" "length buf = k * ss"
  shows "chunks ss (vc_decrypt_area c buf ss first) =
    map (\<lambda>(si, sector). vc_decrypt_sector c (first + of_nat si) sector) (enumerate 0 (chunks ss buf))"
  using assms by (simp add: dec_area chunks_area_map dec_length)

lemma nth_chunks_enc_area:
  assumes ok "0 < ss" "length buf = k * ss" "i < k"
  shows "chunks ss (vc_encrypt_area c buf ss first) ! i =
    vc_encrypt_sector c (first + of_nat i) (chunks ss buf ! i)"
  using assms by (simp add: chunks_enc_area [OF assms(1-3)] length_chunks_exact nth_enumerate_zero)

lemma nth_chunks_dec_area:
  assumes ok "0 < ss" "length buf = k * ss" "i < k"
  shows "chunks ss (vc_decrypt_area c buf ss first) ! i =
    vc_decrypt_sector c (first + of_nat i) (chunks ss buf ! i)"
  using assms by (simp add: chunks_dec_area [OF assms(1-3)] length_chunks_exact nth_enumerate_zero)

lemma encrypt_sector_inj: "ok \<Longrightarrow> vc_encrypt_sector c r s = vc_encrypt_sector c r t \<Longrightarrow> s = t"
  by (metis dec_enc)

end

end
