(* ===== verification/Sector_Io.thy ===== *)
theory Sector_Io
  imports Vck_Common
begin

text \<open>
  The contract of \<open>trait SectorIo\<close> (\<open>lib/common/src/store.rs\<close>) as a locale, and the
  adapters that implement the trait on top of something else.

  A device has, for each world, a content: a sector of bytes for each sector number.  A
  successful read returns the content, a successful write changes exactly the sectors it
  covers, and a failed write changes at most those.  The laws are required for transfers
  that lie below the capacity \<open>cap\<close>.  A \<open>reliable_device\<close> does not fail there.

  Both kernel implementations (\<open>KernelVolumeIo\<close> and \<open>LowerDeviceIo\<close> in
  \<open>lib/windrv/src/io.rs\<close>) translate sector numbers to byte offsets in the same way
  (\<open>run_sync\<close>); \<open>byte_sector_io\<close> is that translation over a byte-addressed transfer,
  and \<open>byte_device\<close> the contract of the transfer.  \<open>OffsetSectorIo\<close> shifts a device.
\<close>


section \<open>Device contract\<close>

definition put_sectors :: "nat \<Rightarrow> nat \<Rightarrow> bytes \<Rightarrow> (nat \<Rightarrow> bytes) \<Rightarrow> nat \<Rightarrow> bytes" where
  "put_sectors ss a bs f i =
     (if a \<le> i \<and> i < a + length bs div ss then buf_slice ((i - a) * ss) ((i - a + 1) * ss) bs else f i)"

definition get_sectors :: "(nat \<Rightarrow> bytes) \<Rightarrow> nat \<Rightarrow> nat \<Rightarrow> bytes" where
  "get_sectors f a k = concat (map f [a..<a + k])"

lemma put_sectors_outside:
  "i < a \<or> a + length bs div ss \<le> i \<Longrightarrow> put_sectors ss a bs f i = f i"
  by (auto simp: put_sectors_def)

lemma put_sectors_chunk:
  assumes "0 < ss" "length bs = k * ss" "i < k"
  shows "put_sectors ss a bs f (a + i) = chunks ss bs ! i"
  using assms nth_chunks [OF assms] by (simp add: put_sectors_def)

lemma length_get_sectors:
  assumes "\<And>i. a \<le> i \<Longrightarrow> i < a + k \<Longrightarrow> length (f i) = ss"
  shows "length (get_sectors f a k) = k * ss"
  using assms
proof (induction k)
  case (Suc k)
  then have "length (get_sectors f a k) = k * ss" by simp
  then show ?case
    using Suc.prems [of "a + k"] by (simp add: get_sectors_def)
qed (simp add: get_sectors_def)

lemma chunks_get_sectors:
  assumes "0 < ss" "\<And>i. a \<le> i \<Longrightarrow> i < a + k \<Longrightarrow> length (f i) = ss"
  shows "chunks ss (get_sectors f a k) = map f [a..<a + k]"
  unfolding get_sectors_def using assms by (intro chunks_concat) auto

lemma get_sectors_cong:
  "(\<And>i. a \<le> i \<Longrightarrow> i < a + k \<Longrightarrow> f i = g i) \<Longrightarrow> get_sectors f a k = get_sectors g a k"
  unfolding get_sectors_def by (intro arg_cong [of _ _ concat] map_cong) auto

lemma get_put_same:
  assumes "0 < ss" "length bs = k * ss"
  shows "get_sectors (put_sectors ss a bs f) a k = bs"
proof -
  have "map (put_sectors ss a bs f) [a..<a + k] = chunks ss bs"
    using assms by (intro nth_equalityI) (simp_all add: length_chunks_exact put_sectors_chunk)
  then show ?thesis
    using assms(1) by (simp add: get_sectors_def)
qed

locale sector_device =
  fixes io :: "'w sector_io" and invar :: "'w \<Rightarrow> bool"
    and content :: "'w \<Rightarrow> nat \<Rightarrow> bytes" and cap :: nat
  assumes cap_bound: "invar w \<Longrightarrow> cap < 2 ^ 64"
    and sector_size_pos: "invar w \<Longrightarrow> 0 < unat (sio_sector_size io)"
    and content_length: "invar w \<Longrightarrow> length (content w i) = unat (sio_sector_size io)"
    and read_ok: "invar w \<Longrightarrow> unat lba + k \<le> cap \<Longrightarrow>
      sio_read_sectors io w lba (k * unat (sio_sector_size io)) = Inr bs \<Longrightarrow>
      bs = get_sectors (content w) (unat lba) k"
    and write_ok: "invar w \<Longrightarrow> unat lba + k \<le> cap \<Longrightarrow> length bs = k * unat (sio_sector_size io) \<Longrightarrow>
      sio_write_sectors io w lba bs = (Inr (), w') \<Longrightarrow>
      invar w' \<and> content w' = put_sectors (unat (sio_sector_size io)) (unat lba) bs (content w)"
    and write_err: "invar w \<Longrightarrow> unat lba + k \<le> cap \<Longrightarrow> length bs = k * unat (sio_sector_size io) \<Longrightarrow>
      sio_write_sectors io w lba bs = (Inl e, w') \<Longrightarrow>
      invar w' \<and> (\<forall>i. i < unat lba \<or> unat lba + k \<le> i \<longrightarrow> content w' i = content w i)"
begin

lemma write_invar:
  assumes "invar w" "unat lba + k \<le> cap" "length bs = k * unat (sio_sector_size io)"
  shows "invar (snd (sio_write_sectors io w lba bs))"
proof -
  obtain r w' where rw: "sio_write_sectors io w lba bs = (r, w')"
    by fastforce
  then show ?thesis
    using write_ok [OF assms] write_err [OF assms] by (cases r) auto
qed

lemma write_frame:
  assumes "invar w" "unat lba + k \<le> cap" "length bs = k * unat (sio_sector_size io)"
    "i < unat lba \<or> unat lba + k \<le> i"
  shows "content (snd (sio_write_sectors io w lba bs)) i = content w i"
proof -
  have div: "length bs div unat (sio_sector_size io) = k"
    using assms(3) sector_size_pos [OF assms(1)] by simp
  obtain r w' where rw: "sio_write_sectors io w lba bs = (r, w')"
    by fastforce
  show ?thesis
  proof (cases r)
    case (Inl e)
    then show ?thesis
      using write_err [OF assms(1-3)] rw assms(4) by auto
  next
    case (Inr u)
    then show ?thesis
      using write_ok [OF assms(1-3)] rw assms(4) div by (simp add: put_sectors_outside)
  qed
qed

end

locale reliable_device = sector_device +
  assumes read_total: "invar w \<Longrightarrow> unat lba + k \<le> cap \<Longrightarrow> k * unat (sio_sector_size io) < 2 ^ 32 \<Longrightarrow>
      is_ok (sio_read_sectors io w lba (k * unat (sio_sector_size io)))"
    and write_total: "invar w \<Longrightarrow> unat lba + k \<le> cap \<Longrightarrow> length bs = k * unat (sio_sector_size io) \<Longrightarrow>
      length bs < 2 ^ 32 \<Longrightarrow> is_ok (fst (sio_write_sectors io w lba bs))"
begin

lemma read_reliable:
  assumes "invar w" "unat lba + k \<le> cap" "k * unat (sio_sector_size io) < 2 ^ 32"
  shows "sio_read_sectors io w lba (k * unat (sio_sector_size io)) =
    Inr (get_sectors (content w) (unat lba) k)"
  using read_total [OF assms] read_ok [OF assms(1,2)] by (auto simp: is_ok_iff)

lemma write_reliable:
  assumes "invar w" "unat lba + k \<le> cap" "length bs = k * unat (sio_sector_size io)" "length bs < 2 ^ 32"
  obtains w' where "sio_write_sectors io w lba bs = (Inr (), w')" "invar w'"
    "content w' = put_sectors (unat (sio_sector_size io)) (unat lba) bs (content w)"
proof -
  obtain w' where w': "sio_write_sectors io w lba bs = (Inr (), w')"
    using write_total [OF assms] by (cases "sio_write_sectors io w lba bs") (auto simp: is_ok_iff)
  show ?thesis
    using that [OF w'] write_ok [OF assms(1-3) w'] by simp
qed

end


text \<open>A stronger constant precondition keeps the contract.\<close>

lemma sector_device_cond:
  assumes "sector_device io (\<lambda>w. b) content cap" "c \<Longrightarrow> b"
  shows "sector_device io (\<lambda>w. c) content cap"
proof (cases c)
  case True
  then show ?thesis using assms by simp
next
  case False
  then show ?thesis
    by (simp add: sector_device_def)
qed

lemma reliable_device_cond:
  assumes "reliable_device io (\<lambda>w. b) content cap" "c \<Longrightarrow> b"
  shows "reliable_device io (\<lambda>w. c) content cap"
proof (cases c)
  case True
  then show ?thesis using assms by simp
next
  case False
  then show ?thesis
    by (simp add: reliable_device_def sector_device_def reliable_device_axioms_def)
qed


section \<open>Byte-addressed transfers\<close>

text \<open>The common frame of the two \<open>run_sync\<close> functions: nothing to do for an empty buffer,
  \<open>lba.checked_mul(sector_size)\<close>, \<open>u32::try_from(len)\<close>, then the transfer.\<close>

definition sync_params :: "u32 \<Rightarrow> u64 \<Rightarrow> nat \<Rightarrow> (u64 \<times> u32) vck_result" where
  "sync_params ss lba len =
     (if unat lba * unat ss \<ge> 2 ^ 64 then Inl (Io ''sector offset overflow'')
      else if len \<ge> 2 ^ 32 then Inl (Io ''I/O length too large'')
      else Inr (lba * ucast ss, of_nat len))"

definition run_sync_read ::
    "u32 \<Rightarrow> ('w \<Rightarrow> u64 \<Rightarrow> u32 \<Rightarrow> bytes vck_result) \<Rightarrow> 'w \<Rightarrow> u64 \<Rightarrow> nat \<Rightarrow> bytes vck_result" where
  "run_sync_read ss rd w lba len =
     (if len = 0 then Inr []
      else res_bind (sync_params ss lba len) (\<lambda>(byte_offset, n). rd w byte_offset n))"

definition run_sync_write ::
    "u32 \<Rightarrow> ('w \<Rightarrow> u64 \<Rightarrow> bytes \<Rightarrow> unit vck_result \<times> 'w) \<Rightarrow> 'w \<Rightarrow> u64 \<Rightarrow> bytes \<Rightarrow> unit vck_result \<times> 'w" where
  "run_sync_write ss wr w lba buf =
     (if length buf = 0 then (Inr (), w)
      else case sync_params ss lba (length buf) of
        Inl e \<Rightarrow> (Inl e, w)
      | Inr (byte_offset, n) \<Rightarrow> wr w byte_offset buf)"

definition byte_sector_io ::
    "u32 \<Rightarrow> u64 \<Rightarrow> ('w \<Rightarrow> u64 \<Rightarrow> u32 \<Rightarrow> bytes vck_result)
      \<Rightarrow> ('w \<Rightarrow> u64 \<Rightarrow> bytes \<Rightarrow> unit vck_result \<times> 'w) \<Rightarrow> 'w sector_io" where
  "byte_sector_io ss tot rd wr =
     \<lparr>sio_sector_size = ss, sio_total_sectors = tot,
      sio_read_sectors = run_sync_read ss rd, sio_write_sectors = run_sync_write ss wr\<rparr>"

definition disk_sector :: "('w \<Rightarrow> nat \<Rightarrow> byte) \<Rightarrow> nat \<Rightarrow> 'w \<Rightarrow> nat \<Rightarrow> bytes" where
  "disk_sector disk ss w i = map (disk w) [i * ss..<(i + 1) * ss]"

lemma length_disk_sector [simp]: "length (disk_sector disk ss w i) = ss"
  by (simp add: disk_sector_def)

lemma get_disk_sectors:
  "get_sectors (disk_sector disk ss w) a k = map (disk w) [a * ss..<(a + k) * ss]"
proof (induction k)
  case (Suc k)
  have "[a * ss..<(a + Suc k) * ss] = [a * ss..<(a + k) * ss] @ [(a + k) * ss..<(a + k + 1) * ss]"
    using upt_add_eq_append [of "a * ss" "(a + k) * ss" ss]
    by (simp add: add_mult_distrib add.assoc add.commute [of ss])
  with Suc show ?case
    by (simp add: get_sectors_def disk_sector_def)
qed (simp add: get_sectors_def)

lemma disk_sector_frame:
  assumes "\<forall>a. a < m * s \<or> m * s + k * s \<le> a \<longrightarrow> disk w' a = disk w a" "i < m \<or> m + k \<le> i"
  shows "disk_sector disk s w' i = disk_sector disk s w i"
  unfolding disk_sector_def
proof (rule map_cong [OF refl])
  fix a assume "a \<in> set [i * s..<(i + 1) * s]"
  then have a: "i * s \<le> a" "a < (i + 1) * s" by auto
  have "a < m * s \<or> m * s + k * s \<le> a"
  proof (cases "i < m")
    case True
    then have "(i + 1) * s \<le> m * s" by (intro mult_le_mono1) simp
    then show ?thesis using a by simp
  next
    case False
    then have "(m + k) * s \<le> i * s" using assms(2) by (intro mult_le_mono1) simp
    then show ?thesis using a by (simp add: add_mult_distrib)
  qed
  then show "disk w' a = disk w a" using assms(1) by blast
qed

lemma disk_sector_write:
  assumes "0 < s" "length bs = k * s"
    "disk w' = (\<lambda>a. if m * s \<le> a \<and> a < m * s + length bs then bs ! (a - m * s) else disk w a)"
  shows "disk_sector disk s w' = put_sectors s m bs (disk_sector disk s w)"
proof
  fix i
  show "disk_sector disk s w' i = put_sectors s m bs (disk_sector disk s w) i"
  proof (cases "m \<le> i \<and> i < m + k")
    case False
    then show ?thesis
      using disk_sector_frame [of m s k disk w' w i] assms by (auto simp: put_sectors_outside)
  next
    case True
    then have "i + 1 \<le> m + k" by simp
    then have le: "m * s \<le> i * s" "(i + 1) * s \<le> (m + k) * s"
      using True by (simp, intro mult_le_mono1)
    have sub: "(i - m) * s = i * s - m * s" "(i - m + 1) * s = (i + 1) * s - m * s"
      using True by (simp_all add: diff_mult_distrib Suc_diff_le)
    have upper: "(i + 1) * s - m * s \<le> length bs"
      using le assms(2) by (simp add: add_mult_distrib)
    have "disk_sector disk s w' i = buf_slice ((i - m) * s) ((i - m + 1) * s) bs"
      unfolding disk_sector_def sub
      using le upper trans_le_add1 [OF le(1)] by (intro nth_equalityI) (auto simp: assms(3) nth_slice)
    then show ?thesis
      using True assms(1,2) by (simp add: put_sectors_def)
  qed
qed

lemma sync_params_in_range:
  assumes "unat ss * unat tot \<le> 2 ^ 63" "unat lba + k \<le> unat tot" "0 < k" "0 < unat ss"
    "sync_params ss lba (k * unat ss) = Inr (off, n)"
  shows "unat off = unat lba * unat ss" "unat n = k * unat ss" "unat off + unat n \<le> 2 ^ 63"
proof -
  have le: "(unat lba + k) * unat ss \<le> 2 ^ 63"
    using assms(1,2) by (metis mult.commute mult_le_mono1 order_trans)
  then have small: "unat lba * unat ss < 2 ^ 64"
    by (simp add: add_mult_distrib)
  from assms(5) have n: "k * unat ss < 2 ^ 32" and off: "off = lba * ucast ss" and n': "n = of_nat (k * unat ss)"
    by (auto simp: sync_params_def split: if_splits)
  show 1: "unat off = unat lba * unat ss"
    using small by (simp add: off unat_word_ariths)
  show 2: "unat n = k * unat ss"
    unfolding n' by (rule unat_of_nat_less) (use n in simp)
  show "unat off + unat n \<le> 2 ^ 63"
    using le by (simp only: 1 2 add_mult_distrib)
qed

locale byte_device =
  fixes ss :: u32 and tot :: u64
    and rd :: "'w \<Rightarrow> u64 \<Rightarrow> u32 \<Rightarrow> bytes vck_result"
    and wr :: "'w \<Rightarrow> u64 \<Rightarrow> bytes \<Rightarrow> unit vck_result \<times> 'w"
    and disk :: "'w \<Rightarrow> nat \<Rightarrow> byte" and ok :: bool
  assumes geometry: "ok \<Longrightarrow> 0 < unat ss \<and> unat ss * unat tot \<le> 2 ^ 63"
    and rd_ok: "ok \<Longrightarrow> unat off + unat n \<le> 2 ^ 63 \<Longrightarrow> rd w off n = Inr bs \<Longrightarrow>
      bs = map (disk w) [unat off..<unat off + unat n]"
    and wr_ok: "ok \<Longrightarrow> unat off + length bs \<le> 2 ^ 63 \<Longrightarrow> wr w off bs = (Inr (), w') \<Longrightarrow>
      disk w' = (\<lambda>a. if unat off \<le> a \<and> a < unat off + length bs then bs ! (a - unat off) else disk w a)"
    and wr_err: "ok \<Longrightarrow> unat off + length bs \<le> 2 ^ 63 \<Longrightarrow> wr w off bs = (Inl e, w') \<Longrightarrow>
      (\<forall>a. a < unat off \<or> unat off + length bs \<le> a \<longrightarrow> disk w' a = disk w a)"
begin

lemma write_cases:
  assumes ok "unat lba + k \<le> unat tot" "length bs = k * unat ss"
    "run_sync_write ss wr w lba bs = (r, w')"
  shows "k = 0 \<and> r = Inr () \<and> w' = w \<or> (\<exists>e. r = Inl e \<and> w' = w) \<or>
    (\<exists>off. unat off = unat lba * unat ss \<and> unat off + length bs \<le> 2 ^ 63 \<and> wr w off bs = (r, w'))"
proof (cases "k = 0")
  case True
  then show ?thesis
    using assms(3,4) by (simp add: run_sync_write_def)
next
  case False
  have g: "0 < unat ss" "unat ss * unat tot \<le> 2 ^ 63"
    using geometry [OF assms(1)] by auto
  show ?thesis
  proof (cases "sync_params ss lba (k * unat ss)")
    case (Inl e)
    then show ?thesis
      using assms(3,4) False g by (auto simp: run_sync_write_def)
  next
    case (Inr p)
    then obtain off n where p: "sync_params ss lba (k * unat ss) = Inr (off, n)"
      by (cases p) simp
    have "wr w off bs = (r, w')"
      using assms(3,4) False g(1) p by (simp add: run_sync_write_def)
    then show ?thesis
      using sync_params_in_range [OF g(2) assms(2) _ g(1) p] False assms(3) by auto
  qed
qed

end

sublocale byte_device \<subseteq> dev: sector_device "byte_sector_io ss tot rd wr" "\<lambda>w. ok"
  "disk_sector disk (unat ss)" "unat tot"
proof (unfold_locales, goal_cases)
  case (1 w)
  then show ?case using u64_lt [of tot] by simp
next
  case (2 w)
  then show ?case using geometry by (simp add: byte_sector_io_def)
next
  case (3 w i)
  then show ?case by (simp add: byte_sector_io_def)
next
  case (4 w lba k bs)
  have g: "0 < unat ss" "unat ss * unat tot \<le> 2 ^ 63"
    using geometry [OF 4(1)] by auto
  show ?case
  proof (cases "k = 0")
    case True
    then show ?thesis
      using 4 by (simp add: byte_sector_io_def run_sync_read_def get_sectors_def)
  next
    case False
    then obtain off n where p: "sync_params ss lba (k * unat ss) = Inr (off, n)" and r: "rd w off n = Inr bs"
      using 4 g by (auto simp: byte_sector_io_def run_sync_read_def res_simps)
    note q = sync_params_in_range [OF g(2) 4(2) _ g(1) p]
    show ?thesis
      using rd_ok [OF 4(1) _ r] q False by (simp add: byte_sector_io_def get_disk_sectors add_mult_distrib)
  qed
next
  case (5 w lba k bs w')
  then have len: "length bs = k * unat ss" and run: "run_sync_write ss wr w lba bs = (Inr (), w')"
    by (simp_all add: byte_sector_io_def)
  show ?case
    using write_cases [OF 5(1,2) len run] wr_ok [OF 5(1)] geometry [OF 5(1)] len 5(1)
      disk_sector_write [of "unat ss" bs k disk w' "unat lba" w]
    by (fastforce simp: byte_sector_io_def put_sectors_def fun_eq_iff)
next
  case (6 w lba k bs e w')
  then have len: "length bs = k * unat ss" and run: "run_sync_write ss wr w lba bs = (Inl e, w')"
    by (simp_all add: byte_sector_io_def)
  show ?case
    using write_cases [OF 6(1,2) len run] wr_err [OF 6(1)] len 6(1)
      disk_sector_frame [of "unat lba" "unat ss" k disk w' w]
    by (fastforce simp: byte_sector_io_def)
qed



section \<open>Shifted devices\<close>

definition offset_sector_io :: "'w sector_io \<Rightarrow> u64 \<Rightarrow> 'w sector_io" where
  "offset_sector_io inner partition_start_lba =
     \<lparr>sio_sector_size = sio_sector_size inner,
      sio_total_sectors = sio_total_sectors inner,
      sio_read_sectors = (\<lambda>w lba n. sio_read_sectors inner w (partition_start_lba + lba) n),
      sio_write_sectors = (\<lambda>w lba buf. sio_write_sectors inner w (partition_start_lba + lba) buf)\<rparr>"

context sector_device
begin

text \<open>Shifting a device gives a device: its sectors are those of the inner one from the
  partition start on, and its capacity is what the inner one has left there.\<close>

lemma offset_device:
  "sector_device (offset_sector_io io start) (\<lambda>w. invar w \<and> unat start \<le> cap)
     (\<lambda>w i. content w (unat start + i)) (cap - unat start)"
proof -
  have shift: "unat (start + lba) = unat start + unat lba" "unat start + unat lba + k \<le> cap"
    if "invar w \<and> unat start \<le> cap" "unat lba + k \<le> cap - unat start" for w lba k
    using that cap_bound [of w] by (auto intro!: unat_add_no_wrap)
  have read_shift: "get_sectors f (unat start + a) k = get_sectors (\<lambda>i. f (unat start + i)) a k"
    for f :: "nat \<Rightarrow> bytes" and a k
    by (induction k) (simp_all add: get_sectors_def add.assoc)
  have put_shift: "put_sectors s (unat start + a) bs f (unat start + i) =
      put_sectors s a bs (\<lambda>i. f (unat start + i)) i" for s a bs f i
    by (simp add: put_sectors_def)
  show ?thesis
  proof (unfold_locales, goal_cases)
    case (1 w)
    then show ?case using cap_bound [of w] by simp
  next
    case (2 w)
    then show ?case using sector_size_pos [of w] by (simp add: offset_sector_io_def)
  next
    case (3 w i)
    then show ?case using content_length [of w] by (simp add: offset_sector_io_def)
  next
    case (4 w lba k bs)
    then show ?case
      using read_ok [of w "start + lba" k bs] shift [OF 4(1,2)]
      by (simp add: offset_sector_io_def read_shift)
  next
    case (5 w lba k bs w')
    then show ?case
      using write_ok [of w "start + lba" k bs w'] shift [OF 5(1,2)]
      by (simp add: offset_sector_io_def put_shift fun_eq_iff)
  next
    case (6 w lba k bs e w')
    then show ?case
      using write_err [of w "start + lba" k bs e w'] shift [OF 6(1,2)]
      by (simp add: offset_sector_io_def)
  qed
qed

end


section \<open>Devices inside a larger world\<close>

text \<open>A device seen by code whose world also holds other state, in the first component.\<close>

definition lift_sector_io :: "'w sector_io \<Rightarrow> ('a \<times> 'w) sector_io" where
  "lift_sector_io io =
     \<lparr>sio_sector_size = sio_sector_size io,
      sio_total_sectors = sio_total_sectors io,
      sio_read_sectors = (\<lambda>cw lba n. sio_read_sectors io (snd cw) lba n),
      sio_write_sectors = (\<lambda>cw lba buf. (case sio_write_sectors io (snd cw) lba buf of (r, w) \<Rightarrow> (r, fst cw, w)))\<rparr>"

context sector_device
begin

lemma lift_device:
  "sector_device (lift_sector_io io :: ('c \<times> 'w) sector_io) (\<lambda>cw. invar (snd cw)) (\<lambda>cw. content (snd cw)) cap"
proof (unfold_locales, goal_cases)
  case (1 cw)
  then show ?case by (rule cap_bound)
next
  case (2 cw)
  then show ?case using sector_size_pos by (simp add: lift_sector_io_def)
next
  case (3 cw i)
  then show ?case using content_length by (simp add: lift_sector_io_def)
next
  case (4 cw lba k bs)
  then show ?case using read_ok by (simp add: lift_sector_io_def)
next
  case (5 cw lba k bs cw')
  then show ?case
    using write_ok [of "snd cw" lba k bs] by (auto simp: lift_sector_io_def split: prod.splits)
next
  case (6 cw lba k bs e cw')
  then show ?case
    using write_err [of "snd cw" lba k bs] by (auto simp: lift_sector_io_def split: prod.splits)
qed

end

context reliable_device
begin

lemma lift_reliable:
  "reliable_device (lift_sector_io io :: ('c \<times> 'a) sector_io) (\<lambda>cw. invar (snd cw)) (\<lambda>cw. content (snd cw)) cap"
proof (rule reliable_device.intro [OF lift_device], unfold_locales, goal_cases)
  case (1 cw lba k)
  then show ?case using read_total by (simp add: lift_sector_io_def)
next
  case (2 cw lba k bs)
  then show ?case using write_total by (simp add: lift_sector_io_def split: prod.split) (metis fst_conv)
qed

end

end
