(* ===== verification/Crypto_Pipeline.thy ===== *)
theory Crypto_Pipeline
  imports Cipher_Spec Sector_Io
begin

text \<open>
  The sector-wise read/write pipeline of \<open>lib/windrv/src/crypto/pipeline.rs\<close>: below the
  encryption boundary sectors are ciphertext on disk, at and above it they are plaintext.

  The abstract view of a partly encrypted volume is \<open>logical_sector\<close>: what a reader of the
  volume is meant to see.  The pipeline computes exactly this view on reads, and a write
  through it changes the view exactly like a write to a plain disk.
\<close>


section \<open>The pipeline of the source\<close>

text \<open>The number of leading sectors of a buffer that lie below the boundary.\<close>

definition crypto_span :: "u64 \<Rightarrow> u64 \<Rightarrow> nat \<Rightarrow> nat" where
  "crypto_span first_rel_sector encrypted_off sectors =
     (if encrypted_off \<le> first_rel_sector then 0
      else min (unat (encrypted_off - first_rel_sector)) sectors)"

definition decrypt_read :: "volume_cipher \<Rightarrow> u64 \<Rightarrow> u64 \<Rightarrow> bytes \<Rightarrow> nat \<Rightarrow> bytes" where
  "decrypt_read c first_rel_sector encrypted_off buf sector_size =
     (let n = crypto_span first_rel_sector encrypted_off (length buf div sector_size)
      in if n > 0
         then vc_decrypt_area c (take (n * sector_size) buf) sector_size first_rel_sector @ drop (n * sector_size) buf
         else buf)"

definition encrypt_write :: "volume_cipher \<Rightarrow> u64 \<Rightarrow> u64 \<Rightarrow> bytes \<Rightarrow> nat \<Rightarrow> bytes" where
  "encrypt_write c first_rel_sector encrypted_off buf sector_size =
     (let n = crypto_span first_rel_sector encrypted_off (length buf div sector_size)
      in if n > 0
         then vc_encrypt_area c (take (n * sector_size) buf) sector_size first_rel_sector @ drop (n * sector_size) buf
         else buf)"


section \<open>The logical view\<close>

definition logical_sector :: "volume_cipher \<Rightarrow> u64 \<Rightarrow> (nat \<Rightarrow> bytes) \<Rightarrow> nat \<Rightarrow> bytes" where
  "logical_sector c boundary raw i =
     (if i < unat boundary then vc_decrypt_sector c (of_nat i) (raw i) else raw i)"

definition physical_sector :: "volume_cipher \<Rightarrow> u64 \<Rightarrow> nat \<Rightarrow> bytes \<Rightarrow> bytes" where
  "physical_sector c boundary i s =
     (if i < unat boundary then vc_encrypt_sector c (of_nat i) s else s)"

lemma crypto_span_iff:
  "i < sectors \<Longrightarrow> i < crypto_span first b sectors \<longleftrightarrow> unat first + i < unat b"
  by (auto simp: crypto_span_def word_le_unat unat_sub_no_wrap)

lemma crypto_span_le: "crypto_span first b sectors \<le> sectors"
  by (simp add: crypto_span_def)

lemma chunks_append_exact:
  assumes "0 < ss" "length xs = n * ss"
  shows "chunks ss (xs @ ys) = chunks ss xs @ chunks ss ys"
  using assms(2)
proof (induction n arbitrary: xs)
  case (Suc n)
  have x: "length (take ss xs) = ss"
    using Suc.prems by simp
  have "chunks ss (xs @ ys) = take ss xs # chunks ss (drop ss xs @ ys)"
    using chunks_append_one [OF assms(1) x, of "drop ss xs @ ys"] by (simp flip: append_assoc)
  moreover have "chunks ss xs = take ss xs # chunks ss (drop ss xs)"
    using chunks_append_one [OF assms(1) x, of "drop ss xs"] by simp
  ultimately show ?case
    using Suc.IH [of "drop ss xs"] Suc.prems by simp
qed simp

lemma nth_chunks_head:
  assumes "0 < ss" "length buf = k * ss" "n \<le> k" "i < k"
  shows "chunks ss buf ! i = (if i < n then chunks ss (take (n * ss) buf) ! i
    else chunks ss (drop (n * ss) buf) ! (i - n))"
proof -
  have len: "length (take (n * ss) buf) = n * ss"
    using assms by simp
  have "chunks ss buf = chunks ss (take (n * ss) buf) @ chunks ss (drop (n * ss) buf)"
    using chunks_append_exact [OF assms(1) len, of "drop (n * ss) buf"] by simp
  then show ?thesis
    using length_chunks_exact [OF assms(1) len] by (simp add: nth_append)
qed

text \<open>The common shape of the two functions, for an area operation that acts sector by sector.\<close>

lemma span_area_chunks:
  fixes area :: "bytes \<Rightarrow> nat \<Rightarrow> u64 \<Rightarrow> bytes"
  assumes "0 < ss" "length buf = k * ss" "i < k"
    and area: "\<And>buf k first. length buf = k * ss \<Longrightarrow> length (area buf ss first) = length buf"
      "\<And>buf k first i. length buf = k * ss \<Longrightarrow> i < k \<Longrightarrow>
        chunks ss (area buf ss first) ! i = op1 (first + of_nat i) (chunks ss buf ! i)"
    and n: "n = crypto_span first b k"
  shows "chunks ss (if n > 0 then area (take (n * ss) buf) ss first @ drop (n * ss) buf else buf) ! i =
    (if unat first + i < unat b then op1 (first + of_nat i) (chunks ss buf ! i) else chunks ss buf ! i)"
proof -
  have nk: "n \<le> k" and iff: "i < n \<longleftrightarrow> unat first + i < unat b"
    using crypto_span_le crypto_span_iff [OF assms(3)] by (simp_all add: n)
  have len: "length (take (n * ss) buf) = n * ss"
    using assms(1,2) nk by simp
  let ?a = "area (take (n * ss) buf) ss first"
  have la: "length ?a = n * ss"
    using area(1) [OF len] len by simp
  have "chunks ss (?a @ drop (n * ss) buf) = chunks ss ?a @ chunks ss (drop (n * ss) buf)"
    by (rule chunks_append_exact [OF assms(1) la])
  then have "chunks ss (?a @ drop (n * ss) buf) ! i =
      (if i < n then op1 (first + of_nat i) (chunks ss buf ! i) else chunks ss buf ! i)"
    using length_chunks_exact [OF assms(1) la] area(2) [OF len] nth_chunks_head [OF assms(1,2) nk assms(3)]
    by (simp add: nth_append)
  then show ?thesis
    using iff by auto
qed

context volume_cipher_spec
begin

lemma decrypt_read_chunks:
  assumes ok "0 < ss" "length buf = k * ss" "i < k"
  shows "chunks ss (decrypt_read c first b buf ss) ! i =
    (if unat first + i < unat b then vc_decrypt_sector c (first + of_nat i) (chunks ss buf ! i) else chunks ss buf ! i)"
  unfolding decrypt_read_def Let_def
  using assms(2,3)
  by (intro span_area_chunks [OF assms(2-4)])
    (simp_all add: area_lengths [OF assms(1,2)] nth_chunks_dec_area [OF assms(1,2)])

lemma encrypt_write_chunks:
  assumes ok "0 < ss" "length buf = k * ss" "i < k"
  shows "chunks ss (encrypt_write c first b buf ss) ! i =
    (if unat first + i < unat b then vc_encrypt_sector c (first + of_nat i) (chunks ss buf ! i) else chunks ss buf ! i)"
  unfolding encrypt_write_def Let_def
  using assms(2,3)
  by (intro span_area_chunks [OF assms(2-4)])
    (simp_all add: area_lengths [OF assms(1,2)] nth_chunks_enc_area [OF assms(1,2)])

lemma pipeline_lengths:
  assumes ok "0 < ss" "length buf = k * ss"
  shows "length (decrypt_read c first b buf ss) = k * ss" "length (encrypt_write c first b buf ss) = k * ss"
proof -
  have "crypto_span first b k * ss \<le> k * ss"
    by (intro mult_le_mono1 crypto_span_le)
  then show "length (decrypt_read c first b buf ss) = k * ss" "length (encrypt_write c first b buf ss) = k * ss"
    using assms by (simp_all add: decrypt_read_def encrypt_write_def Let_def area_lengths)
qed

lemma logical_physical:
  "ok \<Longrightarrow> (if i < unat b then vc_decrypt_sector c (of_nat i) (physical_sector c b i s) else physical_sector c b i s) = s"
  by (simp add: physical_sector_def dec_enc)

text \<open>Reading a run of raw sectors and passing it through the pipeline gives the logical
  sectors.\<close>

lemma read_logical:
  assumes ok "0 < ss" "\<And>i. length (raw i) = ss" "unat first + k < 2 ^ 64"
  shows "decrypt_read c first b (get_sectors raw (unat first) k) ss =
    get_sectors (logical_sector c b raw) (unat first) k"
proof -
  let ?buf = "get_sectors raw (unat first) k"
  have len: "length ?buf = k * ss"
    using assms(3) by (intro length_get_sectors) simp
  have chunks_buf: "chunks ss ?buf = map raw [unat first..<unat first + k]"
    by (rule chunks_get_sectors [OF assms(2,3)])
  have "chunks ss (decrypt_read c first b ?buf ss) = map (logical_sector c b raw) [unat first..<unat first + k]"
  proof (rule nth_equalityI)
    show "length (chunks ss (decrypt_read c first b ?buf ss)) = length (map (logical_sector c b raw) [unat first..<unat first + k])"
      using length_chunks_exact [OF assms(2) pipeline_lengths(1) [OF assms(1,2) len]] by simp
    fix i assume "i < length (chunks ss (decrypt_read c first b ?buf ss))"
    then have i: "i < k"
      using length_chunks_exact [OF assms(2) pipeline_lengths(1) [OF assms(1,2) len]] by simp
    have f: "first + of_nat i = of_nat (unat first + i)"
      by simp
    show "chunks ss (decrypt_read c first b ?buf ss) ! i = map (logical_sector c b raw) [unat first..<unat first + k] ! i"
      unfolding decrypt_read_chunks [OF assms(1,2) len i]
      using i by (simp add: chunks_buf logical_sector_def)
  qed
  then show ?thesis
    unfolding get_sectors_def [of "logical_sector c b raw"]
    using concat_chunks [OF assms(2)] by metis
qed

text \<open>Writing the pipeline's output to the raw sectors changes the logical view like a plain
  write.\<close>

lemma write_logical:
  assumes ok "0 < ss" "length buf = k * ss" "unat first + k < 2 ^ 64"
  shows "logical_sector c b (put_sectors ss (unat first) (encrypt_write c first b buf ss) raw) =
    put_sectors ss (unat first) buf (logical_sector c b raw)"
proof
  fix j
  have len: "length (encrypt_write c first b buf ss) = k * ss"
    by (rule pipeline_lengths(2) [OF assms(1-3)])
  have div: "length (encrypt_write c first b buf ss) div ss = k" "length buf div ss = k"
    using len assms(2,3) by simp_all
  show "logical_sector c b (put_sectors ss (unat first) (encrypt_write c first b buf ss) raw) j =
      put_sectors ss (unat first) buf (logical_sector c b raw) j"
  proof (cases "unat first \<le> j \<and> j < unat first + k")
    case False
    then have "j < unat first \<or> unat first + k \<le> j" by linarith
    then show ?thesis
      using div by (simp add: put_sectors_outside logical_sector_def)
  next
    case True
    then obtain i where i: "j = unat first + i" "i < k"
      by (metis add_less_cancel_left le_Suc_ex)
    have f: "first + of_nat i = of_nat j"
      using i by simp
    show ?thesis
      unfolding i(1) logical_sector_def put_sectors_chunk [OF assms(2) len i(2)]
        put_sectors_chunk [OF assms(2,3) i(2)] encrypt_write_chunks [OF assms(1-3) i(2)]
      using f i(1) by (simp add: dec_enc [OF assms(1)])
  qed
qed

end

end
