(* ===== verification/Jvck_Metadata.thy ===== *)
theory Jvck_Metadata
  imports Vck_Common
begin

text \<open>
  The 512-byte JVCK metadata block of \<open>lib/common/src/jvck/metadata.rs\<close>: key derivation,
  parsing and encoding of the plaintext header, sealing and opening of the encrypted
  payload.

  HKDF, AES-CBC, HMAC and CRC32 come from third-party crates and are parameters, the
  record \<open>jvck_crypto\<close>; \<open>crypto_ok\<close> states what the code relies on (output lengths,
  accepted key lengths, CBC decryption inverts CBC encryption of whole blocks).

  The results: an encoded block parses back to the same header and opens to the same
  offset, direction and keys; a block whose authentication tag does not match is refused
  before anything of it is used; each malformed block gives the error the code documents.
\<close>


section \<open>Constants\<close>

definition JVCK_SIGNATURE :: bytes where "JVCK_SIGNATURE = [0x4A, 0x56, 0x43, 0x4B]"
definition METADATA_BLOCK_SIZE :: nat where "METADATA_BLOCK_SIZE = 512"
definition ENCRYPTED_METADATA_SIZE :: nat where "ENCRYPTED_METADATA_SIZE = 128"
definition HMAC_SIZE :: nat where "HMAC_SIZE = 32"
definition SALT_SIZE :: nat where "SALT_SIZE = 16"
definition VENDOR_RESERVED_SIZE :: nat where "VENDOR_RESERVED_SIZE = 192"

definition INFO_MAC :: bytes where "INFO_MAC = ascii ''EncryptedMetadata:MAC''"
definition INFO_ENC :: bytes where "INFO_ENC = ascii ''EncryptedMetadata:ENC''"
definition INFO_IV :: bytes where "INFO_IV = ascii ''EncryptedMetadata:IV''"

definition EM_OFF_SIGNATURE :: nat where "EM_OFF_SIGNATURE = 0"
definition EM_OFF_MUST_ZERO :: nat where "EM_OFF_MUST_ZERO = 4"
definition EM_OFF_ENCRYPTED_OFFSET :: nat where "EM_OFF_ENCRYPTED_OFFSET = 16"
definition EM_OFF_STATE :: nat where "EM_OFF_STATE = 24"
definition EM_OFF_FVEK_KEY1 :: nat where "EM_OFF_FVEK_KEY1 = 32"
definition EM_OFF_FVEK_KEY2 :: nat where "EM_OFF_FVEK_KEY2 = 64"

definition OFF_SIGNATURE :: nat where "OFF_SIGNATURE = 0"
definition OFF_VENDOR_ID :: nat where "OFF_VENDOR_ID = 4"
definition OFF_METADATA_VERSION :: nat where "OFF_METADATA_VERSION = 12"
definition OFF_VENDOR_VERSION :: nat where "OFF_VENDOR_VERSION = 14"
definition OFF_METADATA_SIZE :: nat where "OFF_METADATA_SIZE = 16"
definition OFF_SECTOR_SIZE :: nat where "OFF_SECTOR_SIZE = 20"
definition OFF_HEADER_COUNT :: nat where "OFF_HEADER_COUNT = 24"
definition OFF_FOOTER_COUNT :: nat where "OFF_FOOTER_COUNT = 25"
definition OFF_VOLUME_ID :: nat where "OFF_VOLUME_ID = 32"
definition OFF_SALT :: nat where "OFF_SALT = 48"
definition OFF_ENCRYPTED_METADATA :: nat where "OFF_ENCRYPTED_METADATA = 64"
definition OFF_HMAC :: nat where "OFF_HMAC = 192"
definition OFF_VENDOR_RESERVED :: nat where "OFF_VENDOR_RESERVED = 304"
definition OFF_CRC32 :: nat where "OFF_CRC32 = 508"
definition CRC_COVERAGE_END :: nat where "CRC_COVERAGE_END = 508"

lemmas jvck_sizes = METADATA_BLOCK_SIZE_def ENCRYPTED_METADATA_SIZE_def HMAC_SIZE_def SALT_SIZE_def
  VENDOR_RESERVED_SIZE_def
lemmas em_offsets = EM_OFF_SIGNATURE_def EM_OFF_MUST_ZERO_def EM_OFF_ENCRYPTED_OFFSET_def EM_OFF_STATE_def
  EM_OFF_FVEK_KEY1_def EM_OFF_FVEK_KEY2_def
lemmas block_offsets = OFF_SIGNATURE_def OFF_VENDOR_ID_def OFF_METADATA_VERSION_def OFF_VENDOR_VERSION_def
  OFF_METADATA_SIZE_def OFF_SECTOR_SIZE_def OFF_HEADER_COUNT_def OFF_FOOTER_COUNT_def OFF_VOLUME_ID_def
  OFF_SALT_def OFF_ENCRYPTED_METADATA_def OFF_HMAC_def OFF_VENDOR_RESERVED_def OFF_CRC32_def
  CRC_COVERAGE_END_def
lemmas jvck_layout = jvck_sizes em_offsets block_offsets


section \<open>The cryptographic crates\<close>

record jvck_crypto =
  hkdf_expand :: "bytes \<Rightarrow> bytes \<Rightarrow> bytes \<Rightarrow> nat \<Rightarrow> bytes"
  cbc_key_iv_ok :: "bytes \<Rightarrow> bytes \<Rightarrow> bool"
  cbc_encrypt :: "bytes \<Rightarrow> bytes \<Rightarrow> bytes \<Rightarrow> bytes option"
  cbc_decrypt :: "bytes \<Rightarrow> bytes \<Rightarrow> bytes \<Rightarrow> bytes option"
  hmac_key_ok :: "bytes \<Rightarrow> bool"
  hmac_sha256 :: "bytes \<Rightarrow> bytes \<Rightarrow> bytes"
  crc32 :: "bytes \<Rightarrow> u32"

definition crypto_ok :: "jvck_crypto \<Rightarrow> bool" where
  "crypto_ok C \<longleftrightarrow>
     (\<forall>salt ikm info n. length (hkdf_expand C salt ikm info n) = n) \<and>
     (\<forall>key iv. length key = 32 \<and> length iv = 16 \<longrightarrow> cbc_key_iv_ok C key iv) \<and>
     (\<forall>key. hmac_key_ok C key) \<and>
     (\<forall>key m. length (hmac_sha256 C key m) = 32) \<and>
     (\<forall>key iv p. 16 dvd length p \<longrightarrow>
        (\<exists>e. cbc_encrypt C key iv p = Some e \<and> length e = length p \<and> cbc_decrypt C key iv e = Some p))"

lemma crypto_okD:
  assumes "crypto_ok C"
  shows "length (hkdf_expand C salt ikm info n) = n"
    and "length key = 32 \<Longrightarrow> length iv = 16 \<Longrightarrow> cbc_key_iv_ok C key iv"
    and "hmac_key_ok C key"
    and "length (hmac_sha256 C key m) = 32"
    and "16 dvd length p \<Longrightarrow>
      \<exists>e. cbc_encrypt C key iv p = Some e \<and> length e = length p \<and> cbc_decrypt C key iv e = Some p"
  using assms by (auto simp: crypto_ok_def)


section \<open>Header, secrets and key derivation\<close>

record derived_keys =
  mac_key :: bytes
  enc_key :: bytes
  enc_iv :: bytes

definition derive_keys :: "jvck_crypto \<Rightarrow> bytes \<Rightarrow> bytes \<Rightarrow> bytes \<Rightarrow> derived_keys" where
  "derive_keys C volume_id salt vmk =
     (let hkdf_salt = volume_id @ salt
      in \<lparr>mac_key = hkdf_expand C hkdf_salt vmk INFO_MAC 32,
          enc_key = hkdf_expand C hkdf_salt vmk INFO_ENC 32,
          enc_iv = hkdf_expand C hkdf_salt vmk INFO_IV 16\<rparr>)"

record jvck_header =
  jh_vendor_id :: u64
  jh_metadata_version :: u16
  jh_vendor_version :: u16
  jh_metadata_size :: u32
  jh_sector_size :: u32
  jh_header_replica_count :: byte
  jh_footer_replica_count :: byte
  jh_volume_id :: bytes
  jh_vendor_reserved :: bytes

record jvck_secrets =
  fvek_key1 :: bytes
  fvek_key2 :: bytes

text \<open>The array types of the source, as well-formedness.\<close>

definition wf_header :: "jvck_header \<Rightarrow> bool" where
  "wf_header h \<longleftrightarrow> length (jh_volume_id h) = 16 \<and> length (jh_vendor_reserved h) = VENDOR_RESERVED_SIZE"

definition wf_secrets :: "jvck_secrets \<Rightarrow> bool" where
  "wf_secrets s \<longleftrightarrow> length (fvek_key1 s) = 32 \<and> length (fvek_key2 s) = 32"

definition le_u16 :: "bytes \<Rightarrow> nat \<Rightarrow> u16" where
  "le_u16 block off = of_le_bytes (buf_slice off (off + 2) block)"

definition le_u32 :: "bytes \<Rightarrow> nat \<Rightarrow> u32" where
  "le_u32 block off = of_le_bytes (buf_slice off (off + 4) block)"

definition le_u64 :: "bytes \<Rightarrow> nat \<Rightarrow> u64" where
  "le_u64 block off = of_le_bytes (buf_slice off (off + 8) block)"

definition verify_crc :: "jvck_crypto \<Rightarrow> bytes \<Rightarrow> unit vck_result" where
  "verify_crc C block =
     (if length block < METADATA_BLOCK_SIZE then Inl (SizeMismatch METADATA_BLOCK_SIZE (length block))
      else if buf_slice OFF_SIGNATURE (OFF_SIGNATURE + 4) block \<noteq> JVCK_SIGNATURE then Inl SignatureMismatch
      else let stored = le_u32 block OFF_CRC32
           in if crc32 C (buf_slice 0 CRC_COVERAGE_END block) \<noteq> stored then Inl ChecksumMismatch
              else Inr ())"

definition parse_header :: "jvck_crypto \<Rightarrow> bytes \<Rightarrow> jvck_header vck_result" where
  "parse_header C blk =
     res_bind (verify_crc C blk) (\<lambda>_.
     let block = buf_slice 0 METADATA_BLOCK_SIZE blk
     in Inr \<lparr>jh_vendor_id = le_u64 block OFF_VENDOR_ID,
             jh_metadata_version = le_u16 block OFF_METADATA_VERSION,
             jh_vendor_version = le_u16 block OFF_VENDOR_VERSION,
             jh_metadata_size = le_u32 block OFF_METADATA_SIZE,
             jh_sector_size = le_u32 block OFF_SECTOR_SIZE,
             jh_header_replica_count = block ! OFF_HEADER_COUNT,
             jh_footer_replica_count = block ! OFF_FOOTER_COUNT,
             jh_volume_id = buf_slice OFF_VOLUME_ID (OFF_VOLUME_ID + 16) block,
             jh_vendor_reserved = buf_slice OFF_VENDOR_RESERVED (OFF_VENDOR_RESERVED + VENDOR_RESERVED_SIZE) block\<rparr>)"

text \<open>The plaintext part of \<open>encode\<close>, the 128-byte inner plaintext, and the whole.\<close>

definition header_fields :: "jvck_header \<Rightarrow> bytes \<Rightarrow> (nat \<times> bytes) list" where
  "header_fields h salt =
     [(OFF_SIGNATURE, JVCK_SIGNATURE),
      (OFF_VENDOR_ID, le_bytes 8 (jh_vendor_id h)),
      (OFF_METADATA_VERSION, le_bytes 2 (jh_metadata_version h)),
      (OFF_VENDOR_VERSION, le_bytes 2 (jh_vendor_version h)),
      (OFF_METADATA_SIZE, le_bytes 4 (jh_metadata_size h)),
      (OFF_SECTOR_SIZE, le_bytes 4 (jh_sector_size h)),
      (OFF_HEADER_COUNT, [jh_header_replica_count h]),
      (OFF_FOOTER_COUNT, [jh_footer_replica_count h]),
      (OFF_VOLUME_ID, jh_volume_id h),
      (OFF_SALT, salt),
      (OFF_VENDOR_RESERVED, jh_vendor_reserved h)]"

definition payload_fields :: "jvck_secrets \<Rightarrow> u64 \<Rightarrow> volume_state \<Rightarrow> (nat \<times> bytes) list" where
  "payload_fields secrets encrypted_off state =
     [(EM_OFF_SIGNATURE, JVCK_SIGNATURE),
      (EM_OFF_ENCRYPTED_OFFSET, le_bytes 8 encrypted_off),
      (EM_OFF_STATE, le_bytes 2 (as_u16 state)),
      (EM_OFF_FVEK_KEY1, fvek_key1 secrets),
      (EM_OFF_FVEK_KEY2, fvek_key2 secrets)]"

definition encode_block ::
    "jvck_crypto \<Rightarrow> jvck_header \<Rightarrow> jvck_secrets \<Rightarrow> u64 \<Rightarrow> volume_state \<Rightarrow> bytes \<Rightarrow> bytes \<Rightarrow> bytes vck_result" where
  "encode_block C h secrets encrypted_off state salt vmk =
     (let out = write_fields (header_fields h salt) (replicate METADATA_BLOCK_SIZE 0);
          plain = write_fields (payload_fields secrets encrypted_off state)
            (replicate ENCRYPTED_METADATA_SIZE 0);
          keys = derive_keys C (jh_volume_id h) salt vmk
      in if \<not> cbc_key_iv_ok C (enc_key keys) (enc_iv keys)
         then Inl (CryptoFailed ''invalid ENC key/iv length'')
         else case cbc_encrypt C (enc_key keys) (enc_iv keys) plain of
           None \<Rightarrow> Inl (CryptoFailed ''EncryptedMetadata CBC encrypt failed'')
         | Some enc \<Rightarrow>
             if \<not> hmac_key_ok C (mac_key keys) then Inl (CryptoFailed ''invalid HMAC key length'')
             else let out = buf_write OFF_ENCRYPTED_METADATA enc out;
                      tag = hmac_sha256 C (mac_key keys)
                        (buf_slice OFF_ENCRYPTED_METADATA (OFF_ENCRYPTED_METADATA + ENCRYPTED_METADATA_SIZE) out);
                      out = buf_write OFF_HMAC tag out;
                      crc = crc32 C (buf_slice 0 CRC_COVERAGE_END out)
                  in Inr (buf_write OFF_CRC32 (le_bytes 4 crc) out))"

definition decrypt_payload ::
    "jvck_crypto \<Rightarrow> bytes \<Rightarrow> bytes \<Rightarrow> (u64 \<times> volume_state \<times> jvck_secrets) vck_result" where
  "decrypt_payload C blk vmk =
     res_bind (verify_crc C blk) (\<lambda>_.
     let block = buf_slice 0 METADATA_BLOCK_SIZE blk;
         volume_id = buf_slice OFF_VOLUME_ID (OFF_VOLUME_ID + 16) block;
         salt = buf_slice OFF_SALT (OFF_SALT + SALT_SIZE) block;
         keys = derive_keys C volume_id salt vmk;
         enc = buf_slice OFF_ENCRYPTED_METADATA (OFF_ENCRYPTED_METADATA + ENCRYPTED_METADATA_SIZE) block;
         stored_hmac = buf_slice OFF_HMAC (OFF_HMAC + HMAC_SIZE) block
     in if \<not> hmac_key_ok C (mac_key keys) then Inl (CryptoFailed ''invalid HMAC key length'')
        else if hmac_sha256 C (mac_key keys) enc \<noteq> stored_hmac
        then Inl (ValidationFailed ''EncryptedMetadata HMAC mismatch'')
        else if \<not> cbc_key_iv_ok C (enc_key keys) (enc_iv keys)
        then Inl (CryptoFailed ''invalid ENC key/iv length'')
        else case cbc_decrypt C (enc_key keys) (enc_iv keys) enc of
          None \<Rightarrow> Inl (CryptoFailed ''EncryptedMetadata CBC decrypt failed'')
        | Some plain \<Rightarrow>
            if buf_slice EM_OFF_SIGNATURE (EM_OFF_SIGNATURE + 4) plain \<noteq> JVCK_SIGNATURE
            then Inl (ValidationFailed ''inner JVCK signature mismatch'')
            else if buf_slice EM_OFF_MUST_ZERO (EM_OFF_MUST_ZERO + 12) plain \<noteq> replicate 12 0
            then Inl (ValidationFailed ''inner must-zero field not zero'')
            else Inr (le_u64 plain EM_OFF_ENCRYPTED_OFFSET,
                      from_u16 (le_u16 plain EM_OFF_STATE),
                      \<lparr>fvek_key1 = buf_slice EM_OFF_FVEK_KEY1 (EM_OFF_FVEK_KEY1 + 32) plain,
                       fvek_key2 = buf_slice EM_OFF_FVEK_KEY2 (EM_OFF_FVEK_KEY2 + 32) plain\<rparr>))"

definition read_encrypted_offset :: "jvck_crypto \<Rightarrow> bytes \<Rightarrow> bytes \<Rightarrow> u64 vck_result" where
  "read_encrypted_offset C block vmk = res_map fst (decrypt_payload C block vmk)"

definition volume_guid :: "jvck_header \<Rightarrow> guid" where
  "volume_guid h = jh_volume_id h"



section \<open>Round trip\<close>

definition block_fields :: "jvck_header \<Rightarrow> bytes \<Rightarrow> bytes \<Rightarrow> bytes \<Rightarrow> u32 \<Rightarrow> (nat \<times> bytes) list" where
  "block_fields h salt enc tag crc = header_fields h salt @
     [(OFF_ENCRYPTED_METADATA, enc), (OFF_HMAC, tag), (OFF_CRC32, le_bytes 4 crc)]"

lemma length_derived_keys:
  assumes "crypto_ok C"
  shows "length (mac_key (derive_keys C v salt vmk)) = 32"
    "length (enc_key (derive_keys C v salt vmk)) = 32"
    "length (enc_iv (derive_keys C v salt vmk)) = 16"
  using assms by (simp_all add: derive_keys_def Let_def crypto_okD)

lemma header_fields_wf:
  assumes "wf_header h" "length salt = SALT_SIZE"
  shows "fields_within METADATA_BLOCK_SIZE (header_fields h salt)" "fields_disjoint (header_fields h salt)"
  using assms
  by (simp_all add: header_fields_def fields_within_def wf_header_def jvck_layout JVCK_SIGNATURE_def)

lemma block_fields_wf:
  assumes "wf_header h" "length salt = SALT_SIZE" "length enc = ENCRYPTED_METADATA_SIZE" "length tag = HMAC_SIZE"
  shows "fields_within METADATA_BLOCK_SIZE (block_fields h salt enc tag crc)"
    "fields_disjoint (block_fields h salt enc tag crc)"
  using assms
  by (simp_all add: block_fields_def header_fields_def fields_within_def wf_header_def jvck_layout
      JVCK_SIGNATURE_def)

lemma payload_fields_wf:
  assumes "wf_secrets s"
  shows "fields_within ENCRYPTED_METADATA_SIZE (payload_fields s off st)"
    "fields_disjoint (payload_fields s off st)"
  using assms
  by (simp_all add: payload_fields_def fields_within_def wf_secrets_def jvck_layout JVCK_SIGNATURE_def)

lemma write_fields_append: "write_fields (fs @ gs) xs = write_fields gs (write_fields fs xs)"
  by (simp add: write_fields_def)

text \<open>The shape of an encoded block: the header fields, the ciphertext, the tag over it and
  the checksum of everything before the checksum.\<close>

definition sealed_block :: "jvck_crypto \<Rightarrow> jvck_header \<Rightarrow> bytes \<Rightarrow> bytes \<Rightarrow> bytes \<Rightarrow> bytes" where
  "sealed_block C h salt enc vmk =
     (let tag = hmac_sha256 C (mac_key (derive_keys C (jh_volume_id h) salt vmk)) enc;
          body = write_fields (header_fields h salt @ [(OFF_ENCRYPTED_METADATA, enc), (OFF_HMAC, tag)])
            (replicate METADATA_BLOCK_SIZE 0)
      in write_fields (block_fields h salt enc tag (crc32 C (buf_slice 0 CRC_COVERAGE_END body)))
           (replicate METADATA_BLOCK_SIZE 0))"

lemma encode_block_sealed:
  assumes "crypto_ok C" "wf_header h" "wf_secrets s" "length salt = SALT_SIZE"
  obtains enc where
    "cbc_encrypt C (enc_key (derive_keys C (jh_volume_id h) salt vmk))
       (enc_iv (derive_keys C (jh_volume_id h) salt vmk))
       (write_fields (payload_fields s off st) (replicate ENCRYPTED_METADATA_SIZE 0)) = Some enc"
    "cbc_decrypt C (enc_key (derive_keys C (jh_volume_id h) salt vmk))
       (enc_iv (derive_keys C (jh_volume_id h) salt vmk)) enc =
       Some (write_fields (payload_fields s off st) (replicate ENCRYPTED_METADATA_SIZE 0))"
    "length enc = ENCRYPTED_METADATA_SIZE"
    "encode_block C h s off st salt vmk = Inr (sealed_block C h salt enc vmk)"
proof -
  let ?k = "derive_keys C (jh_volume_id h) salt vmk"
  let ?plain = "write_fields (payload_fields s off st) (replicate ENCRYPTED_METADATA_SIZE 0)"
  have lp: "length ?plain = ENCRYPTED_METADATA_SIZE"
    using payload_fields_wf(1) [OF assms(3)] by simp
  then have "16 dvd length ?plain"
    by (simp add: ENCRYPTED_METADATA_SIZE_def)
  then obtain enc where enc: "cbc_encrypt C (enc_key ?k) (enc_iv ?k) ?plain = Some enc"
    "length enc = length ?plain" "cbc_decrypt C (enc_key ?k) (enc_iv ?k) enc = Some ?plain"
    using crypto_okD(5) [OF assms(1)] by blast
  have "buf_slice OFF_ENCRYPTED_METADATA (OFF_ENCRYPTED_METADATA + ENCRYPTED_METADATA_SIZE)
      (buf_write OFF_ENCRYPTED_METADATA enc (write_fields (header_fields h salt) (replicate METADATA_BLOCK_SIZE 0)))
    = enc"
    using header_fields_wf(1) [OF assms(2,4)] enc(2) lp
    by (intro slice_write_same) (simp_all add: jvck_layout)
  then have "encode_block C h s off st salt vmk = Inr (sealed_block C h salt enc vmk)"
    using enc(1) crypto_okD(2,3) [OF assms(1)] length_derived_keys [OF assms(1)]
    by (simp add: encode_block_def sealed_block_def block_fields_def Let_def write_fields_append
        write_fields_simps)
  then show ?thesis
    using that enc lp by simp
qed

lemma length_sealed_block:
  assumes "crypto_ok C" "wf_header h" "length salt = SALT_SIZE" "length enc = ENCRYPTED_METADATA_SIZE"
  shows "length (sealed_block C h salt enc vmk) = METADATA_BLOCK_SIZE"
  using block_fields_wf(1) [OF assms(2,3,4)] crypto_okD(4) [OF assms(1)]
  by (simp add: sealed_block_def Let_def HMAC_SIZE_def)

lemma sealed_block_field:
  assumes "crypto_ok C" "wf_header h" "length salt = SALT_SIZE" "length enc = ENCRYPTED_METADATA_SIZE"
    "(lo, b) \<in> set (header_fields h salt @ [(OFF_ENCRYPTED_METADATA, enc),
      (OFF_HMAC, hmac_sha256 C (mac_key (derive_keys C (jh_volume_id h) salt vmk)) enc)])"
    "hi = lo + length b"
  shows "buf_slice lo hi (sealed_block C h salt enc vmk) = b"
  unfolding sealed_block_def Let_def
proof (rule slice_write_fields)
  show "(lo, b) \<in> set (block_fields h salt enc (hmac_sha256 C (mac_key (derive_keys C (jh_volume_id h) salt vmk)) enc)
     (crc32 C (buf_slice 0 CRC_COVERAGE_END (write_fields (header_fields h salt @
        [(OFF_ENCRYPTED_METADATA, enc), (OFF_HMAC, hmac_sha256 C (mac_key (derive_keys C (jh_volume_id h) salt vmk)) enc)])
        (replicate METADATA_BLOCK_SIZE 0)))))"
    using assms(5) by (auto simp: block_fields_def)
qed (use assms(6) block_fields_wf [OF assms(2,3,4)] crypto_okD(4) [OF assms(1)] in \<open>simp_all add: HMAC_SIZE_def\<close>)

lemma sealed_block_verifies:
  assumes "crypto_ok C" "wf_header h" "length salt = SALT_SIZE" "length enc = ENCRYPTED_METADATA_SIZE"
  shows "verify_crc C (sealed_block C h salt enc vmk) = Inr ()"
proof -
  let ?tag = "hmac_sha256 C (mac_key (derive_keys C (jh_volume_id h) salt vmk)) enc"
  let ?body = "write_fields (header_fields h salt @ [(OFF_ENCRYPTED_METADATA, enc), (OFF_HMAC, ?tag)])
    (replicate METADATA_BLOCK_SIZE 0)"
  let ?crc = "crc32 C (buf_slice 0 CRC_COVERAGE_END ?body)"
  note wf = block_fields_wf [OF assms(2,3,4), of ?tag ?crc]
  have tag: "length ?tag = HMAC_SIZE"
    by (simp add: crypto_okD [OF assms(1)] HMAC_SIZE_def)
  have sealed: "sealed_block C h salt enc vmk = buf_write OFF_CRC32 (le_bytes 4 ?crc) ?body"
    by (simp add: sealed_block_def block_fields_def Let_def write_fields_append write_fields_simps)
  have body: "length ?body = METADATA_BLOCK_SIZE"
    using wf(1) tag by (intro trans [OF length_write_fields]) (simp_all add: block_fields_def fields_within_def)
  have sig: "buf_slice OFF_SIGNATURE (OFF_SIGNATURE + 4) (sealed_block C h salt enc vmk) = JVCK_SIGNATURE"
    by (rule sealed_block_field [OF assms]) (simp_all add: header_fields_def JVCK_SIGNATURE_def)
  have cov: "buf_slice 0 CRC_COVERAGE_END (sealed_block C h salt enc vmk) = buf_slice 0 CRC_COVERAGE_END ?body"
    unfolding sealed using body by (intro slice_write_before) (simp_all add: jvck_layout)
  have "buf_slice OFF_CRC32 (OFF_CRC32 + 4) (sealed_block C h salt enc vmk) = le_bytes 4 ?crc"
    unfolding sealed using body by (intro slice_write_same) (simp_all add: jvck_layout)
  then have "le_u32 (sealed_block C h salt enc vmk) OFF_CRC32 = ?crc"
    by (simp add: le_u32_def)
  then show ?thesis
    using sig cov length_sealed_block [OF assms] by (simp add: verify_crc_def Let_def)
qed

lemma sealed_block_parses:
  assumes "crypto_ok C" "wf_header h" "length salt = SALT_SIZE" "length enc = ENCRYPTED_METADATA_SIZE"
  shows "parse_header C (sealed_block C h salt enc vmk) = Inr h"
proof -
  let ?b = "sealed_block C h salt enc vmk"
  have len: "length ?b = METADATA_BLOCK_SIZE"
    by (rule length_sealed_block [OF assms])
  note field = sealed_block_field [OF assms]
  have "buf_slice OFF_VENDOR_ID (OFF_VENDOR_ID + 8) ?b = le_bytes 8 (jh_vendor_id h)"
    "buf_slice OFF_METADATA_VERSION (OFF_METADATA_VERSION + 2) ?b = le_bytes 2 (jh_metadata_version h)"
    "buf_slice OFF_VENDOR_VERSION (OFF_VENDOR_VERSION + 2) ?b = le_bytes 2 (jh_vendor_version h)"
    "buf_slice OFF_METADATA_SIZE (OFF_METADATA_SIZE + 4) ?b = le_bytes 4 (jh_metadata_size h)"
    "buf_slice OFF_SECTOR_SIZE (OFF_SECTOR_SIZE + 4) ?b = le_bytes 4 (jh_sector_size h)"
    by (rule field; simp add: header_fields_def)+
  then have ints: "le_u64 ?b OFF_VENDOR_ID = jh_vendor_id h" "le_u16 ?b OFF_METADATA_VERSION = jh_metadata_version h"
    "le_u16 ?b OFF_VENDOR_VERSION = jh_vendor_version h" "le_u32 ?b OFF_METADATA_SIZE = jh_metadata_size h"
    "le_u32 ?b OFF_SECTOR_SIZE = jh_sector_size h"
    by (simp_all add: le_u64_def le_u32_def le_u16_def)
  have single: "?b ! lo = v" if "(lo, [v]) \<in> set (header_fields h salt)" "lo < METADATA_BLOCK_SIZE" for lo v
    using nth_slice [of 0 "Suc lo" lo ?b] field [of lo "[v]" vmk "Suc lo"] that len by simp
  have counts: "?b ! OFF_HEADER_COUNT = jh_header_replica_count h" "?b ! OFF_FOOTER_COUNT = jh_footer_replica_count h"
    by (rule single; simp add: header_fields_def jvck_layout)+
  have arrays: "buf_slice OFF_VOLUME_ID (OFF_VOLUME_ID + 16) ?b = jh_volume_id h"
    "buf_slice OFF_VENDOR_RESERVED (OFF_VENDOR_RESERVED + VENDOR_RESERVED_SIZE) ?b = jh_vendor_reserved h"
    using assms(2) by (intro field; simp add: header_fields_def wf_header_def)+
  show ?thesis
    using sealed_block_verifies [OF assms] len
    by (simp add: parse_header_def Let_def ints counts arrays)
qed

lemma payload_decodes:
  fixes off :: u64 and st :: volume_state
  assumes "wf_secrets s"
  defines "p \<equiv> write_fields (payload_fields s off st) (replicate ENCRYPTED_METADATA_SIZE 0)"
  shows "buf_slice EM_OFF_SIGNATURE (EM_OFF_SIGNATURE + 4) p = JVCK_SIGNATURE"
    "buf_slice EM_OFF_MUST_ZERO (EM_OFF_MUST_ZERO + 12) p = replicate 12 0"
    "le_u64 p EM_OFF_ENCRYPTED_OFFSET = off" "from_u16 (le_u16 p EM_OFF_STATE) = st"
    "buf_slice EM_OFF_FVEK_KEY1 (EM_OFF_FVEK_KEY1 + 32) p = fvek_key1 s"
    "buf_slice EM_OFF_FVEK_KEY2 (EM_OFF_FVEK_KEY2 + 32) p = fvek_key2 s"
proof -
  note wf = payload_fields_wf [OF assms(1), of off st]
  have field: "buf_slice lo hi p = b" if "(lo, b) \<in> set (payload_fields s off st)" "hi = lo + length b" for lo hi b
    unfolding p_def by (rule slice_write_fields) (use wf that in simp_all)
  show "buf_slice EM_OFF_SIGNATURE (EM_OFF_SIGNATURE + 4) p = JVCK_SIGNATURE"
    by (rule field) (simp_all add: payload_fields_def JVCK_SIGNATURE_def)
  show "buf_slice EM_OFF_FVEK_KEY1 (EM_OFF_FVEK_KEY1 + 32) p = fvek_key1 s"
    "buf_slice EM_OFF_FVEK_KEY2 (EM_OFF_FVEK_KEY2 + 32) p = fvek_key2 s"
    using assms(1) by (auto intro!: field simp: payload_fields_def wf_secrets_def)
  have "buf_slice EM_OFF_ENCRYPTED_OFFSET (EM_OFF_ENCRYPTED_OFFSET + 8) p = le_bytes 8 off"
    "buf_slice EM_OFF_STATE (EM_OFF_STATE + 2) p = le_bytes 2 (as_u16 st)"
    by (rule field; simp add: payload_fields_def)+
  then show "le_u64 p EM_OFF_ENCRYPTED_OFFSET = off" "from_u16 (le_u16 p EM_OFF_STATE) = st"
    by (simp_all add: le_u64_def le_u16_def)
  have "buf_slice EM_OFF_MUST_ZERO (EM_OFF_MUST_ZERO + 12) p =
      buf_slice EM_OFF_MUST_ZERO (EM_OFF_MUST_ZERO + 12) (replicate ENCRYPTED_METADATA_SIZE 0)"
    unfolding p_def using wf(1)
    by (intro slice_write_fields_outside) (simp_all add: payload_fields_def jvck_layout JVCK_SIGNATURE_def)
  then show "buf_slice EM_OFF_MUST_ZERO (EM_OFF_MUST_ZERO + 12) p = replicate 12 0"
    by (simp add: buf_slice_def jvck_layout)
qed

lemma sealed_block_keys:
  assumes "crypto_ok C" "wf_header h" "length salt = SALT_SIZE" "length enc = ENCRYPTED_METADATA_SIZE"
  shows "buf_slice OFF_VOLUME_ID (OFF_VOLUME_ID + 16) (sealed_block C h salt enc vmk) = jh_volume_id h"
    "buf_slice OFF_SALT (OFF_SALT + SALT_SIZE) (sealed_block C h salt enc vmk) = salt"
    "buf_slice OFF_ENCRYPTED_METADATA (OFF_ENCRYPTED_METADATA + ENCRYPTED_METADATA_SIZE)
       (sealed_block C h salt enc vmk) = enc"
    "buf_slice OFF_HMAC (OFF_HMAC + HMAC_SIZE) (sealed_block C h salt enc vmk) =
       hmac_sha256 C (mac_key (derive_keys C (jh_volume_id h) salt vmk)) enc"
  using assms(2,3,4) crypto_okD(4) [OF assms(1)]
  by (auto intro!: sealed_block_field [OF assms] simp: header_fields_def wf_header_def HMAC_SIZE_def)

lemma encode_decode:
  assumes "crypto_ok C" "wf_header h" "wf_secrets s" "length salt = SALT_SIZE"
  shows "\<exists>out. encode_block C h s off st salt vmk = Inr out \<and> length out = METADATA_BLOCK_SIZE \<and>
    parse_header C out = Inr h \<and> decrypt_payload C out vmk = Inr (off, st, s)"
proof -
  obtain enc where enc: "cbc_decrypt C (enc_key (derive_keys C (jh_volume_id h) salt vmk))
       (enc_iv (derive_keys C (jh_volume_id h) salt vmk)) enc =
       Some (write_fields (payload_fields s off st) (replicate ENCRYPTED_METADATA_SIZE 0))"
    "length enc = ENCRYPTED_METADATA_SIZE"
    "encode_block C h s off st salt vmk = Inr (sealed_block C h salt enc vmk)"
    using encode_block_sealed [OF assms] by metis
  note w = assms(1,2,4) enc(2)
  have "decrypt_payload C (sealed_block C h salt enc vmk) vmk = Inr (off, st, s)"
    using sealed_block_verifies [OF w] length_sealed_block [OF w] enc(1) payload_decodes [OF assms(3)]
      crypto_okD(2,3) [OF assms(1)] length_derived_keys [OF assms(1)]
    by (simp add: decrypt_payload_def Let_def sealed_block_keys [OF w])
  then show ?thesis
    using enc(3) length_sealed_block [OF w] sealed_block_parses [OF w] by blast
qed

lemma decrypt_payload_wrong_tag:
  assumes "crypto_ok C" "verify_crc C blk = Inr ()"
    "hmac_sha256 C (mac_key (derive_keys C (buf_slice 32 48 blk) (buf_slice 48 64 blk) vmk)) (buf_slice 64 192 blk)
       \<noteq> buf_slice 192 224 blk"
  shows "decrypt_payload C blk vmk = Inl (ValidationFailed ''EncryptedMetadata HMAC mismatch'')"
proof -
  have "slice_in \<le> METADATA_BLOCK_SIZE \<Longrightarrow> buf_slice a slice_in (buf_slice 0 METADATA_BLOCK_SIZE blk) = buf_slice a slice_in blk"
    for a slice_in
    by (simp add: slice_slice)
  then show ?thesis
    using assms crypto_okD(3) [OF assms(1)] by (simp add: decrypt_payload_def Let_def jvck_layout)
qed


section \<open>A concrete suite\<close>

text \<open>A suite that satisfies \<open>crypto_ok\<close>, for the witnesses.\<close>

definition toy_crypto :: jvck_crypto where
  "toy_crypto =
     \<lparr>hkdf_expand = (\<lambda>salt ikm info n. replicate n (sum_list salt + sum_list ikm + sum_list info)),
      cbc_key_iv_ok = (\<lambda>key iv. length key = 32 \<and> length iv = 16),
      cbc_encrypt = (\<lambda>key iv p. Some (map (\<lambda>x. x + hd (key @ [0]) + hd (iv @ [0])) p)),
      cbc_decrypt = (\<lambda>key iv p. Some (map (\<lambda>x. x - hd (key @ [0]) - hd (iv @ [0])) p)),
      hmac_key_ok = (\<lambda>key. True),
      hmac_sha256 = (\<lambda>key m. replicate 32 (hd (key @ [0]) + sum_list m)),
      crc32 = (\<lambda>m. fold (\<lambda>b acc. acc * 31 + ucast b) m 7)\<rparr>"

lemma toy_crypto_ok: "crypto_ok toy_crypto"
  by (simp add: crypto_ok_def toy_crypto_def comp_def)

definition toy_header :: jvck_header where
  "toy_header = \<lparr>jh_vendor_id = 0x0102030405060708, jh_metadata_version = 1, jh_vendor_version = 7,
     jh_metadata_size = 0x20000, jh_sector_size = 512, jh_header_replica_count = 0,
     jh_footer_replica_count = 2, jh_volume_id = replicate 16 0x11,
     jh_vendor_reserved = replicate 192 0\<rparr>"

definition toy_secrets :: jvck_secrets where
  "toy_secrets = \<lparr>fvek_key1 = replicate 32 0xAA, fvek_key2 = replicate 32 0xBB\<rparr>"

lemma toy_wf [simp]: "wf_header toy_header" "wf_secrets toy_secrets"
  by (simp_all add: toy_header_def toy_secrets_def wf_header_def wf_secrets_def jvck_layout)


lemma toy_encode_decode:
  "\<exists>out. encode_block toy_crypto toy_header toy_secrets off st (replicate 16 0x5A) vmk = Inr out \<and>
     decrypt_payload toy_crypto out vmk = Inr (off, st, toy_secrets)"
  using encode_decode [OF toy_crypto_ok toy_wf, of "replicate 16 0x5A" off st vmk] by (auto simp: SALT_SIZE_def)


section \<open>Properties\<close>

text \<open>C24: a metadata block that \<open>encode\<close> produces is 512 bytes long, passes the signature and
  checksum test, parses back to exactly the header that was encoded and, with the same
  volume master key, opens to exactly the offset, the sweep direction and the volume keys
  that were sealed; encoding never fails.\<close>

theorem metadata_roundtrip:
  assumes "crypto_ok C" "wf_header h" "wf_secrets s" "length salt = SALT_SIZE"
  shows "\<exists>out. encode_block C h s off st salt vmk = Inr out \<and> length out = METADATA_BLOCK_SIZE \<and>
    parse_header C out = Inr h \<and> decrypt_payload C out vmk = Inr (off, st, s) \<and>
    read_encrypted_offset C out vmk = Inr off"
  using encode_decode [OF assms, of off st vmk] by (auto simp: read_encrypted_offset_def)

theorem metadata_roundtrip_witness:
  "crypto_ok toy_crypto \<and> wf_header toy_header \<and> wf_secrets toy_secrets \<and>
   (\<exists>out. encode_block toy_crypto toy_header toy_secrets 1234 Decrypt (replicate 16 0x5A) [1, 2, 3] = Inr out \<and>
     length out = METADATA_BLOCK_SIZE \<and> parse_header toy_crypto out = Inr toy_header \<and>
     decrypt_payload toy_crypto out [1, 2, 3] = Inr (1234, Decrypt, toy_secrets) \<and>
     read_encrypted_offset toy_crypto out [1, 2, 3] = Inr 1234)"
  using metadata_roundtrip [OF toy_crypto_ok toy_wf, of "replicate 16 0x5A" 1234 Decrypt "[1, 2, 3]"]
    toy_crypto_ok by (simp add: SALT_SIZE_def)

text \<open>A block sealed under one volume master key is refused under another one with the
  HMAC error, before any decryption, whenever the two keys give different tags for the
  sealed payload.\<close>

theorem metadata_wrong_key_rejected:
  assumes "crypto_ok C" "wf_header h" "wf_secrets s" "length salt = SALT_SIZE"
    "encode_block C h s off st salt vmk = Inr out"
    "hmac_sha256 C (mac_key (derive_keys C (jh_volume_id h) salt vmk')) (buf_slice 64 192 out)
      \<noteq> hmac_sha256 C (mac_key (derive_keys C (jh_volume_id h) salt vmk)) (buf_slice 64 192 out)"
  shows "decrypt_payload C out vmk' = Inl (ValidationFailed ''EncryptedMetadata HMAC mismatch'')"
proof -
  obtain enc where enc: "length enc = ENCRYPTED_METADATA_SIZE" "out = sealed_block C h salt enc vmk"
    using encode_block_sealed [OF assms(1-4), of vmk off st] assms(5) by (metis Inr_inject)
  note k = sealed_block_keys [OF assms(1,2,4) enc(1), of vmk, folded enc(2)]
  show ?thesis
    using assms(6) k sealed_block_verifies [OF assms(1,2,4) enc(1), of vmk]
    by (intro decrypt_payload_wrong_tag [OF assms(1)]) (simp_all add: jvck_layout enc(2))
qed

definition toy_sealed :: bytes where
  "toy_sealed = (case encode_block toy_crypto toy_header toy_secrets 1234 Decrypt (replicate 16 0x5A) [1, 2, 3] of
     Inl _ \<Rightarrow> [] | Inr out \<Rightarrow> out)"

theorem metadata_wrong_key_rejected_witness:
  "crypto_ok toy_crypto \<and> wf_header toy_header \<and> wf_secrets toy_secrets \<and>
   encode_block toy_crypto toy_header toy_secrets 1234 Decrypt (replicate 16 0x5A) [1, 2, 3] = Inr toy_sealed \<and>
   decrypt_payload toy_crypto toy_sealed [1, 2, 4] = Inl (ValidationFailed ''EncryptedMetadata HMAC mismatch'')"
proof -
  have e: "encode_block toy_crypto toy_header toy_secrets 1234 Decrypt (replicate 16 0x5A) [1, 2, 3] = Inr toy_sealed"
    using toy_encode_decode [of 1234 Decrypt "[1, 2, 3]"] by (auto simp: toy_sealed_def)
  have "hmac_sha256 toy_crypto (mac_key (derive_keys toy_crypto (jh_volume_id toy_header) (replicate 16 0x5A) [1, 2, 4]))
      (buf_slice 64 192 toy_sealed)
    \<noteq> hmac_sha256 toy_crypto (mac_key (derive_keys toy_crypto (jh_volume_id toy_header) (replicate 16 0x5A) [1, 2, 3]))
      (buf_slice 64 192 toy_sealed)"
    by (simp add: toy_crypto_def derive_keys_def Let_def numeral_eq_Suc)
  then show ?thesis
    using metadata_wrong_key_rejected [OF toy_crypto_ok toy_wf _ e] e toy_crypto_ok by (simp add: SALT_SIZE_def)
qed

text \<open>C35: \<open>decrypt_payload\<close> returns keys only for an authenticated block: the block has at
  least 512 bytes, carries the signature and the checksum of its first 508 bytes, and the
  stored tag is the HMAC of the encrypted payload under the key derived from the volume
  master key and the volume identifier and salt in the block.\<close>

theorem decrypt_payload_authenticated:
  assumes "decrypt_payload C blk vmk = Inr r"
  shows "512 \<le> length blk \<and> buf_slice 0 4 blk = JVCK_SIGNATURE \<and>
    crc32 C (buf_slice 0 508 blk) = le_u32 blk 508 \<and>
    hmac_sha256 C (mac_key (derive_keys C (buf_slice 32 48 blk) (buf_slice 48 64 blk) vmk)) (buf_slice 64 192 blk)
      = buf_slice 192 224 blk"
proof -
  have sl: "hi \<le> 512 \<Longrightarrow> buf_slice a hi (buf_slice 0 512 blk) = buf_slice a hi blk" for a hi
    by (simp add: slice_slice)
  have v: "verify_crc C blk = Inr ()"
    using assms by (auto simp: decrypt_payload_def res_simps)
  show ?thesis
  proof (intro conjI)
    show "512 \<le> length blk" "buf_slice 0 4 blk = JVCK_SIGNATURE" "crc32 C (buf_slice 0 508 blk) = le_u32 blk 508"
      using v by (auto simp: verify_crc_def Let_def jvck_layout split: if_splits)
    show "hmac_sha256 C (mac_key (derive_keys C (buf_slice 32 48 blk) (buf_slice 48 64 blk) vmk)) (buf_slice 64 192 blk)
      = buf_slice 192 224 blk"
      using assms v by (simp add: decrypt_payload_def Let_def jvck_layout sl split: if_splits)
  qed
qed

theorem decrypt_payload_authenticated_witness:
  "decrypt_payload toy_crypto toy_sealed [1, 2, 3] = Inr (1234, Decrypt, toy_secrets) \<and>
   buf_slice 0 4 toy_sealed = JVCK_SIGNATURE \<and>
   crc32 toy_crypto (buf_slice 0 508 toy_sealed) = le_u32 toy_sealed 508"
proof -
  have "decrypt_payload toy_crypto toy_sealed [1, 2, 3] = Inr (1234, Decrypt, toy_secrets)"
    using toy_encode_decode [of 1234 Decrypt "[1, 2, 3]"] by (auto simp: toy_sealed_def)
  then show ?thesis
    using decrypt_payload_authenticated [of toy_crypto toy_sealed "[1, 2, 3]"] by simp
qed

end
