(* ===== verification/Jvck_Codec.thy ===== *)
theory Jvck_Codec
  imports Jvck_Metadata
begin

text \<open>
  The pluggable metadata codec of \<open>lib/common/src/jvck/codec.rs\<close>: the per-replica context,
  the \<open>MetadataCodec\<close> trait as a record of operations and as a contract (a locale), and the
  default AES-CBC suite, which meets it.
\<close>


section \<open>Replica context\<close>

record unsealed =
  un_encrypted_offset :: u64
  un_state :: volume_state
  un_secrets :: jvck_secrets

record 'w replica_ctx =
  rc_header :: jvck_header
  rc_block :: bytes
  rc_io :: "'w sector_io"
  rc_vendor_base_lba :: u64
  rc_vendor_sector_count :: u64
  rc_sector_size :: u32
  rc_replica_index :: nat

definition rc_encrypted_metadata :: "'w replica_ctx \<Rightarrow> bytes" where
  "rc_encrypted_metadata ctx =
     buf_slice OFF_ENCRYPTED_METADATA (OFF_ENCRYPTED_METADATA + ENCRYPTED_METADATA_SIZE) (rc_block ctx)"

definition rc_salt :: "'w replica_ctx \<Rightarrow> bytes" where
  "rc_salt ctx = buf_slice OFF_SALT (OFF_SALT + SALT_SIZE) (rc_block ctx)"

definition rc_volume_id :: "'w replica_ctx \<Rightarrow> bytes" where
  "rc_volume_id ctx = buf_slice OFF_VOLUME_ID (OFF_VOLUME_ID + 16) (rc_block ctx)"

text \<open>\<open>checked_add(nsec).is_none_or(|end| end > count)\<close>: the range test shared by the three
  vendor-data readers.\<close>

definition vendor_range_exceeds :: "u64 \<Rightarrow> u64 \<Rightarrow> u64 \<Rightarrow> bool" where
  "vendor_range_exceeds rel_sector nsec count =
     (unat rel_sector + unat nsec \<ge> 2 ^ 64 \<or> rel_sector + nsec > count)"

definition bad_vendor_len :: "nat \<Rightarrow> nat \<Rightarrow> bool" where
  "bad_vendor_len ss len = (ss = 0 \<or> len = 0 \<or> len mod ss \<noteq> 0)"

definition vendor_len_error :: vck_error where
  "vendor_len_error = InvalidData ''vendor data buffer must be a non-zero multiple of the sector size''"

definition vendor_range_error :: vck_error where
  "vendor_range_error = ValidationFailed ''vendor data range exceeds the replica region''"

definition rc_read_vendor_data :: "'w \<Rightarrow> 'w replica_ctx \<Rightarrow> u64 \<Rightarrow> nat \<Rightarrow> bytes vck_result" where
  "rc_read_vendor_data w ctx rel_sector len =
     (let ss = unat (rc_sector_size ctx)
      in if bad_vendor_len ss len then Inl vendor_len_error
         else let nsec = of_nat (len div ss)
              in if vendor_range_exceeds rel_sector nsec (rc_vendor_sector_count ctx) then Inl vendor_range_error
                 else sio_read_sectors (rc_io ctx) w (rc_vendor_base_lba ctx + rel_sector) len)"


section \<open>The codec trait\<close>

record 'w metadata_codec =
  mc_unseal :: "'w \<Rightarrow> 'w replica_ctx \<Rightarrow> bytes \<Rightarrow> unsealed vck_result"
  mc_seal :: "jvck_header \<Rightarrow> jvck_secrets \<Rightarrow> u64 \<Rightarrow> volume_state \<Rightarrow> bytes \<Rightarrow> bytes \<Rightarrow> bytes vck_result"
  mc_read_offset :: "'w \<Rightarrow> 'w replica_ctx \<Rightarrow> bytes \<Rightarrow> u64 vck_result"

text \<open>The contract: sealing well-formed data succeeds with a 512-byte block whose plaintext
  part parses back, unsealing that block recovers what was sealed, and \<open>read_offset\<close> is the
  offset of \<open>unseal\<close>.\<close>

locale metadata_codec_spec =
  fixes C :: jvck_crypto and codec :: "'w metadata_codec" and ok :: bool
  assumes seal_ok: "ok \<Longrightarrow> wf_header h \<Longrightarrow> wf_secrets s \<Longrightarrow> length salt = SALT_SIZE \<Longrightarrow>
      \<exists>blk. mc_seal codec h s off st salt vmk = Inr blk \<and> length blk = METADATA_BLOCK_SIZE \<and>
        parse_header C blk = Inr h"
    and unseal_seal: "ok \<Longrightarrow> wf_header h \<Longrightarrow> wf_secrets s \<Longrightarrow> length salt = SALT_SIZE \<Longrightarrow>
      mc_seal codec h s off st salt vmk = Inr (rc_block ctx) \<Longrightarrow>
      mc_unseal codec w ctx vmk = Inr \<lparr>un_encrypted_offset = off, un_state = st, un_secrets = s\<rparr>"
    and read_offset_unseal: "ok \<Longrightarrow>
      mc_read_offset codec w ctx vmk = res_map un_encrypted_offset (mc_unseal codec w ctx vmk)"
begin

lemma seal_verifies:
  assumes ok "wf_header h" "wf_secrets s" "length salt = SALT_SIZE" "mc_seal codec h s off st salt vmk = Inr blk"
  shows "length blk = METADATA_BLOCK_SIZE" "parse_header C blk = Inr h" "verify_crc C blk = Inr ()"
  using seal_ok [OF assms(1-4), of off st vmk] assms(5) by (auto simp: parse_header_def res_simps)

lemma read_offset_seal:
  assumes ok "wf_header h" "wf_secrets s" "length salt = SALT_SIZE"
    "mc_seal codec h s off st salt vmk = Inr (rc_block ctx)"
  shows "mc_read_offset codec w ctx vmk = Inr off"
  using unseal_seal [OF assms] read_offset_unseal [OF assms(1)] by simp

end


section \<open>The default suite\<close>

definition cbc_unseal :: "jvck_crypto \<Rightarrow> 'w \<Rightarrow> 'w replica_ctx \<Rightarrow> bytes \<Rightarrow> unsealed vck_result" where
  "cbc_unseal C w ctx vmk =
     res_map (\<lambda>(encrypted_off, state, secrets).
         \<lparr>un_encrypted_offset = encrypted_off, un_state = state, un_secrets = secrets\<rparr>)
       (decrypt_payload C (rc_block ctx) vmk)"

definition jvck_cbc_codec :: "jvck_crypto \<Rightarrow> 'w metadata_codec" where
  "jvck_cbc_codec C =
     \<lparr>mc_unseal = cbc_unseal C,
      mc_seal = encode_block C,
      mc_read_offset = (\<lambda>w ctx vmk. read_encrypted_offset C (rc_block ctx) vmk)\<rparr>"

interpretation cbc: metadata_codec_spec C "jvck_cbc_codec C" "crypto_ok C" for C
proof (unfold_locales, goal_cases)
  case (1 h s salt off st vmk)
  then show ?case
    using encode_decode [of C h s salt off st vmk] by (auto simp: jvck_cbc_codec_def)
next
  case (2 h s salt off st vmk ctx w)
  then show ?case
    using encode_decode [of C h s salt off st vmk] by (auto simp: jvck_cbc_codec_def cbc_unseal_def)
next
  case (3 w ctx vmk)
  show ?case
    by (cases "decrypt_payload C (rc_block ctx) vmk")
      (auto simp: jvck_cbc_codec_def cbc_unseal_def read_encrypted_offset_def)
qed

end
