(* ===== verification/Jvck_Geometry.thy ===== *)
theory Jvck_Geometry
  imports Jvck_Codec
begin

text \<open>
  The on-disk layout of a JVCK volume (\<open>lib/common/src/jvck/store.rs\<close>): replica regions at
  the start and the end of the volume, each with one metadata sector and a vendor-data
  area, around the data region that is encrypted.

  The functions below compute on 64-bit words as the code does.  The lemmas show that for
  every accepted layout nothing wraps, that all metadata sectors are distinct and inside
  the volume, and that metadata sectors, vendor areas and the data region are pairwise
  disjoint.
\<close>


section \<open>Layout computation\<close>

record geometry =
  g_offset_sector :: u64
  g_data_sectors :: u64
  g_sector_size :: u32

definition replica_sectors :: "u32 \<Rightarrow> u32 \<Rightarrow> u64" where
  "replica_sectors md_size sector_size = ucast (md_size div sector_size)"

definition metadata_sector_lbas :: "u64 \<Rightarrow> u64 \<Rightarrow> u32 \<Rightarrow> u32 \<Rightarrow> u64 list" where
  "metadata_sector_lbas volume_sectors rs uh uf =
     map (\<lambda>i. of_nat i * rs) [0..<unat uh] @
     (let footer_start = volume_sectors - ucast uf * rs
      in map (\<lambda>j. footer_start + of_nat j * rs + rs - 1) [0..<unat uf])"

definition vendor_data_base_lba_at :: "u64 \<Rightarrow> u64 \<Rightarrow> u32 \<Rightarrow> u32 \<Rightarrow> nat \<Rightarrow> u64 option" where
  "vendor_data_base_lba_at volume_sectors rs uh uf replica_index =
     (if replica_index < unat uh then Some (of_nat replica_index * rs + 1)
      else if replica_index < unat uh + unat uf
      then let j = of_nat (replica_index - unat uh);
               footer_start = volume_sectors - ucast uf * rs
           in Some (footer_start + j * rs)
      else None)"

definition compute_geometry :: "u32 \<Rightarrow> u64 \<Rightarrow> jvck_options \<Rightarrow> geometry vck_result" where
  "compute_geometry sector_size volume_sectors options =
     (if unat sector_size < METADATA_BLOCK_SIZE then Inl (Unsupported ''sector size smaller than 512'')
      else let rs = replica_sectors (metadata_size options) sector_size
           in if rs = 0 then Inl (ValidationFailed ''metadata_size smaller than one sector'')
              else let consumed = ucast (use_header options + use_footer options) * rs
                   in if consumed \<ge> volume_sectors
                      then Inl (ValidationFailed ''volume too small to hold metadata replicas'')
                      else Inr \<lparr>g_offset_sector = ucast (use_header options) * rs,
                                g_data_sectors = volume_sectors - consumed,
                                g_sector_size = sector_size\<rparr>)"


section \<open>The layout in natural numbers\<close>

text \<open>\<open>replica_start\<close> is the first sector of a replica region, \<open>replica_md\<close> its metadata
  sector, \<open>replica_vendor\<close> the first sector of its vendor area.\<close>

definition replica_start :: "nat \<Rightarrow> nat \<Rightarrow> nat \<Rightarrow> nat \<Rightarrow> nat \<Rightarrow> nat" where
  "replica_start V R H F i = (if i < H then i * R else V - F * R + (i - H) * R)"

definition replica_md :: "nat \<Rightarrow> nat \<Rightarrow> nat \<Rightarrow> nat \<Rightarrow> nat \<Rightarrow> nat" where
  "replica_md V R H F i = (if i < H then i * R else V - F * R + (i - H) * R + R - 1)"

definition replica_vendor :: "nat \<Rightarrow> nat \<Rightarrow> nat \<Rightarrow> nat \<Rightarrow> nat \<Rightarrow> nat" where
  "replica_vendor V R H F i = (if i < H then i * R + 1 else V - F * R + (i - H) * R)"

definition layout_ok :: "nat \<Rightarrow> nat \<Rightarrow> nat \<Rightarrow> nat \<Rightarrow> bool" where
  "layout_ok V R H F \<longleftrightarrow> 0 < R \<and> (H + F) * R < V"

lemma replica_in_region:
  assumes "layout_ok V R H F" "i < H + F"
  shows "replica_start V R H F i \<le> replica_md V R H F i"
    "replica_md V R H F i < replica_start V R H F i + R"
    "replica_start V R H F i \<le> replica_vendor V R H F i"
    "replica_vendor V R H F i + (R - 1) \<le> replica_start V R H F i + R"
    "replica_md V R H F i \<notin> {replica_vendor V R H F i..<replica_vendor V R H F i + (R - 1)}"
  using assms by (auto simp: layout_ok_def replica_start_def replica_md_def replica_vendor_def)

lemma mult_index_le: "i < (n :: nat) \<Longrightarrow> i * R + R \<le> n * R"
  by (metis Suc_leI add.commute mult_Suc mult_le_mono1)

lemma replica_md_last:
  assumes "layout_ok V R H F" "0 < F"
  shows "replica_md V R H F (H + F - 1) = V - 1"
proof -
  obtain f where F: "F = Suc f"
    using assms(2) gr0_implies_Suc by blast
  have "f * R + R < V"
    using assms(1) by (simp add: layout_ok_def F add_mult_distrib)
  then show ?thesis
    using assms(1) by (simp add: replica_md_def layout_ok_def F)
qed

lemma replica_outside_data:
  assumes "layout_ok V R H F" "i < H + F"
  shows "replica_start V R H F i + R \<le> H * R \<or> V - F * R \<le> replica_start V R H F i"
    "replica_start V R H F i + R \<le> V"
proof -
  have V: "H * R + F * R < V"
    using assms(1) by (simp add: layout_ok_def add_mult_distrib)
  show "replica_start V R H F i + R \<le> H * R \<or> V - F * R \<le> replica_start V R H F i"
    using mult_index_le [of i H R] by (simp add: replica_start_def)
  show "replica_start V R H F i + R \<le> V"
  proof (cases "i < H")
    case True
    then show ?thesis
      using mult_index_le [of i H R] V by (simp add: replica_start_def)
  next
    case False
    then have "i - H < F" using assms(2) by simp
    then show ?thesis
      using False mult_index_le [of "i - H" F R] V by (simp add: replica_start_def)
  qed
qed

lemma replica_regions_disjoint:
  assumes "layout_ok V R H F" "i < H + F" "j < H + F" "i < j"
  shows "replica_start V R H F i + R \<le> replica_start V R H F j"
proof -
  have V: "H * R + F * R < V"
    using assms(1) by (simp add: layout_ok_def add_mult_distrib)
  consider "j < H" | "i < H" "H \<le> j" | "H \<le> i"
    using assms(4) by linarith
  then show ?thesis
  proof cases
    case 1
    then show ?thesis
      using assms(4) mult_index_le [of i j R] by (simp add: replica_start_def)
  next
    case 2
    then show ?thesis
      using V mult_index_le [of i H R] by (simp add: replica_start_def)
  next
    case 3
    then have "i - H < j - H" using assms(4) by simp
    then show ?thesis
      using 3 assms(4) mult_index_le [of "i - H" "j - H" R] by (simp add: replica_start_def)
  qed
qed



section \<open>The word computation agrees with the layout\<close>

lemma unat_replica_sectors: "unat (replica_sectors ms ss) = unat ms div unat ss"
  by (simp add: replica_sectors_def unat_div)

lemma unat_of_nat_mult:
  fixes r :: u64
  assumes "i * unat r < 2 ^ 64" "unat r \<noteq> 0"
  shows "unat (of_nat i * r) = i * unat r"
proof -
  have "i \<le> i * unat r"
    using assms(2) by simp
  then have "i < 2 ^ 64"
    using assms(1) by linarith
  then have "unat (of_nat i :: u64) = i"
    by (intro unat_of_nat_less) simp
  then show ?thesis
    using assms(1) by (simp add: unat_word_ariths)
qed

lemma unat_ucast_mult:
  fixes r :: u64 and u :: u32
  assumes "unat u * unat r < 2 ^ 64"
  shows "unat (ucast u * r) = unat u * unat r"
  using assms by (simp add: unat_word_ariths)

lemma compute_geometry_layout:
  assumes "compute_geometry ss vs opt = Inr g" "unat (use_header opt) + unat (use_footer opt) < 2 ^ 32"
  shows "layout_ok (unat vs) (unat (replica_sectors (metadata_size opt) ss)) (unat (use_header opt)) (unat (use_footer opt))"
    "unat (g_offset_sector g) = unat (use_header opt) * unat (replica_sectors (metadata_size opt) ss)"
    "unat (g_data_sectors g) =
      unat vs - (unat (use_header opt) + unat (use_footer opt)) * unat (replica_sectors (metadata_size opt) ss)"
    "g_sector_size g = ss" "512 \<le> unat ss"
proof -
  let ?rs = "replica_sectors (metadata_size opt) ss"
  let ?H = "unat (use_header opt)" and ?F = "unat (use_footer opt)"
  have sum: "unat (use_header opt + use_footer opt) = ?H + ?F"
    using assms(2) by (intro unat_add_no_wrap) simp
  have rs32: "unat ?rs < 2 ^ 32"
    unfolding unat_replica_sectors by (rule order_le_less_trans [OF div_le_dividend u32_lt])
  have "(?H + ?F) * unat ?rs \<le> (2 ^ 32 - 1) * (2 ^ 32 - 1)"
    using assms(2) rs32 by (intro mult_le_mono) simp_all
  then have small: "(?H + ?F) * unat ?rs < 2 ^ 64"
    by simp
  then have small_h: "?H * unat ?rs < 2 ^ 64"
    by (simp add: add_mult_distrib)
  have consumed: "unat (ucast (use_header opt + use_footer opt) * ?rs) = (?H + ?F) * unat ?rs"
    using small by (subst unat_ucast_mult) (simp_all add: sum)
  from assms(1) have c: "512 \<le> unat ss" "?rs \<noteq> 0" "ucast (use_header opt + use_footer opt) * ?rs < vs"
    and g: "g = \<lparr>g_offset_sector = ucast (use_header opt) * ?rs,
      g_data_sectors = vs - ucast (use_header opt + use_footer opt) * ?rs, g_sector_size = ss\<rparr>"
    by (auto simp: compute_geometry_def Let_def METADATA_BLOCK_SIZE_def not_le split: if_splits)
  show "layout_ok (unat vs) (unat ?rs) ?H ?F"
    using c(2,3) consumed by (simp add: layout_ok_def word_less_unat unat_gt_0)
  show "unat (g_offset_sector g) = ?H * unat ?rs"
    using small_h by (simp add: g unat_ucast_mult)
  show "unat (g_data_sectors g) = unat vs - (?H + ?F) * unat ?rs"
    using c(3) consumed by (simp add: g unat_sub_no_wrap)
  show "g_sector_size g = ss" "512 \<le> unat ss"
    using c by (simp_all add: g)
qed

lemma unat_footer_start:
  fixes vs rs :: u64 and uf :: u32
  assumes "layout_ok (unat vs) (unat rs) H (unat uf)"
  shows "unat (vs - ucast uf * rs) = unat vs - unat uf * unat rs"
proof -
  have "unat uf * unat rs < unat vs"
    using assms by (simp add: layout_ok_def add_mult_distrib)
  then have "unat uf * unat rs < 2 ^ 64"
    using u64_lt [of vs] by simp
  then have "unat (ucast uf * rs) = unat uf * unat rs"
    by (rule unat_ucast_mult)
  then show ?thesis
    using \<open>unat uf * unat rs < unat vs\<close> by (simp add: unat_sub_no_wrap word_le_unat)
qed

lemma unat_region_start:
  fixes vs rs :: u64 and uh uf :: u32
  assumes "layout_ok (unat vs) (unat rs) (unat uh) (unat uf)" "i < unat uh + unat uf"
  shows "i < unat uh \<Longrightarrow> unat (of_nat i * rs) = replica_start (unat vs) (unat rs) (unat uh) (unat uf) i"
    "\<not> i < unat uh \<Longrightarrow> unat (vs - ucast uf * rs + of_nat (i - unat uh) * rs) =
      replica_start (unat vs) (unat rs) (unat uh) (unat uf) i"
proof -
  have le: "replica_start (unat vs) (unat rs) (unat uh) (unat uf) i + unat rs \<le> unat vs"
    using replica_outside_data(2) [OF assms] .
  have r: "unat rs \<noteq> 0"
    using assms(1) by (simp add: layout_ok_def)
  have vs: "unat vs < 2 ^ 64"
    using u64_lt [of vs] by simp
  show "i < unat uh \<Longrightarrow> unat (of_nat i * rs) = replica_start (unat vs) (unat rs) (unat uh) (unat uf) i"
    using le r vs by (simp add: replica_start_def unat_of_nat_mult)
  assume "\<not> i < unat uh"
  then have le': "unat vs - unat uf * unat rs + (i - unat uh) * unat rs < 2 ^ 64"
    and st: "replica_start (unat vs) (unat rs) (unat uh) (unat uf) i =
      unat vs - unat uf * unat rs + (i - unat uh) * unat rs"
    using le vs by (simp_all add: replica_start_def)
  then have "unat (of_nat (i - unat uh) * rs) = (i - unat uh) * unat rs"
    using r by (intro unat_of_nat_mult) simp_all
  then show "unat (vs - ucast uf * rs + of_nat (i - unat uh) * rs) =
      replica_start (unat vs) (unat rs) (unat uh) (unat uf) i"
    using le' st unat_footer_start [OF assms(1)] by (subst unat_add_no_wrap) simp_all
qed

lemma unat_metadata_lba:
  assumes "layout_ok (unat vs) (unat rs) (unat uh) (unat uf)" "i < unat uh + unat uf"
  shows "unat (metadata_sector_lbas vs rs uh uf ! i) = replica_md (unat vs) (unat rs) (unat uh) (unat uf) i"
proof (cases "i < unat uh")
  case True
  then show ?thesis
    using unat_region_start(1) [OF assms True]
    by (simp add: metadata_sector_lbas_def nth_append replica_md_def replica_start_def)
next
  case False
  let ?s = "vs - ucast uf * rs + of_nat (i - unat uh) * rs"
  have s: "unat ?s = replica_start (unat vs) (unat rs) (unat uh) (unat uf) i"
    using unat_region_start(2) [OF assms False] .
  have "unat ?s + unat rs \<le> unat vs" "unat vs < 2 ^ 64" "0 < unat rs"
    using replica_outside_data(2) [OF assms] s u64_lt [of vs] assms(1)
    by (simp_all add: layout_ok_def)
  then have "unat (?s + rs) = unat ?s + unat rs" "1 \<le> ?s + rs"
    using unat_add_no_wrap [of ?s rs] by (simp_all add: word_le_unat)
  then have "unat (?s + rs - 1) = unat ?s + unat rs - 1"
    by (simp add: unat_sub_no_wrap)
  moreover have "metadata_sector_lbas vs rs uh uf ! i = ?s + rs - 1"
    using False assms(2) by (simp add: metadata_sector_lbas_def nth_append Let_def)
  ultimately show ?thesis
    using False s by (simp add: replica_md_def replica_start_def)
qed

lemma length_metadata_sector_lbas [simp]:
  "length (metadata_sector_lbas vs rs uh uf) = unat uh + unat uf"
  by (simp add: metadata_sector_lbas_def Let_def)

lemma vendor_base_lba:
  assumes "layout_ok (unat vs) (unat rs) (unat uh) (unat uf)" "vendor_data_base_lba_at vs rs uh uf i = Some base"
  shows "i < unat uh + unat uf" "unat base = replica_vendor (unat vs) (unat rs) (unat uh) (unat uf) i"
proof -
  show i: "i < unat uh + unat uf"
    using assms(2) by (auto simp: vendor_data_base_lba_at_def split: if_splits)
  show "unat base = replica_vendor (unat vs) (unat rs) (unat uh) (unat uf) i"
  proof (cases "i < unat uh")
    case False
    then show ?thesis
      using assms(2) unat_region_start(2) [OF assms(1) i False] i
      by (simp add: vendor_data_base_lba_at_def Let_def replica_vendor_def replica_start_def)
  next
    case True
    have "replica_start (unat vs) (unat rs) (unat uh) (unat uf) i + 1 < 2 ^ 64"
    proof -
      have "replica_start (unat vs) (unat rs) (unat uh) (unat uf) i + unat rs \<le> unat vs" "0 < unat rs"
        using replica_outside_data(2) [OF assms(1) i] assms(1) by (simp_all add: layout_ok_def)
      then show ?thesis
        using u64_lt [of vs] by simp
    qed
    then show ?thesis
      using True assms(2) unat_region_start(1) [OF assms(1) i True]
      by (auto simp: vendor_data_base_lba_at_def replica_vendor_def replica_start_def unat_add_no_wrap)
  qed
qed

lemma vendor_base_lba_some:
  "i < unat uh + unat uf \<Longrightarrow> vendor_data_base_lba_at vs rs uh uf i \<noteq> None"
  by (simp add: vendor_data_base_lba_at_def Let_def)



section \<open>Disjointness\<close>

lemma replica_md_distinct:
  assumes "layout_ok V R H F" "i < H + F" "j < H + F" "i \<noteq> j"
  shows "replica_md V R H F i \<noteq> replica_md V R H F j"
proof (cases i j rule: linorder_cases)
  case less
  then show ?thesis
    using replica_regions_disjoint [OF assms(1-3)] replica_in_region(1,2) [OF assms(1)] assms(2,3)
    by (metis leD order_less_le_trans)
next
  case greater
  then show ?thesis
    using replica_regions_disjoint [OF assms(1,3,2)] replica_in_region(1,2) [OF assms(1)] assms(2,3)
    by (metis leD order_less_le_trans)
qed (use assms(4) in simp)

lemma replica_md_vendor_disjoint:
  assumes "layout_ok V R H F" "i < H + F" "j < H + F"
  shows "replica_md V R H F j \<notin> {replica_vendor V R H F i..<replica_vendor V R H F i + (R - 1)}"
proof (cases i j rule: linorder_cases)
  case less
  then show ?thesis
    using replica_regions_disjoint [OF assms] replica_in_region [OF assms(1,2)] replica_in_region [OF assms(1,3)]
    by auto
next
  case equal
  then show ?thesis
    using replica_in_region(5) [OF assms(1,2)] by simp
next
  case greater
  then show ?thesis
    using replica_regions_disjoint [OF assms(1,3,2)] replica_in_region [OF assms(1,2)]
      replica_in_region [OF assms(1,3)]
    by auto
qed

lemma distinct_metadata_lbas:
  assumes "layout_ok (unat vs) (unat rs) (unat uh) (unat uf)"
  shows "distinct (metadata_sector_lbas vs rs uh uf)"
  unfolding distinct_conv_nth
  using assms replica_md_distinct [OF assms] unat_metadata_lba [OF assms]
  by (metis length_metadata_sector_lbas)

lemma metadata_lba_outside_data:
  assumes "layout_ok (unat vs) (unat rs) (unat uh) (unat uf)" "lba \<in> set (metadata_sector_lbas vs rs uh uf)"
  shows "unat lba < unat vs"
    "unat lba < unat uh * unat rs \<or> unat vs - unat uf * unat rs \<le> unat lba"
proof -
  obtain i where i: "i < unat uh + unat uf" "lba = metadata_sector_lbas vs rs uh uf ! i"
    using assms(2) by (auto simp: in_set_conv_nth)
  then have l: "unat lba = replica_md (unat vs) (unat rs) (unat uh) (unat uf) i"
    using unat_metadata_lba [OF assms(1)] by simp
  note r = replica_in_region(1,2) [OF assms(1) i(1)] replica_outside_data [OF assms(1) i(1)]
  show "unat lba < unat vs"
    using r l by linarith
  show "unat lba < unat uh * unat rs \<or> unat vs - unat uf * unat rs \<le> unat lba"
    using r l by linarith
qed


section \<open>Properties\<close>


definition sample_options :: jvck_options where
  "sample_options = \<lparr>use_header = 1, use_footer = 2, metadata_size = 0x20000\<rparr>"

lemma sample_geometry:
  "compute_geometry 512 4096 sample_options =
     Inr \<lparr>g_offset_sector = 256, g_data_sectors = 3328, g_sector_size = 512\<rparr>"
  by code_simp


text \<open>The vendor-data area of every replica (one sector less than the replica) lies inside
  the volume, outside the data region, contains no metadata sector of any replica, and does
  not meet the vendor area of another replica.\<close>

theorem vendor_areas_disjoint:
  assumes "compute_geometry ss vs opt = Inr g" "unat (use_header opt) + unat (use_footer opt) < 2 ^ 32"
    "vendor_data_base_lba_at vs (replica_sectors (metadata_size opt) ss) (use_header opt) (use_footer opt) i = Some a"
    "unat a \<le> x" "x < unat a + (unat (replica_sectors (metadata_size opt) ss) - 1)"
  shows "x < unat vs \<and> \<not> (unat (g_offset_sector g) \<le> x \<and> x < unat (g_offset_sector g) + unat (g_data_sectors g)) \<and>
    x \<notin> unat ` set (metadata_sector_lbas vs (replica_sectors (metadata_size opt) ss) (use_header opt) (use_footer opt)) \<and>
    (\<forall>j b. j \<noteq> i \<and> vendor_data_base_lba_at vs (replica_sectors (metadata_size opt) ss) (use_header opt) (use_footer opt) j = Some b
       \<longrightarrow> \<not> (unat b \<le> x \<and> x < unat b + (unat (replica_sectors (metadata_size opt) ss) - 1)))"
proof -
  note g = compute_geometry_layout [OF assms(1,2)]
  let ?rs = "replica_sectors (metadata_size opt) ss"
  let ?V = "unat vs" and ?R = "unat ?rs" and ?H = "unat (use_header opt)" and ?F = "unat (use_footer opt)"
  note a = vendor_base_lba [OF g(1) assms(3)]
  note ra = replica_in_region [OF g(1) a(1)] replica_outside_data [OF g(1) a(1)]
  have xr: "replica_start ?V ?R ?H ?F i \<le> x" "x < replica_start ?V ?R ?H ?F i + ?R"
    using ra(3,4) assms(4,5) a(2) by linarith+
  have V: "?H * ?R + ?F * ?R < ?V"
    using g(1) by (simp add: layout_ok_def add_mult_distrib)
  have data: "unat (g_offset_sector g) + unat (g_data_sectors g) = ?V - ?F * ?R"
    using V by (simp only: g(2,3) add_mult_distrib)
  have md: "x \<noteq> unat lba" if "lba \<in> set (metadata_sector_lbas vs ?rs (use_header opt) (use_footer opt))" for lba
  proof -
    obtain j where j: "j < ?H + ?F" "unat lba = replica_md ?V ?R ?H ?F j"
      using \<open>lba \<in> _\<close> unat_metadata_lba [OF g(1)] by (auto simp: in_set_conv_nth)
    then show ?thesis
      using replica_md_vendor_disjoint [OF g(1) a(1) j(1)] assms(4,5) a(2) by auto
  qed
  have other: "\<not> (unat b \<le> x \<and> x < unat b + (?R - 1))"
    if "j \<noteq> i" "vendor_data_base_lba_at vs ?rs (use_header opt) (use_footer opt) j = Some b" for j b
  proof -
    note b = vendor_base_lba [OF g(1) that(2)]
    show ?thesis
      using that(1) replica_regions_disjoint [OF g(1) a(1) b(1)] replica_regions_disjoint [OF g(1) b(1) a(1)]
        xr replica_in_region(3,4) [OF g(1) b(1)] b(2)
      by (cases i j rule: linorder_cases) linarith+
  qed
  show ?thesis
    using ra(6,7) xr data g(2) V md other by fastforce
qed

theorem vendor_areas_disjoint_witness:
  "vendor_data_base_lba_at 4096 (replica_sectors (metadata_size sample_options) 512) 1 2 2 = Some 3840 \<and>
   (3900 :: nat) \<notin> unat ` set (metadata_sector_lbas 4096 (replica_sectors (metadata_size sample_options) 512) 1 2)"
proof -
  have v: "vendor_data_base_lba_at 4096 (replica_sectors (metadata_size sample_options) 512) 1 2 2 = Some 3840"
    by code_simp
  have r: "unat (replica_sectors (metadata_size sample_options) 512) = 256"
    by code_simp
  show ?thesis
    using vendor_areas_disjoint [OF sample_geometry, of 2 3840 3900] v r
    by (simp add: sample_options_def)
qed

end
