(* ===== verification/Nt_Io.thy ===== *)
theory Nt_Io
  imports Sector_Io
begin

text \<open>
  The kernel side of sector I/O: status codes and path conversion
  (\<open>lib/windrv/src/nt.rs\<close>) and the two implementations of \<open>SectorIo\<close> in
  \<open>lib/windrv/src/io.rs\<close>, \<open>KernelVolumeIo\<close> over file handles and
  \<open>LowerDeviceIo\<close> over IRPs sent to a device object.

  The NT kernel is a parameter, the record \<open>nt_kernel\<close> of the services the code calls;
  \<open>zw_file_ok\<close> and \<open>fsd_ok\<close> state the documented behaviour of its transfers on a disk of
  bytes.  Handles and device objects are 64-bit values, 0 is the null pointer.
\<close>


section \<open>Status codes and paths\<close>

type_synonym ntstatus = "32 word"

definition STATUS_SUCCESS :: ntstatus where "STATUS_SUCCESS = 0"
definition STATUS_PENDING :: ntstatus where "STATUS_PENDING = 0x103"
definition STATUS_UNSUCCESSFUL :: ntstatus where "STATUS_UNSUCCESSFUL = 0xC0000001"
definition STATUS_INVALID_PARAMETER :: ntstatus where "STATUS_INVALID_PARAMETER = 0xC000000D"
definition STATUS_INSUFFICIENT_RESOURCES :: ntstatus where "STATUS_INSUFFICIENT_RESOURCES = 0xC000009A"
definition STATUS_BUFFER_TOO_SMALL :: ntstatus where "STATUS_BUFFER_TOO_SMALL = 0xC0000023"

definition nt_success :: "ntstatus \<Rightarrow> bool" where
  "nt_success status = (sint status \<ge> 0)"

definition ntstatus_to_result :: "ntstatus \<Rightarrow> string \<Rightarrow> unit vck_result" where
  "ntstatus_to_result status ctx = (if nt_success status then Inr () else Inl (Io ctx))"

definition backslash :: char where "backslash = CHR 0x5C"

definition trim_end_backslashes :: "string \<Rightarrow> string" where
  "trim_end_backslashes s = rev (dropWhile (\<lambda>c. c = backslash) (rev s))"

definition strip_prefix :: "string \<Rightarrow> string \<Rightarrow> string option" where
  "strip_prefix p s = (if take (length p) s = p then Some (drop (length p) s) else None)"

definition nt_prefix :: string where
  "nt_prefix = [backslash, CHR ''?'', CHR ''?'', backslash]"

definition win32_volume_path_to_nt :: "string \<Rightarrow> string" where
  "win32_volume_path_to_nt path =
     (let trimmed = trim_end_backslashes path
      in case strip_prefix [backslash, backslash, CHR ''.'', backslash] trimmed of
           Some rest \<Rightarrow> nt_prefix @ rest
         | None \<Rightarrow>
       (case strip_prefix [backslash, backslash, CHR ''?'', backslash] trimmed of
           Some rest \<Rightarrow> nt_prefix @ rest
         | None \<Rightarrow>
       (if strip_prefix nt_prefix trimmed \<noteq> None
          \<or> strip_prefix (backslash # ''Device'' @ [backslash]) trimmed \<noteq> None
          \<or> strip_prefix (backslash # ''DosDevices'' @ [backslash]) trimmed \<noteq> None
        then trimmed
        else nt_prefix @ trimmed)))"

lemma nt_success_simps [simp]:
  "nt_success STATUS_SUCCESS"
  "nt_success STATUS_PENDING"
  "\<not> nt_success STATUS_UNSUCCESSFUL"
  "\<not> nt_success STATUS_INVALID_PARAMETER"
  by (simp_all add: nt_success_def STATUS_SUCCESS_def STATUS_PENDING_def STATUS_UNSUCCESSFUL_def
      STATUS_INVALID_PARAMETER_def)


section \<open>The kernel services\<close>

text \<open>An IRP-based request yields \<open>None\<close> when the IRP cannot be built, otherwise the status
  returned by \<open>IofCallDriver\<close>, the final \<open>iosb.Status\<close>, and the transferred data.\<close>

record 'w nt_kernel =
  zw_create_file :: "'w \<Rightarrow> string \<Rightarrow> (ntstatus \<times> u64) \<times> 'w"
  ob_open_object_by_pointer :: "'w \<Rightarrow> u64 \<Rightarrow> (ntstatus \<times> u64) \<times> 'w"
  zw_close :: "'w \<Rightarrow> u64 \<Rightarrow> 'w"
  zw_fs_control_file :: "'w \<Rightarrow> u64 \<Rightarrow> u32 \<Rightarrow> ntstatus \<times> 'w"
  zw_device_io_control_file :: "'w \<Rightarrow> u64 \<Rightarrow> u32 \<Rightarrow> nat \<Rightarrow> ntstatus \<times> bytes"
  zw_read_file :: "'w \<Rightarrow> u64 \<Rightarrow> u64 \<Rightarrow> u32 \<Rightarrow> ntstatus \<times> bytes"
  zw_write_file :: "'w \<Rightarrow> u64 \<Rightarrow> u64 \<Rightarrow> bytes \<Rightarrow> ntstatus \<times> 'w"
  irp_ioctl :: "'w \<Rightarrow> u64 \<Rightarrow> u32 \<Rightarrow> nat \<Rightarrow> ((ntstatus \<times> ntstatus) \<times> bytes) option"
  irp_read :: "'w \<Rightarrow> u64 \<Rightarrow> u64 \<Rightarrow> u32 \<Rightarrow> ((ntstatus \<times> ntstatus) \<times> bytes) option"
  irp_write :: "'w \<Rightarrow> u64 \<Rightarrow> u64 \<Rightarrow> bytes \<Rightarrow> (ntstatus \<times> ntstatus) option \<times> 'w"

text \<open>\<open>if status == STATUS_PENDING { wait; status = iosb.Status }\<close>\<close>

definition irp_final_status :: "ntstatus \<times> ntstatus \<Rightarrow> ntstatus" where
  "irp_final_status s = (if fst s = STATUS_PENDING then snd s else fst s)"

definition IOCTL_DISK_GET_DRIVE_GEOMETRY :: u32 where "IOCTL_DISK_GET_DRIVE_GEOMETRY = 0x00070000"
definition IOCTL_DISK_GET_LENGTH_INFO :: u32 where "IOCTL_DISK_GET_LENGTH_INFO = 0x0007405C"
definition IOCTL_DISK_GET_PARTITION_INFO_EX :: u32 where "IOCTL_DISK_GET_PARTITION_INFO_EX = 0x00070048"
definition FSCTL_ALLOW_EXTENDED_DASD_IO :: u32 where "FSCTL_ALLOW_EXTENDED_DASD_IO = 0x00090083"
definition DISK_GEOMETRY_BYTES_PER_SECTOR_OFFSET :: nat where "DISK_GEOMETRY_BYTES_PER_SECTOR_OFFSET = 20"


section \<open>Geometry and partition identifier\<close>

text \<open>Both implementations decode the same IOCTL answers; \<open>ioctl\<close> is their
  \<open>device_ioctl\<close>, \<open>zero_msg\<close> the text of the error for a zero sector size.\<close>

definition decode_geometry ::
    "(u32 \<Rightarrow> nat \<Rightarrow> bytes vck_result) \<Rightarrow> string \<Rightarrow> (u32 \<times> u64) vck_result" where
  "decode_geometry ioctl zero_msg =
     res_bind (ioctl IOCTL_DISK_GET_DRIVE_GEOMETRY 32) (\<lambda>geom.
     let off = DISK_GEOMETRY_BYTES_PER_SECTOR_OFFSET;
         bps = of_le_bytes (buf_slice off (off + 4) geom) :: u32
     in if bps = 0 then Inl (Io zero_msg)
        else res_bind (ioctl IOCTL_DISK_GET_LENGTH_INFO 8) (\<lambda>len.
          let total_bytes = of_le_bytes len :: u64
          in Inr (bps, total_bytes div ucast bps)))"

definition decode_gpt_partition_id :: "(u32 \<Rightarrow> nat \<Rightarrow> bytes vck_result) \<Rightarrow> guid vck_result" where
  "decode_gpt_partition_id ioctl =
     res_bind (ioctl IOCTL_DISK_GET_PARTITION_INFO_EX 144) (\<lambda>buf.
     let style = of_le_bytes (buf_slice 0 4 buf) :: u32
     in if style \<noteq> 1 then Inl (NotFound ''device is not GPT-partitioned'')
        else Inr (guid_from_windows_bytes (buf_slice 48 64 buf)))"


section \<open>\<open>KernelVolumeIo\<close>\<close>

record kernel_volume_io =
  kv_handle :: u64
  kv_sector_size :: u32
  kv_total_sectors :: u64

definition kv_device_ioctl :: "'w nt_kernel \<Rightarrow> 'w \<Rightarrow> u64 \<Rightarrow> u32 \<Rightarrow> nat \<Rightarrow> bytes vck_result" where
  "kv_device_ioctl K w h code outlen =
     (let (status, out) = zw_device_io_control_file K w h code outlen
      in if nt_success status then Inr out else Inl (Io ''volume geometry IOCTL failed''))"

definition allow_extended_dasd_io :: "'w nt_kernel \<Rightarrow> 'w \<Rightarrow> u64 \<Rightarrow> 'w" where
  "allow_extended_dasd_io K w h = snd (zw_fs_control_file K w h FSCTL_ALLOW_EXTENDED_DASD_IO)"

definition kv_open ::
    "'w nt_kernel \<Rightarrow> 'w \<Rightarrow> volume_id \<Rightarrow> u32 \<Rightarrow> u64 \<Rightarrow> kernel_volume_io vck_result \<times> 'w" where
  "kv_open K w volume_id sector_size total_sectors =
     (let ((status, handle), w1) = zw_create_file K w (vid_device_path volume_id)
      in if \<not> nt_success status then (Inl (Io ''ZwCreateFile failed''), w1)
         else (Inr \<lparr>kv_handle = handle, kv_sector_size = sector_size, kv_total_sectors = total_sectors\<rparr>,
               allow_extended_dasd_io K w1 handle))"

definition kv_drop :: "'w nt_kernel \<Rightarrow> 'w \<Rightarrow> kernel_volume_io \<Rightarrow> 'w" where
  "kv_drop K w me = (if kv_handle me \<noteq> 0 then zw_close K w (kv_handle me) else w)"

text \<open>\<open>me.query_geometry()?\<close> at the end of a constructor: on failure \<open>me\<close> is dropped.\<close>

definition kv_query_geometry ::
    "'w nt_kernel \<Rightarrow> 'w \<Rightarrow> kernel_volume_io \<Rightarrow> kernel_volume_io vck_result \<times> 'w" where
  "kv_query_geometry K w me =
     (case decode_geometry (kv_device_ioctl K w (kv_handle me)) ''volume reported zero sector size'' of
        Inl e \<Rightarrow> (Inl e, kv_drop K w me)
      | Inr (ss, tot) \<Rightarrow> (Inr (me\<lparr>kv_sector_size := ss, kv_total_sectors := tot\<rparr>), w))"

definition kv_open_query :: "'w nt_kernel \<Rightarrow> 'w \<Rightarrow> volume_id \<Rightarrow> kernel_volume_io vck_result \<times> 'w" where
  "kv_open_query K w volume_id =
     (case kv_open K w volume_id 0 0 of
        (Inl e, w1) \<Rightarrow> (Inl e, w1)
      | (Inr me, w1) \<Rightarrow> kv_query_geometry K w1 me)"

definition kv_from_handle_query :: "'w nt_kernel \<Rightarrow> 'w \<Rightarrow> u64 \<Rightarrow> kernel_volume_io vck_result \<times> 'w" where
  "kv_from_handle_query K w handle =
     (let w1 = allow_extended_dasd_io K w handle
      in kv_query_geometry K w1 \<lparr>kv_handle = handle, kv_sector_size = 0, kv_total_sectors = 0\<rparr>)"

definition kv_from_device_object ::
    "'w nt_kernel \<Rightarrow> 'w \<Rightarrow> u64 \<Rightarrow> u32 \<Rightarrow> u64 \<Rightarrow> kernel_volume_io vck_result \<times> 'w" where
  "kv_from_device_object K w device_object sector_size total_sectors =
     (let ((status, handle), w1) = ob_open_object_by_pointer K w device_object
      in if \<not> nt_success status then (Inl (Io ''ObOpenObjectByPointer(lower) failed''), w1)
         else (Inr \<lparr>kv_handle = handle, kv_sector_size = sector_size, kv_total_sectors = total_sectors\<rparr>, w1))"

definition kv_from_device_object_query ::
    "'w nt_kernel \<Rightarrow> 'w \<Rightarrow> u64 \<Rightarrow> kernel_volume_io vck_result \<times> 'w" where
  "kv_from_device_object_query K w device_object =
     (case kv_from_device_object K w device_object 0 0 of
        (Inl e, w1) \<Rightarrow> (Inl e, w1)
      | (Inr me, w1) \<Rightarrow> kv_query_geometry K w1 me)"

definition kv_read_gpt_partition_id :: "'w nt_kernel \<Rightarrow> 'w \<Rightarrow> kernel_volume_io \<Rightarrow> guid vck_result" where
  "kv_read_gpt_partition_id K w me = decode_gpt_partition_id (kv_device_ioctl K w (kv_handle me))"

text \<open>The transfers of \<open>run_sync\<close>.\<close>

definition kv_transfer_read :: "'w nt_kernel \<Rightarrow> u64 \<Rightarrow> 'w \<Rightarrow> u64 \<Rightarrow> u32 \<Rightarrow> bytes vck_result" where
  "kv_transfer_read K h w byte_offset n =
     (let (status, data) = zw_read_file K w h byte_offset n
      in if nt_success status then Inr data else Inl (Io ''volume I/O failed''))"

definition kv_transfer_write :: "'w nt_kernel \<Rightarrow> u64 \<Rightarrow> 'w \<Rightarrow> u64 \<Rightarrow> bytes \<Rightarrow> unit vck_result \<times> 'w" where
  "kv_transfer_write K h w byte_offset buf =
     (let (status, w1) = zw_write_file K w h byte_offset buf
      in (if nt_success status then Inr () else Inl (Io ''volume I/O failed''), w1))"

definition kv_sector_io :: "'w nt_kernel \<Rightarrow> kernel_volume_io \<Rightarrow> 'w sector_io" where
  "kv_sector_io K me = byte_sector_io (kv_sector_size me) (kv_total_sectors me)
     (kv_transfer_read K (kv_handle me)) (kv_transfer_write K (kv_handle me))"


section \<open>\<open>LowerDeviceIo\<close>\<close>

record lower_device_io =
  ld_device_object :: u64
  ld_sector_size :: u32
  ld_total_sectors :: u64

definition ld_new :: "u64 \<Rightarrow> u32 \<Rightarrow> u64 \<Rightarrow> lower_device_io" where
  "ld_new device_object sector_size total_sectors =
     \<lparr>ld_device_object = device_object, ld_sector_size = sector_size, ld_total_sectors = total_sectors\<rparr>"

definition ld_device_ioctl :: "'w nt_kernel \<Rightarrow> 'w \<Rightarrow> u64 \<Rightarrow> u32 \<Rightarrow> nat \<Rightarrow> bytes vck_result" where
  "ld_device_ioctl K w dev code outlen =
     (case irp_ioctl K w dev code outlen of
        None \<Rightarrow> Inl (Io ''IoBuildDeviceIoControlRequest(lower) failed'')
      | Some (status, out) \<Rightarrow>
          if nt_success (irp_final_status status) then Inr out else Inl (Io ''lower device IOCTL failed''))"

definition ld_query_geometry ::
    "'w nt_kernel \<Rightarrow> 'w \<Rightarrow> lower_device_io \<Rightarrow> lower_device_io vck_result" where
  "ld_query_geometry K w me =
     res_map (\<lambda>(ss, tot). me\<lparr>ld_sector_size := ss, ld_total_sectors := tot\<rparr>)
       (decode_geometry (ld_device_ioctl K w (ld_device_object me)) ''lower device reported zero sector size'')"

definition ld_read_gpt_partition_id :: "'w nt_kernel \<Rightarrow> 'w \<Rightarrow> lower_device_io \<Rightarrow> guid vck_result" where
  "ld_read_gpt_partition_id K w me = decode_gpt_partition_id (ld_device_ioctl K w (ld_device_object me))"

definition ld_transfer_read :: "'w nt_kernel \<Rightarrow> u64 \<Rightarrow> 'w \<Rightarrow> u64 \<Rightarrow> u32 \<Rightarrow> bytes vck_result" where
  "ld_transfer_read K dev w byte_offset n =
     (case irp_read K w dev byte_offset n of
        None \<Rightarrow> Inl (Io ''IoBuildSynchronousFsdRequest(lower) failed'')
      | Some (status, data) \<Rightarrow>
          if nt_success (irp_final_status status) then Inr data else Inl (Io ''lower device I/O failed''))"

definition ld_transfer_write :: "'w nt_kernel \<Rightarrow> u64 \<Rightarrow> 'w \<Rightarrow> u64 \<Rightarrow> bytes \<Rightarrow> unit vck_result \<times> 'w" where
  "ld_transfer_write K dev w byte_offset buf =
     (case irp_write K w dev byte_offset buf of
        (None, w1) \<Rightarrow> (Inl (Io ''IoBuildSynchronousFsdRequest(lower) failed''), w1)
      | (Some status, w1) \<Rightarrow>
          (if nt_success (irp_final_status status) then Inr () else Inl (Io ''lower device I/O failed''), w1))"

definition ld_sector_io :: "'w nt_kernel \<Rightarrow> lower_device_io \<Rightarrow> 'w sector_io" where
  "ld_sector_io K me = byte_sector_io (ld_sector_size me) (ld_total_sectors me)
     (ld_transfer_read K (ld_device_object me)) (ld_transfer_write K (ld_device_object me))"



section \<open>Documented behaviour of the kernel transfers\<close>

definition put_bytes :: "nat \<Rightarrow> bytes \<Rightarrow> (nat \<Rightarrow> byte) \<Rightarrow> nat \<Rightarrow> byte" where
  "put_bytes off bs f = (\<lambda>a. if off \<le> a \<and> a < off + length bs then bs ! (a - off) else f a)"

text \<open>A transfer at a non-negative signed offset that succeeds moves exactly the requested
  bytes; a write that fails changes no byte outside its range.\<close>

definition zw_file_ok :: "'w nt_kernel \<Rightarrow> u64 \<Rightarrow> ('w \<Rightarrow> nat \<Rightarrow> byte) \<Rightarrow> bool" where
  "zw_file_ok K h disk \<longleftrightarrow>
     (\<forall>w off n. unat off + unat n \<le> 2 ^ 63 \<and> nt_success (fst (zw_read_file K w h off n)) \<longrightarrow>
        snd (zw_read_file K w h off n) = map (disk w) [unat off..<unat off + unat n]) \<and>
     (\<forall>w off bs. unat off + length bs \<le> 2 ^ 63 \<and> nt_success (fst (zw_write_file K w h off bs)) \<longrightarrow>
        disk (snd (zw_write_file K w h off bs)) = put_bytes (unat off) bs (disk w)) \<and>
     (\<forall>w off bs. unat off + length bs \<le> 2 ^ 63 \<longrightarrow>
        (\<forall>a. a < unat off \<or> unat off + length bs \<le> a \<longrightarrow>
          disk (snd (zw_write_file K w h off bs)) a = disk w a))"

definition fsd_ok :: "'w nt_kernel \<Rightarrow> u64 \<Rightarrow> ('w \<Rightarrow> nat \<Rightarrow> byte) \<Rightarrow> bool" where
  "fsd_ok K dev disk \<longleftrightarrow>
     (\<forall>w off n s data. unat off + unat n \<le> 2 ^ 63 \<and> irp_read K w dev off n = Some (s, data) \<and>
        nt_success (irp_final_status s) \<longrightarrow> data = map (disk w) [unat off..<unat off + unat n]) \<and>
     (\<forall>w off bs s w'. unat off + length bs \<le> 2 ^ 63 \<and> irp_write K w dev off bs = (Some s, w') \<and>
        nt_success (irp_final_status s) \<longrightarrow> disk w' = put_bytes (unat off) bs (disk w)) \<and>
     (\<forall>w off bs. unat off + length bs \<le> 2 ^ 63 \<longrightarrow>
        (\<forall>a. a < unat off \<or> unat off + length bs \<le> a \<longrightarrow>
          disk (snd (irp_write K w dev off bs)) a = disk w a))"

text \<open>A disk that serves every transfer below \<open>lim\<close> bytes.\<close>

definition fsd_reliable :: "'w nt_kernel \<Rightarrow> u64 \<Rightarrow> nat \<Rightarrow> bool" where
  "fsd_reliable K dev lim \<longleftrightarrow>
     (\<forall>w off n. unat off + unat n \<le> lim \<longrightarrow>
        (\<exists>s data. irp_read K w dev off n = Some (s, data) \<and> nt_success (irp_final_status s))) \<and>
     (\<forall>w off bs. unat off + length bs \<le> lim \<longrightarrow>
        (\<exists>s w'. irp_write K w dev off bs = (Some s, w') \<and> nt_success (irp_final_status s)))"

definition geometry_ok :: "u32 \<Rightarrow> u64 \<Rightarrow> bool" where
  "geometry_ok ss tot \<longleftrightarrow> 0 < unat ss \<and> unat ss * unat tot \<le> 2 ^ 63"

definition kv_ok :: "'w nt_kernel \<Rightarrow> kernel_volume_io \<Rightarrow> ('w \<Rightarrow> nat \<Rightarrow> byte) \<Rightarrow> bool" where
  "kv_ok K me disk \<longleftrightarrow> zw_file_ok K (kv_handle me) disk \<and> geometry_ok (kv_sector_size me) (kv_total_sectors me)"

definition ld_ok :: "'w nt_kernel \<Rightarrow> lower_device_io \<Rightarrow> ('w \<Rightarrow> nat \<Rightarrow> byte) \<Rightarrow> bool" where
  "ld_ok K me disk \<longleftrightarrow> fsd_ok K (ld_device_object me) disk \<and> geometry_ok (ld_sector_size me) (ld_total_sectors me)"

definition ld_reliable :: "'w nt_kernel \<Rightarrow> lower_device_io \<Rightarrow> ('w \<Rightarrow> nat \<Rightarrow> byte) \<Rightarrow> bool" where
  "ld_reliable K me disk \<longleftrightarrow> ld_ok K me disk \<and>
     fsd_reliable K (ld_device_object me) (unat (ld_sector_size me) * unat (ld_total_sectors me))"


lemma zw_file_okD:
  assumes "zw_file_ok K h disk"
  shows "unat off + unat n \<le> 2 ^ 63 \<Longrightarrow> zw_read_file K w h off n = (s, data) \<Longrightarrow> nt_success s \<Longrightarrow>
      data = map (disk w) [unat off..<unat off + unat n]"
    and "unat off + length bs \<le> 2 ^ 63 \<Longrightarrow> zw_write_file K w h off bs = (s, w') \<Longrightarrow> nt_success s \<Longrightarrow>
      disk w' = put_bytes (unat off) bs (disk w)"
    and "unat off + length bs \<le> 2 ^ 63 \<Longrightarrow> zw_write_file K w h off bs = (s, w') \<Longrightarrow>
      a < unat off \<or> unat off + length bs \<le> a \<Longrightarrow> disk w' a = disk w a"
  using assms unfolding zw_file_ok_def by (metis fst_conv snd_conv)+

lemma fsd_okD:
  assumes "fsd_ok K dev disk"
  shows "unat off + unat n \<le> 2 ^ 63 \<Longrightarrow> irp_read K w dev off n = Some (s, data) \<Longrightarrow>
      nt_success (irp_final_status s) \<Longrightarrow> data = map (disk w) [unat off..<unat off + unat n]"
    and "unat off + length bs \<le> 2 ^ 63 \<Longrightarrow> irp_write K w dev off bs = (Some s, w') \<Longrightarrow>
      nt_success (irp_final_status s) \<Longrightarrow> disk w' = put_bytes (unat off) bs (disk w)"
    and "unat off + length bs \<le> 2 ^ 63 \<Longrightarrow> irp_write K w dev off bs = (r, w') \<Longrightarrow>
      a < unat off \<or> unat off + length bs \<le> a \<Longrightarrow> disk w' a = disk w a"
  using assms unfolding fsd_ok_def by (blast, blast, metis snd_conv)


section \<open>The implementations meet the device contract\<close>

interpretation kv_bytes: byte_device "kv_sector_size me" "kv_total_sectors me"
  "kv_transfer_read K (kv_handle me)" "kv_transfer_write K (kv_handle me)" disk "kv_ok K me disk"
  for K :: "'w nt_kernel" and me disk
proof (unfold_locales, goal_cases)
  case 1
  then show ?case by (simp add: kv_ok_def geometry_ok_def)
next
  case (2 off n w bs)
  then show ?case
    using zw_file_okD(1) [of K "kv_handle me" disk off n w]
    by (auto simp: kv_ok_def kv_transfer_read_def split: prod.splits if_splits)
next
  case (3 off bs w w')
  then show ?case
    using zw_file_okD(2) [of K "kv_handle me" disk off bs w]
    by (auto simp: kv_ok_def kv_transfer_write_def put_bytes_def split: prod.splits if_splits)
next
  case (4 off bs w e w')
  then show ?case
    using zw_file_okD(3) [of K "kv_handle me" disk off bs w]
    by (auto simp: kv_ok_def kv_transfer_write_def split: prod.splits if_splits)
qed

interpretation kv: sector_device "kv_sector_io K me" "\<lambda>w. kv_ok K me disk"
  "disk_sector disk (unat (kv_sector_size me))" "unat (kv_total_sectors me)"
  for K :: "'w nt_kernel" and me disk
  unfolding kv_sector_io_def by (rule kv_bytes.dev.sector_device_axioms)

interpretation ld_bytes: byte_device "ld_sector_size me" "ld_total_sectors me"
  "ld_transfer_read K (ld_device_object me)" "ld_transfer_write K (ld_device_object me)" disk "ld_ok K me disk"
  for K :: "'w nt_kernel" and me disk
proof (unfold_locales, goal_cases)
  case 1
  then show ?case by (simp add: ld_ok_def geometry_ok_def)
next
  case (2 off n w bs)
  then show ?case
    using fsd_okD(1) [of K "ld_device_object me" disk off n w]
    by (auto simp: ld_ok_def ld_transfer_read_def split: option.splits prod.splits if_splits)
next
  case (3 off bs w w')
  then obtain s where "irp_write K w (ld_device_object me) off bs = (Some s, w')"
    "nt_success (irp_final_status s)"
    by (auto simp: ld_transfer_write_def split: option.splits prod.splits if_splits)
  with 3(1,2) show ?case
    using fsd_okD(2) [of K "ld_device_object me" disk off bs w s w'] by (simp add: ld_ok_def put_bytes_def)
next
  case (4 off bs w e w')
  then obtain r where "irp_write K w (ld_device_object me) off bs = (r, w')"
    by (auto simp: ld_transfer_write_def split: option.splits prod.splits if_splits)
  with 4(1,2) show ?case
    using fsd_okD(3) [of K "ld_device_object me" disk off bs w r w'] by (auto simp: ld_ok_def)
qed

interpretation ld: sector_device "ld_sector_io K me" "\<lambda>w. ld_ok K me disk"
  "disk_sector disk (unat (ld_sector_size me))" "unat (ld_total_sectors me)"
  for K :: "'w nt_kernel" and me disk
  unfolding ld_sector_io_def by (rule ld_bytes.dev.sector_device_axioms)

interpretation ld_off: sector_device "offset_sector_io (ld_sector_io K me) start"
  "\<lambda>w. ld_ok K me disk \<and> unat start \<le> unat (ld_total_sectors me)"
  "\<lambda>w i. disk_sector disk (unat (ld_sector_size me)) w (unat start + i)"
  "unat (ld_total_sectors me) - unat start"
  for K :: "'w nt_kernel" and me disk start
  by (rule ld.offset_device)

lemma sync_params_total:
  assumes "geometry_ok ss tot" "unat lba + k \<le> unat tot" "k * unat ss < 2 ^ 32"
  shows "\<exists>off n. sync_params ss lba (k * unat ss) = Inr (off, n) \<and> unat off = unat lba * unat ss \<and>
    unat n = k * unat ss"
proof -
  have "unat lba * unat ss \<le> unat ss * unat tot"
    by (subst mult.commute) (use assms(2) in \<open>intro mult_le_mono2; simp\<close>)
  also have "\<dots> \<le> 2 ^ 63"
    using assms(1) by (simp add: geometry_ok_def)
  finally have small: "unat lba * unat ss < 2 ^ 64"
    by simp
  have "unat (lba * ucast ss) = unat lba * unat ss"
    using small by (simp add: unat_word_ariths)
  moreover have "unat (of_nat (k * unat ss) :: u32) = k * unat ss"
    by (rule unat_of_nat_less) (use assms(3) in simp)
  ultimately show ?thesis
    using small assms(3) by (simp add: sync_params_def)
qed

interpretation ldr: reliable_device "ld_sector_io K me" "\<lambda>w. ld_reliable K me disk"
  "disk_sector disk (unat (ld_sector_size me))" "unat (ld_total_sectors me)"
  for K :: "'w nt_kernel" and me disk
proof (rule reliable_device.intro)
  show "sector_device (ld_sector_io K me) (\<lambda>w. ld_reliable K me disk)
      (disk_sector disk (unat (ld_sector_size me))) (unat (ld_total_sectors me))"
    using ld.sector_device_axioms [of K me disk]
    by (auto simp: sector_device_def ld_reliable_def)
  have bound: "unat lba * unat ss + k * unat ss \<le> unat ss * unat tot"
    if "unat lba + k \<le> unat tot" for lba :: u64 and k and ss :: u32 and tot :: u64
  proof -
    have "(unat lba + k) * unat ss \<le> unat tot * unat ss"
      using that by (rule mult_le_mono1)
    then show ?thesis
      by (simp only: add_mult_distrib mult.commute [of "unat tot"])
  qed
  show "reliable_device_axioms (ld_sector_io K me) (\<lambda>w. ld_reliable K me disk) (unat (ld_total_sectors me))"
  proof (unfold_locales, goal_cases)
    case (1 w lba k)
    then have g: "geometry_ok (ld_sector_size me) (ld_total_sectors me)"
      by (simp add: ld_reliable_def ld_ok_def)
    obtain off n where p: "sync_params (ld_sector_size me) lba (k * unat (ld_sector_size me)) = Inr (off, n)"
      "unat off + unat n \<le> unat (ld_sector_size me) * unat (ld_total_sectors me)"
      using sync_params_total [OF g 1(2)] 1(3) bound [OF 1(2)]
      by (auto simp: ld_sector_io_def byte_sector_io_def)
    then obtain s data where "irp_read K w (ld_device_object me) off n = Some (s, data)"
      "nt_success (irp_final_status s)"
      using 1(1) unfolding ld_reliable_def fsd_reliable_def by meson
    with p show ?case
      by (simp add: ld_sector_io_def byte_sector_io_def run_sync_read_def ld_transfer_read_def)
  next
    case (2 w lba k bs)
    then have g: "geometry_ok (ld_sector_size me) (ld_total_sectors me)"
      by (simp add: ld_reliable_def ld_ok_def)
    have len: "length bs = k * unat (ld_sector_size me)"
      using 2(3) by (simp add: ld_sector_io_def byte_sector_io_def)
    obtain off n where p: "sync_params (ld_sector_size me) lba (length bs) = Inr (off, n)"
      "unat off + length bs \<le> unat (ld_sector_size me) * unat (ld_total_sectors me)"
      using sync_params_total [OF g 2(2)] 2(4) bound [OF 2(2)] len by fastforce
    then obtain s w' where "irp_write K w (ld_device_object me) off bs = (Some s, w')"
      "nt_success (irp_final_status s)"
      using 2(1) unfolding ld_reliable_def fsd_reliable_def by meson
    with p show ?case
      by (simp add: ld_sector_io_def byte_sector_io_def run_sync_write_def ld_transfer_write_def)
  qed
qed


section \<open>A memory-backed kernel\<close>

text \<open>A kernel whose every file and device is one byte-addressed memory, for the witnesses.\<close>

definition ram_kernel :: "(nat \<Rightarrow> byte) nt_kernel" where
  "ram_kernel =
     \<lparr>zw_create_file = (\<lambda>w p. ((STATUS_SUCCESS, 1), w)),
      ob_open_object_by_pointer = (\<lambda>w d. ((STATUS_SUCCESS, d), w)),
      zw_close = (\<lambda>w h. w),
      zw_fs_control_file = (\<lambda>w h c. (STATUS_SUCCESS, w)),
      zw_device_io_control_file = (\<lambda>w h c n. (STATUS_UNSUCCESSFUL, replicate n 0)),
      zw_read_file = (\<lambda>w h off n. (STATUS_SUCCESS, map w [unat off..<unat off + unat n])),
      zw_write_file = (\<lambda>w h off bs. (STATUS_SUCCESS, put_bytes (unat off) bs w)),
      irp_ioctl = (\<lambda>w d c n. None),
      irp_read = (\<lambda>w d off n. Some ((STATUS_PENDING, STATUS_SUCCESS), map w [unat off..<unat off + unat n])),
      irp_write = (\<lambda>w d off bs. (Some (STATUS_PENDING, STATUS_SUCCESS), put_bytes (unat off) bs w))\<rparr>"

lemma ram_fsd_ok: "fsd_ok ram_kernel dev (\<lambda>w. w)" "fsd_reliable ram_kernel dev lim"
  "zw_file_ok ram_kernel h (\<lambda>w. w)"
  by (auto simp: fsd_ok_def fsd_reliable_def zw_file_ok_def ram_kernel_def irp_final_status_def put_bytes_def)

lemma ram_ld_reliable:
  "geometry_ok ss tot \<Longrightarrow> ld_reliable ram_kernel (ld_new dev ss tot) (\<lambda>w. w)"
  by (simp add: ld_reliable_def ld_ok_def ld_new_def ram_fsd_ok)

end
