(* ===== verification/Jvck_Store.thy ===== *)
theory Jvck_Store
  imports Jvck_Geometry Nt_Io
begin

text \<open>
  The JVCK metadata store of \<open>lib/common/src/jvck/store.rs\<close>: creating a volume, opening it in
  two phases (plaintext header, then the first replica that unseals), the recovery scan,
  the rewrite of all replicas, the vendor-data area and the \<open>EncryptedOffsetStore\<close>
  interface.

  The store is a record; the two atomics it mutates through a shared reference (the current
  offset and direction) are the record \<open>jvck_cells\<close>, so the trait object acts on pairs of
  cells and device world.  The device, the codec and the randomness source are the
  interfaces of the other theories.
\<close>


section \<open>State\<close>

record 'w jvck_store =
  js_io :: "'w sector_io"
  js_options :: jvck_options
  js_vmk :: bytes
  js_geometry :: geometry
  js_volume_sectors :: u64
  js_header :: jvck_header
  js_secrets :: jvck_secrets
  js_codec :: "'w metadata_codec"

record jvck_cells =
  jc_offset :: u64
  jc_state :: u16

record 'w jvck_reader =
  jr_io :: "'w sector_io"
  jr_options :: jvck_options
  jr_geometry :: geometry
  jr_volume_sectors :: u64
  jr_header :: jvck_header


section \<open>Blocks\<close>

definition read_block :: "'w sector_io \<Rightarrow> 'w \<Rightarrow> u32 \<Rightarrow> u64 \<Rightarrow> bytes vck_result" where
  "read_block io w sector_size lba =
     res_map (buf_slice 0 METADATA_BLOCK_SIZE) (sio_read_sectors io w lba (unat sector_size))"

definition write_block :: "'w sector_io \<Rightarrow> 'w \<Rightarrow> u32 \<Rightarrow> u64 \<Rightarrow> bytes \<Rightarrow> unit vck_result \<times> 'w" where
  "write_block io w sector_size lba block =
     sio_write_sectors io w lba (buf_write 0 block (replicate (unat sector_size) 0))"

text \<open>\<open>for lba in lbas { write_block(..)?; }\<close>\<close>

primrec write_blocks :: "'w sector_io \<Rightarrow> u32 \<Rightarrow> bytes \<Rightarrow> u64 list \<Rightarrow> 'w \<Rightarrow> unit vck_result \<times> 'w" where
  "write_blocks io sector_size block [] w = (Inr (), w)"
| "write_blocks io sector_size block (lba # lbas) w =
     (case write_block io w sector_size lba block of
        (Inl e, w1) \<Rightarrow> (Inl e, w1)
      | (Inr _, w1) \<Rightarrow> write_blocks io sector_size block lbas w1)"

text \<open>The context handed to the codec for one replica.\<close>

definition make_ctx ::
    "jvck_header \<Rightarrow> 'w sector_io \<Rightarrow> jvck_options \<Rightarrow> u64 \<Rightarrow> u32 \<Rightarrow> bytes \<Rightarrow> nat \<Rightarrow> 'w replica_ctx" where
  "make_ctx header io opt volume_sectors sector_size block idx =
     (let rs = replica_sectors (metadata_size opt) sector_size;
          vendor_base = (case vendor_data_base_lba_at volume_sectors rs (use_header opt) (use_footer opt) idx of
            Some b \<Rightarrow> b | None \<Rightarrow> 0)
      in \<lparr>rc_header = header, rc_block = block, rc_io = io, rc_vendor_base_lba = vendor_base,
          rc_vendor_sector_count = (if rs = 0 then 0 else rs - 1), rc_sector_size = sector_size,
          rc_replica_index = idx\<rparr>)"

definition store_lbas :: "'w jvck_store \<Rightarrow> u64 list" where
  "store_lbas st = metadata_sector_lbas (js_volume_sectors st)
     (replica_sectors (metadata_size (js_options st)) (g_sector_size (js_geometry st)))
     (use_header (js_options st)) (use_footer (js_options st))"


section \<open>Recovery and rewriting\<close>

definition best_offset :: "u64 option \<Rightarrow> u64 \<Rightarrow> u64 option" where
  "best_offset best off = Some (case best of None \<Rightarrow> off | Some b \<Rightarrow> max b off)"

primrec load_offset_loop ::
    "jvck_crypto \<Rightarrow> 'w jvck_store \<Rightarrow> 'w \<Rightarrow> nat \<Rightarrow> u64 list \<Rightarrow> u64 option \<Rightarrow> u64 option" where
  "load_offset_loop C st w idx [] best = best"
| "load_offset_loop C st w idx (lba # lbas) best =
     (case read_block (js_io st) w (g_sector_size (js_geometry st)) lba of
        Inl _ \<Rightarrow> load_offset_loop C st w (idx + 1) lbas best
      | Inr block \<Rightarrow>
          if \<not> is_ok (verify_crc C block) then load_offset_loop C st w (idx + 1) lbas best
          else case mc_read_offset (js_codec st) w
              (make_ctx (js_header st) (js_io st) (js_options st) (js_volume_sectors st)
                (g_sector_size (js_geometry st)) block idx) (js_vmk st) of
            Inl _ \<Rightarrow> load_offset_loop C st w (idx + 1) lbas best
          | Inr off \<Rightarrow> load_offset_loop C st w (idx + 1) lbas (best_offset best off))"

definition load_offset :: "jvck_crypto \<Rightarrow> 'w jvck_store \<Rightarrow> 'w \<Rightarrow> u64 vck_result" where
  "load_offset C st w =
     ok_or (NotFound ''no valid JVCK metadata replica'') (load_offset_loop C st w 0 (store_lbas st) None)"

definition write_all_replicas ::
    "'w random_source \<Rightarrow> 'w jvck_store \<Rightarrow> jvck_cells \<Rightarrow> 'w \<Rightarrow> unit vck_result \<times> 'w" where
  "write_all_replicas rng st cells w =
     (case fill_random rng w SALT_SIZE of
        (Inl e, w1) \<Rightarrow> (Inl e, w1)
      | (Inr salt, w1) \<Rightarrow>
          (case mc_seal (js_codec st) (js_header st) (js_secrets st) (jc_offset cells)
              (from_u16 (jc_state cells)) salt (js_vmk st) of
             Inl e \<Rightarrow> (Inl e, w1)
           | Inr block \<Rightarrow> write_blocks (js_io st) (g_sector_size (js_geometry st)) block (store_lbas st) w1))"

definition create_store ::
    "'w random_source \<Rightarrow> 'w sector_io \<Rightarrow> 'w \<Rightarrow> bytes \<Rightarrow> jvck_options \<Rightarrow> bytes \<Rightarrow> bytes \<Rightarrow> bytes
      \<Rightarrow> 'w metadata_codec \<Rightarrow> ('w jvck_store \<times> jvck_cells) vck_result \<times> 'w" where
  "create_store rng io w vmk options k1 k2 volume_id codec =
     (case res_bind (validate_options options)
          (\<lambda>_. compute_geometry (sio_sector_size io) (sio_total_sectors io) options) of
        Inl e \<Rightarrow> (Inl e, w)
      | Inr geom \<Rightarrow>
          let header = \<lparr>jh_vendor_id = 0, jh_metadata_version = 1, jh_vendor_version = 0,
                jh_metadata_size = metadata_size options, jh_sector_size = sio_sector_size io,
                jh_header_replica_count = ucast (use_header options),
                jh_footer_replica_count = ucast (use_footer options),
                jh_volume_id = volume_id, jh_vendor_reserved = replicate VENDOR_RESERVED_SIZE 0\<rparr>;
              st = \<lparr>js_io = io, js_options = options, js_vmk = vmk, js_geometry = geom,
                js_volume_sectors = sio_total_sectors io, js_header = header,
                js_secrets = \<lparr>fvek_key1 = k1, fvek_key2 = k2\<rparr>, js_codec = codec\<rparr>;
              cells = \<lparr>jc_offset = 0, jc_state = as_u16 Encrypt\<rparr>
          in (case write_all_replicas rng st cells w of
                (Inl e, w1) \<Rightarrow> (Inl e, w1)
              | (Inr _, w1) \<Rightarrow> (Inr (st, cells), w1)))"


section \<open>Opening\<close>

primrec reader_open_loop ::
    "jvck_crypto \<Rightarrow> 'w sector_io \<Rightarrow> 'w \<Rightarrow> u64 list \<Rightarrow> 'w jvck_reader vck_result" where
  "reader_open_loop C io w [] = Inl (NotFound ''no JVCK metadata present'')"
| "reader_open_loop C io w (lba # lbas) =
     res_bind (read_block io w (sio_sector_size io) lba) (\<lambda>block.
     if \<not> is_ok (verify_crc C block) then reader_open_loop C io w lbas
     else res_bind (parse_header C block) (\<lambda>header.
       let options = \<lparr>use_header = ucast (jh_header_replica_count header),
             use_footer = ucast (jh_footer_replica_count header), metadata_size = jh_metadata_size header\<rparr>
       in res_bind (compute_geometry (sio_sector_size io) (sio_total_sectors io) options) (\<lambda>geom.
          Inr \<lparr>jr_io = io, jr_options = options, jr_geometry = geom,
               jr_volume_sectors = sio_total_sectors io, jr_header = header\<rparr>)))"

definition reader_open :: "jvck_crypto \<Rightarrow> 'w sector_io \<Rightarrow> 'w \<Rightarrow> 'w jvck_reader vck_result" where
  "reader_open C io w =
     (if unat (sio_sector_size io) < METADATA_BLOCK_SIZE then Inl (Unsupported ''sector size smaller than 512'')
      else if sio_total_sectors io = 0 then Inl (NotFound ''empty volume'')
      else reader_open_loop C io w [sio_total_sectors io - 1, 0])"

definition reader_lbas :: "'w jvck_reader \<Rightarrow> u64 list" where
  "reader_lbas rd = metadata_sector_lbas (jr_volume_sectors rd)
     (replica_sectors (metadata_size (jr_options rd)) (g_sector_size (jr_geometry rd)))
     (use_header (jr_options rd)) (use_footer (jr_options rd))"

definition reader_ctx :: "'w jvck_reader \<Rightarrow> bytes \<Rightarrow> nat \<Rightarrow> 'w replica_ctx" where
  "reader_ctx rd block idx = make_ctx (jr_header rd) (jr_io rd) (jr_options rd) (jr_volume_sectors rd)
     (g_sector_size (jr_geometry rd)) block idx"

definition reader_replica_ctx ::
    "jvck_crypto \<Rightarrow> 'w jvck_reader \<Rightarrow> 'w \<Rightarrow> nat \<Rightarrow> 'w replica_ctx vck_result" where
  "reader_replica_ctx C rd w replica_index =
     (if replica_index < length (reader_lbas rd)
      then res_bind (read_block (jr_io rd) w (g_sector_size (jr_geometry rd)) (reader_lbas rd ! replica_index))
        (\<lambda>block. res_bind (verify_crc C block) (\<lambda>_. Inr (reader_ctx rd block replica_index)))
      else Inl (NotFound ''replica index out of range''))"

text \<open>The selection loop of \<open>into_store\<close>: the first accepted replica, or the last error.\<close>

type_synonym 'w selector = "'w replica_ctx \<Rightarrow> ('w metadata_codec \<times> unsealed) vck_result"

primrec select_loop ::
    "jvck_crypto \<Rightarrow> 'w jvck_reader \<Rightarrow> 'w \<Rightarrow> 'w selector \<Rightarrow> nat \<Rightarrow> u64 list \<Rightarrow> vck_error option
      \<Rightarrow> ('w metadata_codec \<times> unsealed) vck_result" where
  "select_loop C rd w select idx [] last_err =
     Inl (case last_err of Some e \<Rightarrow> e | None \<Rightarrow> NotFound ''no JVCK metadata replica could be unsealed'')"
| "select_loop C rd w select idx (lba # lbas) last_err =
     (case read_block (jr_io rd) w (g_sector_size (jr_geometry rd)) lba of
        Inl e \<Rightarrow> select_loop C rd w select (idx + 1) lbas (Some e)
      | Inr block \<Rightarrow>
          if \<not> is_ok (verify_crc C block) then select_loop C rd w select (idx + 1) lbas last_err
          else case select (reader_ctx rd block idx) of
            Inr pair \<Rightarrow> Inr pair
          | Inl e \<Rightarrow> select_loop C rd w select (idx + 1) lbas (Some e))"

definition into_store ::
    "jvck_crypto \<Rightarrow> 'w jvck_reader \<Rightarrow> 'w \<Rightarrow> bytes \<Rightarrow> 'w selector \<Rightarrow> ('w jvck_store \<times> jvck_cells) vck_result" where
  "into_store C rd w vmk select =
     res_map (\<lambda>(codec, unsealed).
         let st = \<lparr>js_io = jr_io rd, js_options = jr_options rd, js_vmk = vmk, js_geometry = jr_geometry rd,
               js_volume_sectors = jr_volume_sectors rd, js_header = jr_header rd,
               js_secrets = un_secrets unsealed, js_codec = codec\<rparr>;
             recovered = (case load_offset C st w of Inr off \<Rightarrow> off | Inl _ \<Rightarrow> un_encrypted_offset unsealed)
         in (st, \<lparr>jc_offset = recovered, jc_state = as_u16 (un_state unsealed)\<rparr>))
       (select_loop C rd w select 0 (reader_lbas rd) None)"

definition default_selector :: "jvck_crypto \<Rightarrow> 'w \<Rightarrow> bytes \<Rightarrow> 'w selector" where
  "default_selector C w vmk ctx =
     res_map (\<lambda>u. (jvck_cbc_codec C, u)) (mc_unseal (jvck_cbc_codec C) w ctx vmk)"

definition open_store ::
    "jvck_crypto \<Rightarrow> 'w sector_io \<Rightarrow> 'w \<Rightarrow> bytes \<Rightarrow> ('w jvck_store \<times> jvck_cells) vck_result" where
  "open_store C io w vmk =
     res_bind (reader_open C io w) (\<lambda>rd. into_store C rd w vmk (default_selector C w vmk))"


section \<open>Vendor data\<close>

definition vendor_data_sector_count :: "'w jvck_store \<Rightarrow> u64" where
  "vendor_data_sector_count st =
     (let rs = replica_sectors (metadata_size (js_options st)) (g_sector_size (js_geometry st))
      in if rs = 0 then 0 else rs - 1)"

definition vendor_data_base_lba :: "'w jvck_store \<Rightarrow> nat \<Rightarrow> u64 option" where
  "vendor_data_base_lba st replica_index = vendor_data_base_lba_at (js_volume_sectors st)
     (replica_sectors (metadata_size (js_options st)) (g_sector_size (js_geometry st)))
     (use_header (js_options st)) (use_footer (js_options st)) replica_index"

definition vendor_data_lba_checked :: "'w jvck_store \<Rightarrow> nat \<Rightarrow> u64 \<Rightarrow> nat \<Rightarrow> u64 vck_result" where
  "vendor_data_lba_checked st replica_index rel_sector len =
     (let ss = unat (g_sector_size (js_geometry st))
      in if bad_vendor_len ss len then Inl vendor_len_error
         else res_bind (ok_or (NotFound ''vendor data replica index out of range'')
                (vendor_data_base_lba st replica_index)) (\<lambda>base.
           if vendor_range_exceeds rel_sector (of_nat (len div ss)) (vendor_data_sector_count st)
           then Inl vendor_range_error else Inr (base + rel_sector)))"

definition read_vendor_data :: "'w jvck_store \<Rightarrow> 'w \<Rightarrow> nat \<Rightarrow> u64 \<Rightarrow> nat \<Rightarrow> bytes vck_result" where
  "read_vendor_data st w replica_index rel_sector len =
     res_bind (vendor_data_lba_checked st replica_index rel_sector len) (\<lambda>lba.
       sio_read_sectors (js_io st) w lba len)"

definition write_vendor_data :: "'w jvck_store \<Rightarrow> 'w \<Rightarrow> nat \<Rightarrow> u64 \<Rightarrow> bytes \<Rightarrow> unit vck_result \<times> 'w" where
  "write_vendor_data st w replica_index rel_sector buf =
     (case vendor_data_lba_checked st replica_index rel_sector (length buf) of
        Inl e \<Rightarrow> (Inl e, w)
      | Inr lba \<Rightarrow> sio_write_sectors (js_io st) w lba buf)"

primrec write_vendor_loop ::
    "'w jvck_store \<Rightarrow> u64 \<Rightarrow> bytes \<Rightarrow> nat list \<Rightarrow> 'w \<Rightarrow> unit vck_result \<times> 'w" where
  "write_vendor_loop st rel_sector buf [] w = (Inr (), w)"
| "write_vendor_loop st rel_sector buf (i # is) w =
     (case write_vendor_data st w i rel_sector buf of
        (Inl e, w1) \<Rightarrow> (Inl e, w1)
      | (Inr _, w1) \<Rightarrow> write_vendor_loop st rel_sector buf is w1)"

definition store_replica_count :: "'w jvck_store \<Rightarrow> nat" where
  "store_replica_count st = unat (use_header (js_options st) + use_footer (js_options st))"

definition write_vendor_data_all :: "'w jvck_store \<Rightarrow> 'w \<Rightarrow> u64 \<Rightarrow> bytes \<Rightarrow> unit vck_result \<times> 'w" where
  "write_vendor_data_all st w rel_sector buf =
     (case vendor_data_lba_checked st 0 rel_sector (length buf) of
        Inl e \<Rightarrow> (Inl e, w)
      | Inr _ \<Rightarrow> write_vendor_loop st rel_sector buf [0..<store_replica_count st] w)"

definition reader_read_vendor_data :: "'w jvck_reader \<Rightarrow> 'w \<Rightarrow> nat \<Rightarrow> u64 \<Rightarrow> nat \<Rightarrow> bytes vck_result" where
  "reader_read_vendor_data rd w replica_index rel_sector len =
     (let sector_size = g_sector_size (jr_geometry rd); ss = unat sector_size
      in if bad_vendor_len ss len then Inl vendor_len_error
         else let rs = replica_sectors (metadata_size (jr_options rd)) sector_size
              in res_bind (ok_or (NotFound ''vendor data replica index out of range'')
                  (vendor_data_base_lba_at (jr_volume_sectors rd) rs (use_header (jr_options rd))
                    (use_footer (jr_options rd)) replica_index)) (\<lambda>base.
                 if vendor_range_exceeds rel_sector (of_nat (len div ss)) (if rs = 0 then 0 else rs - 1)
                 then Inl vendor_range_error
                 else sio_read_sectors (jr_io rd) w (base + rel_sector) len))"

definition set_vendor_reserved ::
    "'w random_source \<Rightarrow> 'w jvck_store \<Rightarrow> jvck_cells \<Rightarrow> 'w \<Rightarrow> bytes \<Rightarrow> unit vck_result \<times> 'w jvck_store \<times> 'w" where
  "set_vendor_reserved rng st cells w reserved =
     (let st' = st\<lparr>js_header := (js_header st)\<lparr>jh_vendor_reserved := reserved\<rparr>\<rparr>;
          (r, w1) = write_all_replicas rng st' cells w
      in (r, st', w1))"


section \<open>\<open>impl EncryptedOffsetStore\<close>\<close>

definition js_load :: "jvck_crypto \<Rightarrow> 'w jvck_store \<Rightarrow> jvck_cells \<times> 'w \<Rightarrow> encrypted_offset vck_result" where
  "js_load C st cw =
     res_map (\<lambda>sector. \<lparr>eo_sector = sector, eo_total_sectors = g_data_sectors (js_geometry st)\<rparr>)
       (load_offset C st (snd cw))"

definition js_store ::
    "'w random_source \<Rightarrow> 'w jvck_store \<Rightarrow> jvck_cells \<times> 'w \<Rightarrow> encrypted_offset
      \<Rightarrow> unit vck_result \<times> jvck_cells \<times> 'w" where
  "js_store rng st cw off =
     (let cells = (fst cw)\<lparr>jc_offset := eo_sector off\<rparr>;
          (r, w1) = write_all_replicas rng st cells (snd cw)
      in (r, cells, w1))"

definition js_load_state :: "jvck_cells \<times> 'w \<Rightarrow> volume_state vck_result" where
  "js_load_state cw = Inr (from_u16 (jc_state (fst cw)))"

definition js_store_state ::
    "'w random_source \<Rightarrow> 'w jvck_store \<Rightarrow> jvck_cells \<times> 'w \<Rightarrow> volume_state
      \<Rightarrow> unit vck_result \<times> jvck_cells \<times> 'w" where
  "js_store_state rng st cw s =
     (let cells = (fst cw)\<lparr>jc_state := as_u16 s\<rparr>;
          (r, w1) = write_all_replicas rng st cells (snd cw)
      in (r, cells, w1))"

definition jvck_offset_store ::
    "jvck_crypto \<Rightarrow> 'w random_source \<Rightarrow> 'w jvck_store \<Rightarrow> (jvck_cells \<times> 'w) offset_store" where
  "jvck_offset_store C rng st =
     \<lparr>os_load = js_load C st,
      os_store = js_store rng st,
      os_flush = (\<lambda>cw. (Inr (), cw)),
      os_load_state = js_load_state,
      os_store_state = js_store_state rng st\<rparr>"



section \<open>What the recovery scan returns\<close>

text \<open>The offset a single replica offers: none when it cannot be read, fails the checksum
  or does not unseal.\<close>

definition replica_offset :: "jvck_crypto \<Rightarrow> 'w jvck_store \<Rightarrow> 'w \<Rightarrow> nat \<Rightarrow> u64 \<Rightarrow> u64 option" where
  "replica_offset C st w idx lba =
     (case read_block (js_io st) w (g_sector_size (js_geometry st)) lba of
        Inl _ \<Rightarrow> None
      | Inr block \<Rightarrow>
          if is_ok (verify_crc C block)
          then res_ok (mc_read_offset (js_codec st) w
            (make_ctx (js_header st) (js_io st) (js_options st) (js_volume_sectors st)
              (g_sector_size (js_geometry st)) block idx) (js_vmk st))
          else None)"

definition replica_offsets :: "jvck_crypto \<Rightarrow> 'w jvck_store \<Rightarrow> 'w \<Rightarrow> u64 list" where
  "replica_offsets C st w =
     List.map_filter (\<lambda>(idx, lba). replica_offset C st w idx lba) (enumerate 0 (store_lbas st))"

lemma load_offset_loop_fold:
  "load_offset_loop C st w idx lbas best =
   fold (\<lambda>off b. best_offset b off) (List.map_filter (\<lambda>(i, lba). replica_offset C st w i lba) (enumerate idx lbas)) best"
  by (induction lbas arbitrary: idx best)
    (auto simp: replica_offset_def List.map_filter_simps split: sum.split)

lemma fold_best_offset:
  "fold (\<lambda>off b. best_offset b off) xs (Some m) = Some (fold max xs m)"
  by (induction xs arbitrary: m) (simp_all add: best_offset_def max.commute)

lemma load_offset_max:
  "load_offset C st w = (if replica_offsets C st w = [] then Inl (NotFound ''no valid JVCK metadata replica'')
     else Inr (Max (set (replica_offsets C st w))))"
proof (cases "replica_offsets C st w")
  case Nil
  then show ?thesis
    by (simp add: load_offset_def load_offset_loop_fold replica_offsets_def)
next
  case (Cons x xs)
  then have "fold (\<lambda>off b. best_offset b off) (replica_offsets C st w) None = Some (Max (set (replica_offsets C st w)))"
    by (simp add: Max.set_eq_fold fold_best_offset [unfolded best_offset_def] best_offset_def del: set_simps)
  then show ?thesis
    using Cons by (simp add: load_offset_def load_offset_loop_fold replica_offsets_def)
qed


section \<open>Well-formed stores\<close>

definition store_ok :: "'w sector_io \<Rightarrow> 'w metadata_codec \<Rightarrow> 'w jvck_store \<Rightarrow> bool" where
  "store_ok io codec st \<longleftrightarrow>
     js_io st = io \<and> js_codec st = codec \<and>
     compute_geometry (sio_sector_size io) (sio_total_sectors io) (js_options st) = Inr (js_geometry st) \<and>
     js_volume_sectors st = sio_total_sectors io \<and>
     unat (use_header (js_options st)) < 256 \<and> unat (use_footer (js_options st)) < 256 \<and>
     use_header (js_options st) + use_footer (js_options st) \<noteq> 0 \<and>
     wf_header (js_header st) \<and> wf_secrets (js_secrets st) \<and>
     jh_header_replica_count (js_header st) = ucast (use_header (js_options st)) \<and>
     jh_footer_replica_count (js_header st) = ucast (use_footer (js_options st)) \<and>
     jh_metadata_size (js_header st) = metadata_size (js_options st)"

lemma store_ok_counts:
  assumes "store_ok io codec st"
  shows "unat (use_header (js_options st)) + unat (use_footer (js_options st)) < 2 ^ 32"
    "0 < unat (use_header (js_options st)) + unat (use_footer (js_options st))"
proof -
  show "unat (use_header (js_options st)) + unat (use_footer (js_options st)) < 2 ^ 32"
    using assms by (simp add: store_ok_def)
  show "0 < unat (use_header (js_options st)) + unat (use_footer (js_options st))"
  proof (rule ccontr)
    assume "\<not> ?thesis"
    then have "use_header (js_options st) = 0" "use_footer (js_options st) = 0"
      by (simp_all add: unat_eq_0)
    then show False
      using assms by (simp add: store_ok_def)
  qed
qed

lemma store_ok_layout:
  assumes "store_ok io codec st"
  shows "layout_ok (unat (sio_total_sectors io))
      (unat (replica_sectors (metadata_size (js_options st)) (sio_sector_size io)))
      (unat (use_header (js_options st))) (unat (use_footer (js_options st)))"
    "g_sector_size (js_geometry st) = sio_sector_size io" "512 \<le> unat (sio_sector_size io)"
proof -
  have g: "compute_geometry (sio_sector_size io) (sio_total_sectors io) (js_options st) = Inr (js_geometry st)"
    using assms by (simp add: store_ok_def)
  note c = compute_geometry_layout [OF g store_ok_counts(1) [OF assms]]
  show "layout_ok (unat (sio_total_sectors io))
      (unat (replica_sectors (metadata_size (js_options st)) (sio_sector_size io)))
      (unat (use_header (js_options st))) (unat (use_footer (js_options st)))"
    "g_sector_size (js_geometry st) = sio_sector_size io" "512 \<le> unat (sio_sector_size io)"
    by (fact c)+
qed

lemma store_lbas_in_volume:
  assumes "store_ok io codec st" "lba \<in> set (store_lbas st)"
  shows "unat lba < unat (sio_total_sectors io)"
  using metadata_lba_outside_data(1) [OF store_ok_layout(1) [OF assms(1)]] assms store_ok_layout(2) [OF assms(1)]
  by (simp add: store_lbas_def store_ok_def)

lemma store_lbas_nonempty: "store_ok io codec st \<Longrightarrow> store_lbas st \<noteq> []"
  using store_ok_counts(2) [of io codec st] length_metadata_sector_lbas
  by (metis length_greater_0_conv store_lbas_def)


lemma ucast_byte_roundtrip:
  fixes u :: u32
  assumes "unat u < 256"
  shows "(ucast (ucast u :: byte) :: u32) = u"
proof -
  have "unat (ucast u :: byte) = unat u"
    using assms by (simp add: unsigned_ucast_eq take_bit_nat_eq_self)
  then show ?thesis
    by (simp add: word_unat_eq_iff)
qed

lemma first_probe_sector:
  assumes "store_ok io codec st" "use_footer (js_options st) \<noteq> 0"
  shows "sio_total_sectors io - 1 \<in> set (store_lbas st)"
proof -
  let ?opt = "js_options st" and ?vs = "sio_total_sectors io"
  let ?rs = "replica_sectors (metadata_size ?opt) (sio_sector_size io)"
  let ?i = "unat (use_header ?opt) + unat (use_footer ?opt) - 1"
  note l = store_ok_layout(1) [OF assms(1)]
  have F: "0 < unat (use_footer ?opt)"
    using assms(2) by (simp add: unat_gt_0)
  then have i: "?i < unat (use_header ?opt) + unat (use_footer ?opt)"
    by simp
  have V: "1 \<le> unat ?vs"
    using l by (simp add: layout_ok_def)
  have "unat (metadata_sector_lbas ?vs ?rs (use_header ?opt) (use_footer ?opt) ! ?i) = unat (?vs - 1)"
    using unat_metadata_lba [OF l i] replica_md_last [OF l F] V by (simp add: unat_sub_no_wrap word_le_unat)
  then have "?vs - 1 = metadata_sector_lbas ?vs ?rs (use_header ?opt) (use_footer ?opt) ! ?i"
    by (simp add: word_unat_eq_iff)
  also have "\<dots> \<in> set (store_lbas st)"
    using i assms(1) store_ok_layout(2) [OF assms(1)] by (simp add: store_lbas_def store_ok_def)
  finally show ?thesis .
qed

lemma second_probe_sector:
  assumes "store_ok io codec st" "use_footer (js_options st) = 0"
  shows "0 \<in> set (store_lbas st)"
proof -
  have "0 < unat (use_header (js_options st))"
    using store_ok_counts(2) [OF assms(1)] assms(2) by simp
  then show ?thesis
    by (force simp: store_lbas_def metadata_sector_lbas_def)
qed


section \<open>The store over a reliable device\<close>

text \<open>The environment of a store: a reliable device whose capacity covers the volume, a codec
  that meets its contract and a randomness source that delivers and leaves the device alone.\<close>

locale jvck_env = dev: reliable_device io invar content cap + cod: metadata_codec_spec C codec ok
  for io :: "'w sector_io" and invar :: "'w \<Rightarrow> bool" and content :: "'w \<Rightarrow> nat \<Rightarrow> bytes" and cap :: nat
    and C :: jvck_crypto and codec :: "'w metadata_codec" and ok :: bool +
  fixes rng :: "'w random_source"
  assumes cap_total: "invar w \<Longrightarrow> unat (sio_total_sectors io) \<le> cap"
    and codec_ok: "invar w \<Longrightarrow> ok"
    and rng_ok: "invar w \<Longrightarrow> \<exists>salt w'. fill_random rng w n = (Inr salt, w') \<and> length salt = n \<and>
      invar w' \<and> content w' = content w"
begin

definition md_sector :: "bytes \<Rightarrow> bytes" where
  "md_sector block = buf_write 0 block (replicate (unat (sio_sector_size io)) 0)"

lemma length_md_sector:
  "length block = METADATA_BLOCK_SIZE \<Longrightarrow> 512 \<le> unat (sio_sector_size io) \<Longrightarrow>
   length (md_sector block) = unat (sio_sector_size io)"
  by (simp add: md_sector_def METADATA_BLOCK_SIZE_def)

lemma write_block_ok:
  assumes "invar w" "unat lba < cap" "length block = METADATA_BLOCK_SIZE" "512 \<le> unat (sio_sector_size io)"
  obtains w' where "write_block io w (sio_sector_size io) lba block = (Inr (), w')" "invar w'"
    "content w' = (content w)(unat lba := md_sector block)"
proof -
  let ?ss = "unat (sio_sector_size io)"
  have len: "length (md_sector block) = 1 * ?ss"
    using length_md_sector [OF assms(3,4)] by simp
  have lt: "length (md_sector block) < 2 ^ 32"
    using len u32_lt [of "sio_sector_size io"] by simp
  have "unat lba + 1 \<le> cap"
    using assms(2) by simp
  then obtain w' where w': "sio_write_sectors io w lba (md_sector block) = (Inr (), w')" "invar w'"
    "content w' = put_sectors ?ss (unat lba) (md_sector block) (content w)"
    using dev.write_reliable [OF assms(1) _ len lt] by blast
  have div: "length (md_sector block) div ?ss = 1"
    using len assms(4) by simp
  have "put_sectors ?ss (unat lba) (md_sector block) (content w) = (content w)(unat lba := md_sector block)"
  proof
    fix i
    show "put_sectors ?ss (unat lba) (md_sector block) (content w) i = ((content w)(unat lba := md_sector block)) i"
      unfolding put_sectors_def div using len by (cases "i = unat lba") auto
  qed
  then show ?thesis
    using that w' by (simp add: write_block_def md_sector_def)
qed

lemma read_block_ok:
  assumes "invar w" "unat lba < cap"
  shows "read_block io w (sio_sector_size io) lba = Inr (buf_slice 0 METADATA_BLOCK_SIZE (content w (unat lba)))"
proof -
  have "unat lba + 1 \<le> cap"
    using assms(2) by simp
  then have "sio_read_sectors io w lba (unat (sio_sector_size io)) = Inr (content w (unat lba))"
    using dev.read_reliable [OF assms(1), of lba 1] u32_lt [of "sio_sector_size io"]
    by (simp add: get_sectors_def)
  then show ?thesis
    by (simp add: read_block_def)
qed

lemma md_sector_block:
  assumes "length block = METADATA_BLOCK_SIZE" "512 \<le> unat (sio_sector_size io)"
  shows "buf_slice 0 METADATA_BLOCK_SIZE (md_sector block) = block"
  unfolding md_sector_def using assms by (intro slice_write_same) (simp_all add: METADATA_BLOCK_SIZE_def)

lemma write_blocks_ok:
  assumes "512 \<le> unat (sio_sector_size io)" "length block = METADATA_BLOCK_SIZE"
  shows "invar w \<Longrightarrow> \<forall>lba\<in>set lbas. unat lba < cap \<Longrightarrow>
    \<exists>w'. write_blocks io (sio_sector_size io) block lbas w = (Inr (), w') \<and> invar w' \<and>
      content w' = (\<lambda>i. if i \<in> unat ` set lbas then md_sector block else content w i)"
proof (induction lbas arbitrary: w)
  case (Cons lba lbas)
  obtain w1 where w1: "write_block io w (sio_sector_size io) lba block = (Inr (), w1)" "invar w1"
    "content w1 = (content w)(unat lba := md_sector block)"
    using write_block_ok [OF Cons.prems(1) _ assms(2,1)] Cons.prems(2) by auto
  obtain w2 where "write_blocks io (sio_sector_size io) block lbas w1 = (Inr (), w2)" "invar w2"
    "content w2 = (\<lambda>i. if i \<in> unat ` set lbas then md_sector block else content w1 i)"
    using Cons.IH [OF w1(2)] Cons.prems(2) by auto
  then show ?case
    using w1 by (auto simp: fun_eq_iff)
qed (simp add: fun_eq_iff)

text \<open>Rewriting all replicas succeeds and changes the metadata sectors only, which then all
  hold the same sealed block.\<close>

lemma write_all_replicas_ok:
  assumes "store_ok io codec st" "invar w"
  obtains salt block w' where "length salt = SALT_SIZE"
    "mc_seal codec (js_header st) (js_secrets st) (jc_offset cells) (from_u16 (jc_state cells)) salt (js_vmk st)
       = Inr block"
    "write_all_replicas rng st cells w = (Inr (), w')" "invar w'"
    "content w' = (\<lambda>i. if i \<in> unat ` set (store_lbas st) then md_sector block else content w i)"
proof -
  obtain salt w1 where w1: "fill_random rng w SALT_SIZE = (Inr salt, w1)" "length salt = SALT_SIZE" "invar w1"
    "content w1 = content w"
    using rng_ok [OF assms(2)] by blast
  have wf: "wf_header (js_header st)" "wf_secrets (js_secrets st)" "js_codec st = codec" "js_io st = io"
    using assms(1) by (simp_all add: store_ok_def)
  obtain block where block: "mc_seal codec (js_header st) (js_secrets st) (jc_offset cells)
      (from_u16 (jc_state cells)) salt (js_vmk st) = Inr block" "length block = METADATA_BLOCK_SIZE"
    using cod.seal_ok [OF codec_ok [OF assms(2)] wf(1,2) w1(2)] by blast
  have "\<forall>lba\<in>set (store_lbas st). unat lba < cap"
    using store_lbas_in_volume [OF assms(1)] cap_total [OF assms(2)] by fastforce
  then obtain w' where "write_blocks io (sio_sector_size io) block (store_lbas st) w1 = (Inr (), w')" "invar w'"
    "content w' = (\<lambda>i. if i \<in> unat ` set (store_lbas st) then md_sector block else content w i)"
    using write_blocks_ok [OF store_ok_layout(3) [OF assms(1)] block(2) w1(3), of "store_lbas st", unfolded w1(4)] by blast
  then show ?thesis
    using that [OF w1(2) block(1)] w1(1) block wf store_ok_layout(2) [OF assms(1)]
    by (simp add: write_all_replicas_def)
qed

text \<open>A world in which every metadata sector of the store holds the block sealed for the
  given cells.\<close>

definition replicas_hold :: "'w jvck_store \<Rightarrow> jvck_cells \<Rightarrow> 'w \<Rightarrow> bool" where
  "replicas_hold st cells w \<longleftrightarrow>
     (\<exists>salt block. length salt = SALT_SIZE \<and>
        mc_seal codec (js_header st) (js_secrets st) (jc_offset cells) (from_u16 (jc_state cells)) salt (js_vmk st)
          = Inr block \<and>
        (\<forall>lba \<in> set (store_lbas st). content w (unat lba) = md_sector block))"

lemma write_all_replicas_hold:
  assumes "store_ok io codec st" "invar w"
  obtains w' where "write_all_replicas rng st cells w = (Inr (), w')" "invar w'" "replicas_hold st cells w'"
    "\<forall>i. i \<notin> unat ` set (store_lbas st) \<longrightarrow> content w' i = content w i"
  by (rule write_all_replicas_ok [OF assms, of cells], rule that) (auto simp: replicas_hold_def)

lemma hold_read_block:
  assumes "store_ok io codec st" "invar w" "replicas_hold st cells w" "lba \<in> set (store_lbas st)"
  obtains salt block where "length salt = SALT_SIZE"
    "mc_seal codec (js_header st) (js_secrets st) (jc_offset cells) (from_u16 (jc_state cells)) salt (js_vmk st)
       = Inr block"
    "read_block io w (sio_sector_size io) lba = Inr block" "verify_crc C block = Inr ()"
    "parse_header C block = Inr (js_header st)" "length block = METADATA_BLOCK_SIZE"
proof -
  obtain salt block where b: "length salt = SALT_SIZE"
    "mc_seal codec (js_header st) (js_secrets st) (jc_offset cells) (from_u16 (jc_state cells)) salt (js_vmk st)
       = Inr block" "content w (unat lba) = md_sector block"
    using assms(3,4) by (auto simp: replicas_hold_def)
  have "wf_header (js_header st)" "wf_secrets (js_secrets st)"
    using assms(1) by (simp_all add: store_ok_def)
  note v = cod.seal_verifies [OF codec_ok [OF assms(2)] this b(1,2)]
  have "unat lba < cap"
    using store_lbas_in_volume [OF assms(1,4)] cap_total [OF assms(2)] by simp
  then have "read_block io w (sio_sector_size io) lba = Inr block"
    using read_block_ok [OF assms(2)] b(3) md_sector_block [OF v(1) store_ok_layout(3) [OF assms(1)]] by simp
  then show ?thesis
    using that b v by blast
qed

lemma hold_replica_offset:
  assumes "store_ok io codec st" "invar w" "replicas_hold st cells w" "lba \<in> set (store_lbas st)"
  shows "replica_offset C st w idx lba = Some (jc_offset cells)"
proof -
  obtain salt block where b: "length salt = SALT_SIZE"
    "mc_seal codec (js_header st) (js_secrets st) (jc_offset cells) (from_u16 (jc_state cells)) salt (js_vmk st)
       = Inr block"
    "read_block io w (sio_sector_size io) lba = Inr block" "verify_crc C block = Inr ()"
    using hold_read_block [OF assms] by metis
  have wf: "wf_header (js_header st)" "wf_secrets (js_secrets st)" "js_codec st = codec" "js_io st = io"
    "g_sector_size (js_geometry st) = sio_sector_size io"
    using assms(1) store_ok_layout(2) [OF assms(1)] by (simp_all add: store_ok_def)
  let ?ctx = "make_ctx (js_header st) io (js_options st) (js_volume_sectors st) (sio_sector_size io) block idx"
  have "mc_read_offset codec w ?ctx (js_vmk st) = Inr (jc_offset cells)"
    by (rule cod.read_offset_seal [OF codec_ok [OF assms(2)] wf(1,2) b(1)])
      (use b(2) in \<open>simp add: make_ctx_def Let_def\<close>)
  then show ?thesis
    using b(3,4) wf by (simp add: replica_offset_def)
qed

lemma hold_load_offset:
  assumes "store_ok io codec st" "invar w" "replicas_hold st cells w"
  shows "load_offset C st w = Inr (jc_offset cells)"
proof -
  have "List.map_filter (\<lambda>(i, lba). replica_offset C st w i lba) (enumerate n lbas) = replicate (length lbas) (jc_offset cells)"
    if "set lbas \<subseteq> set (store_lbas st)" for n lbas
    using that
    by (induction lbas arbitrary: n) (simp_all add: List.map_filter_simps hold_replica_offset [OF assms])
  then have offs: "replica_offsets C st w = replicate (length (store_lbas st)) (jc_offset cells)"
    by (simp add: replica_offsets_def)
  have "store_lbas st \<noteq> []"
    using store_lbas_nonempty [OF assms(1)] .
  then show ?thesis
    by (simp add: load_offset_max offs set_replicate_conv_if)
qed

text \<open>Reopening: with the codec's own selector the opened store has the same layout and keys
  and recovers offset and direction.\<close>

lemma hold_select_loop:
  assumes "store_ok io codec st" "invar w" "replicas_hold st cells w" "lbas \<noteq> []" "set lbas \<subseteq> set (store_lbas st)"
    "jr_io rd = io" "g_sector_size (jr_geometry rd) = sio_sector_size io"
    "\<And>ctx u. mc_unseal codec w ctx (js_vmk st) = Inr u \<Longrightarrow> select ctx = Inr (codec, u)"
  shows "select_loop C rd w select idx lbas e =
    Inr (codec, \<lparr>un_encrypted_offset = jc_offset cells, un_state = from_u16 (jc_state cells), un_secrets = js_secrets st\<rparr>)"
proof -
  obtain lba rest where l: "lbas = lba # rest" "lba \<in> set (store_lbas st)"
    using assms(4,5) by (cases lbas) auto
  obtain salt block where b: "length salt = SALT_SIZE"
    "mc_seal codec (js_header st) (js_secrets st) (jc_offset cells) (from_u16 (jc_state cells)) salt (js_vmk st)
       = Inr block"
    "read_block io w (sio_sector_size io) lba = Inr block" "verify_crc C block = Inr ()"
    using hold_read_block [OF assms(1-3) l(2)] by metis
  have wf: "wf_header (js_header st)" "wf_secrets (js_secrets st)"
    using assms(1) by (simp_all add: store_ok_def)
  have "mc_unseal codec w (reader_ctx rd block idx) (js_vmk st) =
      Inr \<lparr>un_encrypted_offset = jc_offset cells, un_state = from_u16 (jc_state cells), un_secrets = js_secrets st\<rparr>"
    by (rule cod.unseal_seal [OF codec_ok [OF assms(2)] wf b(1)])
      (use b(2) in \<open>simp add: reader_ctx_def make_ctx_def Let_def\<close>)
  then show ?thesis
    using assms(6-8) b(3,4) by (simp add: l(1))
qed

lemma hold_reader_open:
  assumes "store_ok io codec st" "invar w" "replicas_hold st cells w"
    "use_footer (js_options st) \<noteq> 0 \<or>
     \<not> is_ok (verify_crc C (buf_slice 0 METADATA_BLOCK_SIZE (content w (unat (sio_total_sectors io) - 1))))"
  shows "reader_open C io w = Inr \<lparr>jr_io = io, jr_options = js_options st, jr_geometry = js_geometry st,
      jr_volume_sectors = sio_total_sectors io, jr_header = js_header st\<rparr>"
proof -
  let ?rd = "\<lparr>jr_io = io, jr_options = js_options st, jr_geometry = js_geometry st,
      jr_volume_sectors = sio_total_sectors io, jr_header = js_header st\<rparr>"
  have found: "reader_open_loop C io w (lba # lbas) = Inr ?rd" if lba: "lba \<in> set (store_lbas st)" for lba lbas
  proof -
    obtain block where b: "read_block io w (sio_sector_size io) lba = Inr block" "verify_crc C block = Inr ()"
      "parse_header C block = Inr (js_header st)"
      using hold_read_block [OF assms(1-3) lba] by metis
    have "\<lparr>use_header = ucast (jh_header_replica_count (js_header st)),
        use_footer = ucast (jh_footer_replica_count (js_header st)),
        metadata_size = jh_metadata_size (js_header st)\<rparr> = js_options st"
      using assms(1) by (cases "js_options st") (simp add: store_ok_def ucast_byte_roundtrip)
    then show ?thesis
      using b assms(1) by (simp add: store_ok_def)
  qed
  have Vpos: "0 < unat (sio_total_sectors io)"
    using store_ok_layout(1) [OF assms(1)] by (simp add: layout_ok_def)
  then have V: "sio_total_sectors io \<noteq> 0"
    by auto
  have "reader_open_loop C io w [sio_total_sectors io - 1, 0] = Inr ?rd"
  proof (cases "use_footer (js_options st) = 0")
    case False
    then show ?thesis
      using found first_probe_sector [OF assms(1)] by simp
  next
    case True
    have le: "unat (sio_total_sectors io - 1) = unat (sio_total_sectors io) - 1"
      using V by (simp add: unat_minus_one)
    then have "unat (sio_total_sectors io - 1) < cap"
      using Vpos cap_total [OF assms(2)] by linarith
    then have "read_block io w (sio_sector_size io) (sio_total_sectors io - 1) =
        Inr (buf_slice 0 METADATA_BLOCK_SIZE (content w (unat (sio_total_sectors io) - 1)))"
      using read_block_ok [OF assms(2)] le by simp
    then have "reader_open_loop C io w [sio_total_sectors io - 1, 0] = reader_open_loop C io w [0]"
      using assms(4) True by (subst reader_open_loop.simps) (simp del: reader_open_loop.simps)
    then show ?thesis
      using found [of 0 "[]"] second_probe_sector [OF assms(1) True] by simp
  qed
  then show ?thesis
    using store_ok_layout(3) [OF assms(1)] V
    by (simp add: reader_open_def METADATA_BLOCK_SIZE_def del: reader_open_loop.simps)
qed

lemma hold_reopen:
  assumes "store_ok io codec st" "invar w" "replicas_hold st cells w"
    "use_footer (js_options st) \<noteq> 0 \<or>
     \<not> is_ok (verify_crc C (buf_slice 0 METADATA_BLOCK_SIZE (content w (unat (sio_total_sectors io) - 1))))"
    "\<And>ctx u. mc_unseal codec w ctx (js_vmk st) = Inr u \<Longrightarrow> select ctx = Inr (codec, u)"
  shows "res_bind (reader_open C io w) (\<lambda>rd. into_store C rd w (js_vmk st) select) =
    Inr (st, \<lparr>jc_offset = jc_offset cells, jc_state = as_u16 (from_u16 (jc_state cells))\<rparr>)"
proof -
  let ?rd = "\<lparr>jr_io = io, jr_options = js_options st, jr_geometry = js_geometry st,
      jr_volume_sectors = sio_total_sectors io, jr_header = js_header st\<rparr>"
  have lbas: "reader_lbas ?rd = store_lbas st"
    using assms(1) by (simp add: reader_lbas_def store_lbas_def store_ok_def)
  have sel: "select_loop C ?rd w select 0 (reader_lbas ?rd) None =
      Inr (codec, \<lparr>un_encrypted_offset = jc_offset cells, un_state = from_u16 (jc_state cells), un_secrets = js_secrets st\<rparr>)"
    unfolding lbas
    by (rule hold_select_loop [OF assms(1-3) store_lbas_nonempty [OF assms(1)] order_refl])
      (use assms(5) store_ok_layout(2) [OF assms(1)] in simp_all)
  have st: "\<lparr>js_io = io, js_options = js_options st, js_vmk = js_vmk st, js_geometry = js_geometry st,
      js_volume_sectors = sio_total_sectors io, js_header = js_header st, js_secrets = js_secrets st,
      js_codec = codec\<rparr> = st"
    using assms(1) by (cases st) (simp add: store_ok_def)
  show ?thesis
    using sel hold_load_offset [OF assms(1-3)]
    by (simp add: hold_reader_open [OF assms(1-4)] into_store_def st)
qed

end


section \<open>The store on the driver's lower device with the default suite\<close>

definition rng_delivers :: "'w random_source \<Rightarrow> ('w \<Rightarrow> nat \<Rightarrow> byte) \<Rightarrow> bool" where
  "rng_delivers rng disk \<longleftrightarrow>
     (\<forall>w n. \<exists>salt w'. fill_random rng w n = (Inr salt, w') \<and> length salt = n \<and> disk w' = disk w)"

definition jvck_env_ok ::
    "'w nt_kernel \<Rightarrow> lower_device_io \<Rightarrow> ('w \<Rightarrow> nat \<Rightarrow> byte) \<Rightarrow> jvck_crypto \<Rightarrow> 'w random_source \<Rightarrow> bool" where
  "jvck_env_ok K me disk C rng \<longleftrightarrow> ld_reliable K me disk \<and> rng_delivers rng disk \<and> crypto_ok C"

interpretation jvck_ld: jvck_env "ld_sector_io K me" "\<lambda>w. jvck_env_ok K me disk C rng"
  "disk_sector disk (unat (ld_sector_size me))" "unat (ld_total_sectors me)"
  C "jvck_cbc_codec C" "crypto_ok C" rng
  for K :: "'w nt_kernel" and me disk C rng
proof (rule jvck_env.intro)
  show "reliable_device (ld_sector_io K me) (\<lambda>w. jvck_env_ok K me disk C rng)
      (disk_sector disk (unat (ld_sector_size me))) (unat (ld_total_sectors me))"
    by (rule reliable_device_cond [OF ldr.reliable_device_axioms]) (simp add: jvck_env_ok_def)
  show "metadata_codec_spec C (jvck_cbc_codec C :: 'w metadata_codec) (crypto_ok C)"
    by (rule cbc.metadata_codec_spec_axioms)
  show "jvck_env_axioms (ld_sector_io K me) (\<lambda>w. jvck_env_ok K me disk C rng)
      (disk_sector disk (unat (ld_sector_size me))) (unat (ld_total_sectors me)) (crypto_ok C) rng"
  proof (unfold_locales, goal_cases)
    case (1 w)
    then show ?case by (simp add: ld_sector_io_def byte_sector_io_def)
  next
    case (2 w)
    then show ?case by (simp add: jvck_env_ok_def)
  next
    case (3 w n)
    then obtain salt w' where "fill_random rng w n = (Inr salt, w')" "length salt = n" "disk w' = disk w"
      unfolding jvck_env_ok_def rng_delivers_def by blast
    then show ?case
      using 3 by (auto simp: disk_sector_def fun_eq_iff)
  qed
qed


section \<open>A concrete store\<close>

definition const_rng :: "(nat \<Rightarrow> byte) random_source" where
  "const_rng = Some (\<lambda>w n. (Inr (replicate n 0x5A), w))"

definition toy_device :: lower_device_io where
  "toy_device = ld_new 1 512 600"

definition toy_options :: jvck_options where
  "toy_options = \<lparr>use_header = 0, use_footer = 2, metadata_size = 0x20000\<rparr>"

definition toy_store :: "(nat \<Rightarrow> byte) jvck_store" where
  "toy_store = \<lparr>js_io = ld_sector_io ram_kernel toy_device, js_options = toy_options, js_vmk = [1, 2, 3],
     js_geometry = \<lparr>g_offset_sector = 0, g_data_sectors = 88, g_sector_size = 512\<rparr>,
     js_volume_sectors = 600, js_header = toy_header, js_secrets = toy_secrets,
     js_codec = jvck_cbc_codec toy_crypto\<rparr>"

lemma toy_env: "jvck_env_ok ram_kernel toy_device (\<lambda>w. w) toy_crypto const_rng"
proof -
  have "geometry_ok 512 600"
    by (simp add: geometry_ok_def)
  then show ?thesis
    using ram_ld_reliable toy_crypto_ok
    by (simp add: jvck_env_ok_def toy_device_def rng_delivers_def fill_random_def const_rng_def)
qed

lemma toy_geometry: "compute_geometry 512 600 toy_options =
    Inr \<lparr>g_offset_sector = 0, g_data_sectors = 88, g_sector_size = 512\<rparr>"
  by code_simp

lemma toy_store_ok: "store_ok (ld_sector_io ram_kernel toy_device) (jvck_cbc_codec toy_crypto) toy_store"
  using toy_geometry
  by (simp add: store_ok_def toy_store_def toy_options_def ld_sector_io_def byte_sector_io_def toy_device_def
      ld_new_def) (simp add: toy_header_def)


text \<open>Opening the volume again: what counts is the content of the disk.\<close>

lemma hold_open:
  assumes "jvck_env_ok K me disk C rng" "store_ok (ld_sector_io K me) (jvck_cbc_codec C) st"
    "jvck_ld.replicas_hold K me disk C st cells w"
    "use_footer (js_options st) \<noteq> 0 \<or> \<not> is_ok (verify_crc C (buf_slice 0 METADATA_BLOCK_SIZE
       (disk_sector disk (unat (ld_sector_size me)) w (unat (ld_total_sectors me) - 1))))"
  shows "open_store C (ld_sector_io K me) w (js_vmk st) =
    Inr (st, \<lparr>jc_offset = jc_offset cells, jc_state = as_u16 (from_u16 (jc_state cells))\<rparr>)"
proof -
  have "res_bind (reader_open C (ld_sector_io K me) w)
      (\<lambda>rd. into_store C rd w (js_vmk st) (default_selector C w (js_vmk st))) =
    Inr (st, \<lparr>jc_offset = jc_offset cells, jc_state = as_u16 (from_u16 (jc_state cells))\<rparr>)"
    by (rule jvck_ld.hold_reopen [OF assms(2,1,3)])
      (use assms(4) in \<open>simp_all add: default_selector_def ld_sector_io_def byte_sector_io_def\<close>)
  then show ?thesis
    by (simp add: open_store_def)
qed

lemma replicas_hold_sectors:
  assumes "\<And>lba. lba \<in> set (store_lbas st) \<Longrightarrow>
      disk_sector disk (unat (ld_sector_size me)) w' (unat lba) = disk_sector disk (unat (ld_sector_size me)) w (unat lba)"
    "jvck_ld.replicas_hold K me disk C st cells w"
  shows "jvck_ld.replicas_hold K me disk C st cells w'"
  using assms unfolding jvck_ld.replicas_hold_def by simp

lemma replicas_hold_disk:
  assumes "disk w' = disk w" "jvck_ld.replicas_hold K me disk C st cells w"
  shows "jvck_ld.replicas_hold K me disk C st cells w'"
  by (rule replicas_hold_sectors [OF _ assms(2)]) (simp add: disk_sector_def assms(1))

lemma js_store_hold:
  assumes "jvck_env_ok K me disk C rng" "store_ok (ld_sector_io K me) (jvck_cbc_codec C) st"
    "js_store rng st (cells, w) off = (r, cells', w')"
  shows "jvck_ld.replicas_hold K me disk C st (cells\<lparr>jc_offset := eo_sector off\<rparr>) w'"
proof -
  have "write_all_replicas rng st (cells\<lparr>jc_offset := eo_sector off\<rparr>) w = (r, w')"
    using assms(3) by (auto simp: js_store_def Let_def split: prod.splits)
  then show ?thesis
    using jvck_ld.write_all_replicas_hold [OF assms(2,1), of "cells\<lparr>jc_offset := eo_sector off\<rparr>" w] by (metis prod.inject)
qed

lemma write_all_reopen:
  assumes "jvck_env_ok K me disk C rng" "store_ok (ld_sector_io K me) (jvck_cbc_codec C) st"
    "write_all_replicas rng st cells w = (r, w')"
    "use_footer (js_options st) \<noteq> 0 \<or> \<not> is_ok (verify_crc C (buf_slice 0 METADATA_BLOCK_SIZE
       (disk_sector disk (unat (ld_sector_size me)) w' (unat (ld_total_sectors me) - 1))))"
  shows "open_store C (ld_sector_io K me) w' (js_vmk st) =
    Inr (st, \<lparr>jc_offset = jc_offset cells, jc_state = as_u16 (from_u16 (jc_state cells))\<rparr>)"
proof -
  have "jvck_ld.replicas_hold K me disk C st cells w'"
    using jvck_ld.write_all_replicas_hold [OF assms(2,1), of cells w] assms(3) by (metis prod.inject)
  then show ?thesis
    by (rule hold_open [OF assms(1,2) _ assms(4)])
qed

lemma js_store_reopen:
  assumes "jvck_env_ok K me disk C rng" "store_ok (ld_sector_io K me) (jvck_cbc_codec C) st"
    "js_store rng st (cells, w) off = (r, cells', w')"
    "use_footer (js_options st) \<noteq> 0 \<or> \<not> is_ok (verify_crc C (buf_slice 0 METADATA_BLOCK_SIZE
       (disk_sector disk (unat (ld_sector_size me)) w' (unat (ld_total_sectors me) - 1))))"
  shows "open_store C (ld_sector_io K me) w' (js_vmk st) =
    Inr (st, \<lparr>jc_offset = eo_sector off, jc_state = as_u16 (from_u16 (jc_state cells))\<rparr>)"
  using hold_open [OF assms(1,2) js_store_hold [OF assms(1-3)] assms(4)] by simp


section \<open>Properties\<close>

text \<open>The recovery scan returns the largest offset among the replicas that can be read,
  pass the checksum and unseal, and \<open>NotFound\<close> exactly when there is none; unreadable or
  damaged replicas never make it fail.\<close>

theorem recovery_returns_max:
  "load_offset C st w = (if replica_offsets C st w = [] then Inl (NotFound ''no valid JVCK metadata replica'')
     else Inr (Max (set (replica_offsets C st w))))"
  by (rule load_offset_max)

text \<open>Storing an offset on a reliable device succeeds, a later load returns exactly that
  offset together with the size of the data region, and no sector other than the metadata
  sectors of the replicas changes.\<close>

theorem store_then_load:
  assumes "jvck_env_ok K me disk C rng" "store_ok (ld_sector_io K me) (jvck_cbc_codec C) st"
  shows "\<exists>w'. js_store rng st (cells, w) off = (Inr (), cells\<lparr>jc_offset := eo_sector off\<rparr>, w') \<and>
    js_load C st (cells', w') =
      Inr \<lparr>eo_sector = eo_sector off, eo_total_sectors = g_data_sectors (js_geometry st)\<rparr> \<and>
    (\<forall>i. i \<notin> unat ` set (store_lbas st) \<longrightarrow>
       disk_sector disk (unat (ld_sector_size me)) w' i = disk_sector disk (unat (ld_sector_size me)) w i)"
proof -
  obtain w' where w': "write_all_replicas rng st (cells\<lparr>jc_offset := eo_sector off\<rparr>) w = (Inr (), w')"
    "jvck_ld.replicas_hold K me disk C st (cells\<lparr>jc_offset := eo_sector off\<rparr>) w'"
    "\<forall>i. i \<notin> unat ` set (store_lbas st) \<longrightarrow>
       disk_sector disk (unat (ld_sector_size me)) w' i = disk_sector disk (unat (ld_sector_size me)) w i"
    using jvck_ld.write_all_replicas_hold [OF assms(2,1)] by metis
  show ?thesis
    using w' jvck_ld.hold_load_offset [OF assms(2,1) w'(2)] by (auto simp: js_store_def js_load_def)
qed

theorem store_then_load_witness:
  "jvck_env_ok ram_kernel toy_device (\<lambda>w. w) toy_crypto const_rng \<and>
   (\<exists>w'. js_store const_rng toy_store (\<lparr>jc_offset = 0, jc_state = 0\<rparr>, \<lambda>a. 0) \<lparr>eo_sector = 40, eo_total_sectors = 88\<rparr>
       = (Inr (), \<lparr>jc_offset = 40, jc_state = 0\<rparr>, w') \<and>
     js_load toy_crypto toy_store (\<lparr>jc_offset = 0, jc_state = 0\<rparr>, w') = Inr \<lparr>eo_sector = 40, eo_total_sectors = 88\<rparr>)"
  using store_then_load [OF toy_env toy_store_ok, of "\<lparr>jc_offset = 0, jc_state = 0\<rparr>" "\<lambda>a. 0"
      "\<lparr>eo_sector = 40, eo_total_sectors = 88\<rparr>" "\<lparr>jc_offset = 0, jc_state = 0\<rparr>"] toy_env
  by (auto simp: toy_store_def)

text \<open>C13: progress survives a restart.  After the offset has been stored, opening the volume
  again from the device alone, with the same volume master key, yields the same store (layout,
  header and volume keys), the stored offset and the stored sweep direction.  For a volume
  without footer replicas the last sector of the volume must not itself pass for a metadata
  block, since the opener probes it first.\<close>

theorem reopen_recovers_progress:
  assumes "jvck_env_ok K me disk C rng" "store_ok (ld_sector_io K me) (jvck_cbc_codec C) st"
    "js_store rng st (cells, w) off = (r, cells', w')"
    "use_footer (js_options st) \<noteq> 0 \<or> \<not> is_ok (verify_crc C (buf_slice 0 METADATA_BLOCK_SIZE
       (disk_sector disk (unat (ld_sector_size me)) w' (unat (ld_total_sectors me) - 1))))"
  shows "open_store C (ld_sector_io K me) w' (js_vmk st) =
    Inr (st, \<lparr>jc_offset = eo_sector off, jc_state = as_u16 (from_u16 (jc_state cells))\<rparr>)"
  by (rule js_store_reopen [OF assms])

theorem reopen_recovers_progress_witness:
  "\<exists>w'. js_store const_rng toy_store (\<lparr>jc_offset = 60, jc_state = 1\<rparr>, \<lambda>a. 0) \<lparr>eo_sector = 40, eo_total_sectors = 88\<rparr>
       = (Inr (), \<lparr>jc_offset = 40, jc_state = 1\<rparr>, w') \<and>
     open_store toy_crypto (ld_sector_io ram_kernel toy_device) w' [1, 2, 3] =
       Inr (toy_store, \<lparr>jc_offset = 40, jc_state = 1\<rparr>)"
proof -
  let ?cells = "\<lparr>jc_offset = 60, jc_state = 1\<rparr>" and ?off = "\<lparr>eo_sector = 40, eo_total_sectors = 88\<rparr>"
  obtain w' where "write_all_replicas const_rng toy_store \<lparr>jc_offset = 40, jc_state = 1\<rparr> (\<lambda>a. 0) = (Inr (), w')"
    using jvck_ld.write_all_replicas_hold [OF toy_store_ok toy_env] by metis
  then have w': "js_store const_rng toy_store (?cells, \<lambda>a. 0) ?off = (Inr (), \<lparr>jc_offset = 40, jc_state = 1\<rparr>, w')"
    by (simp add: js_store_def)
  show ?thesis
    using reopen_recovers_progress [OF toy_env toy_store_ok w'] w'
    by (auto simp: toy_store_def toy_options_def from_u16_def as_u16_def)
qed

text \<open>C36: creating a volume with valid options that fit the device (with footer replicas, and
  at most 255 replicas on each side) on a reliable device succeeds with a well-formed store;
  the freshly created volume opens again with the same keys and layout, direction
  \<open>Encrypt\<close> and offset 0.\<close>

theorem create_then_open:
  assumes "jvck_env_ok K me disk C rng" "validate_options opt = Inr ()"
    "unat (use_header opt) < 256" "0 < unat (use_footer opt)" "unat (use_footer opt) < 256"
    "compute_geometry (ld_sector_size me) (ld_total_sectors me) opt = Inr geom"
    "length k1 = 32" "length k2 = 32" "length vid = 16"
  shows "\<exists>st w'. create_store rng (ld_sector_io K me) w vmk opt k1 k2 vid (jvck_cbc_codec C) =
      (Inr (st, \<lparr>jc_offset = 0, jc_state = 0\<rparr>), w') \<and>
    store_ok (ld_sector_io K me) (jvck_cbc_codec C) st \<and>
    js_secrets st = \<lparr>fvek_key1 = k1, fvek_key2 = k2\<rparr> \<and> js_geometry st = geom \<and>
    open_store C (ld_sector_io K me) w' vmk = Inr (st, \<lparr>jc_offset = 0, jc_state = 0\<rparr>)"
proof -
  let ?io = "ld_sector_io K me"
  have io: "sio_sector_size ?io = ld_sector_size me" "sio_total_sectors ?io = ld_total_sectors me"
    by (simp_all add: ld_sector_io_def byte_sector_io_def)
  define st where "st = \<lparr>js_io = ?io, js_options = opt, js_vmk = vmk, js_geometry = geom,
    js_volume_sectors = ld_total_sectors me,
    js_header = \<lparr>jh_vendor_id = 0, jh_metadata_version = 1, jh_vendor_version = 0,
      jh_metadata_size = metadata_size opt, jh_sector_size = ld_sector_size me,
      jh_header_replica_count = ucast (use_header opt), jh_footer_replica_count = ucast (use_footer opt),
      jh_volume_id = vid, jh_vendor_reserved = replicate VENDOR_RESERVED_SIZE 0\<rparr>,
    js_secrets = \<lparr>fvek_key1 = k1, fvek_key2 = k2\<rparr>, js_codec = jvck_cbc_codec C\<rparr>"
  define cells where "cells = \<lparr>jc_offset = 0, jc_state = 0\<rparr>"
  have "use_header opt + use_footer opt \<noteq> 0"
    using assms(2) by (simp add: validate_options_ok_iff replica_count_def)
  then have ok: "store_ok ?io (jvck_cbc_codec C) st"
    using assms(3-9) by (simp add: store_ok_def st_def io wf_header_def wf_secrets_def)
  obtain w' where w': "write_all_replicas rng st cells w = (Inr (), w')"
    "jvck_ld.replicas_hold K me disk C st cells w'"
    using jvck_ld.write_all_replicas_hold [OF ok assms(1)] by metis
  have "create_store rng ?io w vmk opt k1 k2 vid (jvck_cbc_codec C) = (Inr (st, cells), w')"
    using w'(1) assms(2,6) by (simp add: create_store_def io st_def cells_def as_u16_def)
  moreover have "use_footer (js_options st) \<noteq> 0"
    using assms(4) by (auto simp: st_def)
  then have "open_store C ?io w' vmk = Inr (st, \<lparr>jc_offset = jc_offset cells, jc_state = as_u16 (from_u16 (jc_state cells))\<rparr>)"
    using jvck_ld.hold_reopen [OF ok assms(1) w'(2), of "default_selector C w' vmk"]
    by (simp add: open_store_def default_selector_def st_def)
  ultimately show ?thesis
    using ok by (intro exI [of _ st] exI [of _ w'])
      (simp add: cells_def as_u16_def from_u16_def st_def)
qed

theorem create_then_open_witness:
  "\<exists>st w'. create_store const_rng (ld_sector_io ram_kernel toy_device) (\<lambda>a. 0) [9] toy_options
       (replicate 32 1) (replicate 32 2) (replicate 16 3) (jvck_cbc_codec toy_crypto) =
     (Inr (st, \<lparr>jc_offset = 0, jc_state = 0\<rparr>), w') \<and>
   open_store toy_crypto (ld_sector_io ram_kernel toy_device) w' [9] = Inr (st, \<lparr>jc_offset = 0, jc_state = 0\<rparr>)"
proof -
  have v: "validate_options toy_options = Inr ()"
    by code_simp
  have g: "compute_geometry (ld_sector_size toy_device) (ld_total_sectors toy_device) toy_options =
      Inr \<lparr>g_offset_sector = 0, g_data_sectors = 88, g_sector_size = 512\<rparr>"
    using toy_geometry by (simp add: toy_device_def ld_new_def)
  show ?thesis
    using create_then_open [OF toy_env v _ _ _ g, of "replicate 32 1" "replicate 32 2" "replicate 16 3" "\<lambda>a. 0" "[9]"]
    by (auto simp: toy_options_def)
qed

end
