(* ===== verification/Offset_Store.thy ===== *)
theory Offset_Store
  imports Jvck_Store
begin

text \<open>
  The contract of \<open>trait EncryptedOffsetStore\<close> that the sweep engine relies on, and the proof
  that the JVCK store provides it on the driver's lower device.

  \<open>offset_store_spec\<close> is what holds on any device: whatever the outcome, the operations only
  touch the sectors in \<open>md\<close>.  \<open>reliable_store\<close> adds that the operations succeed and that
  a load sees the last store.
\<close>

locale offset_store_spec =
  fixes store :: "'w offset_store" and invar :: "'w \<Rightarrow> bool"
    and content :: "'w \<Rightarrow> nat \<Rightarrow> bytes" and md :: "nat set"
  assumes store_frame: "invar w \<Longrightarrow> os_store store w off = (r, w') \<Longrightarrow>
      invar w' \<and> (\<forall>i. i \<notin> md \<longrightarrow> content w' i = content w i)"
    and flush_frame: "invar w \<Longrightarrow> os_flush store w = (r, w') \<Longrightarrow>
      invar w' \<and> (\<forall>i. i \<notin> md \<longrightarrow> content w' i = content w i)"
    and store_state_frame: "invar w \<Longrightarrow> os_store_state store w s = (r, w') \<Longrightarrow>
      invar w' \<and> (\<forall>i. i \<notin> md \<longrightarrow> content w' i = content w i)"

locale reliable_store = offset_store_spec +
  fixes tot :: u64
  assumes store_total: "invar w \<Longrightarrow> fst (os_store store w off) = Inr ()"
    and flush_total: "invar w \<Longrightarrow> fst (os_flush store w) = Inr ()"
    and store_state_total: "invar w \<Longrightarrow> fst (os_store_state store w s) = Inr ()"
    and load_store: "invar w \<Longrightarrow> os_store store w off = (r, w') \<Longrightarrow>
      os_load store w' = Inr \<lparr>eo_sector = eo_sector off, eo_total_sectors = tot\<rparr>"
    and load_state_store: "invar w \<Longrightarrow> os_store_state store w s = (r, w') \<Longrightarrow> os_load_state store w' = Inr s"
    and load_state_after_store: "invar w \<Longrightarrow> os_store store w off = (r, w') \<Longrightarrow>
      os_load_state store w' = os_load_state store w"


lemma offset_store_spec_cond:
  assumes "b \<Longrightarrow> offset_store_spec store (\<lambda>w. True) content md"
  shows "offset_store_spec store (\<lambda>w. b) content md"
  using assms by (cases b) (simp_all add: offset_store_spec_def)

lemma reliable_store_cond:
  assumes "b \<Longrightarrow> reliable_store store (\<lambda>w. True) content md tot"
  shows "reliable_store store (\<lambda>w. b) content md tot"
  using assms by (cases b) (simp_all add: reliable_store_def offset_store_spec_def reliable_store_axioms_def)


section \<open>Frame of the JVCK store\<close>

lemma js_store_result:
  "js_store rng st cw off = (r, cw') \<longleftrightarrow>
   write_all_replicas rng st ((fst cw)\<lparr>jc_offset := eo_sector off\<rparr>) (snd cw) = (r, snd cw') \<and>
   fst cw' = (fst cw)\<lparr>jc_offset := eo_sector off\<rparr>"
  by (cases "write_all_replicas rng st ((fst cw)\<lparr>jc_offset := eo_sector off\<rparr>) (snd cw)"; cases cw')
    (auto simp: js_store_def)

lemma js_store_state_result:
  "js_store_state rng st cw s = (r, cw') \<longleftrightarrow>
   write_all_replicas rng st ((fst cw)\<lparr>jc_state := as_u16 s\<rparr>) (snd cw) = (r, snd cw') \<and>
   fst cw' = (fst cw)\<lparr>jc_state := as_u16 s\<rparr>"
  by (cases "write_all_replicas rng st ((fst cw)\<lparr>jc_state := as_u16 s\<rparr>) (snd cw)"; cases cw')
    (auto simp: js_store_state_def)

lemma jvck_offset_store_simps [simp]:
  "os_load (jvck_offset_store C rng st) = js_load C st"
  "os_store (jvck_offset_store C rng st) = js_store rng st"
  "os_flush (jvck_offset_store C rng st) cw = (Inr (), cw)"
  "os_load_state (jvck_offset_store C rng st) = js_load_state"
  "os_store_state (jvck_offset_store C rng st) = js_store_state rng st"
  by (simp_all add: jvck_offset_store_def)

text \<open>The environment without reliability: writes and the randomness source may fail.\<close>

locale jvck_frame = dev: sector_device io invar content cap
  for io :: "'w sector_io" and invar :: "'w \<Rightarrow> bool" and content :: "'w \<Rightarrow> nat \<Rightarrow> bytes" and cap :: nat +
  fixes codec :: "'w metadata_codec" and rng :: "'w random_source"
  assumes cap_total: "invar w \<Longrightarrow> unat (sio_total_sectors io) \<le> cap"
    and rng_frame: "invar w \<Longrightarrow> fill_random rng w SALT_SIZE = (r, w') \<Longrightarrow> invar w' \<and> content w' = content w"
    and salt_length: "invar w \<Longrightarrow> fill_random rng w SALT_SIZE = (Inr salt, w') \<Longrightarrow> length salt = SALT_SIZE"
    and seal_length: "invar w \<Longrightarrow> wf_header h \<Longrightarrow> wf_secrets s \<Longrightarrow> length salt = SALT_SIZE \<Longrightarrow>
      mc_seal codec h s off st salt vmk = Inr block \<Longrightarrow> length block = METADATA_BLOCK_SIZE"
begin

lemma write_block_frame:
  assumes "invar w" "unat lba < cap" "length block = METADATA_BLOCK_SIZE" "512 \<le> unat (sio_sector_size io)"
    "write_block io w (sio_sector_size io) lba block = (r, w')"
  shows "invar w' \<and> (\<forall>i. i \<noteq> unat lba \<longrightarrow> content w' i = content w i)"
proof -
  let ?buf = "buf_write 0 block (replicate (unat (sio_sector_size io)) 0)"
  have len: "length ?buf = 1 * unat (sio_sector_size io)"
    using assms(3,4) by (simp add: METADATA_BLOCK_SIZE_def)
  have le: "unat lba + 1 \<le> cap"
    using assms(2) by simp
  have w': "w' = snd (sio_write_sectors io w lba ?buf)"
    using assms(5) by (simp add: write_block_def)
  show ?thesis
  proof (intro conjI allI impI)
    show "invar w'"
      unfolding w' by (rule dev.write_invar [OF assms(1) le len])
    fix i assume "i \<noteq> unat lba"
    then show "content w' i = content w i"
      unfolding w' by (intro dev.write_frame [OF assms(1) le len]) linarith
  qed
qed

lemma write_blocks_frame:
  assumes "length block = METADATA_BLOCK_SIZE" "512 \<le> unat (sio_sector_size io)"
  shows "invar w \<Longrightarrow> \<forall>lba\<in>set lbas. unat lba < cap \<Longrightarrow>
    write_blocks io (sio_sector_size io) block lbas w = (r, w') \<Longrightarrow>
    invar w' \<and> (\<forall>i. i \<notin> unat ` set lbas \<longrightarrow> content w' i = content w i)"
proof (induction lbas arbitrary: w)
  case (Cons lba lbas)
  obtain r1 w1 where w1: "write_block io w (sio_sector_size io) lba block = (r1, w1)"
    by fastforce
  note f1 = write_block_frame [OF Cons.prems(1) _ assms w1]
  show ?case
  proof (cases r1)
    case (Inl e)
    then show ?thesis
      using Cons.prems w1 f1 by auto
  next
    case (Inr u)
    then have "write_blocks io (sio_sector_size io) block lbas w1 = (r, w')"
      using Cons.prems(3) w1 by simp
    then show ?thesis
      using Cons.IH [of w1] Cons.prems(2) f1 by auto
  qed
qed simp

lemma write_all_replicas_frame:
  assumes "store_ok io codec st" "invar w" "write_all_replicas rng st cells w = (r, w')"
  shows "invar w' \<and> (\<forall>i. i \<notin> unat ` set (store_lbas st) \<longrightarrow> content w' i = content w i)"
proof -
  obtain r1 w1 where w1: "fill_random rng w SALT_SIZE = (r1, w1)"
    by fastforce
  note f1 = rng_frame [OF assms(2) w1]
  have st: "js_codec st = codec" "js_io st = io" "wf_header (js_header st)" "wf_secrets (js_secrets st)"
    "g_sector_size (js_geometry st) = sio_sector_size io" "512 \<le> unat (sio_sector_size io)"
    using assms(1) store_ok_layout(2,3) [OF assms(1)] by (simp_all add: store_ok_def)
  have lbas: "\<forall>lba\<in>set (store_lbas st). unat lba < cap"
    using store_lbas_in_volume [OF assms(1)] cap_total [OF assms(2)] by fastforce
  show ?thesis
  proof (cases r1)
    case (Inl e)
    then show ?thesis
      using assms(3) w1 f1 by (simp add: write_all_replicas_def)
  next
    case (Inr salt)
    note salt = salt_length [OF assms(2) w1 [unfolded Inr]]
    show ?thesis
    proof (cases "mc_seal codec (js_header st) (js_secrets st) (jc_offset cells) (from_u16 (jc_state cells)) salt (js_vmk st)")
      case (Inl e)
      then show ?thesis
        using assms(3) w1 f1 Inr st by (simp add: write_all_replicas_def)
    next
      case (Inr block)
      then have "write_blocks io (sio_sector_size io) block (store_lbas st) w1 = (r, w')"
        using assms(3) w1 st \<open>r1 = Inr salt\<close> by (simp add: write_all_replicas_def)
      then show ?thesis
        using write_blocks_frame [OF seal_length [OF assms(2) st(3,4) salt Inr] st(6)] f1 lbas by metis
    qed
  qed
qed

lemma jvck_offset_store_frame:
  assumes "store_ok io codec st"
  shows "offset_store_spec (jvck_offset_store C rng st) (\<lambda>cw. invar (snd cw)) (\<lambda>cw. content (snd cw))
    (unat ` set (store_lbas st))"
proof (unfold_locales, goal_cases)
  case (1 cw off r cw')
  then have "write_all_replicas rng st ((fst cw)\<lparr>jc_offset := eo_sector off\<rparr>) (snd cw) = (r, snd cw')"
    by (simp add: js_store_result)
  then show ?case
    by (rule write_all_replicas_frame [OF assms 1(1)])
next
  case (2 cw r cw')
  then show ?case by simp
next
  case (3 cw s r cw')
  then have "write_all_replicas rng st ((fst cw)\<lparr>jc_state := as_u16 s\<rparr>) (snd cw) = (r, snd cw')"
    by (simp add: js_store_state_result)
  then show ?case
    by (rule write_all_replicas_frame [OF assms 3(1)])
qed

end

context jvck_env
begin

text \<open>On a reliable device the store keeps its promises completely.\<close>

lemma jvck_frame_axioms: "jvck_frame io invar content cap codec rng"
proof (unfold_locales, goal_cases)
  case (1 w)
  then show ?case by (rule cap_total)
next
  case (2 w r w')
  then show ?case using rng_ok [OF 2(1), of SALT_SIZE] by auto
next
  case (3 w salt w')
  then show ?case using rng_ok [OF 3(1), of SALT_SIZE] by auto
next
  case (4 w h s salt off st vmk block)
  then show ?case using cod.seal_verifies(1) [OF codec_ok] by blast
qed

lemma jvck_reliable_store:
  assumes "store_ok io codec st"
  shows "reliable_store (jvck_offset_store C rng st) (\<lambda>cw. invar (snd cw)) (\<lambda>cw. content (snd cw))
    (unat ` set (store_lbas st)) (g_data_sectors (js_geometry st))"
proof (rule reliable_store.intro [OF jvck_frame.jvck_offset_store_frame [OF jvck_frame_axioms assms]],
    unfold_locales, goal_cases)
  case (1 cw off)
  obtain w' where "write_all_replicas rng st ((fst cw)\<lparr>jc_offset := eo_sector off\<rparr>) (snd cw) = (Inr (), w')"
    using write_all_replicas_hold [OF assms 1] by metis
  then show ?case
    by (simp add: js_store_def)
next
  case (2 cw)
  show ?case by simp
next
  case (3 cw s)
  obtain w' where "write_all_replicas rng st ((fst cw)\<lparr>jc_state := as_u16 s\<rparr>) (snd cw) = (Inr (), w')"
    using write_all_replicas_hold [OF assms 3] by metis
  then show ?case
    by (simp add: js_store_state_def)
next
  case (4 cw off r cw')
  obtain w' where w': "write_all_replicas rng st ((fst cw)\<lparr>jc_offset := eo_sector off\<rparr>) (snd cw) = (Inr (), w')"
    "invar w'" "replicas_hold st ((fst cw)\<lparr>jc_offset := eo_sector off\<rparr>) w'"
    using write_all_replicas_hold [OF assms 4(1)] by metis
  then have "snd cw' = w'"
    using 4(2) by (simp add: js_store_result)
  then show ?case
    using hold_load_offset [OF assms w'(2,3)] by (simp add: js_load_def)
next
  case (5 cw s r cw')
  then show ?case
    by (simp add: js_store_state_result js_load_state_def)
next
  case (6 cw off r cw')
  then show ?case
    by (simp add: js_store_result js_load_state_def)
qed

end


section \<open>The JVCK store on the lower device\<close>

definition rng_frame_ok :: "'w random_source \<Rightarrow> ('w \<Rightarrow> nat \<Rightarrow> byte) \<Rightarrow> bool" where
  "rng_frame_ok rng disk \<longleftrightarrow> (\<forall>w n r w'. fill_random rng w n = (r, w') \<longrightarrow>
     disk w' = disk w \<and> (\<forall>salt. r = Inr salt \<longrightarrow> length salt = n))"

definition jvck_frame_ok ::
    "'w nt_kernel \<Rightarrow> lower_device_io \<Rightarrow> ('w \<Rightarrow> nat \<Rightarrow> byte) \<Rightarrow> jvck_crypto \<Rightarrow> 'w random_source \<Rightarrow> bool" where
  "jvck_frame_ok K me disk C rng \<longleftrightarrow> ld_ok K me disk \<and> rng_frame_ok rng disk \<and> crypto_ok C"

interpretation jvck_ld_frame: jvck_frame "ld_sector_io K me" "\<lambda>w. jvck_frame_ok K me disk C rng"
  "disk_sector disk (unat (ld_sector_size me))" "unat (ld_total_sectors me)" "jvck_cbc_codec C" rng
  for K :: "'w nt_kernel" and me disk C rng
proof (rule jvck_frame.intro)
  show "sector_device (ld_sector_io K me) (\<lambda>w. jvck_frame_ok K me disk C rng)
      (disk_sector disk (unat (ld_sector_size me))) (unat (ld_total_sectors me))"
    by (rule sector_device_cond [OF ld.sector_device_axioms]) (simp add: jvck_frame_ok_def)
  show "jvck_frame_axioms (ld_sector_io K me) (\<lambda>w. jvck_frame_ok K me disk C rng)
      (disk_sector disk (unat (ld_sector_size me))) (unat (ld_total_sectors me)) (jvck_cbc_codec C) rng"
  proof (unfold_locales, goal_cases)
    case (1 w)
    then show ?case by (simp add: ld_sector_io_def byte_sector_io_def)
  next
    case (2 w r w')
    then have "disk w' = disk w"
      unfolding jvck_frame_ok_def rng_frame_ok_def by blast
    then show ?case
      using 2 by (auto simp: disk_sector_def fun_eq_iff)
  next
    case (3 w salt w')
    then show ?case
      unfolding jvck_frame_ok_def rng_frame_ok_def by blast
  next
    case (4 w h s salt off st vmk block)
    then show ?case
      using cbc.seal_verifies(1) [of C h s salt off st vmk block] by (simp add: jvck_frame_ok_def)
  qed
qed


interpretation jvck_os: offset_store_spec "jvck_offset_store C rng st"
  "\<lambda>cw. jvck_frame_ok K me disk C rng \<and> store_ok (ld_sector_io K me) (jvck_cbc_codec C) st"
  "\<lambda>cw. disk_sector disk (unat (ld_sector_size me)) (snd cw)" "unat ` set (store_lbas st)"
  for K :: "'w nt_kernel" and me disk C rng st
proof (rule offset_store_spec_cond)
  assume "jvck_frame_ok K me disk C rng \<and> store_ok (ld_sector_io K me) (jvck_cbc_codec C) st"
  then show "offset_store_spec (jvck_offset_store C rng st) (\<lambda>w. True)
      (\<lambda>cw. disk_sector disk (unat (ld_sector_size me)) (snd cw)) (unat ` set (store_lbas st))"
    using jvck_ld_frame.jvck_offset_store_frame [where K = K and me = me and C = C and Ca = C and st = st and disk = disk and rng = rng] by simp
qed

interpretation jvck_ros: reliable_store "jvck_offset_store C rng st"
  "\<lambda>cw. jvck_env_ok K me disk C rng \<and> store_ok (ld_sector_io K me) (jvck_cbc_codec C) st"
  "\<lambda>cw. disk_sector disk (unat (ld_sector_size me)) (snd cw)" "unat ` set (store_lbas st)"
  "g_data_sectors (js_geometry st)"
  for K :: "'w nt_kernel" and me disk C rng st
proof (rule reliable_store_cond)
  assume "jvck_env_ok K me disk C rng \<and> store_ok (ld_sector_io K me) (jvck_cbc_codec C) st"
  then show "reliable_store (jvck_offset_store C rng st) (\<lambda>w. True)
      (\<lambda>cw. disk_sector disk (unat (ld_sector_size me)) (snd cw)) (unat ` set (store_lbas st))
      (g_data_sectors (js_geometry st))"
    using jvck_ld.jvck_reliable_store [where K = K and me = me and C = C and st = st and disk = disk and rng = rng] by simp
qed

end
