(* ===== verification/Xts_Cipher.thy ===== *)
theory Xts_Cipher
  imports Cipher_Spec
begin

text \<open>
  The AES-256-XTS sector cipher of \<open>lib/common/src/xts.rs\<close>, shared by the driver
  and the loader: doubling in \<open>GF(2^128)\<close>, the eight-block parallel path, the
  scalar tail, the sector and area operations and the default cipher supplier.

  The block cipher itself is the \<open>aes\<close> crate, which is a parameter: a record of its
  operations with the predicate \<open>aes_ok\<close> for its documented behaviour (a 32-byte key
  is accepted, blocks of 16 bytes are permuted and decryption inverts encryption,
  the multi-block calls work block by block).

  The main results: the batched loop computes the block-by-block XTS definition, the
  doubling is multiplication by \<open>x\<close> modulo \<open>x^128 + x^7 + x^2 + x + 1\<close>, and the
  cipher meets the contract of \<open>Cipher_Spec\<close>.
\<close>


section \<open>The block cipher\<close>

record aes256 =
  aes_new_from_slice :: "bytes \<Rightarrow> bytes option"
  aes_encrypt_block :: "bytes \<Rightarrow> bytes \<Rightarrow> bytes"
  aes_decrypt_block :: "bytes \<Rightarrow> bytes \<Rightarrow> bytes"
  aes_encrypt_blocks :: "bytes \<Rightarrow> bytes list \<Rightarrow> bytes list"
  aes_decrypt_blocks :: "bytes \<Rightarrow> bytes list \<Rightarrow> bytes list"

definition aes_ok :: "aes256 \<Rightarrow> bool" where
  "aes_ok A \<longleftrightarrow>
     (\<forall>k. length k = 32 \<longrightarrow> aes_new_from_slice A k \<noteq> None) \<and>
     (\<forall>k b. length b = 16 \<longrightarrow> length (aes_encrypt_block A k b) = 16) \<and>
     (\<forall>k b. length b = 16 \<longrightarrow> length (aes_decrypt_block A k b) = 16) \<and>
     (\<forall>k b. length b = 16 \<longrightarrow> aes_decrypt_block A k (aes_encrypt_block A k b) = b) \<and>
     (\<forall>k b. length b = 16 \<longrightarrow> aes_encrypt_block A k (aes_decrypt_block A k b) = b) \<and>
     (\<forall>k bs. aes_encrypt_blocks A k bs = map (aes_encrypt_block A k) bs) \<and>
     (\<forall>k bs. aes_decrypt_blocks A k bs = map (aes_decrypt_block A k) bs)"

lemma aes_okD:
  assumes "aes_ok A"
  shows "length k = 32 \<Longrightarrow> \<exists>s. aes_new_from_slice A k = Some s"
    and "length b = 16 \<Longrightarrow> length (aes_encrypt_block A k b) = 16"
    and "length b = 16 \<Longrightarrow> length (aes_decrypt_block A k b) = 16"
    and "length b = 16 \<Longrightarrow> aes_decrypt_block A k (aes_encrypt_block A k b) = b"
    and "length b = 16 \<Longrightarrow> aes_encrypt_block A k (aes_decrypt_block A k b) = b"
    and "aes_encrypt_blocks A k bs = map (aes_encrypt_block A k) bs"
    and "aes_decrypt_blocks A k bs = map (aes_decrypt_block A k) bs"
  using assms by (auto simp: aes_ok_def)


section \<open>The cipher of the source\<close>

definition BATCH :: nat where
  "BATCH = 8"

record xts_volume_cipher =
  cipher_1 :: bytes
  cipher_2 :: bytes

definition gf128_mul :: "bytes \<Rightarrow> bytes" where
  "gf128_mul t =
     (let lo = of_le_bytes (buf_slice 0 8 t) :: u64;
          hi = of_le_bytes (buf_slice 8 16 t) :: u64;
          carry = (if drop_bit 63 hi \<noteq> 0 then 0x87 else 0)
      in le_bytes 8 (push_bit 1 lo XOR carry) @ le_bytes 8 (push_bit 1 hi OR drop_bit 63 lo))"

definition xts_new :: "aes256 \<Rightarrow> bytes \<Rightarrow> bytes \<Rightarrow> xts_volume_cipher vck_result" where
  "xts_new A key1 key2 =
     res_bind (ok_or (CryptoFailed ''invalid XTS key1'') (aes_new_from_slice A key1)) (\<lambda>c1.
     res_bind (ok_or (CryptoFailed ''invalid XTS key2'') (aes_new_from_slice A key2)) (\<lambda>c2.
     Inr \<lparr>cipher_1 = c1, cipher_2 = c2\<rparr>))"

text \<open>The tweaks of one batch: \<open>ts[0] = tw\<close>, \<open>ts[i] = gf128_mul(ts[i - 1])\<close>.\<close>

primrec tweaks :: "nat \<Rightarrow> bytes \<Rightarrow> bytes list" where
  "tweaks 0 tw = []"
| "tweaks (Suc n) tw = tw # tweaks n (gf128_mul tw)"

text \<open>One round of the eight-block path: \<open>ops\<close> is \<open>encrypt_blocks\<close> or
  \<open>decrypt_blocks\<close> of the data cipher.  It returns the sector and the next tweak.\<close>

definition xts_batch :: "(bytes list \<Rightarrow> bytes list) \<Rightarrow> nat \<Rightarrow> bytes \<Rightarrow> bytes \<Rightarrow> bytes \<times> bytes" where
  "xts_batch ops off tw sector =
     (let ts = tweaks BATCH tw;
          tw' = gf128_mul (ts ! (BATCH - 1));
          batch = map (\<lambda>i. xor_bytes (buf_slice ((off + i) * 16) ((off + i + 1) * 16) sector) (ts ! i))
            [0..<BATCH];
          batch' = ops batch
      in (fold (\<lambda>i s. buf_write ((off + i) * 16) (xor_bytes (batch' ! i) (ts ! i)) s) [0..<BATCH] sector,
          tw'))"

function xts_batch_loop ::
    "(bytes list \<Rightarrow> bytes list) \<Rightarrow> nat \<Rightarrow> nat \<Rightarrow> bytes \<Rightarrow> bytes \<Rightarrow> nat \<times> bytes \<times> bytes" where
  "xts_batch_loop ops n off tw sector =
     (if off + BATCH \<le> n
      then let (sector', tw') = xts_batch ops off tw sector
           in xts_batch_loop ops n (off + BATCH) tw' sector'
      else (off, tw, sector))"
  by pat_completeness auto
termination
  by (relation "measure (\<lambda>(ops, n, off, tw, sector). n - off)") (auto simp: BATCH_def)

function xts_scalar_loop ::
    "(bytes \<Rightarrow> bytes) \<Rightarrow> nat \<Rightarrow> nat \<Rightarrow> bytes \<Rightarrow> bytes \<Rightarrow> bytes" where
  "xts_scalar_loop op1 n off tw sector =
     (if off < n
      then let block = xor_bytes (buf_slice (off * 16) ((off + 1) * 16) sector) tw;
               ga = op1 block;
               sector' = buf_write (off * 16) (xor_bytes ga tw) sector
           in xts_scalar_loop op1 n (off + 1) (gf128_mul tw) sector'
      else sector)"
  by pat_completeness auto
termination
  by (relation "measure (\<lambda>(op1, n, off, tw, sector). n - off)") auto

declare xts_batch_loop.simps [simp del] xts_scalar_loop.simps [simp del]

definition initial_tweak :: "aes256 \<Rightarrow> xts_volume_cipher \<Rightarrow> u64 \<Rightarrow> bytes" where
  "initial_tweak A c rel_sector =
     aes_encrypt_block A (cipher_2 c) (le_bytes 16 (ucast rel_sector :: 128 word))"

definition encrypt_sector_inner :: "aes256 \<Rightarrow> xts_volume_cipher \<Rightarrow> u64 \<Rightarrow> bytes \<Rightarrow> bytes" where
  "encrypt_sector_inner A c rel_sector sector =
     (let tw = initial_tweak A c rel_sector;
          n = length sector div 16;
          (off, tw', sector') = xts_batch_loop (aes_encrypt_blocks A (cipher_1 c)) n 0 tw sector
      in xts_scalar_loop (aes_encrypt_block A (cipher_1 c)) n off tw' sector')"

definition decrypt_sector_inner :: "aes256 \<Rightarrow> xts_volume_cipher \<Rightarrow> u64 \<Rightarrow> bytes \<Rightarrow> bytes" where
  "decrypt_sector_inner A c rel_sector sector =
     (let tw = initial_tweak A c rel_sector;
          n = length sector div 16;
          (off, tw', sector') = xts_batch_loop (aes_decrypt_blocks A (cipher_1 c)) n 0 tw sector
      in xts_scalar_loop (aes_decrypt_block A (cipher_1 c)) n off tw' sector')"

definition encrypt_area :: "aes256 \<Rightarrow> xts_volume_cipher \<Rightarrow> bytes \<Rightarrow> nat \<Rightarrow> u64 \<Rightarrow> bytes" where
  "encrypt_area A c buf sector_size first_rel_sector =
     concat (map (\<lambda>(si, sector). encrypt_sector_inner A c (first_rel_sector + of_nat si) sector)
       (enumerate 0 (chunks sector_size buf)))"

definition decrypt_area :: "aes256 \<Rightarrow> xts_volume_cipher \<Rightarrow> bytes \<Rightarrow> nat \<Rightarrow> u64 \<Rightarrow> bytes" where
  "decrypt_area A c buf sector_size first_rel_sector =
     concat (map (\<lambda>(si, sector). decrypt_sector_inner A c (first_rel_sector + of_nat si) sector)
       (enumerate 0 (chunks sector_size buf)))"

text \<open>\<open>impl VolumeCipher for XtsVolumeCipher\<close>.\<close>

definition xts_as_volume_cipher :: "aes256 \<Rightarrow> xts_volume_cipher \<Rightarrow> volume_cipher" where
  "xts_as_volume_cipher A c =
     \<lparr>vc_encrypt_sector = encrypt_sector_inner A c,
      vc_decrypt_sector = decrypt_sector_inner A c,
      vc_encrypt_area = encrypt_area A c,
      vc_decrypt_area = decrypt_area A c\<rparr>"

text \<open>\<open>StaticCipherSupplier\<close> and its \<open>get_cipher\<close>.\<close>

record static_cipher_supplier =
  scs_key1 :: bytes
  scs_key2 :: bytes

definition static_get_cipher :: "aes256 \<Rightarrow> static_cipher_supplier \<Rightarrow> cipher_supplier" where
  "static_get_cipher A s u =
     map_option (xts_as_volume_cipher A) (res_ok (xts_new A (scs_key1 s) (scs_key2 s)))"


section \<open>The reference definition of XTS\<close>

text \<open>Block \<open>j\<close> is whitened with \<open>x^j\<close> times the initial tweak before and after the
  block cipher (IEEE 1619, without ciphertext stealing).\<close>

definition xex :: "(bytes \<Rightarrow> bytes) \<Rightarrow> bytes \<Rightarrow> bytes \<Rightarrow> bytes" where
  "xex op1 tw b = xor_bytes (op1 (xor_bytes b tw)) tw"

primrec xts_blocks :: "(bytes \<Rightarrow> bytes) \<Rightarrow> bytes \<Rightarrow> bytes list \<Rightarrow> bytes list" where
  "xts_blocks op1 tw [] = []"
| "xts_blocks op1 tw (b # bs) = xex op1 tw b # xts_blocks op1 (gf128_mul tw) bs"

definition xts_reference :: "(bytes \<Rightarrow> bytes) \<Rightarrow> bytes \<Rightarrow> bytes \<Rightarrow> bytes" where
  "xts_reference op1 tw sector =
     (let n = length sector div 16
      in concat (xts_blocks op1 tw (chunks 16 (take (n * 16) sector))) @ drop (n * 16) sector)"


section \<open>Doubling\<close>

lemma length_gf128_mul [simp]: "length (gf128_mul t) = 16"
  by (simp add: gf128_mul_def Let_def)

lemma of_le_bytes_append:
  "of_le_bytes (xs @ ys) = (of_le_bytes xs OR push_bit (8 * length xs) (of_le_bytes ys) :: 'a::len word)"
  by (induction xs) (simp_all add: push_bit_or or.assoc add.commute)

lemma drop_bit_63_nonzero: "drop_bit 63 (hi :: u64) \<noteq> 0 \<longleftrightarrow> bit hi 63"
proof -
  have "bit hi (63 + n) \<longleftrightarrow> n = 0 \<and> bit hi 63" for n
    using bit_imp_le_length [of hi "63 + n"] by (cases n) auto
  then have "drop_bit 63 hi = of_bool (bit hi 63)"
    by (intro bit_word_eqI) (auto simp: bit_drop_bit_eq bit_simps)
  then show ?thesis by simp
qed

lemma of_le_bytes_halves:
  assumes "length t = 16"
  shows "(of_le_bytes t :: 128 word) =
    ucast (of_le_bytes (buf_slice 0 8 t) :: u64) OR push_bit 64 (ucast (of_le_bytes (buf_slice 8 16 t) :: u64))"
proof (rule bit_word_eqI)
  fix k assume k: "k < LENGTH(128)"
  show "bit (of_le_bytes t :: 128 word) k \<longleftrightarrow> bit (ucast (of_le_bytes (buf_slice 0 8 t) :: u64) OR
      push_bit 64 (ucast (of_le_bytes (buf_slice 8 16 t) :: u64)) :: 128 word) k"
  proof (cases "k < 64")
    case True
    then have "k div 8 < 8" by auto
    then show ?thesis
      using True k assms by (simp add: bit_or_iff bit_push_bit_iff bit_ucast_iff bit_of_le_bytes nth_slice)
  next
    case False
    then obtain j where j: "k = 64 + j" by (metis le_Suc_ex not_less)
    then have "j div 8 < 8" using k by auto
    moreover have "(64 + j) div 8 = 8 + j div 8" "(64 + j) mod 8 = j mod 8"
      by simp presburger
    ultimately show ?thesis
      using k assms j by (simp add: bit_or_iff bit_push_bit_iff bit_ucast_iff bit_of_le_bytes nth_slice)
  qed
qed

lemma double_halves:
  fixes lo hi m :: u64
  assumes s: "s = 1"
  shows "(ucast (push_bit s lo XOR m) OR push_bit 64 (ucast (push_bit s hi OR drop_bit 63 lo)) :: 128 word)
    = push_bit s (ucast lo OR push_bit 64 (ucast hi)) XOR ucast m"
proof (rule bit_word_eqI)
  fix k assume k: "k < LENGTH(128)"
  have top: "bit lo (63 + j) \<longleftrightarrow> j = 0 \<and> bit lo 63" for j
    using bit_imp_le_length [of lo "63 + j"] by (cases j) auto
  have high: "\<not> bit m (64 + j)" "\<not> bit lo (64 + j)" for j :: nat
    using bit_imp_le_length [of m "64 + j"] bit_imp_le_length [of lo "64 + j"] by auto
  show "bit (ucast (push_bit s lo XOR m) OR
      push_bit 64 (ucast (push_bit s hi OR drop_bit 63 lo)) :: 128 word) k \<longleftrightarrow>
    bit (push_bit s (ucast lo OR push_bit 64 (ucast hi)) XOR ucast m :: 128 word) k"
  proof (cases "k < 64")
    case True
    then show ?thesis
      using k by (auto simp: bit_or_iff bit_xor_iff bit_push_bit_iff bit_ucast_iff)
  next
    case False
    then obtain j where j: "k = 64 + j" by (metis le_Suc_ex not_less)
    have shift: "k - s = 63 + j" "s \<le> k" "s \<le> j \<longleftrightarrow> j \<noteq> 0" "j - s = j - 1"
      using s j by auto
    show ?thesis
    proof (cases j)
      case 0
      then show ?thesis
        using top [of 0] high [of 0] j k shift
        by (simp add: bit_or_iff bit_xor_iff bit_push_bit_iff bit_ucast_iff bit_drop_bit_eq)
    next
      case (Suc i)
      then show ?thesis
        using top [of j] high [of j] high [of i] j k shift
        by (simp add: bit_or_iff bit_xor_iff bit_push_bit_iff bit_ucast_iff bit_drop_bit_eq)
    qed
  qed
qed

lemma gf128_mul_word:
  assumes "length t = 16"
  shows "(of_le_bytes (gf128_mul t) :: 128 word) =
    push_bit 1 (of_le_bytes t) XOR (if bit (of_le_bytes t :: 128 word) 127 then 0x87 else 0)"
proof -
  define lo hi :: u64 where "lo = of_le_bytes (buf_slice 0 8 t)" and "hi = of_le_bytes (buf_slice 8 16 t)"
  define m :: u64 where "m = (if bit hi 63 then 0x87 else 0)"
  have t: "(of_le_bytes t :: 128 word) = ucast lo OR push_bit 64 (ucast hi)"
    using of_le_bytes_halves [OF assms] by (simp add: lo_def hi_def)
  have top: "bit (of_le_bytes t :: 128 word) 127 \<longleftrightarrow> bit hi 63"
    using bit_imp_le_length [of lo 127] by (auto simp: t bit_or_iff bit_push_bit_iff bit_ucast_iff)
  have "gf128_mul t = le_bytes 8 (push_bit 1 lo XOR m) @ le_bytes 8 (push_bit 1 hi OR drop_bit 63 lo)"
    by (simp only: gf128_mul_def Let_def lo_def hi_def m_def drop_bit_63_nonzero)
  then have "buf_slice 0 8 (gf128_mul t) = le_bytes 8 (push_bit 1 lo XOR m)"
      "buf_slice 8 16 (gf128_mul t) = le_bytes 8 (push_bit 1 hi OR drop_bit 63 lo)"
    by (simp_all only: buf_slice_def) simp_all
  then have "(of_le_bytes (gf128_mul t) :: 128 word) =
      ucast (push_bit 1 lo XOR m) OR push_bit 64 (ucast (push_bit 1 hi OR drop_bit 63 lo))"
    by (simp only: of_le_bytes_halves [OF length_gf128_mul]) simp
  also have "\<dots> = push_bit 1 (of_le_bytes t) XOR ucast m"
    unfolding t by (rule double_halves) simp
  also have "ucast m = (if bit (of_le_bytes t :: 128 word) 127 then 0x87 else 0 :: 128 word)"
    by (simp add: m_def top)
  finally show ?thesis .
qed


section \<open>The loops compute the reference\<close>

lemma length_tweaks [simp]: "length (tweaks n tw) = n"
  by (induction n arbitrary: tw) simp_all

lemma nth_tweaks: "i < n \<Longrightarrow> tweaks n tw ! i = (gf128_mul ^^ i) tw"
  by (induction n arbitrary: tw i) (auto simp: nth_Cons funpow_swap1 split: nat.split)

lemma length_xts_blocks [simp]: "length (xts_blocks op1 tw bs) = length bs"
  by (induction bs arbitrary: tw) simp_all

lemma nth_xts_blocks:
  "i < length bs \<Longrightarrow> xts_blocks op1 tw bs ! i = xex op1 ((gf128_mul ^^ i) tw) (bs ! i)"
  by (induction bs arbitrary: tw i) (auto simp: nth_Cons funpow_swap1 split: nat.split)

lemma xts_blocks_append:
  "xts_blocks op1 tw (as @ bs) = xts_blocks op1 tw as @ xts_blocks op1 ((gf128_mul ^^ length as) tw) bs"
  by (induction as arbitrary: tw) (simp_all add: funpow_swap1)

lemma length_funpow_gf [simp]: "length tw = 16 \<Longrightarrow> length ((gf128_mul ^^ i) tw) = 16"
  by (cases i) simp_all

lemma length_xex:
  assumes "\<And>b. length b = 16 \<Longrightarrow> length (op1 b) = 16" "length tw = 16" "length b = 16"
  shows "length (xex op1 tw b) = 16"
  using assms by (simp add: xex_def)

lemma block_of_concat:
  assumes "\<forall>b\<in>set bs. length b = 16" "length pre = off * 16" "i < length bs"
  shows "buf_slice ((off + i) * 16) ((off + i + 1) * 16) (pre @ concat bs @ rest) = bs ! i"
proof -
  obtain as b cs where bs: "bs = as @ b # cs" and as: "length as = i" and b: "b = bs ! i"
    using assms(3) id_take_nth_drop by fastforce
  have la: "length (concat as) = i * 16"
    using assms(1) unfolding bs as [symmetric] by (induction as arbitrary: bs) auto
  have "length b = 16"
    using assms(1) bs by simp
  then show ?thesis
    unfolding b [symmetric] using la assms(2)
    by (simp add: bs buf_slice_def add_mult_distrib)
qed

lemma write_block_concat:
  assumes "\<forall>b\<in>set as. length b = 16" "length b = 16" "length y = 16" "length pre = off * 16"
  shows "buf_write ((off + length as) * 16) y (pre @ concat as @ concat (b # cs) @ rest) =
    pre @ concat (as @ [y]) @ concat cs @ rest"
proof -
  have "length (concat as) = length as * 16"
    using assms(1) by (induction as) auto
  then show ?thesis
    using assms(2-4) by (simp add: buf_write_def add_mult_distrib)
qed

lemma fold_write_blocks:
  assumes "\<forall>b\<in>set bs. length b = 16" "\<forall>y\<in>set ys. length y = 16" "length ys = length bs"
    "length pre = off * 16" "m \<le> length bs"
  shows "fold (\<lambda>i s. buf_write ((off + i) * 16) (ys ! i) s) [0..<m] (pre @ concat bs @ rest) =
    pre @ concat (take m ys) @ concat (drop m bs) @ rest"
  using assms(5)
proof (induction m)
  case (Suc m)
  then have m: "m < length bs" by simp
  have "fold (\<lambda>i s. buf_write ((off + i) * 16) (ys ! i) s) [0..<Suc m] (pre @ concat bs @ rest)
      = buf_write ((off + m) * 16) (ys ! m) (pre @ concat (take m ys) @ concat (drop m bs) @ rest)"
    using Suc by simp
  also have "drop m bs = bs ! m # drop (Suc m) bs"
    using m by (simp add: Cons_nth_drop_Suc)
  also have "buf_write ((off + m) * 16) (ys ! m)
        (pre @ concat (take m ys) @ concat (bs ! m # drop (Suc m) bs) @ rest)
      = pre @ concat (take m ys @ [ys ! m]) @ concat (drop (Suc m) bs) @ rest"
  proof -
    have "\<forall>b\<in>set (take m ys). length b = 16" "length (bs ! m) = 16" "length (ys ! m) = 16"
      "length (take m ys) = m"
      using assms(1-3) m by (auto dest: in_set_takeD)
    then show ?thesis
      using write_block_concat [of "take m ys" "bs ! m" "ys ! m" pre off "drop (Suc m) bs" rest] assms(4)
      by simp
  qed
  finally show ?case
    using m assms(3) by (simp add: take_Suc_conv_app_nth)
qed simp

lemma xts_batch_blocks:
  assumes blocks: "\<forall>b\<in>set bs. length b = 16" "length bs = BATCH" and pre: "length pre = off * 16"
    and tw: "length tw = 16" and op1: "\<And>b. length b = 16 \<Longrightarrow> length (op1 b) = 16"
  shows "xts_batch (map op1) off tw (pre @ concat bs @ rest) =
    (pre @ concat (xts_blocks op1 tw bs) @ rest, (gf128_mul ^^ BATCH) tw)"
proof -
  let ?ts = "tweaks BATCH tw" and ?ys = "xts_blocks op1 tw bs"
  let ?batch = "map (\<lambda>i. xor_bytes (buf_slice ((off + i) * 16) ((off + i + 1) * 16)
    (pre @ concat bs @ rest)) (?ts ! i)) [0..<BATCH]"
  have ys: "xor_bytes (map op1 ?batch ! i) (?ts ! i) = ?ys ! i" if "i \<in> set [0..<BATCH]" for i
    using that blocks block_of_concat [OF blocks(1) pre, of i rest]
    by (simp add: nth_tweaks nth_xts_blocks xex_def)
  have len: "\<forall>y\<in>set ?ys. length y = 16"
  proof
    fix y assume "y \<in> set ?ys"
    then obtain i where "i < length bs" "y = xex op1 ((gf128_mul ^^ i) tw) (bs ! i)"
      by (auto simp: in_set_conv_nth nth_xts_blocks)
    then show "length y = 16"
      using length_xex [of op1] op1 tw blocks(1) by simp
  qed
  have "fold (\<lambda>i s. buf_write ((off + i) * 16) (xor_bytes (map op1 ?batch ! i) (?ts ! i)) s) [0..<BATCH]
        (pre @ concat bs @ rest) =
      fold (\<lambda>i s. buf_write ((off + i) * 16) (?ys ! i) s) [0..<BATCH] (pre @ concat bs @ rest)"
    by (rule fold_cong) (simp_all only: ys)
  also have "\<dots> = pre @ concat ?ys @ rest"
    using fold_write_blocks [OF blocks(1) len _ pre, of BATCH rest] blocks(2) by simp
  finally have 1: "fold (\<lambda>i s. buf_write ((off + i) * 16) (xor_bytes (map op1 ?batch ! i) (?ts ! i)) s)
      [0..<BATCH] (pre @ concat bs @ rest) = pre @ concat ?ys @ rest" .
  have 2: "gf128_mul (?ts ! (BATCH - 1)) = (gf128_mul ^^ BATCH) tw"
    by (simp add: nth_tweaks BATCH_def eval_nat_numeral)
  show ?thesis
    unfolding xts_batch_def Let_def 1 2 ..
qed

lemma length_xts_blocks_blocks:
  assumes "\<And>b. length b = 16 \<Longrightarrow> length (op1 b) = 16" "length tw = 16" "\<forall>b\<in>set bs. length b = 16"
  shows "\<forall>y\<in>set (xts_blocks op1 tw bs). length y = 16"
  using assms(2,3)
proof (induction bs arbitrary: tw)
  case (Cons b bs)
  then have "length (xex op1 tw b) = 16"
    by (intro length_xex assms(1)) simp_all
  moreover have "\<forall>y\<in>set (xts_blocks op1 (gf128_mul tw) bs). length y = 16"
    using Cons by (intro Cons.IH) simp_all
  ultimately show ?case by simp
qed simp

lemma xts_scalar_loop_blocks:
  assumes op1: "\<And>b. length b = 16 \<Longrightarrow> length (op1 b) = 16"
  shows "\<forall>b\<in>set bs. length b = 16 \<Longrightarrow> length pre = off * 16 \<Longrightarrow> length tw = 16 \<Longrightarrow>
    xts_scalar_loop op1 (off + length bs) off tw (pre @ concat bs @ rest) =
    pre @ concat (xts_blocks op1 tw bs) @ rest"
proof (induction bs arbitrary: pre off tw)
  case Nil
  then show ?case by (subst xts_scalar_loop.simps) simp
next
  case (Cons b bs)
  have y: "length (xex op1 tw b) = 16"
    using length_xex [of op1, OF op1] Cons.prems by simp
  have b: "buf_slice (off * 16) ((off + 1) * 16) (pre @ concat (b # bs) @ rest) = b"
    using block_of_concat [of "b # bs" pre off 0 rest] Cons.prems by simp
  have w: "buf_write (off * 16) (xex op1 tw b) (pre @ concat (b # bs) @ rest)
      = (pre @ xex op1 tw b) @ concat bs @ rest"
    using write_block_concat [of "[]" b "xex op1 tw b" pre off bs rest] Cons.prems y by simp
  have "xts_scalar_loop op1 (off + length (b # bs)) off tw (pre @ concat (b # bs) @ rest) =
      xts_scalar_loop op1 ((off + 1) + length bs) (off + 1) (gf128_mul tw)
        ((pre @ xex op1 tw b) @ concat bs @ rest)"
    by (subst xts_scalar_loop.simps) (simp only: Let_def b w xex_def [symmetric], simp)
  also have "\<dots> = (pre @ xex op1 tw b) @ concat (xts_blocks op1 (gf128_mul tw) bs) @ rest"
    by (rule Cons.IH) (use Cons.prems y in simp_all)
  finally show ?case by simp
qed

text \<open>Both loops together: whatever the number of full batches, the result is the
  block-by-block computation.\<close>

lemma xts_loops_blocks:
  assumes op1: "\<And>b. length b = 16 \<Longrightarrow> length (op1 b) = 16"
  shows "\<forall>b\<in>set bs. length b = 16 \<Longrightarrow> length pre = off * 16 \<Longrightarrow> length tw = 16 \<Longrightarrow>
    (case xts_batch_loop (map op1) (off + length bs) off tw (pre @ concat bs @ rest) of
       (off', tw', sector') \<Rightarrow> xts_scalar_loop op1 (off + length bs) off' tw' sector') =
    pre @ concat (xts_blocks op1 tw bs) @ rest"
proof (induction "length bs" arbitrary: bs pre off tw rule: less_induct)
  case less
  show ?case
  proof (cases "BATCH \<le> length bs")
    case False
    then show ?thesis
      using xts_scalar_loop_blocks [OF op1 less.prems] by (subst xts_batch_loop.simps) simp
  next
    case True
    define as cs where "as = take BATCH bs" and "cs = drop BATCH bs"
    have bs: "bs = as @ cs" and la: "length as = BATCH" and lb: "length bs = BATCH + length cs"
      using True by (simp_all add: as_def cs_def)
    have small: "length cs < length bs"
      using lb by (simp add: BATCH_def)
    let ?ya = "concat (xts_blocks op1 tw as)"
    have as16: "\<forall>b\<in>set as. length b = 16" and cs16: "\<forall>b\<in>set cs. length b = 16"
      using less.prems(1) bs by auto
    have lya: "length ?ya = BATCH * 16"
    proof -
      have "map length (xts_blocks op1 tw as) = map (\<lambda>_. 16) (xts_blocks op1 tw as)"
        using length_xts_blocks_blocks [OF op1 less.prems(3) as16] by simp
      then show ?thesis
        by (simp add: length_concat la map_replicate_const sum_list_replicate)
    qed
    have batch: "xts_batch (map op1) off tw (pre @ concat bs @ rest) =
        ((pre @ ?ya) @ concat cs @ rest, (gf128_mul ^^ BATCH) tw)"
      using xts_batch_blocks [OF as16 la less.prems(2,3) op1, where rest = "concat cs @ rest"] by (simp add: bs)
    have "(case xts_batch_loop (map op1) (off + length bs) off tw (pre @ concat bs @ rest) of
         (off', tw', sector') \<Rightarrow> xts_scalar_loop op1 (off + length bs) off' tw' sector') =
       (case xts_batch_loop (map op1) ((off + BATCH) + length cs) (off + BATCH) ((gf128_mul ^^ BATCH) tw)
           ((pre @ ?ya) @ concat cs @ rest) of
         (off', tw', sector') \<Rightarrow> xts_scalar_loop op1 ((off + BATCH) + length cs) off' tw' sector')"
      by (subst xts_batch_loop.simps) (simp add: batch lb add.assoc)
    also have "\<dots> = (pre @ ?ya) @ concat (xts_blocks op1 ((gf128_mul ^^ BATCH) tw) cs) @ rest"
      by (rule less.hyps [OF small cs16]) (use less.prems lya in \<open>simp_all add: add_mult_distrib\<close>)
    finally show ?thesis
      by (simp add: bs xts_blocks_append la)
  qed
qed

lemma xts_loops_reference:
  assumes op1: "\<And>b. length b = 16 \<Longrightarrow> length (op1 b) = 16" and tw: "length tw = 16"
  shows "(case xts_batch_loop (map op1) (length sector div 16) 0 tw sector of
       (off, tw', sector') \<Rightarrow> xts_scalar_loop op1 (length sector div 16) off tw' sector') =
    xts_reference op1 tw sector"
proof -
  define n bs rest where "n = length sector div 16" and "bs = chunks 16 (take (n * 16) sector)"
    and "rest = drop (n * 16) sector"
  have len: "length (take (n * 16) sector) = n * 16"
    by (simp add: n_def min_absorb2)
  have sector: "concat bs @ rest = sector"
    by (simp add: bs_def rest_def)
  have bs: "\<forall>b\<in>set bs. length b = 16" "length bs = n"
    using chunks_exact_lengths [OF _ len] length_chunks_exact [OF _ len] by (auto simp: bs_def)
  have "xts_reference op1 tw sector = concat (xts_blocks op1 tw bs) @ rest"
    by (simp only: xts_reference_def Let_def bs_def rest_def n_def)
  then show ?thesis
    using xts_loops_blocks [of op1 bs "[]" 0 tw rest, OF op1 bs(1) _ tw]
    by (simp only: append_Nil sector bs(2) n_def [symmetric] add_0 list.size mult_zero_left simp_thms)
qed

lemma length_concat_blocks: "\<forall>b\<in>set bs. length b = 16 \<Longrightarrow> length (concat bs) = length bs * 16"
  by (induction bs) auto

lemma xts_reference_split:
  assumes "\<forall>b\<in>set bs. length b = 16" "length rest < 16"
  shows "xts_reference op1 tw (concat bs @ rest) = concat (xts_blocks op1 tw bs) @ rest"
proof -
  have len: "length (concat bs) = length bs * 16"
    using assms(1) by (rule length_concat_blocks)
  have n: "length (concat bs @ rest) div 16 = length bs"
    using assms(2) len by simp
  have "chunks 16 (concat bs) = bs"
    using assms(1) by (simp add: chunks_concat)
  then show ?thesis
    unfolding xts_reference_def n Let_def using len by simp
qed

lemma sector_split:
  obtains bs rest where "sector = concat bs @ rest" "\<forall>b\<in>set bs. length b = (16 :: nat)" "length rest < 16"
proof
  let ?n = "length sector div 16"
  have len: "length (take (?n * 16) sector) = ?n * 16"
    by (simp add: min_absorb2)
  show "sector = concat (chunks 16 (take (?n * 16) sector)) @ drop (?n * 16) sector"
    by simp
  show "\<forall>b\<in>set (chunks 16 (take (?n * 16) sector)). length b = 16"
    by (intro ballI chunks_exact_lengths [OF _ len]) simp_all
  show "length (drop (?n * 16) sector) < 16"
    by (simp add: minus_div_mult_eq_mod)
qed

lemma xts_blocks_inverse:
  assumes "\<And>b. length b = 16 \<Longrightarrow> length (op1 b) = 16" "\<And>b. length b = 16 \<Longrightarrow> op2 (op1 b) = b"
  shows "length tw = 16 \<Longrightarrow> \<forall>b\<in>set bs. length b = 16 \<Longrightarrow>
    xts_blocks op2 tw (xts_blocks op1 tw bs) = bs"
proof (induction bs arbitrary: tw)
  case (Cons b bs)
  have lb: "length (xor_bytes b tw) = 16"
    using Cons.prems by simp
  have "xex op2 tw (xex op1 tw b) = b"
    using Cons.prems assms(1) [OF lb] assms(2) [OF lb] by (simp add: xex_def)
  moreover have "xts_blocks op2 (gf128_mul tw) (xts_blocks op1 (gf128_mul tw) bs) = bs"
    using Cons.prems by (intro Cons.IH) simp_all
  ultimately show ?case by simp
qed simp

lemma xts_reference_inverse:
  assumes "\<And>b. length b = 16 \<Longrightarrow> length (op1 b) = 16" "\<And>b. length b = 16 \<Longrightarrow> op2 (op1 b) = b"
    "length tw = 16"
  shows "xts_reference op2 tw (xts_reference op1 tw sector) = sector"
proof -
  obtain bs rest where s: "sector = concat bs @ rest" "\<forall>b\<in>set bs. length b = 16" "length rest < 16"
    by (rule sector_split)
  have "\<forall>b\<in>set (xts_blocks op1 tw bs). length b = 16"
    by (rule length_xts_blocks_blocks [OF assms(1,3) s(2)])
  then show ?thesis
    unfolding s(1) xts_reference_split [OF s(2,3)] using s(3)
    by (simp only: xts_reference_split xts_blocks_inverse [OF assms(1,2,3) s(2)])
qed

lemma length_xts_reference:
  assumes "\<And>b. length b = 16 \<Longrightarrow> length (op1 b) = 16" "length tw = 16"
  shows "length (xts_reference op1 tw sector) = length sector"
proof -
  obtain bs rest where s: "sector = concat bs @ rest" "\<forall>b\<in>set bs. length b = 16" "length rest < 16"
    by (rule sector_split)
  show ?thesis
    unfolding s(1) xts_reference_split [OF s(2,3)]
    using length_concat_blocks [OF s(2)]
      length_concat_blocks [OF length_xts_blocks_blocks [OF assms s(2)]]
    by simp
qed


section \<open>The cipher meets its contract\<close>

lemma length_initial_tweak: "aes_ok A \<Longrightarrow> length (initial_tweak A c r) = 16"
  by (simp add: initial_tweak_def aes_okD)

lemma encrypt_inner_reference:
  assumes "aes_ok A"
  shows "encrypt_sector_inner A c r sector =
    xts_reference (aes_encrypt_block A (cipher_1 c)) (initial_tweak A c r) sector"
proof -
  have "aes_encrypt_blocks A (cipher_1 c) = map (aes_encrypt_block A (cipher_1 c))"
    using assms by (simp add: aes_okD fun_eq_iff)
  then show ?thesis
    using xts_loops_reference [OF aes_okD(2) [OF assms] length_initial_tweak [OF assms]]
    by (simp only: encrypt_sector_inner_def Let_def)
qed

lemma decrypt_inner_reference:
  assumes "aes_ok A"
  shows "decrypt_sector_inner A c r sector =
    xts_reference (aes_decrypt_block A (cipher_1 c)) (initial_tweak A c r) sector"
proof -
  have "aes_decrypt_blocks A (cipher_1 c) = map (aes_decrypt_block A (cipher_1 c))"
    using assms by (simp add: aes_okD fun_eq_iff)
  then show ?thesis
    using xts_loops_reference [OF aes_okD(3) [OF assms] length_initial_tweak [OF assms]]
    by (simp only: decrypt_sector_inner_def Let_def)
qed

lemmas inner_reference = encrypt_inner_reference decrypt_inner_reference

interpretation xts: volume_cipher_spec "xts_as_volume_cipher A c" "aes_ok A" for A c
proof (unfold_locales, goal_cases)
  case (1 r s)
  then show ?case
    by (simp add: xts_as_volume_cipher_def inner_reference length_xts_reference aes_okD length_initial_tweak)
next
  case (2 r s)
  then show ?case
    by (simp add: xts_as_volume_cipher_def inner_reference length_xts_reference aes_okD length_initial_tweak)
next
  case (3 r s)
  then show ?case
    by (simp add: xts_as_volume_cipher_def inner_reference xts_reference_inverse aes_okD length_initial_tweak)
next
  case (4 r s)
  then show ?case
    by (simp add: xts_as_volume_cipher_def inner_reference xts_reference_inverse aes_okD length_initial_tweak)
next
  case (5 ss buf first)
  then show ?case
    by (simp add: xts_as_volume_cipher_def encrypt_area_def area_map_def)
next
  case (6 ss buf first)
  then show ?case
    by (simp add: xts_as_volume_cipher_def decrypt_area_def area_map_def)
qed

lemma xts_new_ok:
  assumes "aes_ok A" "length k1 = 32" "length k2 = 32"
  shows "\<exists>c. xts_new A k1 k2 = Inr c"
  using aes_okD(1) [OF assms(1,2)] aes_okD(1) [OF assms(1,3)] by (auto simp: xts_new_def)

text \<open>The supplier of a volume with 32-byte keys always hands out a cipher that meets the
  contract.\<close>

lemma static_get_cipher_some:
  assumes "aes_ok A" "length (scs_key1 s) = 32" "length (scs_key2 s) = 32"
  shows "\<exists>c. static_get_cipher A s () = Some (xts_as_volume_cipher A c)"
  using xts_new_ok [OF assms] by (auto simp: static_get_cipher_def)


section \<open>A concrete block cipher\<close>

text \<open>A key-dependent permutation of 16-byte blocks that satisfies \<open>aes_ok\<close>: it shows that
  the assumptions on the crate are consistent, and the witnesses compute with it.\<close>

definition toy_aes :: aes256 where
  "toy_aes =
     \<lparr>aes_new_from_slice = (\<lambda>k. if length k = 32 then Some k else None),
      aes_encrypt_block = (\<lambda>k b. map (\<lambda>x. x + hd (k @ [1]) + 1) (rev b)),
      aes_decrypt_block = (\<lambda>k b. rev (map (\<lambda>x. x - hd (k @ [1]) - 1) b)),
      aes_encrypt_blocks = (\<lambda>k. map (\<lambda>b. map (\<lambda>x. x + hd (k @ [1]) + 1) (rev b))),
      aes_decrypt_blocks = (\<lambda>k. map (\<lambda>b. rev (map (\<lambda>x. x - hd (k @ [1]) - 1) b)))\<rparr>"

lemma toy_aes_ok: "aes_ok toy_aes"
  by (simp add: aes_ok_def toy_aes_def comp_def rev_map)

definition toy_xts :: xts_volume_cipher where
  "toy_xts = \<lparr>cipher_1 = replicate 32 3, cipher_2 = replicate 32 5\<rparr>"


section \<open>Properties\<close>

text \<open>C11: the optimised sector routines (eight-block batches followed by a scalar tail)
  compute the block-by-block XTS definition for a sector of any length, encryption and
  decryption alike; bytes after the last whole block are left as they are.\<close>

theorem xts_inner_equals_reference:
  assumes "aes_ok A"
  shows "encrypt_sector_inner A c r sector =
      xts_reference (aes_encrypt_block A (cipher_1 c)) (initial_tweak A c r) sector \<and>
    decrypt_sector_inner A c r sector =
      xts_reference (aes_decrypt_block A (cipher_1 c)) (initial_tweak A c r) sector"
  using assms by (simp add: inner_reference)

theorem xts_inner_equals_reference_witness:
  "aes_ok toy_aes \<and>
   encrypt_sector_inner toy_aes toy_xts 7 (replicate 145 9) =
     xts_reference (aes_encrypt_block toy_aes (cipher_1 toy_xts)) (initial_tweak toy_aes toy_xts 7)
       (replicate 145 9) \<and>
   decrypt_sector_inner toy_aes toy_xts 7 (replicate 145 9) =
     xts_reference (aes_decrypt_block toy_aes (cipher_1 toy_xts)) (initial_tweak toy_aes toy_xts 7)
       (replicate 145 9)"
  using xts_inner_equals_reference [OF toy_aes_ok] toy_aes_ok by simp

text \<open>C33: \<open>decrypt_area\<close> undoes \<open>encrypt_area\<close> and the other way round, for every sector
  size, starting sector and buffer, and neither changes the length of the buffer.\<close>

theorem xts_area_roundtrip:
  assumes "aes_ok A" "0 < ss"
  shows "decrypt_area A c (encrypt_area A c buf ss first) ss first = buf \<and>
    encrypt_area A c (decrypt_area A c buf ss first) ss first = buf \<and>
    length (encrypt_area A c buf ss first) = length buf \<and>
    length (decrypt_area A c buf ss first) = length buf"
  using xts.area_roundtrip [OF assms, of c buf first] xts.area_lengths [OF assms, of c buf first]
  by (simp add: xts_as_volume_cipher_def)

theorem xts_area_roundtrip_witness:
  "aes_ok toy_aes \<and> decrypt_area toy_aes toy_xts
     (encrypt_area toy_aes toy_xts (map word_of_nat [0..<96]) 32 40) 32 40 = map word_of_nat [0..<96] \<and>
   encrypt_area toy_aes toy_xts (map word_of_nat [0..<96]) 32 40 \<noteq> map word_of_nat [0..<96]"
proof -
  have "encrypt_area toy_aes toy_xts (map word_of_nat [0..<96]) 32 40 \<noteq> map word_of_nat [0..<96]"
    by code_simp
  then show ?thesis
    using xts_area_roundtrip [OF toy_aes_ok, of 32 toy_xts "map word_of_nat [0..<96]" 40] toy_aes_ok
    by simp
qed

text \<open>The tweak update is multiplication by \<open>x\<close> in \<open>GF(2^128)\<close> with the XTS polynomial:
  read as a 128-bit little-endian integer the tweak is shifted left by one, and when a bit
  is shifted out the constant \<open>0x87\<close> is added.\<close>

theorem gf128_mul_is_doubling:
  assumes "length t = 16"
  shows "length (gf128_mul t) = 16 \<and> (of_le_bytes (gf128_mul t) :: 128 word) =
    push_bit 1 (of_le_bytes t) XOR (if bit (of_le_bytes t :: 128 word) 127 then 0x87 else 0)"
  using gf128_mul_word [OF assms] by simp

theorem gf128_mul_is_doubling_witness:
  "length (1 # replicate 14 0 @ [0x80] :: bytes) = 16 \<and>
   gf128_mul (1 # replicate 14 0 @ [0x80]) = 0x85 # replicate 15 0 \<and>
   (of_le_bytes (gf128_mul (1 # replicate 14 0 @ [0x80])) :: 128 word) =
    push_bit 1 (of_le_bytes (1 # replicate 14 0 @ [0x80])) XOR
    (if bit (of_le_bytes (1 # replicate 14 0 @ [0x80]) :: 128 word) 127 then 0x87 else 0)"
proof -
  have "gf128_mul (1 # replicate 14 0 @ [0x80]) = 0x85 # replicate 15 0"
    by code_simp
  then show ?thesis
    using gf128_mul_is_doubling [of "1 # replicate 14 0 @ [0x80]"] by simp
qed

end
