(* ===== verification/Enc_Engine.thy ===== *)
theory Enc_Engine
  imports Crypto_Pipeline Offset_Store Xts_Cipher
begin

text \<open>
  The encryption engine of \<open>lib/windrv/src/offset/engine.rs\<close>: the state machine of the
  background sweep and its two steps, which encrypt or decrypt a batch of sectors at the
  boundary and persist the new boundary through the offset store.

  The engine is a record; device, cipher and store are the trait objects of
  \<open>Vck_Common\<close>, and a step returns its result, the new engine and the new world.  The main
  results: a successful step never changes what a reader of the volume sees (the logical
  view), it moves the boundary by the batch and stays inside the data region; a failing step
  leaves engine and disk consistent unless the device itself failed in the middle of a
  write; on a reliable device the sweep reaches the end in a bounded number of steps.
\<close>


section \<open>The engine of the source\<close>

datatype engine_state = Idle | Encrypting | Decrypting | Paused

definition as_wire :: "engine_state \<Rightarrow> int" where
  "as_wire s = (case s of Idle \<Rightarrow> 0 | Encrypting \<Rightarrow> 1 | Decrypting \<Rightarrow> 2 | Paused \<Rightarrow> 3)"

record progress_snapshot =
  ps_encrypted_sector :: u64
  ps_total_sectors :: u64
  ps_state :: engine_state

record engine =
  en_offset_sector :: u64
  en_encrypted_offset :: encrypted_offset
  en_state :: engine_state

definition engine_new :: "u64 \<Rightarrow> encrypted_offset \<Rightarrow> engine" where
  "engine_new offset_sector encrypted_off =
     \<lparr>en_offset_sector = offset_sector, en_encrypted_offset = encrypted_off, en_state = Idle\<rparr>"

definition relative :: "engine \<Rightarrow> u64 \<Rightarrow> u64 option" where
  "relative e lba =
     (if lba < en_offset_sector e then None
      else let rel = lba - en_offset_sector e
           in if rel < eo_total_sectors (en_encrypted_offset e) then Some rel else None)"

definition engine_is_encrypted :: "engine \<Rightarrow> u64 \<Rightarrow> bool" where
  "engine_is_encrypted e rel = is_encrypted (en_encrypted_offset e) rel"

definition encrypted_boundary :: "engine \<Rightarrow> u64" where
  "encrypted_boundary e = eo_sector (en_encrypted_offset e)"

definition snapshot :: "engine \<Rightarrow> progress_snapshot" where
  "snapshot e = \<lparr>ps_encrypted_sector = eo_sector (en_encrypted_offset e),
     ps_total_sectors = eo_total_sectors (en_encrypted_offset e), ps_state = en_state e\<rparr>"

definition start_encrypt :: "'w offset_store \<Rightarrow> engine \<Rightarrow> 'w \<Rightarrow> engine \<times> 'w" where
  "start_encrypt store e w =
     (let (_, w1) = os_store_state store w Encrypt
      in (e\<lparr>en_state := (if \<not> is_fully_encrypted (en_encrypted_offset e) then Encrypting else Idle)\<rparr>, w1))"

definition start_decrypt :: "'w offset_store \<Rightarrow> engine \<Rightarrow> 'w \<Rightarrow> engine \<times> 'w" where
  "start_decrypt store e w =
     (let (_, w1) = os_store_state store w Decrypt
      in (e\<lparr>en_state := (if eo_sector (en_encrypted_offset e) > 0 then Decrypting else Idle)\<rparr>, w1))"

definition engine_resume :: "'w offset_store \<Rightarrow> engine \<Rightarrow> 'w \<Rightarrow> engine" where
  "engine_resume store e w =
     (let dir = (case os_load_state store w of Inr s \<Rightarrow> s | Inl _ \<Rightarrow> Encrypt)
      in case dir of
           Encrypt \<Rightarrow> e\<lparr>en_state := (if is_fully_encrypted (en_encrypted_offset e) then Idle else Encrypting)\<rparr>
         | Decrypt \<Rightarrow> e\<lparr>en_state := (if eo_sector (en_encrypted_offset e) > 0 then Decrypting else Idle)\<rparr>)"

definition pause :: "engine \<Rightarrow> engine" where
  "pause e = (if en_state e = Encrypting \<or> en_state e = Decrypting then e\<lparr>en_state := Paused\<rparr> else e)"

definition set_boundary :: "u64 \<Rightarrow> engine \<Rightarrow> engine" where
  "set_boundary b e = e\<lparr>en_encrypted_offset := (en_encrypted_offset e)\<lparr>eo_sector := b\<rparr>\<rparr>"

text \<open>\<open>store.store(..)?; store.flush()?;\<close> followed by the final state change.\<close>

definition persist_step ::
    "'w offset_store \<Rightarrow> engine \<Rightarrow> 'w \<Rightarrow> bool \<Rightarrow> bool vck_result \<times> engine \<times> 'w" where
  "persist_step store e w done_now =
     (case os_store store w (en_encrypted_offset e) of
        (Inl err, w1) \<Rightarrow> (Inl err, e, w1)
      | (Inr _, w1) \<Rightarrow>
          (case os_flush store w1 of
             (Inl err, w2) \<Rightarrow> (Inl err, e, w2)
           | (Inr _, w2) \<Rightarrow>
               if done_now then (Inr False, e\<lparr>en_state := Idle\<rparr>, w2) else (Inr True, e, w2)))"

definition batch_count :: "u64 \<Rightarrow> u64 \<Rightarrow> u64" where
  "batch_count remaining batch_sectors = min remaining (max batch_sectors 1)"

definition encrypt_step ::
    "'w sector_io \<Rightarrow> volume_cipher \<Rightarrow> 'w offset_store \<Rightarrow> u64 \<Rightarrow> engine \<Rightarrow> 'w \<Rightarrow> bool vck_result \<times> engine \<times> 'w" where
  "encrypt_step io c store batch_sectors e w =
     (if is_fully_encrypted (en_encrypted_offset e) then (Inr False, e\<lparr>en_state := Idle\<rparr>, w)
      else let sector_size = unat (sio_sector_size io);
               start_rel = eo_sector (en_encrypted_offset e);
               remaining = eo_total_sectors (en_encrypted_offset e) - start_rel;
               count = batch_count remaining batch_sectors;
               abs = en_offset_sector e + start_rel
           in case sio_read_sectors io w abs (unat (count * ucast (sio_sector_size io))) of
                Inl err \<Rightarrow> (Inl err, e, w)
              | Inr buf \<Rightarrow>
                  (case sio_write_sectors io w abs (vc_encrypt_area c buf sector_size start_rel) of
                     (Inl err, w1) \<Rightarrow> (Inl err, e, w1)
                   | (Inr _, w1) \<Rightarrow>
                       let e1 = set_boundary (start_rel + count) e
                       in persist_step store e1 w1 (is_fully_encrypted (en_encrypted_offset e1))))"

definition decrypt_step ::
    "'w sector_io \<Rightarrow> volume_cipher \<Rightarrow> 'w offset_store \<Rightarrow> u64 \<Rightarrow> engine \<Rightarrow> 'w \<Rightarrow> bool vck_result \<times> engine \<times> 'w" where
  "decrypt_step io c store batch_sectors e w =
     (if eo_sector (en_encrypted_offset e) = 0 then (Inr False, e\<lparr>en_state := Idle\<rparr>, w)
      else let sector_size = unat (sio_sector_size io);
               count = batch_count (eo_sector (en_encrypted_offset e)) batch_sectors;
               new_boundary = eo_sector (en_encrypted_offset e) - count;
               abs = en_offset_sector e + new_boundary
           in case sio_read_sectors io w abs (unat (count * ucast (sio_sector_size io))) of
                Inl err \<Rightarrow> (Inl err, e, w)
              | Inr buf \<Rightarrow>
                  (case sio_write_sectors io w abs (vc_decrypt_area c buf sector_size new_boundary) of
                     (Inl err, w1) \<Rightarrow> (Inl err, e, w1)
                   | (Inr _, w1) \<Rightarrow> persist_step store (set_boundary new_boundary e) w1 (new_boundary = 0)))"

definition progress_step ::
    "'w sector_io \<Rightarrow> volume_cipher \<Rightarrow> 'w offset_store \<Rightarrow> u64 \<Rightarrow> engine \<Rightarrow> 'w \<Rightarrow> bool vck_result \<times> engine \<times> 'w" where
  "progress_step io c store batch_sectors e w =
     (case en_state e of
        Encrypting \<Rightarrow> encrypt_step io c store batch_sectors e w
      | Decrypting \<Rightarrow> decrypt_step io c store batch_sectors e w
      | _ \<Rightarrow> (Inr False, e, w))"


lemma persist_step_stores:
  assumes "persist_step store e w d = (Inr again, e', w')"
  shows "\<exists>w2. os_store store w (en_encrypted_offset e') = (Inr (), w2) \<and> os_flush store w2 = (Inr (), w')"
  using assms by (auto simp: persist_step_def split: prod.splits sum.splits if_splits)

text \<open>A step that had work to do and succeeds ends by storing the boundary it reached.\<close>

lemma progress_step_persists:
  assumes "progress_step io c store bsz e w = (Inr again, e', w')"
    "en_state e = Encrypting \<and> \<not> is_fully_encrypted (en_encrypted_offset e) \<or>
     en_state e = Decrypting \<and> eo_sector (en_encrypted_offset e) \<noteq> 0"
  shows "\<exists>lba buf w1 w2. sio_write_sectors io w lba buf = (Inr (), w1) \<and>
    os_store store w1 (en_encrypted_offset e') = (Inr (), w2) \<and> os_flush store w2 = (Inr (), w')"
proof -
  obtain lba buf w1 e1 d where w1: "sio_write_sectors io w lba buf = (Inr (), w1)"
    and p: "persist_step store e1 w1 d = (Inr again, e', w')"
    using assms
    by (auto simp: progress_step_def encrypt_step_def decrypt_step_def Let_def split: prod.splits sum.splits)
  show ?thesis
    using w1 persist_step_stores [OF p] by auto
qed


section \<open>Well-formed engines and the logical view\<close>

definition en_total :: "engine \<Rightarrow> nat" where
  "en_total e = unat (eo_total_sectors (en_encrypted_offset e))"

definition en_boundary :: "engine \<Rightarrow> nat" where
  "en_boundary e = unat (eo_sector (en_encrypted_offset e))"

definition engine_ok :: "nat \<Rightarrow> nat \<Rightarrow> nat set \<Rightarrow> engine \<Rightarrow> bool" where
  "engine_ok ss cap md e \<longleftrightarrow>
     unat (en_offset_sector e) + en_total e \<le> cap \<and> en_total e * ss < 2 ^ 64 \<and> en_boundary e \<le> en_total e \<and>
     (\<forall>i. unat (en_offset_sector e) \<le> i \<and> i < unat (en_offset_sector e) + en_total e \<longrightarrow> i \<notin> md)"

definition engine_view :: "volume_cipher \<Rightarrow> engine \<Rightarrow> (nat \<Rightarrow> bytes) \<Rightarrow> nat \<Rightarrow> bytes" where
  "engine_view c e disk = logical_sector c (eo_sector (en_encrypted_offset e)) (\<lambda>i. disk (unat (en_offset_sector e) + i))"

definition same_region :: "engine \<Rightarrow> engine \<Rightarrow> bool" where
  "same_region e e' \<longleftrightarrow> en_offset_sector e' = en_offset_sector e \<and>
     eo_total_sectors (en_encrypted_offset e') = eo_total_sectors (en_encrypted_offset e)"

lemma set_boundary_simps [simp]:
  "en_offset_sector (set_boundary b e) = en_offset_sector e"
  "en_state (set_boundary b e) = en_state e"
  "eo_sector (en_encrypted_offset (set_boundary b e)) = b"
  "eo_total_sectors (en_encrypted_offset (set_boundary b e)) = eo_total_sectors (en_encrypted_offset e)"
  "en_total (set_boundary b e) = en_total e"
  "en_boundary (set_boundary b e) = unat b"
  by (simp_all add: set_boundary_def en_total_def en_boundary_def)

lemma state_update_simps [simp]:
  "en_total (e\<lparr>en_state := s\<rparr>) = en_total e"
  "en_boundary (e\<lparr>en_state := s\<rparr>) = en_boundary e"
  "engine_ok ss cap md (e\<lparr>en_state := s\<rparr>) = engine_ok ss cap md e"
  "engine_view c (e\<lparr>en_state := s\<rparr>) = engine_view c e"
  "same_region e (e\<lparr>en_state := s\<rparr>)"
  "same_region e (set_boundary b e)"
  "same_region e e"
  by (simp_all add: en_total_def en_boundary_def engine_ok_def engine_view_def same_region_def fun_eq_iff)

lemma engine_ok_set_boundary:
  "engine_ok ss cap md e \<Longrightarrow> unat b \<le> en_total e \<Longrightarrow> engine_ok ss cap md (set_boundary b e)"
  by (simp add: engine_ok_def)

lemma batch_count_bounds:
  assumes "remaining \<noteq> 0"
  shows "0 < unat (batch_count remaining bsz)" "unat (batch_count remaining bsz) \<le> unat remaining"
    "unat (batch_count remaining bsz) = min (unat remaining) (max (unat bsz) 1)"
proof -
  have r: "0 < unat remaining"
    using assms by (simp add: unat_gt_0)
  show eq: "unat (batch_count remaining bsz) = min (unat remaining) (max (unat bsz) 1)"
    by (simp add: batch_count_def min_def max_def word_le_unat)
  show "0 < unat (batch_count remaining bsz)" "unat (batch_count remaining bsz) \<le> unat remaining"
    using r unfolding eq by auto
qed

text \<open>The view depends on the data region only.\<close>

lemma engine_view_cong:
  assumes "\<And>i. i < en_total e \<Longrightarrow> d' (unat (en_offset_sector e) + i) = d (unat (en_offset_sector e) + i)" "i < en_total e"
  shows "engine_view c e d' i = engine_view c e d i"
  using assms by (simp add: engine_view_def logical_sector_def)



section \<open>The steps over the interfaces\<close>

locale sweep_env = dev: sector_device io invar content cap + cip: volume_cipher_spec c cok +
    st: offset_store_spec store invar content md
  for io :: "'w sector_io" and invar :: "'w \<Rightarrow> bool" and content :: "'w \<Rightarrow> nat \<Rightarrow> bytes" and cap :: nat
    and c :: volume_cipher and cok :: bool and store :: "'w offset_store" and md :: "nat set" +
  assumes cipher_ok: "invar w \<Longrightarrow> cok"
begin

abbreviation ss :: nat where "ss \<equiv> unat (sio_sector_size io)"

abbreviation eok :: "engine \<Rightarrow> bool" where "eok e \<equiv> engine_ok ss cap md e"

abbreviation view :: "engine \<Rightarrow> 'w \<Rightarrow> nat \<Rightarrow> bytes" where "view e w \<equiv> engine_view c e (content w)"

text \<open>Turning a run of the data region into ciphertext (or back) and moving the boundary over
  it leaves the view alone.\<close>

lemma view_encrypt_run:
  assumes "invar w" "en_boundary e + unat n < 2 ^ 64"
    "content w' = put_sectors ss (unat (en_offset_sector e) + en_boundary e)
       (vc_encrypt_area c (get_sectors (content w) (unat (en_offset_sector e) + en_boundary e) (unat n)) ss
         (eo_sector (en_encrypted_offset e))) (content w)"
  shows "view (set_boundary (eo_sector (en_encrypted_offset e) + n) e) w' = view e w"
proof
  fix i
  let ?off = "unat (en_offset_sector e)" and ?b = "en_boundary e" and ?start = "eo_sector (en_encrypted_offset e)"
  let ?buf = "get_sectors (content w) (?off + ?b) (unat n)"
  have ss: "0 < ss" and ok: cok
    using dev.sector_size_pos [OF assms(1)] cipher_ok [OF assms(1)] by simp_all
  have len: "length ?buf = unat n * ss"
    using dev.content_length [OF assms(1)] by (intro length_get_sectors) simp
  have lenE: "length (vc_encrypt_area c ?buf ss ?start) = unat n * ss"
    using cip.area_lengths(1) [OF ok ss] len by simp
  have nb: "unat (?start + n) = ?b + unat n"
    using assms(2) by (simp add: en_boundary_def unat_add_no_wrap)
  show "view (set_boundary (?start + n) e) w' i = view e w i"
  proof (cases "?b \<le> i \<and> i < ?b + unat n")
    case True
    then obtain j where j: "i = ?b + j" "j < unat n"
      by (metis add_less_cancel_left le_Suc_ex)
    have "content w' (?off + i) = chunks ss (vc_encrypt_area c ?buf ss ?start) ! j"
      unfolding assms(3) j(1) add.assoc [symmetric] by (rule put_sectors_chunk [OF ss lenE j(2)])
    also have "\<dots> = vc_encrypt_sector c (?start + of_nat j) (chunks ss ?buf ! j)"
      by (rule cip.nth_chunks_enc_area [OF ok ss len j(2)])
    also have "chunks ss ?buf ! j = content w (?off + i)"
      using chunks_get_sectors [OF ss, of "?off + ?b" "unat n" "content w"] dev.content_length [OF assms(1)] j
      by (simp add: add.assoc)
    also have "?start + of_nat j = of_nat i"
      by (simp add: j(1) en_boundary_def)
    finally have "vc_decrypt_sector c (of_nat i) (content w' (?off + i)) = content w (?off + i)"
      using cip.dec_enc [OF ok] by simp
    then show ?thesis
      using True nb by (simp add: engine_view_def logical_sector_def en_boundary_def)
  next
    case False
    then have "content w' (?off + i) = content w (?off + i)"
      unfolding assms(3) using lenE ss by (intro put_sectors_outside) auto
    then show ?thesis
      using False nb by (auto simp: engine_view_def logical_sector_def en_boundary_def)
  qed
qed

lemma view_decrypt_run:
  assumes "invar w" "unat nb + unat n = en_boundary e"
    "content w' = put_sectors ss (unat (en_offset_sector e) + unat nb)
       (vc_decrypt_area c (get_sectors (content w) (unat (en_offset_sector e) + unat nb) (unat n)) ss nb) (content w)"
  shows "view (set_boundary nb e) w' = view e w"
proof
  fix i
  let ?off = "unat (en_offset_sector e)" and ?b = "unat nb"
  let ?buf = "get_sectors (content w) (?off + ?b) (unat n)"
  have ss: "0 < ss" and ok: cok
    using dev.sector_size_pos [OF assms(1)] cipher_ok [OF assms(1)] by simp_all
  have len: "length ?buf = unat n * ss"
    using dev.content_length [OF assms(1)] by (intro length_get_sectors) simp
  have lenD: "length (vc_decrypt_area c ?buf ss nb) = unat n * ss"
    using cip.area_lengths(2) [OF ok ss] len by simp
  show "view (set_boundary nb e) w' i = view e w i"
  proof (cases "?b \<le> i \<and> i < ?b + unat n")
    case True
    then obtain j where j: "i = ?b + j" "j < unat n"
      by (metis add_less_cancel_left le_Suc_ex)
    have "content w' (?off + i) = chunks ss (vc_decrypt_area c ?buf ss nb) ! j"
      unfolding assms(3) j(1) add.assoc [symmetric] by (rule put_sectors_chunk [OF ss lenD j(2)])
    also have "\<dots> = vc_decrypt_sector c (nb + of_nat j) (chunks ss ?buf ! j)"
      by (rule cip.nth_chunks_dec_area [OF ok ss len j(2)])
    also have "chunks ss ?buf ! j = content w (?off + i)"
      using chunks_get_sectors [OF ss, of "?off + ?b" "unat n" "content w"] dev.content_length [OF assms(1)] j
      by (simp add: add.assoc)
    also have "nb + of_nat j = of_nat i"
      by (simp add: j(1))
    finally show ?thesis
      using True assms(2) by (simp add: engine_view_def logical_sector_def en_boundary_def)
  next
    case False
    then have "content w' (?off + i) = content w (?off + i)"
      unfolding assms(3) using lenD ss by (intro put_sectors_outside) auto
    then show ?thesis
      using False assms(2) by (auto simp: engine_view_def logical_sector_def en_boundary_def)
  qed
qed

text \<open>Persisting touches metadata sectors only.\<close>

lemma persist_step_frame:
  assumes "invar w" "persist_step store e w d = (r, e', w')"
  shows "invar w' \<and> (\<forall>i. i \<notin> md \<longrightarrow> content w' i = content w i) \<and>
    (e' = e \<or> e' = e\<lparr>en_state := Idle\<rparr>) \<and>
    (\<forall>more. r = Inr more \<longrightarrow> more = (\<not> d) \<and> e' = (if d then e\<lparr>en_state := Idle\<rparr> else e)) \<and>
    (\<forall>err. r = Inl err \<longrightarrow> e' = e)"
proof -
  obtain r1 w1 where 1: "os_store store w (en_encrypted_offset e) = (r1, w1)"
    by fastforce
  note f1 = st.store_frame [OF assms(1) 1]
  obtain r2 w2 where 2: "os_flush store w1 = (r2, w2)"
    by fastforce
  have f2: "invar w2 \<and> (\<forall>i. i \<notin> md \<longrightarrow> content w2 i = content w1 i)"
    using st.flush_frame [OF _ 2] f1 by blast
  show ?thesis
    using assms(2) 1 2 f1 f2
    by (auto simp: persist_step_def split: sum.splits if_splits)
qed

lemma persist_step_view:
  assumes "invar w" "eok e" "persist_step store e w d = (r, e', w')" "i < en_total e"
  shows "view e' w' i = view e w i"
proof -
  note f = persist_step_frame [OF assms(1,3)]
  have "content w' (unat (en_offset_sector e) + j) = content w (unat (en_offset_sector e) + j)" if "j < en_total e" for j
    using f assms(2) that by (simp add: engine_ok_def)
  then have "view e w' i = view e w i"
    using assms(4) by (intro engine_view_cong) simp_all
  then show ?thesis
    using f by auto
qed

text \<open>What a step may do, for a batch that starts at \<open>lo\<close> and has \<open>n\<close> sectors and moves the
  boundary to \<open>nb\<close>.\<close>

definition step_post ::
    "engine \<Rightarrow> 'w \<Rightarrow> nat \<Rightarrow> nat \<Rightarrow> nat \<Rightarrow> bool \<Rightarrow> bool vck_result \<Rightarrow> engine \<Rightarrow> 'w \<Rightarrow> bool" where
  "step_post e w lo n nb fin r e' w' \<longleftrightarrow>
     invar w' \<and> eok e' \<and> same_region e e' \<and>
     (\<forall>i. i \<notin> md \<and> \<not> (unat (en_offset_sector e) \<le> i \<and> i < unat (en_offset_sector e) + en_total e) \<longrightarrow>
        content w' i = content w i) \<and>
     (case r of
        Inr again \<Rightarrow> (\<forall>i < en_total e. view e' w' i = view e w i) \<and> en_boundary e' = nb \<and>
          again = (\<not> fin) \<and> en_state e' = (if fin then Idle else en_state e)
      | Inl err \<Rightarrow> en_state e' = en_state e \<and>
          (en_boundary e' = nb \<and> (\<forall>i < en_total e. view e' w' i = view e w i) \<or>
           en_boundary e' = en_boundary e \<and>
             (\<forall>i < en_total e. \<not> (lo \<le> i \<and> i < lo + n) \<longrightarrow> view e' w' i = view e w i)))"

text \<open>The part shared by both directions: read, transform, write, persist.\<close>

lemma batch_frame:
  assumes "invar w" "eok e" "unat lo + unat n \<le> en_total e" "length buf = unat n * ss"
    "sio_write_sectors io w (en_offset_sector e + lo) buf = (r1, w1)"
  shows "invar w1" "\<And>i. i < unat (en_offset_sector e) + unat lo \<or> unat (en_offset_sector e) + unat lo + unat n \<le> i \<Longrightarrow>
      content w1 i = content w i"
    "unat (en_offset_sector e + lo) = unat (en_offset_sector e) + unat lo"
    "r1 = Inr () \<Longrightarrow> content w1 = put_sectors ss (unat (en_offset_sector e) + unat lo) buf (content w)"
proof -
  have le: "unat (en_offset_sector e) + unat lo + unat n \<le> cap"
    using assms(2,3) by (simp add: engine_ok_def)
  show abs: "unat (en_offset_sector e + lo) = unat (en_offset_sector e) + unat lo"
    using le dev.cap_bound [OF assms(1)] by (intro unat_add_no_wrap) simp
  then have le': "unat (en_offset_sector e + lo) + unat n \<le> cap"
    using le by simp
  show "invar w1"
    using dev.write_invar [OF assms(1) le' assms(4)] assms(5) by simp
  show "content w1 i = content w i"
    if "i < unat (en_offset_sector e) + unat lo \<or> unat (en_offset_sector e) + unat lo + unat n \<le> i" for i
    using dev.write_frame [OF assms(1) le' assms(4)] assms(5) that abs by simp
  show "content w1 = put_sectors ss (unat (en_offset_sector e) + unat lo) buf (content w)" if "r1 = Inr ()"
    using dev.write_ok [OF assms(1) le' assms(4)] assms(5) that abs by simp
qed

lemma batch_read:
  fixes lo n :: u64
  assumes "invar w" "eok e" "unat lo + unat n \<le> en_total e"
    "sio_read_sectors io w (en_offset_sector e + lo) (unat (n * ucast (sio_sector_size io))) = Inr buf"
  shows "buf = get_sectors (content w) (unat (en_offset_sector e) + unat lo) (unat n)" "length buf = unat n * ss"
proof -
  have le: "unat (en_offset_sector e) + unat lo + unat n \<le> cap"
    using assms(2,3) by (simp add: engine_ok_def)
  have abs: "unat (en_offset_sector e + lo) = unat (en_offset_sector e) + unat lo"
    using le dev.cap_bound [OF assms(1)] by (intro unat_add_no_wrap) simp
  have "unat n * ss \<le> en_total e * ss"
    using assms(3) by (intro mult_le_mono1) simp
  also have "\<dots> < 2 ^ 64"
    using assms(2) by (simp add: engine_ok_def)
  finally have len: "unat (n * ucast (sio_sector_size io)) = unat n * ss"
    by (simp add: unat_word_ariths)
  show "buf = get_sectors (content w) (unat (en_offset_sector e) + unat lo) (unat n)"
    using dev.read_ok [OF assms(1), of "en_offset_sector e + lo" "unat n" buf] le assms(4) abs len by simp
  then show "length buf = unat n * ss"
    using dev.content_length [OF assms(1)] by (simp add: length_get_sectors)
qed

lemma batch_post:
  assumes "invar w" "eok e" "unat lo + unat n \<le> en_total e" "unat nb \<le> en_total e"
    "length buf = unat n * ss"
    "sio_write_sectors io w (en_offset_sector e + lo) buf = (r1, w1)"
    "(r, e', w') = (case r1 of Inl err \<Rightarrow> (Inl err, e, w1) | Inr _ \<Rightarrow> persist_step store (set_boundary nb e) w1 fin)"
    "r1 = Inr () \<Longrightarrow> view (set_boundary nb e) w1 = view e w"
  shows "step_post e w (unat lo) (unat n) (unat nb) fin r e' w'"
proof -
  note f = batch_frame [OF assms(1-3,5,6)]
  have outside1: "content w1 i = content w i"
    if "\<not> (unat (en_offset_sector e) \<le> i \<and> i < unat (en_offset_sector e) + en_total e)" for i
    using f(2) [of i] that assms(3) by linarith
  show ?thesis
  proof (cases r1)
    case (Inl err)
    then have e': "r = Inl err" "e' = e" "w' = w1"
      using assms(7) by simp_all
    have "view e w1 i = view e w i" if "\<not> (unat lo \<le> i \<and> i < unat lo + unat n)" for i
      using f(2) [of "unat (en_offset_sector e) + i"] that
      by (simp add: engine_view_def logical_sector_def not_le not_less)
    then show ?thesis
      using f(1) assms(2) outside1 e' by (auto simp: step_post_def)
  next
    case (Inr u)
    have p: "persist_step store (set_boundary nb e) w1 fin = (r, e', w')"
      using assms(7) Inr by simp
    have ok1: "eok (set_boundary nb e)"
      using engine_ok_set_boundary [OF assms(2,4)] .
    note pf = persist_step_frame [OF f(1) p]
    have v: "view e' w' i = view e w i" if "i < en_total e" for i
      using persist_step_view [OF f(1) ok1 p, of i] that assms(8) Inr by simp
    have base: "e' = set_boundary nb e \<or> e' = (set_boundary nb e)\<lparr>en_state := Idle\<rparr>"
      using pf by blast
    have "eok e'" "same_region e e'" "en_boundary e' = unat nb"
      using base ok1 by (auto simp: same_region_def)
    then show ?thesis
      using pf v outside1 base by (auto simp: step_post_def split: sum.splits)
  qed
qed

lemma encrypt_step_post:
  assumes "invar w" "eok e" "encrypt_step io c store bsz e w = (r, e', w')"
  shows "step_post e w (en_boundary e) (min (en_total e - en_boundary e) (max (unat bsz) 1))
    (en_boundary e + min (en_total e - en_boundary e) (max (unat bsz) 1))
    (en_total e \<le> en_boundary e + max (unat bsz) 1) r e' w'"
proof (cases "is_fully_encrypted (en_encrypted_offset e)")
  case True
  then have "en_total e = en_boundary e"
    using assms(2) by (simp add: is_fully_encrypted_def engine_ok_def en_total_def en_boundary_def word_le_unat)
  then show ?thesis
    using True assms by (auto simp: encrypt_step_def step_post_def)
next
  case False
  let ?start = "eo_sector (en_encrypted_offset e)" and ?tot = "eo_total_sectors (en_encrypted_offset e)"
  let ?n = "batch_count (?tot - ?start) bsz"
  have lt: "en_boundary e < en_total e"
    using False by (simp add: is_fully_encrypted_def en_total_def en_boundary_def word_le_unat)
  then have rem: "unat (?tot - ?start) = en_total e - en_boundary e" "?tot - ?start \<noteq> 0"
    by (auto simp: unat_sub_no_wrap word_le_unat en_total_def en_boundary_def)
  note n = batch_count_bounds [OF rem(2), of bsz, unfolded rem(1)]
  have le: "unat ?start + unat ?n \<le> en_total e"
    using n(2) lt by (simp add: en_boundary_def)
  have tot64: "en_total e < 2 ^ 64"
    unfolding en_total_def by (rule u64_lt)
  have nb: "unat (?start + ?n) = en_boundary e + unat ?n"
    using le tot64 by (simp add: en_boundary_def unat_add_no_wrap)
  let ?fin = "is_fully_encrypted (en_encrypted_offset (set_boundary (?start + ?n) e))"
  have fin: "?fin = (en_total e \<le> en_boundary e + max (unat bsz) 1)"
    using lt n(3) nb by (simp add: is_fully_encrypted_def word_le_unat en_total_def [symmetric]) linarith
  show ?thesis
  proof (cases "sio_read_sectors io w (en_offset_sector e + ?start) (unat (?n * ucast (sio_sector_size io)))")
    case (Inl err)
    then have "r = Inl err" "e' = e" "w' = w"
      using assms(3) False by (simp_all add: encrypt_step_def Let_def)
    then show ?thesis
      using assms(1,2) by (simp add: step_post_def)
  next
    case (Inr buf)
    note rd = batch_read [OF assms(1,2) le Inr]
    let ?out = "vc_encrypt_area c buf ss ?start"
    have len: "length ?out = unat ?n * ss"
      using rd(2) cip.area_lengths(1) [OF cipher_ok [OF assms(1)] dev.sector_size_pos [OF assms(1)]] by simp
    obtain r1 w1 where w1: "sio_write_sectors io w (en_offset_sector e + ?start) ?out = (r1, w1)"
      by fastforce
    have res: "(r, e', w') = (case r1 of Inl err \<Rightarrow> (Inl err, e, w1)
        | Inr _ \<Rightarrow> persist_step store (set_boundary (?start + ?n) e) w1 ?fin)"
      using assms(3) False Inr w1 by (simp add: encrypt_step_def Let_def split: sum.splits)
    have v: "view (set_boundary (?start + ?n) e) w1 = view e w" if "r1 = Inr ()"
      using batch_frame(4) [OF assms(1,2) le len w1 that] rd(1) nb tot64 le
      by (intro view_encrypt_run [OF assms(1)]) (simp_all add: en_boundary_def)
    show ?thesis
      using batch_post [OF assms(1,2) le _ len w1 res v] le nb n(3) fin by (simp add: en_boundary_def)
  qed
qed

lemma decrypt_step_post:
  assumes "invar w" "eok e" "decrypt_step io c store bsz e w = (r, e', w')"
  shows "step_post e w (en_boundary e - min (en_boundary e) (max (unat bsz) 1)) (min (en_boundary e) (max (unat bsz) 1))
    (en_boundary e - min (en_boundary e) (max (unat bsz) 1))
    (en_boundary e \<le> max (unat bsz) 1) r e' w'"
proof (cases "eo_sector (en_encrypted_offset e) = 0")
  case True
  then show ?thesis
    using assms by (auto simp: decrypt_step_def step_post_def en_boundary_def)
next
  case False
  let ?b = "eo_sector (en_encrypted_offset e)"
  let ?n = "batch_count ?b bsz"
  let ?nb = "?b - ?n"
  note n = batch_count_bounds [OF False, of bsz, folded en_boundary_def]
  have nb: "unat ?nb = en_boundary e - unat ?n"
    using n(2) by (simp add: unat_sub_no_wrap word_le_unat en_boundary_def)
  have le: "unat ?nb + unat ?n \<le> en_total e" and sum: "unat ?nb + unat ?n = en_boundary e"
    using n(2) nb assms(2) by (simp_all add: engine_ok_def)
  have fin: "(?nb = 0) = (en_boundary e \<le> max (unat bsz) 1)"
  proof -
    have "?nb = 0 \<longleftrightarrow> unat ?nb = 0" by (simp add: unat_eq_0)
    also have "\<dots> \<longleftrightarrow> en_boundary e \<le> max (unat bsz) 1"
      unfolding nb n(3) by auto
    finally show ?thesis .
  qed
  show ?thesis
  proof (cases "sio_read_sectors io w (en_offset_sector e + ?nb) (unat (?n * ucast (sio_sector_size io)))")
    case (Inl err)
    then have "r = Inl err" "e' = e" "w' = w"
      using assms(3) False by (simp_all add: decrypt_step_def Let_def)
    then show ?thesis
      using assms(1,2) by (simp add: step_post_def)
  next
    case (Inr buf)
    note rd = batch_read [OF assms(1,2) le Inr]
    let ?out = "vc_decrypt_area c buf ss ?nb"
    have len: "length ?out = unat ?n * ss"
      using rd(2) cip.area_lengths(2) [OF cipher_ok [OF assms(1)] dev.sector_size_pos [OF assms(1)]] by simp
    obtain r1 w1 where w1: "sio_write_sectors io w (en_offset_sector e + ?nb) ?out = (r1, w1)"
      by fastforce
    have res: "(r, e', w') = (case r1 of Inl err \<Rightarrow> (Inl err, e, w1)
        | Inr _ \<Rightarrow> persist_step store (set_boundary ?nb e) w1 (?nb = 0))"
      using assms(3) False Inr w1 by (simp add: decrypt_step_def Let_def split: sum.splits)
    have v: "view (set_boundary ?nb e) w1 = view e w" if "r1 = Inr ()"
      using batch_frame(4) [OF assms(1,2) le len w1 that] rd(1) sum
      by (intro view_decrypt_run [OF assms(1)]) simp_all
    show ?thesis
      using batch_post [OF assms(1,2) le _ len w1 res v] le nb n(3) fin by simp
  qed
qed

lemma progress_step_view:
  assumes "invar w" "eok e" "progress_step io c store bsz e w = (Inr again, e', w')"
  shows "invar w' \<and> eok e' \<and> same_region e e' \<and> (\<forall>i < en_total e. view e' w' i = view e w i) \<and>
    (\<forall>i. i \<notin> md \<and> \<not> (unat (en_offset_sector e) \<le> i \<and> i < unat (en_offset_sector e) + en_total e) \<longrightarrow>
       content w' i = content w i)"
proof (cases "en_state e")
  case Encrypting
  then have step: "encrypt_step io c store bsz e w = (Inr again, e', w')"
    using assms(3) by (simp add: progress_step_def)
  show ?thesis
    using encrypt_step_post [OF assms(1,2) step] by (simp add: step_post_def)
next
  case Decrypting
  then have step: "decrypt_step io c store bsz e w = (Inr again, e', w')"
    using assms(3) by (simp add: progress_step_def)
  show ?thesis
    using decrypt_step_post [OF assms(1,2) step] by (simp add: step_post_def)
qed (use assms in \<open>simp_all add: progress_step_def\<close>)

end


section \<open>The whole sweep\<close>

text \<open>Steps are repeated until one reports that no work is left, or fails; \<open>None\<close> when the
  given number of steps was not enough.\<close>

primrec sweep_loop ::
    "'w sector_io \<Rightarrow> volume_cipher \<Rightarrow> 'w offset_store \<Rightarrow> u64 \<Rightarrow> nat \<Rightarrow> engine \<Rightarrow> 'w
      \<Rightarrow> (unit vck_result \<times> engine \<times> 'w) option" where
  "sweep_loop io c store bsz 0 e w = None"
| "sweep_loop io c store bsz (Suc n) e w =
     (case progress_step io c store bsz e w of
        (Inl err, e1, w1) \<Rightarrow> Some (Inl err, e1, w1)
      | (Inr again, e1, w1) \<Rightarrow> if again then sweep_loop io c store bsz n e1 w1 else Some (Inr (), e1, w1))"

locale reliable_sweep = sweep_env io invar content cap c cok store md +
    rdev: reliable_device io invar content cap + rst: reliable_store store invar content md tot
  for io :: "'w sector_io" and invar :: "'w \<Rightarrow> bool" and content :: "'w \<Rightarrow> nat \<Rightarrow> bytes" and cap :: nat
    and c :: volume_cipher and cok :: bool and store :: "'w offset_store" and md :: "nat set" and tot :: u64
begin

lemma batch_read_total:
  fixes lo n :: u64
  assumes "invar w" "eok e" "unat lo + unat n \<le> en_total e" "unat n * ss < 2 ^ 32"
  shows "\<exists>buf. sio_read_sectors io w (en_offset_sector e + lo) (unat (n * ucast (sio_sector_size io))) = Inr buf \<and>
    length buf = unat n * ss"
proof -
  have le: "unat (en_offset_sector e) + unat lo + unat n \<le> cap"
    using assms(2,3) by (simp add: engine_ok_def)
  have abs: "unat (en_offset_sector e + lo) = unat (en_offset_sector e) + unat lo"
    using le dev.cap_bound [OF assms(1)] by (intro unat_add_no_wrap) simp
  have "unat (n * ucast (sio_sector_size io)) = unat n * ss"
    using assms(4) by (simp add: unat_word_ariths)
  then have "is_ok (sio_read_sectors io w (en_offset_sector e + lo) (unat (n * ucast (sio_sector_size io))))"
    using rdev.read_total [OF assms(1), of "en_offset_sector e + lo" "unat n"] le abs assms(4) by simp
  then obtain buf where "sio_read_sectors io w (en_offset_sector e + lo) (unat (n * ucast (sio_sector_size io))) = Inr buf"
    by (auto simp: is_ok_iff)
  then show ?thesis
    using batch_read(2) [OF assms(1-3)] by blast
qed

lemma batch_write_total:
  fixes lo n :: u64
  assumes "invar w" "eok e" "unat lo + unat n \<le> en_total e" "unat n * ss < 2 ^ 32" "length buf = unat n * ss"
  shows "\<exists>w1. sio_write_sectors io w (en_offset_sector e + lo) buf = (Inr (), w1) \<and> invar w1"
proof -
  have le: "unat (en_offset_sector e) + unat lo + unat n \<le> cap"
    using assms(2,3) by (simp add: engine_ok_def)
  have "unat (en_offset_sector e + lo) = unat (en_offset_sector e) + unat lo"
    using le dev.cap_bound [OF assms(1)] by (intro unat_add_no_wrap) simp
  then show ?thesis
    using rdev.write_reliable [OF assms(1), of "en_offset_sector e + lo" "unat n" buf] le assms(4,5) by metis
qed

lemma persist_total:
  assumes "invar w"
  shows "\<exists>again e' w'. persist_step store e w d = (Inr again, e', w')"
proof -
  obtain w1 where 1: "os_store store w (en_encrypted_offset e) = (Inr (), w1)"
    using rst.store_total [OF assms, of "en_encrypted_offset e"]
    by (cases "os_store store w (en_encrypted_offset e)") auto
  then have "invar w1"
    using st.store_frame [OF assms] by blast
  then obtain w2 where "os_flush store w1 = (Inr (), w2)"
    using rst.flush_total [of w1] by (cases "os_flush store w1") auto
  then show ?thesis
    using 1 by (cases d) (auto simp: persist_step_def)
qed

text \<open>On a reliable device a step does not fail, provided a batch fits one transfer.\<close>

lemma encrypt_step_total:
  assumes "invar w" "eok e" "max (unat bsz) 1 * ss < 2 ^ 32"
  shows "\<exists>again e' w'. encrypt_step io c store bsz e w = (Inr again, e', w')"
proof (cases "is_fully_encrypted (en_encrypted_offset e)")
  case True
  then show ?thesis by (auto simp: encrypt_step_def)
next
  case False
  let ?start = "eo_sector (en_encrypted_offset e)" and ?tot = "eo_total_sectors (en_encrypted_offset e)"
  let ?n = "batch_count (?tot - ?start) bsz"
  have lt: "en_boundary e < en_total e"
    using False by (simp add: is_fully_encrypted_def en_total_def en_boundary_def word_le_unat)
  then have rem: "unat (?tot - ?start) = en_total e - en_boundary e" "?tot - ?start \<noteq> 0"
    by (auto simp: unat_sub_no_wrap word_le_unat en_total_def en_boundary_def)
  note n = batch_count_bounds [OF rem(2), of bsz, unfolded rem(1)]
  have le: "unat ?start + unat ?n \<le> en_total e"
    using n(2) lt by (simp add: en_boundary_def)
  have small: "unat ?n * ss < 2 ^ 32"
    by (rule order_le_less_trans [OF mult_le_mono1 assms(3)]) (simp add: n(3))
  obtain buf where buf: "sio_read_sectors io w (en_offset_sector e + ?start) (unat (?n * ucast (sio_sector_size io))) = Inr buf"
    "length buf = unat ?n * ss"
    using batch_read_total [OF assms(1,2) le small] by blast
  have "length (vc_encrypt_area c buf ss ?start) = unat ?n * ss"
    using buf(2) cip.area_lengths(1) [OF cipher_ok [OF assms(1)] dev.sector_size_pos [OF assms(1)]] by simp
  then obtain w1 where w1: "sio_write_sectors io w (en_offset_sector e + ?start) (vc_encrypt_area c buf ss ?start) = (Inr (), w1)"
    "invar w1"
    using batch_write_total [OF assms(1,2) le small] by blast
  show ?thesis
    using False buf(1) w1(1) persist_total [OF w1(2)] by (simp add: encrypt_step_def Let_def)
qed

lemma decrypt_step_total:
  assumes "invar w" "eok e" "max (unat bsz) 1 * ss < 2 ^ 32"
  shows "\<exists>again e' w'. decrypt_step io c store bsz e w = (Inr again, e', w')"
proof (cases "eo_sector (en_encrypted_offset e) = 0")
  case True
  then show ?thesis by (auto simp: decrypt_step_def)
next
  case False
  let ?b = "eo_sector (en_encrypted_offset e)"
  let ?n = "batch_count ?b bsz"
  let ?nb = "?b - ?n"
  note n = batch_count_bounds [OF False, of bsz, folded en_boundary_def]
  have nb: "unat ?nb = en_boundary e - unat ?n"
    using n(2) by (simp add: unat_sub_no_wrap word_le_unat en_boundary_def)
  have le: "unat ?nb + unat ?n \<le> en_total e"
    using n(2) nb assms(2) by (simp add: engine_ok_def)
  have small: "unat ?n * ss < 2 ^ 32"
    by (rule order_le_less_trans [OF mult_le_mono1 assms(3)]) (simp add: n(3))
  obtain buf where buf: "sio_read_sectors io w (en_offset_sector e + ?nb) (unat (?n * ucast (sio_sector_size io))) = Inr buf"
    "length buf = unat ?n * ss"
    using batch_read_total [OF assms(1,2) le small] by blast
  have "length (vc_decrypt_area c buf ss ?nb) = unat ?n * ss"
    using buf(2) cip.area_lengths(2) [OF cipher_ok [OF assms(1)] dev.sector_size_pos [OF assms(1)]] by simp
  then obtain w1 where w1: "sio_write_sectors io w (en_offset_sector e + ?nb) (vc_decrypt_area c buf ss ?nb) = (Inr (), w1)"
    "invar w1"
    using batch_write_total [OF assms(1,2) le small] by blast
  show ?thesis
    using False buf(1) w1(1) persist_total [OF w1(2)] by (simp add: decrypt_step_def Let_def)
qed

text \<open>The sweep ends after at most one step per remaining sector, with everything converted
  and the view unchanged.\<close>

lemma encrypt_sweep:
  assumes "max (unat bsz) 1 * ss < 2 ^ 32"
  shows "invar w \<Longrightarrow> eok e \<Longrightarrow> en_state e = Encrypting \<Longrightarrow> en_total e - en_boundary e \<le> k \<Longrightarrow>
    \<exists>e' w'. sweep_loop io c store bsz (Suc k) e w = Some (Inr (), e', w') \<and> invar w' \<and> eok e' \<and>
      same_region e e' \<and> en_state e' = Idle \<and> en_boundary e' = en_total e \<and>
      (\<forall>i < en_total e. view e' w' i = view e w i)"
proof (induction k arbitrary: e w)
  case 0
  then have "is_fully_encrypted (en_encrypted_offset e)" "en_boundary e = en_total e"
    by (simp_all add: is_fully_encrypted_def engine_ok_def en_total_def en_boundary_def word_le_unat)
  then show ?case
    using 0 by (simp add: progress_step_def encrypt_step_def)
next
  case (Suc k)
  obtain again e1 w1 where step: "encrypt_step io c store bsz e w = (Inr again, e1, w1)"
    using encrypt_step_total [OF Suc.prems(1,2) assms] by blast
  note post = encrypt_step_post [OF Suc.prems(1,2) step]
  have p: "progress_step io c store bsz e w = (Inr again, e1, w1)"
    using step Suc.prems(3) by (simp add: progress_step_def)
  have reg: "invar w1" "eok e1" "same_region e e1" "\<forall>i < en_total e. view e1 w1 i = view e w i"
    "en_boundary e1 = en_boundary e + min (en_total e - en_boundary e) (max (unat bsz) 1)"
    "again = (\<not> en_total e \<le> en_boundary e + max (unat bsz) 1)"
    "en_state e1 = (if again then en_state e else Idle)"
    using post by (auto simp: step_post_def)
  have tot1: "en_total e1 = en_total e" "same_region e1 e' \<Longrightarrow> same_region e e'" for e'
    using reg(3) by (simp_all add: same_region_def en_total_def)
  show ?case
  proof (cases again)
    case False
    have "en_boundary e \<le> en_total e"
      using Suc.prems(2) by (simp add: engine_ok_def)
    then have "en_boundary e1 = en_total e"
      using False reg(5,6) by simp
    then show ?thesis
      using False reg p by simp
  next
    case True
    have "en_total e1 - en_boundary e1 \<le> k"
      using Suc.prems(4) tot1(1) reg(5,6) True by linarith
    then obtain e' w' where "sweep_loop io c store bsz (Suc k) e1 w1 = Some (Inr (), e', w')" "invar w'" "eok e'"
      "same_region e1 e'" "en_state e' = Idle" "en_boundary e' = en_total e1"
      "\<forall>i < en_total e1. view e' w' i = view e1 w1 i"
      using Suc.IH [OF reg(1,2)] reg(7) True Suc.prems(3) by auto
    then show ?thesis
      using p True tot1 reg(4) by (auto simp del: sweep_loop.simps simp: sweep_loop.simps(2) [of _ _ _ _ "Suc k"])
  qed
qed

lemma decrypt_sweep:
  assumes "max (unat bsz) 1 * ss < 2 ^ 32"
  shows "invar w \<Longrightarrow> eok e \<Longrightarrow> en_state e = Decrypting \<Longrightarrow> en_boundary e \<le> k \<Longrightarrow>
    \<exists>e' w'. sweep_loop io c store bsz (Suc k) e w = Some (Inr (), e', w') \<and> invar w' \<and> eok e' \<and>
      same_region e e' \<and> en_state e' = Idle \<and> en_boundary e' = 0 \<and>
      (\<forall>i < en_total e. view e' w' i = view e w i)"
proof (induction k arbitrary: e w)
  case 0
  then have "eo_sector (en_encrypted_offset e) = 0" "en_boundary e = 0"
    by (simp_all add: en_boundary_def unat_eq_0)
  then show ?case
    using 0 by (simp add: progress_step_def decrypt_step_def)
next
  case (Suc k)
  obtain again e1 w1 where step: "decrypt_step io c store bsz e w = (Inr again, e1, w1)"
    using decrypt_step_total [OF Suc.prems(1,2) assms] by blast
  note post = decrypt_step_post [OF Suc.prems(1,2) step]
  have p: "progress_step io c store bsz e w = (Inr again, e1, w1)"
    using step Suc.prems(3) by (simp add: progress_step_def)
  have reg: "invar w1" "eok e1" "same_region e e1" "\<forall>i < en_total e. view e1 w1 i = view e w i"
    "en_boundary e1 = en_boundary e - min (en_boundary e) (max (unat bsz) 1)"
    "again = (\<not> en_boundary e \<le> max (unat bsz) 1)"
    "en_state e1 = (if again then en_state e else Idle)"
    using post by (auto simp: step_post_def)
  have tot1: "en_total e1 = en_total e" "same_region e1 e' \<Longrightarrow> same_region e e'" for e'
    using reg(3) by (simp_all add: same_region_def en_total_def)
  show ?case
  proof (cases again)
    case False
    then show ?thesis
      using reg p by simp
  next
    case True
    have "en_boundary e1 \<le> k"
      using Suc.prems(4) reg(5,6) True by linarith
    then obtain e' w' where "sweep_loop io c store bsz (Suc k) e1 w1 = Some (Inr (), e', w')" "invar w'" "eok e'"
      "same_region e1 e'" "en_state e' = Idle" "en_boundary e' = 0"
      "\<forall>i < en_total e1. view e' w' i = view e1 w1 i"
      using Suc.IH [OF reg(1,2)] reg(7) True Suc.prems(3) by auto
    then show ?thesis
      using p True tot1 reg(4) by (auto simp del: sweep_loop.simps simp: sweep_loop.simps(2) [of _ _ _ _ "Suc k"])
  qed
qed

end


section \<open>Sequences of commands and steps\<close>

text \<open>The engine as a state machine: the commands of the control interface and the sweep
  steps that succeed, in any order.\<close>

inductive engine_reach ::
    "'w sector_io \<Rightarrow> volume_cipher \<Rightarrow> 'w offset_store \<Rightarrow> engine \<Rightarrow> 'w \<Rightarrow> engine \<Rightarrow> 'w \<Rightarrow> bool"
  for io c store e0 w0
where
  reach_start: "engine_reach io c store e0 w0 e0 w0"
| reach_encrypt: "engine_reach io c store e0 w0 e w \<Longrightarrow> start_encrypt store e w = (e', w') \<Longrightarrow>
    engine_reach io c store e0 w0 e' w'"
| reach_decrypt: "engine_reach io c store e0 w0 e w \<Longrightarrow> start_decrypt store e w = (e', w') \<Longrightarrow>
    engine_reach io c store e0 w0 e' w'"
| reach_resume: "engine_reach io c store e0 w0 e w \<Longrightarrow> engine_reach io c store e0 w0 (engine_resume store e w) w"
| reach_pause: "engine_reach io c store e0 w0 e w \<Longrightarrow> engine_reach io c store e0 w0 (pause e) w"
| reach_step: "engine_reach io c store e0 w0 e w \<Longrightarrow> progress_step io c store bsz e w = (Inr again, e', w') \<Longrightarrow>
    engine_reach io c store e0 w0 e' w'"

inductive_cases engine_reachE: "engine_reach io c store e0 w0 e w"

lemma same_region_trans: "same_region a b \<Longrightarrow> same_region b d \<Longrightarrow> same_region a d"
  by (simp add: same_region_def)

lemma command_updates_state:
  "\<exists>s. start_encrypt store e w = (e\<lparr>en_state := s\<rparr>, snd (os_store_state store w Encrypt))"
  "\<exists>s. start_decrypt store e w = (e\<lparr>en_state := s\<rparr>, snd (os_store_state store w Decrypt))"
  "\<exists>s. engine_resume store e w = e\<lparr>en_state := s\<rparr>"
  "\<exists>s. pause e = e\<lparr>en_state := s\<rparr>"
proof -
  show "\<exists>s. start_encrypt store e w = (e\<lparr>en_state := s\<rparr>, snd (os_store_state store w Encrypt))"
    by (auto simp: start_encrypt_def split: prod.splits)
  show "\<exists>s. start_decrypt store e w = (e\<lparr>en_state := s\<rparr>, snd (os_store_state store w Decrypt))"
    by (auto simp: start_decrypt_def split: prod.splits)
  show "\<exists>s. engine_resume store e w = e\<lparr>en_state := s\<rparr>"
    by (auto simp: engine_resume_def Let_def split: volume_state.splits sum.splits)
  have "e = e\<lparr>en_state := en_state e\<rparr>"
    by simp
  then show "\<exists>s. pause e = e\<lparr>en_state := s\<rparr>"
    unfolding pause_def by (metis (full_types))
qed

context sweep_env
begin

lemma command_view:
  assumes "invar w" "eok e" "os_store_state store w s = (r, w')" "i < en_total e"
  shows "view e w' i = view e w i"
  using st.store_state_frame [OF assms(1,3)] assms(2,4)
  by (intro engine_view_cong) (auto simp: engine_ok_def)

lemma reach_invariant:
  assumes "engine_reach io c store e0 w0 e w" "invar w0" "eok e0"
  shows "invar w \<and> eok e \<and> same_region e0 e \<and> (\<forall>i < en_total e0. view e w i = view e0 w0 i)"
  using assms
proof (induction rule: engine_reach.induct)
  case reach_start
  then show ?case by simp
next
  case (reach_encrypt e w e' w')
  obtain s where e': "e' = e\<lparr>en_state := s\<rparr>" "os_store_state store w Encrypt = (fst (os_store_state store w Encrypt), w')"
    using command_updates_state(1) [of store e w] reach_encrypt.hyps(2) by auto
  have "en_total e = en_total e0" "invar w" "eok e"
    using reach_encrypt by (auto simp: same_region_def en_total_def)
  then show ?case
    using reach_encrypt command_view [OF _ _ e'(2)] st.store_state_frame [OF _ e'(2)] e'(1)
    by (auto intro: same_region_trans)
next
  case (reach_decrypt e w e' w')
  obtain s where e': "e' = e\<lparr>en_state := s\<rparr>" "os_store_state store w Decrypt = (fst (os_store_state store w Decrypt), w')"
    using command_updates_state(2) [of store e w] reach_decrypt.hyps(2) by auto
  have "en_total e = en_total e0" "invar w" "eok e"
    using reach_decrypt by (auto simp: same_region_def en_total_def)
  then show ?case
    using reach_decrypt command_view [OF _ _ e'(2)] st.store_state_frame [OF _ e'(2)] e'(1)
    by (auto intro: same_region_trans)
next
  case (reach_resume e w)
  obtain s where "engine_resume store e w = e\<lparr>en_state := s\<rparr>"
    using command_updates_state(3) [of store e w] by auto
  then show ?case
    using reach_resume by (auto intro: same_region_trans)
next
  case (reach_pause e w)
  obtain s where "pause e = e\<lparr>en_state := s\<rparr>"
    using command_updates_state(4) [of e] by auto
  then show ?case
    using reach_pause by (auto intro: same_region_trans)
next
  case (reach_step e w bsz again e' w')
  have "en_total e = en_total e0"
    using reach_step by (auto simp: same_region_def en_total_def)
  then show ?case
    using reach_step progress_step_view [OF _ _ reach_step.hyps(2)] by (auto intro: same_region_trans)
qed

end

end
