(* ===== verification/Engine_Driver.thy ===== *)
theory Engine_Driver
  imports Enc_Engine
begin

text \<open>
  The sweep engine as the driver runs it: the locales of \<open>Enc_Engine\<close> interpreted on the
  lower device (\<open>lib/windrv/src/io\<close>), the AES-XTS volume cipher (\<open>lib/common/src/crypto\<close>)
  and the JVCK offset store (\<open>lib/common/src/metadata\<close>), and the properties of the sweep
  that follow: transparency of every step, completion of both directions, what a failing
  step leaves behind, and recovery after a crash between two steps.
\<close>


section \<open>The sweep of the driver\<close>

text \<open>The driver's instance: the lower device, the AES-XTS cipher and the JVCK store.\<close>

definition sweep_ok ::
    "'w nt_kernel \<Rightarrow> lower_device_io \<Rightarrow> ('w \<Rightarrow> nat \<Rightarrow> byte) \<Rightarrow> jvck_crypto \<Rightarrow> 'w random_source \<Rightarrow> aes256
      \<Rightarrow> 'w jvck_store \<Rightarrow> bool" where
  "sweep_ok K me disk C rng A st \<longleftrightarrow> jvck_frame_ok K me disk C rng \<and>
     store_ok (ld_sector_io K me) (jvck_cbc_codec C) st \<and> aes_ok A"

definition sweep_reliable ::
    "'w nt_kernel \<Rightarrow> lower_device_io \<Rightarrow> ('w \<Rightarrow> nat \<Rightarrow> byte) \<Rightarrow> jvck_crypto \<Rightarrow> 'w random_source \<Rightarrow> aes256
      \<Rightarrow> 'w jvck_store \<Rightarrow> bool" where
  "sweep_reliable K me disk C rng A st \<longleftrightarrow> jvck_env_ok K me disk C rng \<and>
     store_ok (ld_sector_io K me) (jvck_cbc_codec C) st \<and> aes_ok A"

lemma rng_delivers_frame: "rng_delivers rng disk \<Longrightarrow> rng_frame_ok rng disk"
  unfolding rng_delivers_def rng_frame_ok_def by (metis Inr_inject prod.inject)

lemma sweep_reliable_ok: "sweep_reliable K me disk C rng A st \<Longrightarrow> sweep_ok K me disk C rng A st"
  by (simp add: sweep_reliable_def sweep_ok_def jvck_env_ok_def jvck_frame_ok_def ld_reliable_def
      rng_delivers_frame)

interpretation sweep: sweep_env "lift_sector_io (ld_sector_io K me)" "\<lambda>cw. sweep_ok K me disk C rng A st"
  "\<lambda>cw. disk_sector disk (unat (ld_sector_size me)) (snd cw)" "unat (ld_total_sectors me)"
  "xts_as_volume_cipher A x" "aes_ok A" "jvck_offset_store C rng st" "unat ` set (store_lbas st)"
  for K :: "'w nt_kernel" and me disk C rng A st x
proof (rule sweep_env.intro)
  show "sector_device (lift_sector_io (ld_sector_io K me)) (\<lambda>cw :: jvck_cells \<times> 'w. sweep_ok K me disk C rng A st)
      (\<lambda>cw. disk_sector disk (unat (ld_sector_size me)) (snd cw)) (unat (ld_total_sectors me))"
    by (rule sector_device_cond [OF ld.lift_device]) (simp add: sweep_ok_def jvck_frame_ok_def)
  show "volume_cipher_spec (xts_as_volume_cipher A x) (aes_ok A)"
    by (rule xts.volume_cipher_spec_axioms)
  show "offset_store_spec (jvck_offset_store C rng st) (\<lambda>cw. sweep_ok K me disk C rng A st)
      (\<lambda>cw. disk_sector disk (unat (ld_sector_size me)) (snd cw)) (unat ` set (store_lbas st))"
  proof (rule offset_store_spec_cond)
    assume "sweep_ok K me disk C rng A st"
    then show "offset_store_spec (jvck_offset_store C rng st) (\<lambda>w. True)
        (\<lambda>cw. disk_sector disk (unat (ld_sector_size me)) (snd cw)) (unat ` set (store_lbas st))"
      using jvck_os.offset_store_spec_axioms [where K = K and me = me and disk = disk and C = C and rng = rng and st = st]
      by (simp add: sweep_ok_def)
  qed
  show "sweep_env_axioms (\<lambda>cw :: jvck_cells \<times> 'w. sweep_ok K me disk C rng A st) (aes_ok A)"
    by unfold_locales (simp add: sweep_ok_def)
qed

interpretation rsweep: reliable_sweep "lift_sector_io (ld_sector_io K me)" "\<lambda>cw. sweep_reliable K me disk C rng A st"
  "\<lambda>cw. disk_sector disk (unat (ld_sector_size me)) (snd cw)" "unat (ld_total_sectors me)"
  "xts_as_volume_cipher A x" "aes_ok A" "jvck_offset_store C rng st" "unat ` set (store_lbas st)"
  "g_data_sectors (js_geometry st)"
  for K :: "'w nt_kernel" and me disk C rng A st x
proof (intro reliable_sweep.intro sweep_env.intro)
  let ?ok = "sweep_reliable K me disk C rng A st"
  show rd: "reliable_device (lift_sector_io (ld_sector_io K me)) (\<lambda>cw :: jvck_cells \<times> 'w. ?ok)
      (\<lambda>cw. disk_sector disk (unat (ld_sector_size me)) (snd cw)) (unat (ld_total_sectors me))"
    by (rule reliable_device_cond [OF ldr.lift_reliable]) (simp add: sweep_reliable_def jvck_env_ok_def)
  then show "sector_device (lift_sector_io (ld_sector_io K me)) (\<lambda>cw :: jvck_cells \<times> 'w. ?ok)
      (\<lambda>cw. disk_sector disk (unat (ld_sector_size me)) (snd cw)) (unat (ld_total_sectors me))"
    by (simp add: reliable_device_def)
  show "volume_cipher_spec (xts_as_volume_cipher A x) (aes_ok A)"
    by (rule xts.volume_cipher_spec_axioms)
  show rs: "reliable_store (jvck_offset_store C rng st) (\<lambda>cw. ?ok)
      (\<lambda>cw. disk_sector disk (unat (ld_sector_size me)) (snd cw)) (unat ` set (store_lbas st))
      (g_data_sectors (js_geometry st))"
  proof (rule reliable_store_cond)
    assume ?ok
    then show "reliable_store (jvck_offset_store C rng st) (\<lambda>w. True)
        (\<lambda>cw. disk_sector disk (unat (ld_sector_size me)) (snd cw)) (unat ` set (store_lbas st))
        (g_data_sectors (js_geometry st))"
      using jvck_ros.reliable_store_axioms [where K = K and me = me and disk = disk and C = C and rng = rng and st = st]
      by (simp add: sweep_reliable_def)
  qed
  then show "offset_store_spec (jvck_offset_store C rng st) (\<lambda>cw. ?ok)
      (\<lambda>cw. disk_sector disk (unat (ld_sector_size me)) (snd cw)) (unat ` set (store_lbas st))"
    by (simp add: reliable_store_def)
  show "sweep_env_axioms (\<lambda>cw :: jvck_cells \<times> 'w. ?ok) (aes_ok A)"
    by unfold_locales (simp add: sweep_reliable_def)
qed

text \<open>An engine set up for the data region of a store is well formed.\<close>

definition engine_for :: "'w jvck_store \<Rightarrow> engine \<Rightarrow> bool" where
  "engine_for st e \<longleftrightarrow> en_offset_sector e = g_offset_sector (js_geometry st) \<and>
     eo_total_sectors (en_encrypted_offset e) = g_data_sectors (js_geometry st) \<and>
     eo_sector (en_encrypted_offset e) \<le> g_data_sectors (js_geometry st)"

lemma engine_for_ok:
  assumes "sweep_ok K me disk C rng A st" "engine_for st e"
  shows "engine_ok (unat (ld_sector_size me)) (unat (ld_total_sectors me)) (unat ` set (store_lbas st)) e"
proof -
  have sok: "store_ok (ld_sector_io K me) (jvck_cbc_codec C) st" and g: "geometry_ok (ld_sector_size me) (ld_total_sectors me)"
    using assms(1) by (simp_all add: sweep_ok_def jvck_frame_ok_def ld_ok_def)
  have io: "sio_sector_size (ld_sector_io K me) = ld_sector_size me" "sio_total_sectors (ld_sector_io K me) = ld_total_sectors me"
    by (simp_all add: ld_sector_io_def byte_sector_io_def)
  note c = compute_geometry_layout [OF _ store_ok_counts(1) [OF sok], of "ld_sector_size me" "ld_total_sectors me" "js_geometry st"]
  have cg: "compute_geometry (ld_sector_size me) (ld_total_sectors me) (js_options st) = Inr (js_geometry st)"
    using sok by (simp add: store_ok_def io)
  let ?R = "unat (replica_sectors (metadata_size (js_options st)) (ld_sector_size me))"
  let ?H = "unat (use_header (js_options st))" and ?F = "unat (use_footer (js_options st))"
  have V: "?H * ?R + ?F * ?R < unat (ld_total_sectors me)"
    using c(1) [OF cg] by (simp add: layout_ok_def add_mult_distrib)
  have sum: "unat (en_offset_sector e) + en_total e = unat (ld_total_sectors me) - ?F * ?R" "unat (en_offset_sector e) = ?H * ?R"
    using assms(2) c(2,3) [OF cg] V by (simp_all add: engine_for_def en_total_def add_mult_distrib)
  have "en_total e * unat (ld_sector_size me) \<le> unat (ld_total_sectors me) * unat (ld_sector_size me)"
    using sum by (intro mult_le_mono1) simp
  also have "\<dots> < 2 ^ 64"
    using g by (simp add: geometry_ok_def mult.commute)
  finally have "en_total e * unat (ld_sector_size me) < 2 ^ 64" .
  moreover have "i \<notin> unat ` set (store_lbas st)"
    if i: "unat (en_offset_sector e) \<le> i" "i < unat (en_offset_sector e) + en_total e" for i
  proof
    assume "i \<in> unat ` set (store_lbas st)"
    then obtain lba where "lba \<in> set (store_lbas st)" "i = unat lba" by blast
    then show False
      using metadata_lba_outside_data(2) [OF c(1) [OF cg], of lba] sok c(4) [OF cg] i sum
      by (simp add: store_lbas_def store_ok_def io)
  qed
  moreover have "en_boundary e \<le> en_total e"
    using assms(2) by (simp add: engine_for_def en_boundary_def en_total_def word_le_unat)
  ultimately show ?thesis
    using sum by (simp add: engine_ok_def)
qed

lemma lift_ld_simps [simp]:
  "sio_sector_size (lift_sector_io (ld_sector_io K me)) = ld_sector_size me"
  "sio_total_sectors (lift_sector_io (ld_sector_io K me)) = ld_total_sectors me"
  by (simp_all add: lift_sector_io_def ld_sector_io_def byte_sector_io_def)

lemma engine_for_ok_lift:
  assumes "sweep_ok K me disk C rng A st" "engine_for st e"
  shows "engine_ok (unat (sio_sector_size (lift_sector_io (ld_sector_io K me)))) (unat (ld_total_sectors me))
    (unat ` set (store_lbas st)) e"
  using engine_for_ok [OF assms] by simp

text \<open>The step, sweep and view of the driver.\<close>

abbreviation drv_step where
  "drv_step K me C rng A x st \<equiv>
     progress_step (lift_sector_io (ld_sector_io K me)) (xts_as_volume_cipher A x) (jvck_offset_store C rng st)"

abbreviation drv_sweep where
  "drv_sweep K me C rng A x st \<equiv>
     sweep_loop (lift_sector_io (ld_sector_io K me)) (xts_as_volume_cipher A x) (jvck_offset_store C rng st)"

abbreviation drv_view where
  "drv_view me disk A x e w \<equiv>
     engine_view (xts_as_volume_cipher A x) e (disk_sector disk (unat (ld_sector_size me)) w)"

lemma engine_for_same_region:
  assumes "engine_for st e" "same_region e e'" "engine_ok ss cap md e'"
  shows "engine_for st e'"
  using assms by (simp add: engine_for_def same_region_def engine_ok_def en_boundary_def en_total_def word_le_unat)

lemma engine_for_total: "engine_for st e \<Longrightarrow> en_total e = unat (g_data_sectors (js_geometry st))"
  by (simp add: engine_for_def en_total_def)


section \<open>Witness data\<close>

definition toy_engine :: "u64 \<Rightarrow> engine_state \<Rightarrow> engine" where
  "toy_engine b s = \<lparr>en_offset_sector = 0,
     en_encrypted_offset = \<lparr>eo_sector = b, eo_total_sectors = 88\<rparr>, en_state = s\<rparr>"

definition toy_cells :: jvck_cells where
  "toy_cells = \<lparr>jc_offset = 0, jc_state = 0\<rparr>"

lemma toy_sweep:
  "sweep_reliable ram_kernel toy_device (\<lambda>w. w) toy_crypto const_rng toy_aes toy_store"
  "sweep_ok ram_kernel toy_device (\<lambda>w. w) toy_crypto const_rng toy_aes toy_store"
  using toy_env toy_store_ok toy_aes_ok by (auto intro: sweep_reliable_ok simp: sweep_reliable_def)

lemma toy_engine_for: "b \<le> 88 \<Longrightarrow> engine_for toy_store (toy_engine b s)"
  by (simp add: engine_for_def toy_engine_def toy_store_def)


section \<open>Properties\<close>

text \<open>C6: a sweep step that succeeds is transparent.  Whatever the device may do, a step of
  either direction that reports success leaves every sector of the data region as a reader of
  the volume sees it unchanged, keeps the engine well formed for the same region, and touches
  no sector outside the data region other than the metadata sectors.\<close>

theorem sweep_step_transparent:
  assumes "sweep_ok K me disk C rng A st" "engine_for st e"
    "drv_step K me C rng A x st bsz e (cells, w) = (Inr again, e', cells', w')"
  shows "engine_for st e' \<and>
    (\<forall>i < unat (g_data_sectors (js_geometry st)). drv_view me disk A x e' w' i = drv_view me disk A x e w i) \<and>
    (\<forall>i. i \<notin> unat ` set (store_lbas st) \<and>
       \<not> (unat (g_offset_sector (js_geometry st)) \<le> i \<and>
          i < unat (g_offset_sector (js_geometry st)) + unat (g_data_sectors (js_geometry st))) \<longrightarrow>
       disk_sector disk (unat (ld_sector_size me)) w' i = disk_sector disk (unat (ld_sector_size me)) w i)"
proof -
  note p = sweep.progress_step_view [where K = K and me = me and disk = disk and C = C and rng = rng and A = A and st = st
      and x = x, OF assms(1) engine_for_ok_lift [OF assms(1,2)] assms(3)]
  then show ?thesis
    using engine_for_same_region [OF assms(2)] engine_for_total [OF assms(2)] assms(2)
    by (auto simp: engine_for_def)
qed

theorem sweep_step_transparent_witness:
  "\<exists>again e' cells' w'.
     drv_step ram_kernel toy_device toy_crypto const_rng toy_aes toy_xts toy_store 8 (toy_engine 40 Decrypting)
       (toy_cells, \<lambda>a. of_nat a) = (Inr again, e', cells', w') \<and>
     (\<forall>i < 88. drv_view toy_device (\<lambda>w. w) toy_aes toy_xts e' w' i =
        drv_view toy_device (\<lambda>w. w) toy_aes toy_xts (toy_engine 40 Decrypting) (\<lambda>a. of_nat a) i)"
proof -
  have f: "engine_for toy_store (toy_engine 40 Decrypting)"
    by (rule toy_engine_for) simp
  have "\<exists>again e' cw'. decrypt_step (lift_sector_io (ld_sector_io ram_kernel toy_device)) (xts_as_volume_cipher toy_aes toy_xts)
      (jvck_offset_store toy_crypto const_rng toy_store) 8 (toy_engine 40 Decrypting) (toy_cells, \<lambda>a. of_nat a) = (Inr again, e', cw')"
    by (rule rsweep.decrypt_step_total [OF toy_sweep(1) engine_for_ok_lift [OF toy_sweep(2) f]])
      (simp add: toy_device_def ld_new_def)
  then obtain again e' cells' w' where
    step: "drv_step ram_kernel toy_device toy_crypto const_rng toy_aes toy_xts toy_store 8 (toy_engine 40 Decrypting)
       (toy_cells, \<lambda>a. of_nat a) = (Inr again, e', cells', w')"
    by (auto simp: progress_step_def toy_engine_def)
  show ?thesis
    using sweep_step_transparent [OF toy_sweep(2) f step] step by (auto simp: toy_store_def)
qed

text \<open>C7: on a reliable device the encryption sweep finishes.  When a batch fits one transfer,
  at most one step per remaining sector plus one is needed; afterwards the engine is idle, the
  boundary is the end of the data region, and every data sector on the disk is the
  ciphertext of what a reader saw before.\<close>

theorem encrypt_sweep_completes:
  assumes "sweep_reliable K me disk C rng A st" "engine_for st e" "en_state e = Encrypting"
    "max (unat bsz) 1 * unat (ld_sector_size me) < 2 ^ 32"
  shows "\<exists>e' cells' w'.
    drv_sweep K me C rng A x st bsz (Suc (unat (g_data_sectors (js_geometry st)) - en_boundary e)) e (cells, w) =
      Some (Inr (), e', cells', w') \<and>
    en_state e' = Idle \<and> eo_sector (en_encrypted_offset e') = g_data_sectors (js_geometry st) \<and>
    (\<forall>i < unat (g_data_sectors (js_geometry st)).
       disk_sector disk (unat (ld_sector_size me)) w' (unat (g_offset_sector (js_geometry st)) + i) =
         vc_encrypt_sector (xts_as_volume_cipher A x) (of_nat i) (drv_view me disk A x e w i))"
proof -
  note ok = sweep_reliable_ok [OF assms(1)]
  have aes: "aes_ok A"
    using ok by (simp add: sweep_ok_def)
  have sz: "max (unat bsz) 1 * unat (sio_sector_size (lift_sector_io (ld_sector_io K me) :: (jvck_cells \<times> _) sector_io)) < 2 ^ 32"
    using assms(4) by simp
  obtain e' cells' w' where r: "drv_sweep K me C rng A x st bsz (Suc (en_total e - en_boundary e)) e (cells, w) =
      Some (Inr (), e', cells', w')" "same_region e e'" "en_state e' = Idle" "en_boundary e' = en_total e"
    "\<forall>i < en_total e. drv_view me disk A x e' w' i = drv_view me disk A x e w i"
    using rsweep.encrypt_sweep [where K = K and me = me and disk = disk and C = C and rng = rng and A = A and st = st
        and x = x, OF sz assms(1) engine_for_ok_lift [OF ok assms(2)] assms(3) order_refl, of "(cells, w)"]
    by auto
  have b: "eo_sector (en_encrypted_offset e') = g_data_sectors (js_geometry st)"
    using r(2,4) assms(2) by (simp add: en_boundary_def en_total_def engine_for_def word_unat_eq_iff)
  have o': "en_offset_sector e' = g_offset_sector (js_geometry st)"
    using r(2) assms(2) by (simp add: same_region_def engine_for_def)
  have "disk_sector disk (unat (ld_sector_size me)) w' (unat (g_offset_sector (js_geometry st)) + i) =
      vc_encrypt_sector (xts_as_volume_cipher A x) (of_nat i) (drv_view me disk A x e w i)"
    if "i < unat (g_data_sectors (js_geometry st))" for i
  proof -
    have "drv_view me disk A x e w i = vc_decrypt_sector (xts_as_volume_cipher A x) (of_nat i)
        (disk_sector disk (unat (ld_sector_size me)) w' (unat (g_offset_sector (js_geometry st)) + i))"
      using r(5) that engine_for_total [OF assms(2)] b o' by (auto simp: engine_view_def logical_sector_def)
    then show ?thesis
      using xts.enc_dec [OF aes] by simp
  qed
  then show ?thesis
    using r(1,3) b engine_for_total [OF assms(2)] by auto
qed

theorem encrypt_sweep_completes_witness:
  "\<exists>e' cells' w'.
    drv_sweep ram_kernel toy_device toy_crypto const_rng toy_aes toy_xts toy_store 8 89 (toy_engine 0 Encrypting)
      (toy_cells, \<lambda>a. of_nat a) = Some (Inr (), e', cells', w') \<and>
    en_state e' = Idle \<and> eo_sector (en_encrypted_offset e') = 88"
proof -
  have f: "engine_for toy_store (toy_engine 0 Encrypting)"
    by (rule toy_engine_for) simp
  show ?thesis
    using encrypt_sweep_completes [OF toy_sweep(1) f, of 8 toy_xts toy_cells "\<lambda>a. of_nat a"]
    by (auto simp: toy_engine_def toy_store_def toy_device_def ld_new_def en_boundary_def)
qed

text \<open>C15: on a reliable device the decryption sweep finishes within one step per encrypted
  sector plus one; afterwards the engine is idle, the boundary is 0 and every data sector on the
  disk is the plaintext a reader saw before.\<close>

theorem decrypt_sweep_completes:
  assumes "sweep_reliable K me disk C rng A st" "engine_for st e" "en_state e = Decrypting"
    "max (unat bsz) 1 * unat (ld_sector_size me) < 2 ^ 32"
  shows "\<exists>e' cells' w'.
    drv_sweep K me C rng A x st bsz (Suc (en_boundary e)) e (cells, w) = Some (Inr (), e', cells', w') \<and>
    en_state e' = Idle \<and> eo_sector (en_encrypted_offset e') = 0 \<and>
    (\<forall>i < unat (g_data_sectors (js_geometry st)).
       disk_sector disk (unat (ld_sector_size me)) w' (unat (g_offset_sector (js_geometry st)) + i) =
         drv_view me disk A x e w i)"
proof -
  note ok = sweep_reliable_ok [OF assms(1)]
  have sz: "max (unat bsz) 1 * unat (sio_sector_size (lift_sector_io (ld_sector_io K me) :: (jvck_cells \<times> _) sector_io)) < 2 ^ 32"
    using assms(4) by simp
  obtain e' cells' w' where r: "drv_sweep K me C rng A x st bsz (Suc (en_boundary e)) e (cells, w) =
      Some (Inr (), e', cells', w')" "same_region e e'" "en_state e' = Idle" "en_boundary e' = 0"
    "\<forall>i < en_total e. drv_view me disk A x e' w' i = drv_view me disk A x e w i"
    using rsweep.decrypt_sweep [where K = K and me = me and disk = disk and C = C and rng = rng and A = A and st = st
        and x = x, OF sz assms(1) engine_for_ok_lift [OF ok assms(2)] assms(3) order_refl, of "(cells, w)"]
    by auto
  have b: "eo_sector (en_encrypted_offset e') = 0"
    using r(4) by (simp add: en_boundary_def unat_eq_0)
  have "en_offset_sector e' = g_offset_sector (js_geometry st)"
    using r(2) assms(2) by (simp add: same_region_def engine_for_def)
  then show ?thesis
    using r(1,3,5) b engine_for_total [OF assms(2)] by (auto simp: engine_view_def logical_sector_def)
qed

theorem decrypt_sweep_completes_witness:
  "\<exists>e' cells' w'.
    drv_sweep ram_kernel toy_device toy_crypto const_rng toy_aes toy_xts toy_store 0 31 (toy_engine 30 Decrypting)
      (toy_cells, \<lambda>a. of_nat a) = Some (Inr (), e', cells', w') \<and>
    en_state e' = Idle \<and> eo_sector (en_encrypted_offset e') = 0"
proof -
  have f: "engine_for toy_store (toy_engine 30 Decrypting)"
    by (rule toy_engine_for) simp
  show ?thesis
    using decrypt_sweep_completes [OF toy_sweep(1) f, of 0 toy_xts toy_cells "\<lambda>a. of_nat a"]
    by (auto simp: toy_engine_def toy_store_def toy_device_def ld_new_def en_boundary_def)
qed

text \<open>C9: a crash between two steps loses nothing.  After a step that had work to do and
  succeeded, opening the volume from the device alone gives the store back with the recorded
  direction, and an engine set up from the recovered offset presents exactly the data a reader saw
  before the step.\<close>

theorem sweep_step_crash_safe:
  assumes "sweep_reliable K me disk C rng A st" "engine_for st e"
    "drv_step K me C rng A x st bsz e (cells, w) = (Inr again, e', cells', w')"
    "en_state e = Encrypting \<and> \<not> is_fully_encrypted (en_encrypted_offset e) \<or>
     en_state e = Decrypting \<and> eo_sector (en_encrypted_offset e) \<noteq> 0"
    "use_footer (js_options st) \<noteq> 0"
  shows "\<exists>cells2. open_store C (ld_sector_io K me) w' (js_vmk st) = Inr (st, cells2) \<and>
    from_u16 (jc_state cells2) = from_u16 (jc_state cells) \<and>
    (\<forall>i < unat (g_data_sectors (js_geometry st)).
       drv_view me disk A x (engine_new (g_offset_sector (js_geometry st))
           \<lparr>eo_sector = jc_offset cells2, eo_total_sectors = g_data_sectors (js_geometry st)\<rparr>) w' i =
         drv_view me disk A x e w i)"
proof -
  note ok = sweep_reliable_ok [OF assms(1)]
  have env: "jvck_env_ok K me disk C rng" "store_ok (ld_sector_io K me) (jvck_cbc_codec C) st"
    using assms(1) by (simp_all add: sweep_reliable_def)
  obtain lba buf c1 w1 where w1: "sio_write_sectors (lift_sector_io (ld_sector_io K me)) (cells, w) lba buf = (Inr (), c1, w1)"
    "js_store rng st (c1, w1) (en_encrypted_offset e') = (Inr (), cells', w')"
    using progress_step_persists [OF assms(3,4)] by auto
  have c1: "c1 = cells"
    using w1(1) by (auto simp: lift_sector_io_def split: prod.splits)
  have "open_store C (ld_sector_io K me) w' (js_vmk st) =
      Inr (st, \<lparr>jc_offset = eo_sector (en_encrypted_offset e'), jc_state = as_u16 (from_u16 (jc_state cells))\<rparr>)"
    using js_store_reopen [OF env w1(2)] assms(5) c1 by simp
  moreover have "drv_view me disk A x (engine_new (g_offset_sector (js_geometry st))
      \<lparr>eo_sector = eo_sector (en_encrypted_offset e'), eo_total_sectors = g_data_sectors (js_geometry st)\<rparr>) w' i =
      drv_view me disk A x e w i" if "i < unat (g_data_sectors (js_geometry st))" for i
  proof -
    note p = sweep.progress_step_view [where K = K and me = me and disk = disk and C = C and rng = rng and A = A and st = st
      and x = x, OF ok engine_for_ok_lift [OF ok assms(2)] assms(3)]
    have "en_offset_sector e' = g_offset_sector (js_geometry st)"
      using p assms(2) by (simp add: same_region_def engine_for_def)
    then show ?thesis
      using p that engine_for_total [OF assms(2)] by (simp add: engine_view_def engine_new_def)
  qed
  ultimately show ?thesis
    by simp
qed

theorem sweep_step_crash_safe_witness:
  "\<exists>again e' cells' w' cells2.
     drv_step ram_kernel toy_device toy_crypto const_rng toy_aes toy_xts toy_store 8 (toy_engine 40 Encrypting)
       (toy_cells, \<lambda>a. of_nat a) = (Inr again, e', cells', w') \<and>
     open_store toy_crypto (ld_sector_io ram_kernel toy_device) w' [1, 2, 3] = Inr (toy_store, cells2)"
proof -
  have f: "engine_for toy_store (toy_engine 40 Encrypting)"
    by (rule toy_engine_for) simp
  have "\<exists>again e' cw'. encrypt_step (lift_sector_io (ld_sector_io ram_kernel toy_device)) (xts_as_volume_cipher toy_aes toy_xts)
      (jvck_offset_store toy_crypto const_rng toy_store) 8 (toy_engine 40 Encrypting) (toy_cells, \<lambda>a. of_nat a) = (Inr again, e', cw')"
    by (rule rsweep.encrypt_step_total [OF toy_sweep(1) engine_for_ok_lift [OF toy_sweep(2) f]])
      (simp add: toy_device_def ld_new_def)
  then obtain again e' cells' w' where
    step: "drv_step ram_kernel toy_device toy_crypto const_rng toy_aes toy_xts toy_store 8 (toy_engine 40 Encrypting)
       (toy_cells, \<lambda>a. of_nat a) = (Inr again, e', cells', w')"
    by (auto simp: progress_step_def toy_engine_def)
  show ?thesis
    using sweep_step_crash_safe [OF toy_sweep(1) f step] step
    by (auto simp: toy_store_def toy_engine_def toy_options_def is_fully_encrypted_def)
qed



text \<open>C20: any sequence of commands (start encrypting, start decrypting, pause, resume) and
  successful sweep steps, with any batch sizes and on any device, keeps the engine well formed for
  its region and the data a reader sees unchanged.\<close>

theorem engine_runs_transparent:
  assumes "engine_reach (lift_sector_io (ld_sector_io K me)) (xts_as_volume_cipher A x) (jvck_offset_store C rng st)
      e0 (cells0, w0) e (cells, w)"
    "sweep_ok K me disk C rng A st" "engine_for st e0" "i < unat (g_data_sectors (js_geometry st))"
  shows "engine_for st e \<and> drv_view me disk A x e w i = drv_view me disk A x e0 w0 i"
proof -
  note p = sweep.reach_invariant [where disk = disk, OF assms(1,2) engine_for_ok_lift [OF assms(2,3)]]
  then show ?thesis
    using engine_for_same_region [OF assms(3)] engine_for_total [OF assms(3)] assms(4) by auto
qed

theorem engine_runs_transparent_witness:
  "\<exists>e cells w. engine_reach (lift_sector_io (ld_sector_io ram_kernel toy_device)) (xts_as_volume_cipher toy_aes toy_xts)
      (jvck_offset_store toy_crypto const_rng toy_store) (toy_engine 40 Idle) (toy_cells, \<lambda>a. of_nat a) e (cells, w) \<and>
     en_state e = Paused \<and>
     drv_view toy_device (\<lambda>w. w) toy_aes toy_xts e w 3 =
       drv_view toy_device (\<lambda>w. w) toy_aes toy_xts (toy_engine 40 Idle) (\<lambda>a. of_nat a) 3"
proof -
  let ?io = "lift_sector_io (ld_sector_io ram_kernel toy_device)" and ?c = "xts_as_volume_cipher toy_aes toy_xts"
  let ?st = "jvck_offset_store toy_crypto const_rng toy_store"
  have f: "engine_for toy_store (toy_engine 40 Idle)"
    by (rule toy_engine_for) simp
  obtain e1 cells w where s: "start_decrypt ?st (toy_engine 40 Idle) (toy_cells, \<lambda>a. of_nat a) = (e1, cells, w)"
    using prod_cases3 by blast
  then have e1: "en_state e1 = Decrypting"
    by (auto simp: start_decrypt_def toy_engine_def split: prod.splits)
  have r: "engine_reach ?io ?c ?st (toy_engine 40 Idle) (toy_cells, \<lambda>a. of_nat a) (pause e1) (cells, w)"
    by (rule reach_pause [OF reach_decrypt [OF reach_start s]])
  have "en_state (pause e1) = Paused"
    using e1 by (simp add: pause_def)
  moreover have "drv_view toy_device (\<lambda>w. w) toy_aes toy_xts (pause e1) w 3 =
      drv_view toy_device (\<lambda>w. w) toy_aes toy_xts (toy_engine 40 Idle) (\<lambda>a. of_nat a) 3"
    using engine_runs_transparent [OF r toy_sweep(2) f, of 3] by (simp add: toy_store_def)
  ultimately show ?thesis
    using r by blast
qed

text \<open>C34: a sweep command survives pause and restart.  After starting the decryption on a
  reliable device, pausing and resuming restores the very same engine; and when the volume is
  opened again from the device, the resumed engine decrypts exactly if encrypted sectors remain at
  the recovered offset.  The same holds for starting the encryption.\<close>

theorem command_survives_restart:
  assumes "sweep_reliable K me disk C rng A st" "use_footer (js_options st) \<noteq> 0"
    "cmd = start_encrypt \<and> dir = Encrypt \<or> cmd = start_decrypt \<and> dir = Decrypt"
    "cmd (jvck_offset_store C rng st) e (cells, w) = (e1, cells1, w1)"
  shows "engine_resume (jvck_offset_store C rng st) (pause e1) (cells1, w1) = e1 \<and>
    open_store C (ld_sector_io K me) w1 (js_vmk st) = Inr (st, cells\<lparr>jc_state := as_u16 dir\<rparr>) \<and>
    en_state (engine_resume (jvck_offset_store C rng st)
        (engine_new (g_offset_sector (js_geometry st))
           \<lparr>eo_sector = jc_offset cells, eo_total_sectors = g_data_sectors (js_geometry st)\<rparr>)
        (cells\<lparr>jc_state := as_u16 dir\<rparr>, w1)) =
      (if dir = Encrypt
       then if g_data_sectors (js_geometry st) \<le> jc_offset cells then Idle else Encrypting
       else if 0 < jc_offset cells then Decrypting else Idle)"
proof -
  have env: "jvck_env_ok K me disk C rng" "store_ok (ld_sector_io K me) (jvck_cbc_codec C) st"
    using assms(1) by (simp_all add: sweep_reliable_def)
  obtain r where "js_store_state rng st (cells, w) dir = (r, cells1, w1)"
    using assms(3,4) by (auto simp: start_encrypt_def start_decrypt_def split: prod.splits)
  then have wr: "write_all_replicas rng st (cells\<lparr>jc_state := as_u16 dir\<rparr>) w = (r, w1)"
    and c1: "cells1 = cells\<lparr>jc_state := as_u16 dir\<rparr>"
    by (simp_all add: js_store_state_result)
  have "open_store C (ld_sector_io K me) w1 (js_vmk st) = Inr (st, cells\<lparr>jc_state := as_u16 dir\<rparr>)"
    using write_all_reopen [OF env wr] assms(2) by simp
  moreover have "engine_resume (jvck_offset_store C rng st) (pause e1) (cells1, w1) = e1"
    using assms(3,4) c1
    by (auto simp: start_encrypt_def start_decrypt_def engine_resume_def pause_def js_load_state_def
        split: prod.splits)
  moreover have "en_state (engine_resume (jvck_offset_store C rng st)
        (engine_new (g_offset_sector (js_geometry st))
           \<lparr>eo_sector = jc_offset cells, eo_total_sectors = g_data_sectors (js_geometry st)\<rparr>)
        (cells\<lparr>jc_state := as_u16 dir\<rparr>, w1)) =
      (if dir = Encrypt
       then if g_data_sectors (js_geometry st) \<le> jc_offset cells then Idle else Encrypting
       else if 0 < jc_offset cells then Decrypting else Idle)"
    by (cases dir) (simp_all add: engine_resume_def js_load_state_def engine_new_def is_fully_encrypted_def)
  ultimately show ?thesis by blast
qed

theorem command_survives_restart_witness:
  "\<exists>e1 cells1 w1. start_decrypt (jvck_offset_store toy_crypto const_rng toy_store) (toy_engine 40 Idle)
      (\<lparr>jc_offset = 40, jc_state = 0\<rparr>, \<lambda>a. of_nat a) = (e1, cells1, w1) \<and>
    open_store toy_crypto (ld_sector_io ram_kernel toy_device) w1 [1, 2, 3] =
      Inr (toy_store, \<lparr>jc_offset = 40, jc_state = 1\<rparr>) \<and>
    engine_resume (jvck_offset_store toy_crypto const_rng toy_store) (pause e1) (cells1, w1) = e1"
proof -
  obtain e1 cells1 w1 where s: "start_decrypt (jvck_offset_store toy_crypto const_rng toy_store) (toy_engine 40 Idle)
      (\<lparr>jc_offset = 40, jc_state = 0\<rparr>, \<lambda>a. of_nat a) = (e1, cells1, w1)"
    using prod_cases3 by blast
  have u: "use_footer (js_options toy_store) \<noteq> 0"
    by (simp add: toy_store_def toy_options_def)
  show ?thesis
    using command_survives_restart [where cmd = start_decrypt and dir = Decrypt, OF toy_sweep(1) u _ s] s
    by (simp add: as_u16_def) (simp add: toy_store_def)
qed

text \<open>Reading through the pipeline.  Decrypting the buffer read from a run of raw sectors,
  with the boundary anywhere before, inside or after the run, gives exactly the sectors of the
  logical view.\<close>

theorem pipeline_read_is_view:
  assumes "aes_ok A" "0 < ss" "\<And>i. length (raw i) = ss" "unat first + k < 2 ^ 64"
  shows "decrypt_read (xts_as_volume_cipher A x) first b (get_sectors raw (unat first) k) ss =
    get_sectors (logical_sector (xts_as_volume_cipher A x) b raw) (unat first) k"
  by (rule volume_cipher_spec.read_logical [OF xts.volume_cipher_spec_axioms assms])

theorem pipeline_read_is_view_witness:
  "decrypt_read (xts_as_volume_cipher toy_aes toy_xts) 3 5 (get_sectors (\<lambda>i. replicate 32 (of_nat i)) 3 4) 32 =
    get_sectors (logical_sector (xts_as_volume_cipher toy_aes toy_xts) 5 (\<lambda>i. replicate 32 (of_nat i))) 3 4"
  using pipeline_read_is_view [OF toy_aes_ok, of 32 "\<lambda>i. replicate 32 (of_nat i)" 3 4 toy_xts 5] by simp

text \<open>Writing through the pipeline.  Putting the encrypted buffer on the raw sectors changes
  the logical view exactly like a write of the plain buffer to a plain disk.\<close>

theorem pipeline_write_refines_plain:
  assumes "aes_ok A" "0 < ss" "length buf = k * ss" "unat first + k < 2 ^ 64"
  shows "logical_sector (xts_as_volume_cipher A x) b
      (put_sectors ss (unat first) (encrypt_write (xts_as_volume_cipher A x) first b buf ss) raw) =
    put_sectors ss (unat first) buf (logical_sector (xts_as_volume_cipher A x) b raw)"
  by (rule volume_cipher_spec.write_logical [OF xts.volume_cipher_spec_axioms assms])

theorem pipeline_write_refines_plain_witness:
  "logical_sector (xts_as_volume_cipher toy_aes toy_xts) 5
      (put_sectors 32 3 (encrypt_write (xts_as_volume_cipher toy_aes toy_xts) 3 5 (replicate 128 7) 32) (\<lambda>i. replicate 32 0)) =
    put_sectors 32 3 (replicate 128 7) (logical_sector (xts_as_volume_cipher toy_aes toy_xts) 5 (\<lambda>i. replicate 32 0))"
  using pipeline_write_refines_plain [OF toy_aes_ok, of 32 "replicate 128 7" 4 3 toy_xts 5 "\<lambda>i. replicate 32 0"] by simp

end
