(* ===== verification/Btree_Map.thy ===== *)
theory Btree_Map
  imports Vck_Prelude "HOL-Library.List_Lexorder" "HOL-Library.Char_ord"
begin

text \<open>
  The part of \<open>alloc::collections::BTreeMap\<close> the volume registry uses: a map kept in key
  order.  The interface is the locale \<open>ordered_map\<close>; the provider is an association list
  sorted by key, whose invariant every operation keeps.
\<close>

fun bt_insert :: "'k::linorder \<Rightarrow> 'v \<Rightarrow> ('k \<times> 'v) list \<Rightarrow> ('k \<times> 'v) list" where
  "bt_insert k v [] = [(k, v)]"
| "bt_insert k v ((k1, v1) # m) =
     (if k < k1 then (k, v) # (k1, v1) # m
      else if k = k1 then (k, v) # m
      else (k1, v1) # bt_insert k v m)"

definition bt_get :: "'k \<Rightarrow> ('k \<times> 'v) list \<Rightarrow> 'v option" where
  "bt_get k m = map_of m k"

definition bt_remove :: "'k \<Rightarrow> ('k \<times> 'v) list \<Rightarrow> ('k \<times> 'v) list" where
  "bt_remove k m = filter (\<lambda>p. fst p \<noteq> k) m"

definition bt_values :: "('k \<times> 'v) list \<Rightarrow> 'v list" where
  "bt_values m = map snd m"

definition bt_ok :: "('k::linorder \<times> 'v) list \<Rightarrow> bool" where
  "bt_ok m = sorted_wrt (<) (map fst m)"

locale ordered_map =
  fixes ok :: "'m \<Rightarrow> bool" and ins :: "'k::linorder \<Rightarrow> 'v \<Rightarrow> 'm \<Rightarrow> 'm"
    and lookup :: "'k \<Rightarrow> 'm \<Rightarrow> 'v option" and del :: "'k \<Rightarrow> 'm \<Rightarrow> 'm" and vals :: "'m \<Rightarrow> 'v list"
  assumes ok_ins: "ok m \<Longrightarrow> ok (ins k v m)"
    and ok_del: "ok m \<Longrightarrow> ok (del k m)"
    and lookup_ins: "ok m \<Longrightarrow> lookup j (ins k v m) = (if j = k then Some v else lookup j m)"
    and lookup_del: "ok m \<Longrightarrow> lookup j (del k m) = (if j = k then None else lookup j m)"
    and set_vals: "ok m \<Longrightarrow> v \<in> set (vals m) \<longleftrightarrow> (\<exists>k. lookup k m = Some v)"
begin

lemma vals_ins:
  assumes "ok m"
  shows "v' \<in> set (vals (ins k v m)) \<longleftrightarrow> v' = v \<or> (\<exists>j. j \<noteq> k \<and> lookup j m = Some v')"
  using set_vals [OF ok_ins [OF assms]] lookup_ins [OF assms] by auto

lemma vals_del:
  assumes "ok m"
  shows "v' \<in> set (vals (del k m)) \<longleftrightarrow> (\<exists>j. j \<noteq> k \<and> lookup j m = Some v')"
  using set_vals [OF ok_del [OF assms]] lookup_del [OF assms] by auto

end

lemma set_bt_insert: "fst ` set (bt_insert k v m) = insert k (fst ` set m)"
  by (induction k v m rule: bt_insert.induct) auto

lemma bt_ok_insert: "bt_ok m \<Longrightarrow> bt_ok (bt_insert k v m)"
proof (induction k v m rule: bt_insert.induct)
  case (2 k v k1 v1 m)
  then show ?case
    using set_bt_insert [of k v m] by (auto simp: bt_ok_def)
qed (simp add: bt_ok_def)

lemma bt_get_insert: "bt_ok m \<Longrightarrow> bt_get j (bt_insert k v m) = (if j = k then Some v else bt_get j m)"
  by (induction k v m rule: bt_insert.induct) (auto simp: bt_get_def bt_ok_def)

lemma bt_get_remove: "bt_get j (bt_remove k m) = (if j = k then None else bt_get j m)"
  by (induction m) (auto simp: bt_get_def bt_remove_def)

lemma bt_distinct: "bt_ok m \<Longrightarrow> distinct (map fst m)"
  unfolding bt_ok_def by (simp add: strict_sorted_iff)

interpretation bt: ordered_map bt_ok bt_insert bt_get bt_remove bt_values
proof (unfold_locales, goal_cases)
  case (1 m k v)
  then show ?case by (rule bt_ok_insert)
next
  case (2 m k)
  then show ?case
    by (induction m) (auto simp: bt_ok_def bt_remove_def)
next
  case (3 m j k v)
  then show ?case by (rule bt_get_insert)
next
  case (4 m j k)
  show ?case by (rule bt_get_remove)
next
  case (5 m v)
  then show ?case
    using bt_distinct [OF 5] by (force simp: bt_values_def bt_get_def)
qed

end
