(* ===== verification/Vol_Registry.thy ===== *)
theory Vol_Registry
  imports Engine_Driver Btree_Map
begin

text \<open>
  The volume registry (\<open>lib/windrv/src/registry.rs\<close>) and the I/O configuration a provider
  returns (\<open>lib/windrv/src/provider.rs\<close>).

  \<open>Arc<AttachedVolume>\<close> values are shared between the registry, the filter devices and the
  volume threads, and their mutable parts (engine, filter device, sweep device, cached boundary)
  are changed through any of them: an \<open>Arc\<close> is the index of the volume in a heap, a list of
  volumes that only grows.  Device objects are addresses, 0 is the null pointer.
\<close>


section \<open>I/O configuration\<close>

record 'w io_hooks =
  ih_read :: "'w \<Rightarrow> u64 \<Rightarrow> nat \<Rightarrow> bytes vck_result"
  ih_write :: "'w \<Rightarrow> u64 \<Rightarrow> bytes \<Rightarrow> unit vck_result \<times> 'w"

datatype 'w io_config =
    Passthrough
  | Encrypted "cipher_supplier option" u64 encrypted_offset "'w offset_store"
  | Custom "'w io_hooks" u64 encrypted_offset "'w offset_store"

definition ic_offset_sector :: "'w io_config \<Rightarrow> u64" where
  "ic_offset_sector ic = (case ic of Passthrough \<Rightarrow> 0 | Encrypted _ off _ _ \<Rightarrow> off | Custom _ off _ _ \<Rightarrow> off)"

definition ic_geometry :: "'w io_config \<Rightarrow> (u64 \<times> encrypted_offset \<times> 'w offset_store) option" where
  "ic_geometry ic = (case ic of Passthrough \<Rightarrow> None
     | Encrypted _ off eo st \<Rightarrow> Some (off, eo, st) | Custom _ off eo st \<Rightarrow> Some (off, eo, st))"


section \<open>Attached volumes\<close>

datatype attach_source = Handover | Ioctl

type_synonym device = u64

record 'w attached_volume =
  av_volume_path :: string
  av_sector_size :: u32
  av_io_config :: "'w io_config"
  av_encryption :: engine
  av_offset_store :: "'w offset_store"
  av_attach_source :: attach_source
  av_filter_device :: device
  av_sweep_io :: "'w sector_io"
  av_encrypted_boundary :: u64

definition is_os_volume :: "'w attached_volume \<Rightarrow> bool" where
  "is_os_volume v \<longleftrightarrow> av_attach_source v = Handover"

definition has_encrypted_data :: "'w attached_volume \<Rightarrow> bool" where
  "has_encrypted_data v \<longleftrightarrow> av_encrypted_boundary v > 0"

definition av_offset_sector :: "'w attached_volume \<Rightarrow> u64" where
  "av_offset_sector v = ic_offset_sector (av_io_config v)"

definition data_sectors :: "'w attached_volume \<Rightarrow> u64" where
  "data_sectors v = (case av_io_config v of Passthrough \<Rightarrow> 0
     | Encrypted _ _ eo _ \<Rightarrow> eo_total_sectors eo | Custom _ _ eo _ \<Rightarrow> eo_total_sectors eo)"

definition av_cipher_supplier :: "'w attached_volume \<Rightarrow> cipher_supplier option" where
  "av_cipher_supplier v = (case av_io_config v of Encrypted s _ _ _ \<Rightarrow> s | _ \<Rightarrow> None)"

definition sync_boundary :: "'w attached_volume \<Rightarrow> 'w attached_volume" where
  "sync_boundary v = v\<lparr>av_encrypted_boundary := encrypted_boundary (av_encryption v)\<rparr>"

definition sweep_step ::
    "u64 \<Rightarrow> 'w attached_volume \<Rightarrow> 'w \<Rightarrow> bool vck_result \<times> 'w attached_volume \<times> 'w" where
  "sweep_step batch_sectors v w =
     (case av_cipher_supplier v of
        None \<Rightarrow> (Inr False, v, w)
      | Some supplier \<Rightarrow>
          (case supplier () of
             None \<Rightarrow> (Inr False, v, w)
           | Some cipher \<Rightarrow>
               let (result, e, w1) = progress_step (av_sweep_io v) cipher (av_offset_store v) batch_sectors
                     (av_encryption v) w;
                   v1 = v\<lparr>av_encryption := e\<rparr>
               in (result, if is_ok result then sync_boundary v1 else v1, w1)))"


section \<open>The registry\<close>

record handover_info =
  hi_partition_guid :: guid
  hi_vmk :: bytes

record pdo_filter_entry =
  pf_pdo :: device
  pf_filter_do :: device
  pf_lower_do :: device
  pf_pdo_name :: string

record registry =
  rg_entries :: "(string \<times> nat) list"
  rg_driver_object :: u64
  rg_pdo_filters :: "pdo_filter_entry list"
  rg_handover :: "handover_info option"

type_synonym 'w vol_heap = "'w attached_volume list"

definition registry_new :: registry where
  "registry_new = \<lparr>rg_entries = [], rg_driver_object = 0, rg_pdo_filters = [], rg_handover = None\<rparr>"

definition set_handover :: "handover_info \<Rightarrow> registry \<Rightarrow> registry" where
  "set_handover info r = r\<lparr>rg_handover := Some info\<rparr>"

definition add_pdo_filter :: "device \<Rightarrow> device \<Rightarrow> device \<Rightarrow> string \<Rightarrow> registry \<Rightarrow> registry" where
  "add_pdo_filter pdo filter_do lower_do pdo_name r =
     r\<lparr>rg_pdo_filters := rg_pdo_filters r @
        [\<lparr>pf_pdo = pdo, pf_filter_do = filter_do, pf_lower_do = lower_do, pf_pdo_name = pdo_name\<rparr>]\<rparr>"

definition pdo_name_for_filter :: "device \<Rightarrow> registry \<Rightarrow> string option" where
  "pdo_name_for_filter filter_do r =
     map_option pf_pdo_name (find (\<lambda>e. pf_filter_do e = filter_do \<and> pf_pdo_name e \<noteq> []) (rg_pdo_filters r))"

definition find_pdo_filter :: "device \<Rightarrow> registry \<Rightarrow> (device \<times> device) option" where
  "find_pdo_filter dev r =
     map_option (\<lambda>e. (pf_filter_do e, pf_lower_do e))
       (find (\<lambda>e. pf_pdo e = dev \<or> pf_lower_do e = dev) (rg_pdo_filters r))"

definition to_ascii_lowercase :: "string \<Rightarrow> string" where
  "to_ascii_lowercase s =
     map (\<lambda>c. if CHR ''A'' \<le> c \<and> c \<le> CHR ''Z'' then char_of (of_char c + 32 :: nat) else c) s"

definition find_pdo_filter_by_name :: "string \<Rightarrow> registry \<Rightarrow> (device \<times> device) option" where
  "find_pdo_filter_by_name nt_path r =
     (let query = to_ascii_lowercase (trim_end_backslashes nt_path)
      in map_option (\<lambda>e. (pf_filter_do e, pf_lower_do e))
           (find (\<lambda>e. to_ascii_lowercase (trim_end_backslashes (pf_pdo_name e)) = query) (rg_pdo_filters r)))"

definition set_driver_object :: "u64 \<Rightarrow> registry \<Rightarrow> registry" where
  "set_driver_object driver r = r\<lparr>rg_driver_object := driver\<rparr>"

definition reg_insert :: "'w vol_heap \<Rightarrow> nat \<Rightarrow> registry \<Rightarrow> registry" where
  "reg_insert h v r = r\<lparr>rg_entries := bt_insert (av_volume_path (h ! v)) v (rg_entries r)\<rparr>"

definition reg_get :: "string \<Rightarrow> registry \<Rightarrow> nat option" where
  "reg_get volume_path r = bt_get volume_path (rg_entries r)"

definition get_by_filter :: "'w vol_heap \<Rightarrow> device \<Rightarrow> registry \<Rightarrow> nat option" where
  "get_by_filter h filter_do r =
     (if filter_do = 0 then None
      else find (\<lambda>v. av_filter_device (h ! v) = filter_do) (bt_values (rg_entries r)))"

definition reg_remove :: "string \<Rightarrow> registry \<Rightarrow> nat option \<times> registry" where
  "reg_remove volume_path r =
     (bt_get volume_path (rg_entries r), r\<lparr>rg_entries := bt_remove volume_path (rg_entries r)\<rparr>)"

definition reg_all :: "registry \<Rightarrow> nat list" where
  "reg_all r = bt_values (rg_entries r)"

definition has_encrypted_os_volume :: "'w vol_heap \<Rightarrow> registry \<Rightarrow> bool" where
  "has_encrypted_os_volume h r \<longleftrightarrow>
     list_ex (\<lambda>v. is_os_volume (h ! v) \<and> has_encrypted_data (h ! v)) (bt_values (rg_entries r))"


section \<open>The registry as a map from paths to volumes\<close>

text \<open>Every entry is a volume of the heap filed under its own path.\<close>

definition reg_ok :: "'w vol_heap \<Rightarrow> registry \<Rightarrow> bool" where
  "reg_ok h r \<longleftrightarrow> bt_ok (rg_entries r) \<and>
     (\<forall>p v. reg_get p r = Some v \<longrightarrow> v < length h \<and> av_volume_path (h ! v) = p)"

lemma reg_ok_bt: "reg_ok h r \<Longrightarrow> bt_ok (rg_entries r)"
  by (simp add: reg_ok_def)

lemma reg_ok_new [simp]: "reg_ok h registry_new"
  by (simp add: reg_ok_def registry_new_def reg_get_def bt_ok_def bt_get_def)

lemma reg_get_insert:
  "reg_ok h r \<Longrightarrow> reg_get p (reg_insert h v r) = (if p = av_volume_path (h ! v) then Some v else reg_get p r)"
  by (simp add: reg_get_def reg_insert_def bt.lookup_ins [OF reg_ok_bt])

lemma reg_ok_insert: "reg_ok h r \<Longrightarrow> v < length h \<Longrightarrow> reg_ok h (reg_insert h v r)"
  unfolding reg_ok_def [of h "reg_insert h v r"]
proof (intro conjI allI impI, goal_cases)
  case 1
  then show ?case by (simp add: reg_insert_def bt.ok_ins reg_ok_bt)
next
  case (2 p u)
  then show ?case by (auto simp: reg_get_insert reg_ok_def split: if_splits)
next
  case (3 p u)
  then show ?case by (auto simp: reg_get_insert reg_ok_def split: if_splits)
qed

lemma reg_get_remove:
  "reg_ok h r \<Longrightarrow> reg_get p (snd (reg_remove q r)) = (if p = q then None else reg_get p r)"
  by (simp add: reg_get_def reg_remove_def bt.lookup_del [OF reg_ok_bt])

lemma reg_ok_remove: "reg_ok h r \<Longrightarrow> reg_ok h (snd (reg_remove q r))"
  unfolding reg_ok_def [of h "snd (reg_remove q r)"]
  using bt.ok_del [OF reg_ok_bt] reg_get_remove [of h r]
  by (auto simp: reg_ok_def reg_remove_def split: if_splits)

lemma reg_all_iff: "reg_ok h r \<Longrightarrow> v \<in> set (reg_all r) \<longleftrightarrow> (\<exists>p. reg_get p r = Some v)"
  by (simp add: reg_all_def reg_get_def bt.set_vals [OF reg_ok_bt])

text \<open>Updating a volume in place, or allocating one, keeps the registry well formed.\<close>

lemma reg_ok_update:
  "reg_ok h r \<Longrightarrow> av_volume_path v' = av_volume_path (h ! v) \<Longrightarrow> reg_ok (h[v := v']) r"
  unfolding reg_ok_def by (metis length_list_update nth_list_update_eq nth_list_update_neq)

lemma reg_ok_alloc: "reg_ok h r \<Longrightarrow> reg_ok (h @ [v]) r"
  unfolding reg_ok_def by (metis length_append_singleton less_SucI nth_append)

lemma has_encrypted_os_volume_iff:
  "reg_ok h r \<Longrightarrow> has_encrypted_os_volume h r \<longleftrightarrow>
   (\<exists>p v. reg_get p r = Some v \<and> is_os_volume (h ! v) \<and> has_encrypted_data (h ! v))"
  unfolding has_encrypted_os_volume_def list_ex_iff
  using reg_all_iff [of h r] unfolding reg_all_def by blast

lemma get_by_filter_sound:
  assumes "reg_ok h r" "get_by_filter h f r = Some v"
  shows "f \<noteq> 0 \<and> av_filter_device (h ! v) = f \<and> reg_get (av_volume_path (h ! v)) r = Some v"
proof -
  have "f \<noteq> 0" and find: "find (\<lambda>v. av_filter_device (h ! v) = f) (reg_all r) = Some v"
    using assms(2) by (auto simp: get_by_filter_def reg_all_def split: if_splits)
  then have "v \<in> set (reg_all r)" "av_filter_device (h ! v) = f"
    by (auto simp: find_Some_iff)
  then show ?thesis
    using assms(1) \<open>f \<noteq> 0\<close> reg_all_iff [OF assms(1)] unfolding reg_ok_def by metis
qed

lemma get_by_filter_complete:
  assumes "reg_ok h r" "f \<noteq> 0" "reg_get p r = Some v" "av_filter_device (h ! v) = f"
  shows "get_by_filter h f r \<noteq> None"
proof -
  have "v \<in> set (reg_all r)"
    using assms(1,3) reg_all_iff by blast
  then show ?thesis
    using assms(2,4) by (auto simp: get_by_filter_def reg_all_def find_None_iff)
qed


section \<open>The sweep of an attached volume\<close>

text \<open>Two devices with the same sectors and transfers; the sweep never asks for the total size.\<close>

definition same_transfers :: "'w sector_io \<Rightarrow> 'w sector_io \<Rightarrow> bool" where
  "same_transfers io1 io2 \<longleftrightarrow> sio_sector_size io1 = sio_sector_size io2 \<and>
     sio_read_sectors io1 = sio_read_sectors io2 \<and> sio_write_sectors io1 = sio_write_sectors io2"

lemma same_transfers_refl [simp]: "same_transfers io io"
  by (simp add: same_transfers_def)

lemma progress_step_cong:
  "same_transfers io1 io2 \<Longrightarrow> progress_step io1 c store bsz e w = progress_step io2 c store bsz e w"
  by (cases "en_state e") (simp_all add: same_transfers_def progress_step_def encrypt_step_def decrypt_step_def Let_def split: sum.splits)

text \<open>A volume that is set up for a device, cipher and store; \<open>vol_synced\<close>: the lock-free
  copy of the boundary agrees with the engine.\<close>

definition vol_ok ::
    "'w sector_io \<Rightarrow> volume_cipher \<Rightarrow> 'w offset_store \<Rightarrow> nat \<Rightarrow> nat set \<Rightarrow> 'w attached_volume \<Rightarrow> bool" where
  "vol_ok io c store cap md v \<longleftrightarrow>
     same_transfers (av_sweep_io v) io \<and> av_offset_store v = store \<and>
     (\<exists>sup. av_cipher_supplier v = Some sup \<and> sup () = Some c) \<and>
     av_sector_size v = sio_sector_size io \<and>
     av_offset_sector v = en_offset_sector (av_encryption v) \<and>
     data_sectors v = eo_total_sectors (en_encrypted_offset (av_encryption v)) \<and>
     engine_ok (unat (sio_sector_size io)) cap md (av_encryption v)"

definition vol_synced :: "'w attached_volume \<Rightarrow> bool" where
  "vol_synced v \<longleftrightarrow> av_encrypted_boundary v = encrypted_boundary (av_encryption v)"

text \<open>What a reader of the volume sees, by the boundary the filter uses.\<close>

definition vol_view :: "volume_cipher \<Rightarrow> 'w attached_volume \<Rightarrow> (nat \<Rightarrow> bytes) \<Rightarrow> nat \<Rightarrow> bytes" where
  "vol_view c v disk = logical_sector c (av_encrypted_boundary v) (\<lambda>i. disk (unat (av_offset_sector v) + i))"

lemma vol_view_engine:
  "vol_ok io c store cap md v \<Longrightarrow> vol_synced v \<Longrightarrow> vol_view c v disk = engine_view c (av_encryption v) disk"
  by (simp add: vol_view_def engine_view_def vol_ok_def vol_synced_def encrypted_boundary_def)

lemma sync_boundary_simps [simp]:
  "av_encryption (sync_boundary v) = av_encryption v" "vol_synced (sync_boundary v)"
  "vol_ok io c store cap md (sync_boundary v) = vol_ok io c store cap md v"
  "data_sectors (sync_boundary v) = data_sectors v" "av_offset_sector (sync_boundary v) = av_offset_sector v"
  "av_volume_path (sync_boundary v) = av_volume_path v"
  by (simp_all add: sync_boundary_def vol_synced_def vol_ok_def av_cipher_supplier_def av_offset_sector_def data_sectors_def)

lemma vol_ok_encryption:
  assumes "vol_ok io c store cap md v" "same_region (av_encryption v) e" "engine_ok (unat (sio_sector_size io)) cap md e"
  shows "vol_ok io c store cap md (v\<lparr>av_encryption := e\<rparr>)"
  using assms by (simp add: vol_ok_def same_region_def av_cipher_supplier_def av_offset_sector_def data_sectors_def)

lemma sweep_step_run:
  assumes "vol_ok io c store cap md v" "progress_step io c store bsz (av_encryption v) w = (r, e, w')"
  shows "sweep_step bsz v w =
    (r, if is_ok r then sync_boundary (v\<lparr>av_encryption := e\<rparr>) else v\<lparr>av_encryption := e\<rparr>, w')"
  using assms progress_step_cong [of "av_sweep_io v" io c store bsz "av_encryption v" w]
  by (auto simp: vol_ok_def sweep_step_def)

lemma update_encryption_simps [simp]:
  "av_offset_sector (v\<lparr>av_encryption := e\<rparr>) = av_offset_sector v"
  "data_sectors (v\<lparr>av_encryption := e\<rparr>) = data_sectors v"
  by (simp_all add: av_offset_sector_def data_sectors_def)

lemma vol_ok_total: "vol_ok io c store cap md v \<Longrightarrow> unat (data_sectors v) = en_total (av_encryption v)"
  by (simp add: vol_ok_def en_total_def)

context sweep_env
begin

abbreviation vok :: "'w attached_volume \<Rightarrow> bool" where "vok \<equiv> vol_ok io c store cap md"

text \<open>A sweep step that succeeds leaves the filter with the right boundary and every sector
  of the volume as it was.\<close>

lemma sweep_step_view:
  assumes "invar w" "vok v" "vol_synced v" "sweep_step bsz v w = (Inr again, v', w')"
  shows "invar w' \<and> vok v' \<and> vol_synced v' \<and> data_sectors v' = data_sectors v \<and>
    av_offset_sector v' = av_offset_sector v \<and>
    (\<forall>i < unat (data_sectors v). vol_view c v' (content w') i = vol_view c v (content w) i)"
proof -
  obtain r e1 w1 where p: "progress_step io c store bsz (av_encryption v) w = (r, e1, w1)"
    using prod_cases3 by blast
  have r: "r = Inr again" "v' = sync_boundary (v\<lparr>av_encryption := e1\<rparr>)" "w' = w1"
    using sweep_step_run [OF assms(2) p] assms(4) by auto
  have "eok (av_encryption v)"
    using assms(2) by (simp add: vol_ok_def)
  note post = progress_step_view [OF assms(1) this p [unfolded r(1)]]
  have ok: "vok v'"
    using vol_ok_encryption [OF assms(2)] post r(2) by simp
  have "vol_view c v' (content w') i = vol_view c v (content w) i" if "i < unat (data_sectors v)" for i
    using vol_view_engine [OF ok] vol_view_engine [OF assms(2,3)] post that vol_ok_total [OF assms(2)] r by simp
  then show ?thesis
    using post ok r by auto
qed

text \<open>When the device write of an encryption step succeeds but the boundary cannot be
  persisted, the step fails after the engine has moved its boundary; the copy the filter uses stays
  behind, and the sectors between the two read as ciphertext.\<close>

lemma failed_persist_exposes:
  assumes "invar w" "vok v" "vol_synced v" "en_state (av_encryption v) = Encrypting"
    "sweep_step bsz v w = (Inl err, v', w')"
    "en_boundary (av_encryption v) \<le> i" "i < en_boundary (av_encryption v')"
  shows "vol_view c v' (content w') i = vc_encrypt_sector c (of_nat i) (vol_view c v (content w) i)"
proof -
  obtain r e1 w1 where p: "progress_step io c store bsz (av_encryption v) w = (r, e1, w1)"
    using prod_cases3 by blast
  have r: "r = Inl err" "v' = v\<lparr>av_encryption := e1\<rparr>" "w' = w1"
    using sweep_step_run [OF assms(2) p] assms(5) by (cases r, auto)+
  have ok: "eok (av_encryption v)"
    using assms(2) by (simp add: vol_ok_def)
  have step: "encrypt_step io c store bsz (av_encryption v) w = (Inl err, e1, w1)"
    using p r(1) assms(4) by (simp add: progress_step_def)
  have i: "en_boundary (av_encryption v) \<le> i" "i < en_boundary e1"
    using assms(6,7) r(2) by simp_all
  then have post: "eok e1" "same_region (av_encryption v) e1"
    "\<forall>j < en_total (av_encryption v). view e1 w1 j = view (av_encryption v) w j"
    using encrypt_step_post [OF assms(1) ok step] by (auto simp: step_post_def)
  have tot: "i < en_total (av_encryption v)"
    using i(2) post(1,2) by (simp add: engine_ok_def same_region_def en_total_def)
  have off: "en_offset_sector e1 = av_offset_sector v"
    using post(2) assms(2) by (simp add: same_region_def vol_ok_def)
  have "view (av_encryption v) w i = vc_decrypt_sector c (of_nat i) (content w' (unat (av_offset_sector v) + i))"
    using post(3) tot i(2) off r(3) by (auto simp: engine_view_def logical_sector_def en_boundary_def)
  moreover have "vol_view c v' (content w') i = content w' (unat (av_offset_sector v) + i)"
    using i(1) assms(3) r(2)
    by (simp add: vol_view_def logical_sector_def vol_synced_def encrypted_boundary_def en_boundary_def)
  ultimately show ?thesis
    using vol_view_engine [OF assms(2,3)] cip.enc_dec [OF cipher_ok [OF assms(1)]] by simp
qed

end


section \<open>Witness data\<close>

definition toy_volume ::
    "(nat \<Rightarrow> byte) random_source \<Rightarrow> u64 \<Rightarrow> engine_state \<Rightarrow> (jvck_cells \<times> (nat \<Rightarrow> byte)) attached_volume" where
  "toy_volume rng b s =
     \<lparr>av_volume_path = ''vol'', av_sector_size = 512,
      av_io_config = Encrypted (Some (\<lambda>_. Some (xts_as_volume_cipher toy_aes toy_xts))) 0
        \<lparr>eo_sector = 0, eo_total_sectors = 88\<rparr> (jvck_offset_store toy_crypto rng toy_store),
      av_encryption = toy_engine b s,
      av_offset_store = jvck_offset_store toy_crypto rng toy_store,
      av_attach_source = Handover, av_filter_device = 1,
      av_sweep_io = lift_sector_io (ld_sector_io ram_kernel toy_device),
      av_encrypted_boundary = b\<rparr>"

text \<open>The volume as the driver sets it up: JVCK store, XTS cipher, lower device.\<close>

abbreviation drv_vol_ok where
  "drv_vol_ok K me C rng A x st v \<equiv>
     vol_ok (lift_sector_io (ld_sector_io K me)) (xts_as_volume_cipher A x) (jvck_offset_store C rng st)
       (unat (ld_total_sectors me)) (unat ` set (store_lbas st)) v"

lemma toy_sweep_no_rng: "sweep_ok ram_kernel toy_device (\<lambda>w. w) toy_crypto None toy_aes toy_store"
  using toy_sweep(2) by (simp add: sweep_ok_def jvck_frame_ok_def rng_frame_ok_def fill_random_def)

lemma toy_volume_ok:
  assumes "b \<le> 88"
  shows "drv_vol_ok ram_kernel toy_device toy_crypto rng toy_aes toy_xts toy_store (toy_volume rng b s)"
    "vol_synced (toy_volume rng b s)"
proof -
  have "engine_ok (unat (ld_sector_size toy_device)) (unat (ld_total_sectors toy_device)) (unat ` set (store_lbas toy_store))
      (toy_engine b s)"
    by (rule engine_for_ok [OF toy_sweep(2) toy_engine_for [OF assms]])
  then show "drv_vol_ok ram_kernel toy_device toy_crypto rng toy_aes toy_xts toy_store (toy_volume rng b s)"
    by (simp add: vol_ok_def toy_volume_def av_cipher_supplier_def av_offset_sector_def ic_offset_sector_def data_sectors_def)
      (simp add: toy_engine_def toy_device_def ld_new_def)
  show "vol_synced (toy_volume rng b s)"
    by (simp add: vol_synced_def toy_volume_def encrypted_boundary_def toy_engine_def)
qed

text \<open>Without a source of randomness the store cannot seal a new block: the step writes the
  ciphertext, moves the engine's boundary and then fails.\<close>

lemma toy_failed_step:
  "\<exists>err cells' w'. sweep_step 8 (toy_volume None 40 Encrypting) (toy_cells, w) =
     (Inl err, (toy_volume None 40 Encrypting)\<lparr>av_encryption := set_boundary 48 (toy_engine 40 Encrypting)\<rparr>, cells', w')"
proof -
  let ?io = "lift_sector_io (ld_sector_io ram_kernel toy_device) :: (jvck_cells \<times> (nat \<Rightarrow> byte)) sector_io"
  let ?c = "xts_as_volume_cipher toy_aes toy_xts" and ?e = "toy_engine 40 Encrypting"
  note ok = engine_for_ok_lift [OF toy_sweep(2) toy_engine_for [of 40 Encrypting, simplified]]
  have ss: "sio_sector_size ?io = 512" and tot: "en_total ?e = 88"
    by (simp_all add: toy_device_def ld_new_def) (simp add: toy_engine_def en_total_def)
  obtain buf where buf: "sio_read_sectors ?io (toy_cells, w) 40 4096 = Inr buf" "length buf = 4096"
    using rsweep.batch_read_total [OF toy_sweep(1) ok, of 40 8 "(toy_cells, w)"] ss tot by (auto simp: toy_engine_def)
  have "length (vc_encrypt_area ?c buf 512 40) = 4096"
    using xts.area_lengths(1) [OF toy_aes_ok, of 512 toy_xts buf 40] buf(2) by simp
  then obtain w1 where w1: "sio_write_sectors ?io (toy_cells, w) 40 (vc_encrypt_area ?c buf 512 40) = (Inr (), w1)"
    using rsweep.batch_write_total [OF toy_sweep(1) ok, of 40 8 "vc_encrypt_area ?c buf 512 40" "(toy_cells, w)"] ss tot
    by (auto simp: toy_engine_def)
  have no: "\<exists>err cw'. persist_step (jvck_offset_store toy_crypto None toy_store) e cw d = (Inl err, e, cw')" for e cw d
    by (cases cw) (simp add: persist_step_def js_store_def write_all_replicas_def fill_random_def)
  obtain err cells' w' where "persist_step (jvck_offset_store toy_crypto None toy_store) (set_boundary 48 ?e) w1 False =
      (Inl err, set_boundary 48 ?e, cells', w')"
    using no [of "set_boundary 48 ?e" w1 False] by auto
  then have "progress_step ?io ?c (jvck_offset_store toy_crypto None toy_store) 8 ?e (toy_cells, w) =
      (Inl err, set_boundary 48 ?e, cells', w')"
    using buf(1) w1 ss
    by (simp add: progress_step_def encrypt_step_def toy_engine_def is_fully_encrypted_def batch_count_def set_boundary_def)
  then show ?thesis
    using sweep_step_run [OF toy_volume_ok(1) [of 40 None Encrypting]] by (simp add: toy_volume_def)
qed


section \<open>Properties\<close>

text \<open>The registry is a map.  Inserting a volume makes it the one found under its path and
  changes no other entry, removing a path returns the volume filed there and forgets only it, and
  both keep every entry filed under the path of its volume.\<close>

theorem registry_is_map:
  assumes "reg_ok h r" "v < length h"
  shows "reg_ok h (reg_insert h v r) \<and>
    (\<forall>p. reg_get p (reg_insert h v r) = (if p = av_volume_path (h ! v) then Some v else reg_get p r)) \<and>
    reg_ok h (snd (reg_remove q r)) \<and> fst (reg_remove q r) = reg_get q r \<and>
    (\<forall>p. reg_get p (snd (reg_remove q r)) = (if p = q then None else reg_get p r))"
proof -
  have "fst (reg_remove q r) = reg_get q r"
    by (simp add: reg_remove_def reg_get_def)
  then show ?thesis
    using reg_ok_insert [OF assms] reg_get_insert [OF assms(1)] reg_ok_remove [OF assms(1)] reg_get_remove [OF assms(1)]
    by simp
qed

theorem registry_is_map_witness:
  "reg_get ''a'' (reg_insert [toy_volume const_rng 40 Idle] 0 registry_new) = None \<and>
   reg_get ''vol'' (reg_insert [toy_volume const_rng 40 Idle] 0 registry_new) = Some 0"
  using registry_is_map [of "[toy_volume const_rng 40 Idle]" registry_new 0 "''vol''"]
  by (simp add: toy_volume_def) (simp add: registry_new_def reg_get_def bt_get_def)

text \<open>The check that keeps the driver loaded.  It holds exactly when some attached volume
  came from the boot handover and has at least one encrypted sector.\<close>

theorem unload_guard_exact:
  assumes "reg_ok h r"
  shows "has_encrypted_os_volume h r \<longleftrightarrow>
    (\<exists>p v. reg_get p r = Some v \<and> av_attach_source (h ! v) = Handover \<and> av_encrypted_boundary (h ! v) \<noteq> 0)"
  using has_encrypted_os_volume_iff [OF assms] by (simp add: is_os_volume_def has_encrypted_data_def word_gt_0)

theorem unload_guard_exact_witness:
  "has_encrypted_os_volume [toy_volume const_rng 40 Idle] (reg_insert [toy_volume const_rng 40 Idle] 0 registry_new)"
proof -
  have ok: "reg_ok [toy_volume const_rng 40 Idle] (reg_insert [toy_volume const_rng 40 Idle] 0 registry_new)"
    by (rule reg_ok_insert) simp_all
  have "reg_get ''vol'' (reg_insert [toy_volume const_rng 40 Idle] 0 registry_new) = Some 0"
    using reg_get_insert [of "[toy_volume const_rng 40 Idle]" registry_new "''vol''" 0] by (simp add: toy_volume_def)
  then show ?thesis
    using unload_guard_exact [OF ok] by (force simp: toy_volume_def)
qed

text \<open>A sweep step through the attached volume.  If it succeeds, the boundary the filter
  uses is the engine's, and every data sector reads as before through that boundary.\<close>

theorem attached_sweep_transparent:
  assumes "sweep_ok K me disk C rng A st" "drv_vol_ok K me C rng A x st v" "vol_synced v"
    "sweep_step bsz v (cells, w) = (Inr again, v', cells', w')"
  shows "drv_vol_ok K me C rng A x st v' \<and> vol_synced v' \<and> data_sectors v' = data_sectors v \<and>
    (\<forall>i < unat (data_sectors v).
      vol_view (xts_as_volume_cipher A x) v' (disk_sector disk (unat (ld_sector_size me)) w') i =
      vol_view (xts_as_volume_cipher A x) v (disk_sector disk (unat (ld_sector_size me)) w) i)"
  using sweep.sweep_step_view [where K = K and me = me and disk = disk and C = C and rng = rng and A = A and st = st
      and x = x, OF assms] by simp

theorem attached_sweep_transparent_witness:
  "\<exists>again v' cells' w'. sweep_step 8 (toy_volume const_rng 40 Decrypting) (toy_cells, \<lambda>a. of_nat a) =
     (Inr again, v', cells', w') \<and> vol_synced v'"
proof -
  note ok = toy_volume_ok [of 40 const_rng Decrypting, simplified]
  have e: "av_encryption (toy_volume const_rng 40 Decrypting) = toy_engine 40 Decrypting"
    by (simp add: toy_volume_def)
  obtain again e1 cells' w' where
    "decrypt_step (lift_sector_io (ld_sector_io ram_kernel toy_device)) (xts_as_volume_cipher toy_aes toy_xts)
      (jvck_offset_store toy_crypto const_rng toy_store) 8 (toy_engine 40 Decrypting) (toy_cells, \<lambda>a. of_nat a) =
      (Inr again, e1, cells', w')"
    using rsweep.decrypt_step_total [OF toy_sweep(1) engine_for_ok_lift [OF toy_sweep(2) toy_engine_for [of 40 Decrypting]],
        of 8 toy_xts "(toy_cells, \<lambda>a. of_nat a)"]
    by (auto simp: toy_device_def ld_new_def)
  then have "progress_step (lift_sector_io (ld_sector_io ram_kernel toy_device)) (xts_as_volume_cipher toy_aes toy_xts)
      (jvck_offset_store toy_crypto const_rng toy_store) 8 (av_encryption (toy_volume const_rng 40 Decrypting))
      (toy_cells, \<lambda>a. of_nat a) = (Inr again, e1, cells', w')"
    by (simp add: progress_step_def e) (simp add: toy_engine_def)
  then have s: "sweep_step 8 (toy_volume const_rng 40 Decrypting) (toy_cells, \<lambda>a. of_nat a) =
      (Inr again, sync_boundary ((toy_volume const_rng 40 Decrypting)\<lparr>av_encryption := e1\<rparr>), cells', w')"
    using sweep_step_run [OF ok(1)] by simp
  then show ?thesis
    using attached_sweep_transparent [OF toy_sweep(2) ok s] by blast
qed

text \<open>When a sweep step fails because the new boundary cannot be persisted, the engine has
  already moved its boundary but the copy used by the filter has not: every sector in between reads
  as the ciphertext of its content.\<close>

theorem failed_persist_reads_ciphertext:
  assumes "sweep_ok K me disk C rng A st" "drv_vol_ok K me C rng A x st v" "vol_synced v"
    "en_state (av_encryption v) = Encrypting" "sweep_step bsz v (cells, w) = (Inl err, v', cells', w')"
    "en_boundary (av_encryption v) \<le> i" "i < en_boundary (av_encryption v')"
  shows "vol_view (xts_as_volume_cipher A x) v' (disk_sector disk (unat (ld_sector_size me)) w') i =
    vc_encrypt_sector (xts_as_volume_cipher A x) (of_nat i)
      (vol_view (xts_as_volume_cipher A x) v (disk_sector disk (unat (ld_sector_size me)) w) i)"
  using sweep.failed_persist_exposes [where K = K and me = me and disk = disk and C = C and rng = rng and A = A and st = st
      and x = x, OF assms] by simp

theorem failed_persist_reads_ciphertext_witness:
  "\<exists>err v' cells' w'. sweep_step 8 (toy_volume None 40 Encrypting) (toy_cells, \<lambda>a. of_nat a) = (Inl err, v', cells', w') \<and>
     vol_view (xts_as_volume_cipher toy_aes toy_xts) v' (disk_sector (\<lambda>w. w) (unat (ld_sector_size toy_device)) w') 41 =
       vc_encrypt_sector (xts_as_volume_cipher toy_aes toy_xts) 41
         (vol_view (xts_as_volume_cipher toy_aes toy_xts) (toy_volume None 40 Encrypting)
           (disk_sector (\<lambda>w. w) (unat (ld_sector_size toy_device)) (\<lambda>a. of_nat a)) 41)"
proof -
  obtain err cells' w' where s: "sweep_step 8 (toy_volume None 40 Encrypting) (toy_cells, \<lambda>a. of_nat a) =
     (Inl err, (toy_volume None 40 Encrypting)\<lparr>av_encryption := set_boundary 48 (toy_engine 40 Encrypting)\<rparr>, cells', w')"
    using toy_failed_step by blast
  note ok = toy_volume_ok [of 40 None Encrypting, simplified]
  have st: "en_state (av_encryption (toy_volume None 40 Encrypting)) = Encrypting"
    "en_boundary (av_encryption (toy_volume None 40 Encrypting)) = 40"
    by (simp_all add: toy_volume_def toy_engine_def en_boundary_def)
  show ?thesis
    using failed_persist_reads_ciphertext [OF toy_sweep_no_rng ok st(1) s, of 41] st(2) s by auto
qed

end
