(* ===== verification/Filter_Io.thy ===== *)
theory Filter_Io
  imports Vol_Registry
begin

text \<open>
  Interception of IRPs on a filter device (\<open>lib/windrv/src/filter/io.rs\<close> and
  \<open>filter/irp.rs\<close>), the device extension of \<open>device.rs\<close> and the queue of the volume
  thread a transfer is handed to (\<open>filter/volume_thread.rs\<close>, \<open>enqueue\<close>).

  An IRP is a record of the fields of the request and of its current stack location that the
  driver reads or writes.  The I/O manager is a parameter: calling the lower driver gives back the
  IRP as it is when the lower driver completes it, and an allocation from the pool may fail.
\<close>


section \<open>Requests\<close>

datatype irp_major_function =
    MJ_CREATE | MJ_CLOSE | MJ_CLEANUP | MJ_READ | MJ_WRITE | MJ_DEVICE_CONTROL | MJ_SHUTDOWN | MJ_PNP | MJ_OTHER

text \<open>The buffer lengths of a control request and the process it comes from are fields of their own.\<close>

record irp =
  irp_major :: irp_major_function
  irp_minor_start :: bool
  irp_requestor_mode :: byte
  irp_byte_offset :: u64
  irp_length :: u32
  irp_ioctl_code :: u32
  irp_system_buffer :: "bytes option"
  irp_mdl :: "bytes option"
  irp_cancel :: bool
  irp_pending :: bool
  irp_status :: ntstatus
  irp_information :: nat
  irp_has_stack :: bool
  irp_input_length :: u32
  irp_output_length :: u32
  irp_process :: u64

record 'w io_manager =
  im_call_driver :: "'w \<Rightarrow> device \<Rightarrow> irp \<Rightarrow> ntstatus \<times> irp \<times> 'w"
  im_allocate_pool :: "'w \<Rightarrow> nat \<Rightarrow> bool"

definition complete_irp :: "irp \<Rightarrow> ntstatus \<Rightarrow> nat \<Rightarrow> irp" where
  "complete_irp irp status information = irp\<lparr>irp_status := status, irp_information := information\<rparr>"

definition STATUS_ACCESS_DENIED :: ntstatus where "STATUS_ACCESS_DENIED = 0xC0000022"
definition STATUS_CANCELLED :: ntstatus where "STATUS_CANCELLED = 0xC0000120"
definition IOCTL_DISK_GET_PARTITION_INFO :: u32 where "IOCTL_DISK_GET_PARTITION_INFO = 0x00074004"


section \<open>The queue of the volume thread and the device extension\<close>

record irp_entry =
  ie_irp :: irp
  ie_is_write :: bool

text \<open>\<open>vt_thread\<close>: the system thread was created; \<open>vt_wake\<close>: the event is signalled.\<close>

record vthread =
  vt_queue :: "irp_entry list"
  vt_current :: nat
  vt_wake :: bool
  vt_shutdown :: bool
  vt_thread :: bool

definition DEVICE_KIND_CONTROL :: u32 where "DEVICE_KIND_CONTROL = 0"
definition DEVICE_KIND_FILTER :: u32 where "DEVICE_KIND_FILTER = 1"

record device_extension =
  de_kind :: u32
  de_lower_device :: device
  de_volume :: "nat option"
  de_vthread :: "vthread option"

definition vt_signal :: "vthread \<Rightarrow> vthread" where
  "vt_signal vt = vt\<lparr>vt_wake := True\<rparr>"

definition enqueue :: "vthread \<Rightarrow> irp \<Rightarrow> bool \<Rightarrow> ntstatus \<times> irp \<times> vthread" where
  "enqueue vt irp is_write =
     (if vt_shutdown vt then (STATUS_CANCELLED, complete_irp irp STATUS_CANCELLED 0, vt)
      else let irp1 = irp\<lparr>irp_pending := True\<rparr>
           in (STATUS_PENDING, irp1,
               vt_signal (vt\<lparr>vt_queue := vt_queue vt @ [\<lparr>ie_irp = irp1, ie_is_write = is_write\<rparr>]\<rparr>)))"


section \<open>Interception\<close>

definition size_field_offset :: "u32 \<Rightarrow> nat option" where
  "size_field_offset code =
     (if code = IOCTL_DISK_GET_LENGTH_INFO then Some 0
      else if code = IOCTL_DISK_GET_PARTITION_INFO then Some 8
      else if code = IOCTL_DISK_GET_PARTITION_INFO_EX then Some 16
      else None)"

definition saturating_mul :: "u64 \<Rightarrow> u64 \<Rightarrow> u64" where
  "saturating_mul a b = (if unat a * unat b < 2 ^ 64 then a * b else - 1)"

text \<open>What happened to an IRP: passed down (and completed below, our completion routine
  included), completed here, queued for the volume thread, or passed down to start the device.\<close>

datatype filter_outcome = Forwarded irp | Completed irp | Queued irp | Started irp

definition pass_through ::
    "'w io_manager \<Rightarrow> device \<Rightarrow> irp \<Rightarrow> 'w \<Rightarrow> ntstatus \<times> filter_outcome \<times> 'w" where
  "pass_through IM lower irp w = (let (s, irp1, w1) = im_call_driver IM w lower irp in (s, Forwarded irp1, w1))"

definition size_ioctl_completion :: "u64 \<Rightarrow> irp \<Rightarrow> irp" where
  "size_ioctl_completion data_bytes irp =
     (if nt_success (irp_status irp) then
        (case size_field_offset (irp_ioctl_code irp) of
           None \<Rightarrow> irp
         | Some field_off \<Rightarrow>
             (case irp_system_buffer irp of
                None \<Rightarrow> irp
              | Some sysbuf \<Rightarrow>
                  if irp_information irp \<ge> field_off + 8
                  then irp\<lparr>irp_system_buffer := Some (buf_write field_off (le_bytes 8 data_bytes) sysbuf)\<rparr>
                  else irp))
      else irp)"

definition intercept_size_ioctl ::
    "'w io_manager \<Rightarrow> 'w attached_volume \<Rightarrow> device \<Rightarrow> irp \<Rightarrow> 'w \<Rightarrow> ntstatus \<times> filter_outcome \<times> 'w" where
  "intercept_size_ioctl IM volume lower irp w =
     (if \<not> im_allocate_pool IM w 8 then pass_through IM lower irp w
      else let data_bytes = saturating_mul (data_sectors volume) (ucast (av_sector_size volume));
               (s, irp1, w1) = im_call_driver IM w lower irp
           in (s, Forwarded (size_ioctl_completion data_bytes irp1), w1))"

definition handle_filter_pnp ::
    "'w io_manager \<Rightarrow> device \<Rightarrow> irp \<Rightarrow> 'w \<Rightarrow> ntstatus \<times> filter_outcome \<times> 'w" where
  "handle_filter_pnp IM lower irp w =
     (if \<not> irp_minor_start irp then pass_through IM lower irp w
      else let (s, irp1, w1) = im_call_driver IM w lower irp in (s, Started irp1, w1))"

definition data_relative :: "'w attached_volume \<Rightarrow> u64 \<Rightarrow> u64 option" where
  "data_relative volume abs_lba =
     (if abs_lba < av_offset_sector volume then None
      else let rel = abs_lba - av_offset_sector volume
           in if rel < data_sectors volume then Some rel else None)"

definition is_metadata_sector :: "'w attached_volume \<Rightarrow> u64 \<Rightarrow> u64 \<Rightarrow> bool" where
  "is_metadata_sector volume byte_offset sector_size =
     (if sector_size = 0 then False else data_relative volume (byte_offset div sector_size) = None)"

definition shift_offset :: "'w attached_volume \<Rightarrow> irp \<Rightarrow> irp" where
  "shift_offset volume irp =
     (let shift = saturating_mul (av_offset_sector volume) (ucast (av_sector_size volume))
      in if shift = 0 then irp else irp\<lparr>irp_byte_offset := irp_byte_offset irp + shift\<rparr>)"

text \<open>The \<open>IRP_MJ_READ\<close> and \<open>IRP_MJ_WRITE\<close> arms.\<close>

definition filter_transfer ::
    "'w io_manager \<Rightarrow> 'w attached_volume \<Rightarrow> device_extension \<Rightarrow> irp \<Rightarrow> bool \<Rightarrow> 'w
      \<Rightarrow> ntstatus \<times> filter_outcome \<times> device_extension \<times> 'w" where
  "filter_transfer IM volume ext irp is_write w =
     (let irp1 = shift_offset volume irp
      in if is_metadata_sector volume (irp_byte_offset irp1) (ucast (av_sector_size volume)) \<and> irp_requestor_mode irp1 \<noteq> 0
         then (STATUS_ACCESS_DENIED, Completed (complete_irp irp1 STATUS_ACCESS_DENIED 0), ext, w)
         else (case de_vthread ext of
                 Some vt \<Rightarrow>
                   let (s, irp2, vt1) = enqueue vt irp1 is_write
                   in (s, if s = STATUS_PENDING then Queued irp2 else Completed irp2, ext\<lparr>de_vthread := Some vt1\<rparr>, w)
               | None \<Rightarrow>
                   let (s, out, w1) = pass_through IM (de_lower_device ext) irp1 w in (s, out, ext, w1)))"

definition handle_filter_irp ::
    "'w io_manager \<Rightarrow> 'w vol_heap \<Rightarrow> device_extension \<Rightarrow> irp \<Rightarrow> 'w
      \<Rightarrow> ntstatus \<times> filter_outcome \<times> device_extension \<times> 'w" where
  "handle_filter_irp IM h ext irp w =
     (let lower = de_lower_device ext;
          keep = (\<lambda>(s, out, w1). (s, out, ext, w1))
      in if irp_major irp = MJ_PNP then keep (handle_filter_pnp IM lower irp w)
         else (case de_volume ext of
                 None \<Rightarrow> keep (pass_through IM lower irp w)
               | Some v \<Rightarrow>
                   (case irp_major irp of
                      MJ_READ \<Rightarrow> filter_transfer IM (h ! v) ext irp False w
                    | MJ_WRITE \<Rightarrow> filter_transfer IM (h ! v) ext irp True w
                    | MJ_DEVICE_CONTROL \<Rightarrow>
                        if size_field_offset (irp_ioctl_code irp) \<noteq> None
                        then keep (intercept_size_ioctl IM (h ! v) lower irp w)
                        else keep (pass_through IM lower irp w)
                    | _ \<Rightarrow> keep (pass_through IM lower irp w))))"


section \<open>Positions\<close>

lemma saturating_mul_exact: "unat a * unat b < 2 ^ 64 \<Longrightarrow> unat (saturating_mul a b) = unat a * unat b"
  by (simp add: saturating_mul_def unat_word_ariths)

lemma data_relative_iff:
  "data_relative v lba = Some rel \<longleftrightarrow>
     unat (av_offset_sector v) \<le> unat lba \<and> unat lba < unat (av_offset_sector v) + unat (data_sectors v) \<and>
     unat rel = unat lba - unat (av_offset_sector v)"
  by (auto simp: data_relative_def Let_def word_less_unat not_less unat_sub_no_wrap word_le_unat word_unat_eq_iff)

lemma data_relative_None_iff:
  "data_relative v lba = None \<longleftrightarrow>
     unat lba < unat (av_offset_sector v) \<or> unat (av_offset_sector v) + unat (data_sectors v) \<le> unat lba"
  by (auto simp: data_relative_def Let_def word_less_unat not_less unat_sub_no_wrap word_le_unat)

text \<open>The sector of the volume a request of the OS addresses, and where it lies on the device.\<close>

definition os_sector :: "'w attached_volume \<Rightarrow> irp \<Rightarrow> nat" where
  "os_sector v irp = unat (irp_byte_offset irp) div unat (av_sector_size v)"

lemma shift_offset_unat:
  assumes "unat (irp_byte_offset irp) + unat (av_offset_sector v) * unat (av_sector_size v) < 2 ^ 64"
  shows "unat (irp_byte_offset (shift_offset v irp)) =
    unat (irp_byte_offset irp) + unat (av_offset_sector v) * unat (av_sector_size v)"
proof -
  have s: "unat (saturating_mul (av_offset_sector v) (ucast (av_sector_size v))) =
      unat (av_offset_sector v) * unat (av_sector_size v)"
    using assms saturating_mul_exact [of "av_offset_sector v" "ucast (av_sector_size v)"] by simp
  have z: "unat (av_offset_sector v) * unat (av_sector_size v) = 0"
    if "saturating_mul (av_offset_sector v) (ucast (av_sector_size v)) = 0"
    using s that by (metis unat_0)
  show ?thesis
  proof (cases "saturating_mul (av_offset_sector v) (ucast (av_sector_size v)) = 0")
    case True
    then show ?thesis
      using z [OF True] by (simp add: shift_offset_def)
  next
    case False
    then show ?thesis
      using s assms by (simp add: shift_offset_def unat_add_no_wrap)
  qed
qed

lemma shift_offset_fields [simp]:
  "irp_requestor_mode (shift_offset v irp) = irp_requestor_mode irp"
  "irp_length (shift_offset v irp) = irp_length irp" "irp_mdl (shift_offset v irp) = irp_mdl irp"
  "irp_cancel (shift_offset v irp) = irp_cancel irp"
  by (simp_all add: shift_offset_def Let_def)

lemma shifted_sector:
  fixes v :: "'w attached_volume"
  assumes "unat (irp_byte_offset irp) + unat (av_offset_sector v) * unat (av_sector_size v) < 2 ^ 64"
    "0 < unat (av_sector_size v)"
  shows "unat (irp_byte_offset (shift_offset v irp) div ucast (av_sector_size v)) =
    unat (av_offset_sector v) + os_sector v irp"
proof -
  have "unat (irp_byte_offset (shift_offset v irp) div ucast (av_sector_size v)) =
      (unat (irp_byte_offset irp) + unat (av_offset_sector v) * unat (av_sector_size v)) div unat (av_sector_size v)"
    by (simp add: unat_div shift_offset_unat [OF assms(1)])
  then show ?thesis
    using assms(2) by (simp add: os_sector_def add.commute)
qed

lemma metadata_sector_iff:
  assumes "unat (irp_byte_offset irp) + unat (av_offset_sector v) * unat (av_sector_size v) < 2 ^ 64"
    "0 < unat (av_sector_size v)"
  shows "is_metadata_sector v (irp_byte_offset (shift_offset v irp)) (ucast (av_sector_size v)) \<longleftrightarrow>
    unat (data_sectors v) \<le> os_sector v irp"
proof -
  have "unat (ucast (av_sector_size v) :: u64) \<noteq> 0"
    using assms(2) by simp
  then have "ucast (av_sector_size v) \<noteq> (0 :: u64)"
    by (metis unat_0)
  then show ?thesis
    using shifted_sector [OF assms] by (simp add: is_metadata_sector_def data_relative_None_iff)
qed

lemma handle_filter_transfer:
  assumes "de_volume ext = Some v" "irp_major irp = (if wr then MJ_WRITE else MJ_READ)"
  shows "handle_filter_irp IM h ext irp w = filter_transfer IM (h ! v) ext irp wr w"
  using assms by (cases wr) (simp_all add: handle_filter_irp_def)

lemma filter_transfer_queues:
  assumes "de_vthread ext = Some vt" "\<not> vt_shutdown vt"
    "irp_requestor_mode irp = 0 \<or>
     \<not> is_metadata_sector v (irp_byte_offset (shift_offset v irp)) (ucast (av_sector_size v))"
  shows "filter_transfer IM v ext irp wr w =
    (let irp1 = (shift_offset v irp)\<lparr>irp_pending := True\<rparr>
     in (STATUS_PENDING, Queued irp1,
         ext\<lparr>de_vthread := Some (vt\<lparr>vt_queue := vt_queue vt @ [\<lparr>ie_irp = irp1, ie_is_write = wr\<rparr>], vt_wake := True\<rparr>)\<rparr>, w))"
  using assms by (auto simp: filter_transfer_def enqueue_def vt_signal_def Let_def)


section \<open>Witness data\<close>

definition toy_vt :: vthread where
  "toy_vt = \<lparr>vt_queue = [], vt_current = 0, vt_wake = False, vt_shutdown = False, vt_thread = True\<rparr>"

abbreviation toy_world :: "jvck_cells \<times> (nat \<Rightarrow> byte)" where
  "toy_world \<equiv> (toy_cells, \<lambda>a. 0)"

definition toy_ext :: device_extension where
  "toy_ext = \<lparr>de_kind = DEVICE_KIND_FILTER, de_lower_device = 1, de_volume = Some 0, de_vthread = Some toy_vt\<rparr>"

definition toy_irp :: "irp_major_function \<Rightarrow> u64 \<Rightarrow> u32 \<Rightarrow> irp" where
  "toy_irp mj off len =
     \<lparr>irp_major = mj, irp_minor_start = False, irp_requestor_mode = 1, irp_byte_offset = off, irp_length = len,
      irp_ioctl_code = IOCTL_DISK_GET_LENGTH_INFO, irp_system_buffer = Some (replicate 8 0), irp_mdl = Some (replicate (unat len) 7),
      irp_cancel = False, irp_pending = False, irp_status = 0, irp_information = 0,
      irp_has_stack = True, irp_input_length = 0, irp_output_length = 0, irp_process = 0\<rparr>"

definition toy_im :: "'w io_manager" where
  "toy_im = \<lparr>im_call_driver = (\<lambda>w d irp. (STATUS_SUCCESS, complete_irp irp STATUS_SUCCESS 8, w)),
     im_allocate_pool = (\<lambda>w n. True)\<rparr>"

lemma toy_volume_fields [simp]:
  "av_offset_sector (toy_volume rng b s) = 0" "av_sector_size (toy_volume rng b s) = 512"
  "data_sectors (toy_volume rng b s) = 88"
  by (simp_all add: toy_volume_def av_offset_sector_def ic_offset_sector_def data_sectors_def)


section \<open>Properties\<close>

text \<open>C16: what a user-mode transfer can reach.  Sector numbers of the OS start at the data
  region: a user-mode read or write whose first sector is past the region is refused without touching
  the device or the queue; any other is appended to the queue of the volume thread, addressed to the
  sector of the data region with the same number.\<close>

theorem user_transfer_confined:
  assumes "de_volume ext = Some v" "irp_major irp = (if wr then MJ_WRITE else MJ_READ)" "irp_requestor_mode irp \<noteq> 0"
    "de_vthread ext = Some vt" "\<not> vt_shutdown vt" "0 < unat (av_sector_size (h ! v))"
    "unat (irp_byte_offset irp) + unat (av_offset_sector (h ! v)) * unat (av_sector_size (h ! v)) < 2 ^ 64"
  shows "if unat (data_sectors (h ! v)) \<le> os_sector (h ! v) irp
    then \<exists>irp'. handle_filter_irp IM h ext irp w = (STATUS_ACCESS_DENIED, Completed irp', ext, w) \<and>
      irp_status irp' = STATUS_ACCESS_DENIED \<and> irp_information irp' = 0 \<and> irp_mdl irp' = irp_mdl irp
    else \<exists>irp'. handle_filter_irp IM h ext irp w =
        (STATUS_PENDING, Queued irp', ext\<lparr>de_vthread := Some (vt\<lparr>vt_queue := vt_queue vt @
           [\<lparr>ie_irp = irp', ie_is_write = wr\<rparr>], vt_wake := True\<rparr>)\<rparr>, w) \<and>
      data_relative (h ! v) (irp_byte_offset irp' div ucast (av_sector_size (h ! v))) =
        Some (of_nat (os_sector (h ! v) irp)) \<and>
      irp_length irp' = irp_length irp \<and> irp_mdl irp' = irp_mdl irp"
proof -
  note meta = metadata_sector_iff [OF assms(7,6)] and sec = shifted_sector [OF assms(7,6)]
  have run: "handle_filter_irp IM h ext irp w = filter_transfer IM (h ! v) ext irp wr w"
    by (rule handle_filter_transfer [OF assms(1,2)])
  show ?thesis
  proof (cases "unat (data_sectors (h ! v)) \<le> os_sector (h ! v) irp")
    case True
    then show ?thesis
      using meta run assms(3) by (simp add: filter_transfer_def complete_irp_def)
  next
    case False
    then have "data_relative (h ! v) (irp_byte_offset (shift_offset (h ! v) irp) div ucast (av_sector_size (h ! v))) =
        Some (of_nat (os_sector (h ! v) irp))"
      using sec u64_lt [of "data_sectors (h ! v)"] by (simp add: data_relative_iff unat_of_nat_less)
    then show ?thesis
      using False meta run filter_transfer_queues [OF assms(4,5), of irp "h ! v" IM wr w]
      by (simp add: Let_def)
  qed
qed

theorem user_transfer_confined_witness:
  "fst (handle_filter_irp toy_im [toy_volume const_rng 40 Idle] toy_ext (toy_irp MJ_READ 45056 512) toy_world) = STATUS_ACCESS_DENIED \<and>
   fst (handle_filter_irp toy_im [toy_volume const_rng 40 Idle] toy_ext (toy_irp MJ_WRITE 44544 512) toy_world) = STATUS_PENDING"
  using user_transfer_confined [of toy_ext 0 "toy_irp MJ_READ 45056 512" False toy_vt "[toy_volume const_rng 40 Idle]" toy_im toy_world]
    user_transfer_confined [of toy_ext 0 "toy_irp MJ_WRITE 44544 512" True toy_vt "[toy_volume const_rng 40 Idle]" toy_im toy_world]
  by (auto simp: toy_ext_def toy_irp_def toy_vt_def os_sector_def)

text \<open>The check looks at the first sector only.  A user-mode request that starts inside the
  data region is accepted whatever its length, also when it runs over the end of the region into the
  metadata behind it.\<close>

theorem crossing_request_accepted:
  assumes "de_volume ext = Some v" "irp_major irp = (if wr then MJ_WRITE else MJ_READ)"
    "de_vthread ext = Some vt" "\<not> vt_shutdown vt" "0 < unat (av_sector_size (h ! v))"
    "unat (irp_byte_offset irp) + unat (av_offset_sector (h ! v)) * unat (av_sector_size (h ! v)) < 2 ^ 64"
    "os_sector (h ! v) irp < unat (data_sectors (h ! v))"
  shows "\<exists>irp'. handle_filter_irp IM h ext (irp\<lparr>irp_length := n\<rparr>) w =
      (STATUS_PENDING, Queued irp', ext\<lparr>de_vthread := Some (vt\<lparr>vt_queue := vt_queue vt @
         [\<lparr>ie_irp = irp', ie_is_write = wr\<rparr>], vt_wake := True\<rparr>)\<rparr>, w) \<and> irp_length irp' = n"
proof -
  let ?irp = "irp\<lparr>irp_length := n\<rparr>"
  have maj: "irp_major ?irp = (if wr then MJ_WRITE else MJ_READ)"
    using assms(2) by simp
  have run: "handle_filter_irp IM h ext ?irp w = filter_transfer IM (h ! v) ext ?irp wr w"
    by (rule handle_filter_transfer [OF assms(1) maj])
  have "\<not> is_metadata_sector (h ! v) (irp_byte_offset (shift_offset (h ! v) ?irp)) (ucast (av_sector_size (h ! v)))"
    using metadata_sector_iff [of ?irp "h ! v"] assms(5-7) by (simp add: os_sector_def)
  then show ?thesis
    using run filter_transfer_queues [OF assms(3,4), of ?irp "h ! v" IM wr w]
    by (simp add: Let_def)
qed

theorem crossing_request_accepted_witness:
  "fst (handle_filter_irp toy_im [toy_volume const_rng 40 Idle] toy_ext (toy_irp MJ_WRITE 44544 512\<lparr>irp_length := 1048576\<rparr>) toy_world) =
     STATUS_PENDING"
  using crossing_request_accepted [of toy_ext 0 "toy_irp MJ_WRITE 44544 512" True toy_vt "[toy_volume const_rng 40 Idle]" toy_im 1048576 toy_world]
  by (auto simp: toy_ext_def toy_irp_def toy_vt_def os_sector_def)

text \<open>C23: the size the OS sees.  When the device answers a size query successfully and delivers
  the field, the filter replaces it by the size of the data region in bytes and changes no other byte
  of the answer; a failed or shorter answer is passed on as it is.\<close>

theorem size_query_hides_metadata:
  assumes "de_volume ext = Some v" "irp_major irp = MJ_DEVICE_CONTROL"
    "size_field_offset (irp_ioctl_code irp) = Some field" "im_allocate_pool IM w 8"
    "im_call_driver IM w (de_lower_device ext) irp = (s, irp1, w1)" "irp_ioctl_code irp1 = irp_ioctl_code irp"
    "irp_system_buffer irp1 = Some sysbuf" "irp_information irp1 \<le> length sysbuf"
    "unat (data_sectors (h ! v)) * unat (av_sector_size (h ! v)) < 2 ^ 64"
  shows "\<exists>sysbuf'. handle_filter_irp IM h ext irp w = (s, Forwarded (irp1\<lparr>irp_system_buffer := Some sysbuf'\<rparr>), ext, w1) \<and>
    (if nt_success (irp_status irp1) \<and> field + 8 \<le> irp_information irp1
     then length sysbuf' = length sysbuf \<and> take field sysbuf' = take field sysbuf \<and>
       drop (field + 8) sysbuf' = drop (field + 8) sysbuf \<and>
       unat (of_le_bytes (buf_slice field (field + 8) sysbuf') :: u64) =
         unat (data_sectors (h ! v)) * unat (av_sector_size (h ! v))
     else sysbuf' = sysbuf)"
proof -
  let ?n = "saturating_mul (data_sectors (h ! v)) (ucast (av_sector_size (h ! v)))"
  let ?buf = "buf_write field (le_bytes 8 ?n) sysbuf"
  have run: "handle_filter_irp IM h ext irp w = (s, Forwarded (size_ioctl_completion ?n irp1), ext, w1)"
    using assms(1-5) by (simp add: handle_filter_irp_def intercept_size_ioctl_def)
  show ?thesis
  proof (cases "nt_success (irp_status irp1) \<and> field + 8 \<le> irp_information irp1")
    case True
    then have le: "field + 8 \<le> length sysbuf"
      using assms(8) by simp
    have "buf_slice field (field + 8) ?buf = le_bytes 8 ?n"
      using slice_write_same [of field "le_bytes 8 ?n" sysbuf] le by simp
    then have "unat (of_le_bytes (buf_slice field (field + 8) ?buf) :: u64) =
        unat (data_sectors (h ! v)) * unat (av_sector_size (h ! v))"
      using saturating_mul_exact [of "data_sectors (h ! v)" "ucast (av_sector_size (h ! v))"] assms(9) by simp
    moreover have "take field ?buf = take field sysbuf" "drop (field + 8) ?buf = drop (field + 8) sysbuf" "length ?buf = length sysbuf"
      using le by (simp_all add: buf_write_def)
    ultimately show ?thesis
      using run True assms(3,6,7) by (intro exI [of _ ?buf]) (simp add: size_ioctl_completion_def)
  next
    case False
    have "irp1\<lparr>irp_system_buffer := Some sysbuf\<rparr> = irp1"
      using assms(7) by simp
    then show ?thesis
      using run False assms(3,6,7) by (auto simp: size_ioctl_completion_def)
  qed
qed

theorem size_query_hides_metadata_witness:
  "\<exists>sysbuf'. handle_filter_irp toy_im [toy_volume const_rng 40 Idle] toy_ext (toy_irp MJ_DEVICE_CONTROL 0 0) toy_world =
     (STATUS_SUCCESS, Forwarded ((complete_irp (toy_irp MJ_DEVICE_CONTROL 0 0) STATUS_SUCCESS 8)\<lparr>irp_system_buffer := Some sysbuf'\<rparr>),
      toy_ext, toy_world) \<and> unat (of_le_bytes (buf_slice 0 8 sysbuf') :: u64) = 88 * 512"
  using size_query_hides_metadata [of toy_ext 0 "toy_irp MJ_DEVICE_CONTROL 0 0" 0 toy_im toy_world STATUS_SUCCESS
      "complete_irp (toy_irp MJ_DEVICE_CONTROL 0 0) STATUS_SUCCESS 8" toy_world "replicate 8 0" "[toy_volume const_rng 40 Idle]"]
  by (auto simp: toy_ext_def toy_irp_def toy_im_def size_field_offset_def complete_irp_def)

end
