(* ===== verification/Volume_Thread.thy ===== *)
theory Volume_Thread
  imports Filter_Io
begin

text \<open>
  The per-volume I/O and sweep thread (\<open>lib/windrv/src/filter/volume_thread.rs\<close>).

  One system thread serves the queued reads and writes of a volume in bursts and runs one batch of
  the background sweep between bursts.  The functions below are the code; \<open>vt_run\<close> is the
  thread as a transition system, one transition per served request, sweep batch, control command
  or enqueued request, in any order.  The main result is a refinement: whatever the interleaving, the
  completed requests are exactly those a plain disk could have produced, serving them one by one
  in the order they were queued.
\<close>


section \<open>Thread life cycle\<close>

definition BATCH_SECTORS :: u64 where "BATCH_SECTORS = 2048"
definition MAX_IRP_BURST :: nat where "MAX_IRP_BURST = 64"

text \<open>\<open>VolumeThread::start\<close>; the flag says whether \<open>PsCreateSystemThread\<close> succeeded.\<close>

definition vt_start :: "bool \<Rightarrow> nat \<Rightarrow> vthread" where
  "vt_start created volume =
     \<lparr>vt_queue = [], vt_current = volume, vt_wake = False, vt_shutdown = False, vt_thread = created\<rparr>"

definition set_current :: "nat \<Rightarrow> vthread \<Rightarrow> vthread" where
  "set_current volume vt = vt_signal (vt\<lparr>vt_current := volume\<rparr>)"

text \<open>The drain at the end of \<open>thread_main\<close>, and of \<open>Drop\<close>.\<close>

definition drain_cancelled :: "irp_entry list \<Rightarrow> irp list" where
  "drain_cancelled q = map (\<lambda>ep. complete_irp (ie_irp ep) STATUS_CANCELLED 0) q"

text \<open>\<open>stop\<close> raises the flag and waits for the thread to leave its loop and drain the queue;
  dropping the box drains what a thread that never ran left behind.\<close>

definition vt_stop :: "vthread \<Rightarrow> irp list \<times> vthread" where
  "vt_stop vt =
     (let vt1 = vt_signal (vt\<lparr>vt_shutdown := True\<rparr>)
      in if vt_thread vt1 then (drain_cancelled (vt_queue vt1), vt1\<lparr>vt_queue := []\<rparr>) else ([], vt1))"

definition vt_drop :: "vthread \<Rightarrow> irp list" where
  "vt_drop vt = drain_cancelled (vt_queue vt)"

definition bind_volume :: "'w vol_heap \<Rightarrow> bool \<Rightarrow> device_extension \<Rightarrow> nat \<Rightarrow> device_extension" where
  "bind_volume h created ext volume =
     (case de_vthread ext of
        Some vt \<Rightarrow> ext\<lparr>de_vthread := Some (set_current volume vt)\<rparr>
      | None \<Rightarrow>
          if av_cipher_supplier (h ! volume) \<noteq> None then ext\<lparr>de_vthread := Some (vt_start created volume)\<rparr> else ext)"

definition claim_cancelled :: "irp \<Rightarrow> bool" where
  "claim_cancelled irp = irp_cancel irp"


section \<open>Serving one request\<close>

definition crypto_range :: "'w attached_volume \<Rightarrow> u64 \<Rightarrow> (u64 \<times> u64) option" where
  "crypto_range volume first_lba =
     (case data_relative volume first_lba of
        None \<Rightarrow> None
      | Some first_rel \<Rightarrow>
          let boundary = av_encrypted_boundary volume
          in if boundary > 0 \<and> first_rel < boundary then Some (first_rel, boundary) else None)"

definition get_pipeline :: "volume_cipher option \<Rightarrow> 'w attached_volume \<Rightarrow> volume_cipher option" where
  "get_pipeline burst_cipher vol =
     (case burst_cipher of
        None \<Rightarrow> (case av_cipher_supplier vol of Some supplier \<Rightarrow> supplier () | None \<Rightarrow> None)
      | Some c \<Rightarrow> Some c)"

text \<open>Passing a buffer through the pipeline, when the range needs it.\<close>

definition with_pipeline ::
    "(volume_cipher \<Rightarrow> u64 \<Rightarrow> u64 \<Rightarrow> bytes \<Rightarrow> nat \<Rightarrow> bytes) \<Rightarrow> 'w attached_volume \<Rightarrow> volume_cipher option \<Rightarrow> u64 \<Rightarrow> bytes
      \<Rightarrow> bytes \<times> volume_cipher option" where
  "with_pipeline f volume burst_cipher first_lba buf =
     (case crypto_range volume first_lba of
        None \<Rightarrow> (buf, burst_cipher)
      | Some (first_rel, boundary) \<Rightarrow>
          (case get_pipeline burst_cipher volume of
             None \<Rightarrow> (buf, None)
           | Some c \<Rightarrow> (f c first_rel boundary buf (unat (av_sector_size volume)), Some c)))"

definition process_read ::
    "'w io_manager \<Rightarrow> irp \<Rightarrow> 'w attached_volume \<Rightarrow> volume_cipher option \<Rightarrow> 'w \<Rightarrow> irp \<times> volume_cipher option \<times> 'w" where
  "process_read IM irp volume burst_cipher w =
     (let len = unat (irp_length irp);
          sector_size = unat (av_sector_size volume)
      in if sector_size = 0 \<or> len = 0 then (complete_irp irp STATUS_SUCCESS 0, burst_cipher, w)
         else let first_lba = irp_byte_offset irp div ucast (av_sector_size volume);
                  sector_count = len div sector_size
              in if sector_count = 0 then (complete_irp irp STATUS_SUCCESS 0, burst_cipher, w)
                 else let io_len = sector_count * sector_size
                      in (case irp_mdl irp of
                            None \<Rightarrow> (complete_irp irp STATUS_UNSUCCESSFUL 0, burst_cipher, w)
                          | Some dst \<Rightarrow>
                              if \<not> im_allocate_pool IM w io_len
                              then (complete_irp irp STATUS_UNSUCCESSFUL 0, burst_cipher, w)
                              else (case sio_read_sectors (av_sweep_io volume) w first_lba io_len of
                                      Inl _ \<Rightarrow> (complete_irp irp STATUS_UNSUCCESSFUL 0, burst_cipher, w)
                                    | Inr frag \<Rightarrow>
                                        let (frag1, bc1) = with_pipeline decrypt_read volume burst_cipher first_lba frag
                                        in (complete_irp (irp\<lparr>irp_mdl := Some (buf_write 0 frag1 dst)\<rparr>) STATUS_SUCCESS io_len,
                                            bc1, w))))"

definition process_write ::
    "'w io_manager \<Rightarrow> irp \<Rightarrow> 'w attached_volume \<Rightarrow> volume_cipher option \<Rightarrow> 'w \<Rightarrow> irp \<times> volume_cipher option \<times> 'w" where
  "process_write IM irp volume burst_cipher w =
     (let len = unat (irp_length irp);
          sector_size = unat (av_sector_size volume)
      in if sector_size = 0 \<or> len = 0 then (complete_irp irp STATUS_SUCCESS 0, burst_cipher, w)
         else let first_lba = irp_byte_offset irp div ucast (av_sector_size volume);
                  sector_count = len div sector_size
              in if sector_count = 0 then (complete_irp irp STATUS_SUCCESS 0, burst_cipher, w)
                 else let io_len = sector_count * sector_size
                      in (case irp_mdl irp of
                            None \<Rightarrow> (complete_irp irp STATUS_UNSUCCESSFUL 0, burst_cipher, w)
                          | Some src \<Rightarrow>
                              if \<not> im_allocate_pool IM w io_len
                              then (complete_irp irp STATUS_UNSUCCESSFUL 0, burst_cipher, w)
                              else let (frag, bc1) = with_pipeline encrypt_write volume burst_cipher first_lba (take io_len src)
                                   in (case sio_write_sectors (av_sweep_io volume) w first_lba frag of
                                         (Inl _, w1) \<Rightarrow> (complete_irp irp STATUS_UNSUCCESSFUL 0, bc1, w1)
                                       | (Inr _, w1) \<Rightarrow> (complete_irp irp STATUS_SUCCESS io_len, bc1, w1))))"

definition process_irp ::
    "'w io_manager \<Rightarrow> 'w attached_volume \<Rightarrow> irp_entry \<Rightarrow> volume_cipher option \<Rightarrow> 'w \<Rightarrow> irp \<times> volume_cipher option \<times> 'w" where
  "process_irp IM vol ep burst_cipher w =
     (if ie_is_write ep then process_write IM (ie_irp ep) vol burst_cipher w
      else process_read IM (ie_irp ep) vol burst_cipher w)"


section \<open>The main loop\<close>

text \<open>A dequeued request: completed as cancelled, or processed.\<close>

definition serve_entry ::
    "'w io_manager \<Rightarrow> 'w attached_volume \<Rightarrow> irp_entry \<Rightarrow> volume_cipher option \<Rightarrow> 'w \<Rightarrow> irp \<times> volume_cipher option \<times> 'w" where
  "serve_entry IM vol ep burst_cipher w =
     (if claim_cancelled (ie_irp ep) then (complete_irp (ie_irp ep) STATUS_CANCELLED 0, burst_cipher, w)
      else process_irp IM vol ep burst_cipher w)"

text \<open>At most \<open>n\<close> requests; gives the served entries with the completed requests, and the rest
  of the queue.\<close>

primrec irp_burst ::
    "'w io_manager \<Rightarrow> 'w attached_volume \<Rightarrow> nat \<Rightarrow> volume_cipher option \<Rightarrow> irp_entry list \<Rightarrow> 'w
      \<Rightarrow> (irp_entry \<times> irp) list \<times> irp_entry list \<times> volume_cipher option \<times> 'w" where
  "irp_burst IM vol 0 bc q w = ([], q, bc, w)"
| "irp_burst IM vol (Suc n) bc q w =
     (case q of
        [] \<Rightarrow> ([], [], bc, w)
      | ep # q1 \<Rightarrow>
          let (irp1, bc1, w1) = serve_entry IM vol ep bc w;
              (cs, q2, bc2, w2) = irp_burst IM vol n bc1 q1 w1
          in ((ep, irp1) # cs, q2, bc2, w2))"

text \<open>One turn of the loop of \<open>thread_main\<close>: a burst, one sweep batch, and the wait that resets
  the wake event when nothing was done.\<close>

definition thread_iteration ::
    "'w io_manager \<Rightarrow> 'w attached_volume \<Rightarrow> vthread \<Rightarrow> 'w
      \<Rightarrow> (irp_entry \<times> irp) list \<times> bool vck_result \<times> 'w attached_volume \<times> vthread \<times> 'w" where
  "thread_iteration IM vol vt w =
     (let (cs, q, _, w1) = irp_burst IM vol MAX_IRP_BURST None (vt_queue vt) w;
          (r, vol1, w2) = sweep_step BATCH_SECTORS vol w1;
          did = (cs \<noteq> [] \<or> r = Inr True)
      in (cs, r, vol1, vt\<lparr>vt_queue := q, vt_wake := (if did then vt_wake vt else False)\<rparr>, w2))"


section \<open>The thread as a transition system\<close>

record 'w vt_state =
  ts_vol :: "'w attached_volume"
  ts_vt :: vthread
  ts_cipher :: "volume_cipher option"
  ts_world :: 'w
  ts_accepted :: "irp_entry list"
  ts_done :: "(irp_entry \<times> irp) list"

text \<open>Runs in which no sweep batch fails.  Requests are enqueued by other threads at any time;
  the commands are those of the control interface.\<close>

inductive vt_run ::
    "'w io_manager \<Rightarrow> (irp_entry \<Rightarrow> bool) \<Rightarrow> 'w vt_state \<Rightarrow> 'w vt_state \<Rightarrow> bool" for IM ok s0
where
  run_init: "vt_run IM ok s0 s0"
| run_enqueue: "vt_run IM ok s0 s \<Longrightarrow> enqueue (ts_vt s) irp wr = (STATUS_PENDING, irp1, vt1) \<Longrightarrow>
    ep = \<lparr>ie_irp = irp1, ie_is_write = wr\<rparr> \<Longrightarrow> \<not> vt_shutdown (ts_vt s) \<Longrightarrow> ok ep \<Longrightarrow>
    vt_run IM ok s0 (s\<lparr>ts_vt := vt1, ts_accepted := ts_accepted s @ [ep]\<rparr>)"
| run_serve: "vt_run IM ok s0 s \<Longrightarrow> vt_queue (ts_vt s) = ep # q \<Longrightarrow>
    serve_entry IM (ts_vol s) ep (ts_cipher s) (ts_world s) = (irp1, bc1, w1) \<Longrightarrow>
    vt_run IM ok s0 (s\<lparr>ts_vt := (ts_vt s)\<lparr>vt_queue := q\<rparr>, ts_cipher := bc1, ts_world := w1,
      ts_done := ts_done s @ [(ep, irp1)]\<rparr>)"
| run_sweep: "vt_run IM ok s0 s \<Longrightarrow> sweep_step bsz (ts_vol s) (ts_world s) = (Inr again, v1, w1) \<Longrightarrow>
    vt_run IM ok s0 (s\<lparr>ts_vol := v1, ts_cipher := None, ts_world := w1\<rparr>)"
| run_start_encrypt: "vt_run IM ok s0 s \<Longrightarrow>
    start_encrypt (av_offset_store (ts_vol s)) (av_encryption (ts_vol s)) (ts_world s) = (e1, w1) \<Longrightarrow>
    vt_run IM ok s0 (s\<lparr>ts_vol := (ts_vol s)\<lparr>av_encryption := e1\<rparr>, ts_world := w1\<rparr>)"
| run_start_decrypt: "vt_run IM ok s0 s \<Longrightarrow>
    start_decrypt (av_offset_store (ts_vol s)) (av_encryption (ts_vol s)) (ts_world s) = (e1, w1) \<Longrightarrow>
    vt_run IM ok s0 (s\<lparr>ts_vol := (ts_vol s)\<lparr>av_encryption := e1\<rparr>, ts_world := w1\<rparr>)"
| run_pause: "vt_run IM ok s0 s \<Longrightarrow>
    vt_run IM ok s0 (s\<lparr>ts_vol := (ts_vol s)\<lparr>av_encryption := pause (av_encryption (ts_vol s))\<rparr>\<rparr>)"
| run_resume: "vt_run IM ok s0 s \<Longrightarrow>
    vt_run IM ok s0 (s\<lparr>ts_vol := (ts_vol s)\<lparr>av_encryption :=
      engine_resume (av_offset_store (ts_vol s)) (av_encryption (ts_vol s)) (ts_world s)\<rparr>\<rparr>)"

| run_wake: "vt_run IM ok s0 s \<Longrightarrow> vt_run IM ok s0 (s\<lparr>ts_vt := (ts_vt s)\<lparr>vt_wake := b\<rparr>\<rparr>)"

inductive_cases vt_runE: "vt_run IM ok s0 s"


section \<open>A plain disk serving requests\<close>

text \<open>A queued request lies in the data region of a volume of \<open>tot\<close> sectors that starts at
  \<open>off\<close>, and its buffer has the requested length.\<close>

definition entry_ok :: "nat \<Rightarrow> nat \<Rightarrow> nat \<Rightarrow> irp_entry \<Rightarrow> bool" where
  "entry_ok ss off tot ep \<longleftrightarrow>
     (let irp = ie_irp ep; first = unat (irp_byte_offset irp) div ss; k = unat (irp_length irp) div ss
      in off \<le> first \<and> first + k \<le> off + tot \<and> (\<forall>b. irp_mdl irp = Some b \<longrightarrow> k * ss \<le> length b))"

text \<open>The completed request \<open>irp'\<close> and the new contents are what a disk with the contents
  \<open>pd\<close> gives for the request: the contents for a read, the written run for a write; a request may
  be cancelled or fail, and a failed write may leave anything in its own run.\<close>

definition served :: "nat \<Rightarrow> nat \<Rightarrow> nat \<Rightarrow> (nat \<Rightarrow> bytes) \<Rightarrow> irp_entry \<Rightarrow> irp \<Rightarrow> (nat \<Rightarrow> bytes) \<Rightarrow> bool" where
  "served ss off tot pd ep irp' pd' \<longleftrightarrow>
     (let irp = ie_irp ep; r = unat (irp_byte_offset irp) div ss - off; k = unat (irp_length irp) div ss
      in if irp_cancel irp then irp' = complete_irp irp STATUS_CANCELLED 0 \<and> (\<forall>i < tot. pd' i = pd i)
         else if k = 0 then irp' = complete_irp irp STATUS_SUCCESS 0 \<and> (\<forall>i < tot. pd' i = pd i)
         else if ie_is_write ep then
           (\<exists>src. irp_mdl irp = Some src \<and> irp' = complete_irp irp STATUS_SUCCESS (k * ss) \<and>
              (\<forall>i < tot. pd' i = put_sectors ss r (take (k * ss) src) pd i)) \<or>
           irp' = complete_irp irp STATUS_UNSUCCESSFUL 0 \<and> (\<forall>i < tot. i < r \<or> r + k \<le> i \<longrightarrow> pd' i = pd i)
         else
           ((\<exists>dst. irp_mdl irp = Some dst \<and>
               irp' = complete_irp (irp\<lparr>irp_mdl := Some (buf_write 0 (get_sectors pd r k) dst)\<rparr>) STATUS_SUCCESS (k * ss)) \<or>
            irp' = complete_irp irp STATUS_UNSUCCESSFUL 0) \<and> (\<forall>i < tot. pd' i = pd i))"

inductive plain_run ::
    "nat \<Rightarrow> nat \<Rightarrow> nat \<Rightarrow> (nat \<Rightarrow> bytes) \<Rightarrow> (irp_entry \<times> irp) list \<Rightarrow> (nat \<Rightarrow> bytes) \<Rightarrow> bool" for ss off tot pd0
where
  plain_init: "plain_run ss off tot pd0 [] pd0"
| plain_serve: "plain_run ss off tot pd0 cs pd \<Longrightarrow> served ss off tot pd ep irp' pd' \<Longrightarrow>
    plain_run ss off tot pd0 (cs @ [(ep, irp')]) pd'"
| plain_same: "plain_run ss off tot pd0 cs pd \<Longrightarrow> \<forall>i < tot. pd' i = pd i \<Longrightarrow> plain_run ss off tot pd0 cs pd'"

lemma get_sectors_shift: "get_sectors f (a + r) k = get_sectors (\<lambda>i. f (a + i)) r k"
proof -
  have "[a + r..<a + r + k] = map (\<lambda>i. a + i) [r..<r + k]"
    by (rule nth_equalityI) simp_all
  then show ?thesis
    by (simp add: get_sectors_def comp_def)
qed

lemma put_sectors_shift: "put_sectors ss (a + r) bs f (a + i) = put_sectors ss r bs (\<lambda>j. f (a + j)) i"
  by (auto simp: put_sectors_def)

lemma pipeline_no_span:
  "b \<le> first \<Longrightarrow> decrypt_read c first b buf ss = buf" "b \<le> first \<Longrightarrow> encrypt_write c first b buf ss = buf"
  by (simp_all add: decrypt_read_def encrypt_write_def crypto_span_def)

definition burst_cipher_ok :: "volume_cipher \<Rightarrow> volume_cipher option \<Rightarrow> bool" where
  "burst_cipher_ok c bc \<longleftrightarrow> bc = None \<or> bc = Some c"

lemma with_pipeline_eq:
  assumes "vol_ok io c store cap md v" "burst_cipher_ok c bc" "data_relative v lba = Some rel"
    "av_encrypted_boundary v \<le> rel \<Longrightarrow> f c rel (av_encrypted_boundary v) buf (unat (av_sector_size v)) = buf"
  shows "fst (with_pipeline f v bc lba buf) = f c rel (av_encrypted_boundary v) buf (unat (av_sector_size v))"
    "burst_cipher_ok c (snd (with_pipeline f v bc lba buf))"
proof -
  have p: "get_pipeline bc v = Some c"
    using assms(1,2) by (auto simp: get_pipeline_def vol_ok_def burst_cipher_ok_def)
  show "fst (with_pipeline f v bc lba buf) = f c rel (av_encrypted_boundary v) buf (unat (av_sector_size v))"
  proof (cases "rel < av_encrypted_boundary v")
    case True
    then have "0 < av_encrypted_boundary v"
      by (metis word_gt_0 word_not_simps(1))
    then show ?thesis
      using True p assms(3) by (simp add: with_pipeline_def crypto_range_def)
  next
    case False
    then show ?thesis
      using assms(3,4) by (simp add: with_pipeline_def crypto_range_def)
  qed
  show "burst_cipher_ok c (snd (with_pipeline f v bc lba buf))"
    using p assms(2) by (auto simp: with_pipeline_def burst_cipher_ok_def split: option.splits)
qed


context sweep_env
begin

text \<open>The run of sectors of a request, on the device and in the data region.\<close>

lemma request_position:
  assumes "invar w" "vok v" "entry_ok ss (unat (av_offset_sector v)) (unat (data_sectors v)) ep"
    "k = unat (irp_length (ie_irp ep)) div ss" "0 < k"
  obtains r where "r = unat (irp_byte_offset (ie_irp ep)) div ss - unat (av_offset_sector v)"
    "unat (irp_byte_offset (ie_irp ep) div ucast (av_sector_size v)) = unat (av_offset_sector v) + r"
    "data_relative v (irp_byte_offset (ie_irp ep) div ucast (av_sector_size v)) = Some (of_nat r)"
    "unat (of_nat r :: u64) = r" "r + k \<le> unat (data_sectors v)" "unat (av_offset_sector v) + r + k \<le> cap"
    "r + k < 2 ^ 64"
proof
  let ?off = "unat (av_offset_sector v)" and ?tot = "unat (data_sectors v)"
  let ?first = "unat (irp_byte_offset (ie_irp ep)) div ss"
  have ss: "unat (av_sector_size v) = ss"
    using assms(2) by (simp add: vol_ok_def)
  have e: "?off \<le> ?first" "?first + k \<le> ?off + ?tot"
    using assms(3,4) by (simp_all add: entry_ok_def Let_def)
  show "?first - ?off = ?first - ?off" ..
  show lba: "unat (irp_byte_offset (ie_irp ep) div ucast (av_sector_size v)) = ?off + (?first - ?off)"
    using e(1) ss by (simp add: unat_div)
  show r: "?first - ?off + k \<le> ?tot"
    using e by simp
  then show "?first - ?off + k < 2 ^ 64"
    using u64_lt [of "data_sectors v"] by simp
  then show "unat (of_nat (?first - ?off) :: u64) = ?first - ?off"
    by (intro unat_of_nat_less) simp
  then show "data_relative v (irp_byte_offset (ie_irp ep) div ucast (av_sector_size v)) = Some (of_nat (?first - ?off))"
    using lba r assms(5) by (simp add: data_relative_iff)
  have "?off + ?tot \<le> cap"
    using assms(2) vol_ok_total [OF assms(2)] by (simp add: vol_ok_def engine_ok_def)
  then show "?off + (?first - ?off) + k \<le> cap"
    using e by simp
qed

lemma read_buffer_view:
  assumes "invar w" "vok v" "burst_cipher_ok c bc" "data_relative v lba = Some rel" "unat rel = r" "r + k < 2 ^ 64"
  shows "fst (with_pipeline decrypt_read v bc lba (get_sectors (content w) (unat (av_offset_sector v) + r) k)) =
    get_sectors (vol_view c v (content w)) r k"
proof -
  have ss: "unat (av_sector_size v) = ss"
    using assms(2) by (simp add: vol_ok_def)
  have "fst (with_pipeline decrypt_read v bc lba (get_sectors (content w) (unat (av_offset_sector v) + r) k)) =
      decrypt_read c rel (av_encrypted_boundary v) (get_sectors (\<lambda>i. content w (unat (av_offset_sector v) + i)) (unat rel) k) ss"
    using with_pipeline_eq(1) [OF assms(2-4), of decrypt_read] ss assms(5)
    by (simp add: pipeline_no_span get_sectors_shift)
  also have "\<dots> = get_sectors (vol_view c v (content w)) r k"
    unfolding vol_view_def assms(5) [symmetric]
    by (rule cip.read_logical [OF cipher_ok [OF assms(1)] dev.sector_size_pos [OF assms(1)]])
      (use dev.content_length [OF assms(1)] assms(5,6) in simp_all)
  finally show ?thesis .
qed

lemma write_buffer_view:
  assumes "invar w" "vok v" "burst_cipher_ok c bc" "data_relative v lba = Some rel" "unat rel = r" "r + k < 2 ^ 64"
    "length buf = k * ss" "out = fst (with_pipeline encrypt_write v bc lba buf)"
  shows "length out = k * ss"
    "content w' = put_sectors ss (unat (av_offset_sector v) + r) out (content w) \<Longrightarrow>
      vol_view c v (content w') = put_sectors ss r buf (vol_view c v (content w))"
proof -
  have ss: "unat (av_sector_size v) = ss"
    using assms(2) by (simp add: vol_ok_def)
  note ok = cipher_ok [OF assms(1)] and pos = dev.sector_size_pos [OF assms(1)]
  have out: "out = encrypt_write c rel (av_encrypted_boundary v) buf ss"
    using with_pipeline_eq(1) [OF assms(2-4), of encrypt_write] ss assms(8) by (simp add: pipeline_no_span)
  show "length out = k * ss"
    unfolding out by (rule cip.pipeline_lengths(2) [OF ok pos assms(7)])
  assume "content w' = put_sectors ss (unat (av_offset_sector v) + r) out (content w)"
  then have "(\<lambda>i. content w' (unat (av_offset_sector v) + i)) =
      put_sectors ss r out (\<lambda>i. content w (unat (av_offset_sector v) + i))"
    by (simp add: fun_eq_iff put_sectors_shift)
  then show "vol_view c v (content w') = put_sectors ss r buf (vol_view c v (content w))"
    unfolding vol_view_def out
    using cip.write_logical [OF ok pos assms(7), of rel] assms(5,6) by simp
qed

text \<open>Serving one request is a step of the plain disk.\<close>

lemma process_read_served:
  assumes "invar w" "vok v" "burst_cipher_ok c bc"
    "entry_ok ss (unat (av_offset_sector v)) (unat (data_sectors v)) ep" "\<not> ie_is_write ep" "\<not> irp_cancel (ie_irp ep)"
    "process_read IM (ie_irp ep) v bc w = (irp', bc', w')"
  shows "w' = w \<and> burst_cipher_ok c bc' \<and>
    served ss (unat (av_offset_sector v)) (unat (data_sectors v)) (vol_view c v (content w)) ep irp' (vol_view c v (content w))"
proof -
  let ?irp = "ie_irp ep"
  define k where "k = unat (irp_length ?irp) div ss"
  have ss: "unat (av_sector_size v) = ss" "0 < ss"
    using assms(2) dev.sector_size_pos [OF assms(1)] by (simp_all add: vol_ok_def)
  show ?thesis
  proof (cases "k = 0")
    case True
    then have "irp' = complete_irp ?irp STATUS_SUCCESS 0" "bc' = bc" "w' = w"
      using assms(7) ss by (simp_all add: process_read_def Let_def k_def split: if_splits)
    then show ?thesis
      using True assms(3,5,6) by (simp add: served_def k_def Let_def)
  next
    case False
    have k: "0 < k" "unat (irp_length ?irp) \<noteq> 0"
      using False by (simp, metis k_def div_0)
    obtain r where r: "r = unat (irp_byte_offset ?irp) div ss - unat (av_offset_sector v)"
      "unat (irp_byte_offset ?irp div ucast (av_sector_size v)) = unat (av_offset_sector v) + r"
      "data_relative v (irp_byte_offset ?irp div ucast (av_sector_size v)) = Some (of_nat r)"
      "unat (of_nat r :: u64) = r" "unat (av_offset_sector v) + r + k \<le> cap" "r + k < 2 ^ 64"
      using request_position [OF assms(1,2,4) k_def k(1)] by metis
    let ?lba = "irp_byte_offset ?irp div ucast (av_sector_size v)"
    note code = assms(7) [unfolded process_read_def Let_def ss(1) k_def [symmetric]]
    show ?thesis
    proof (cases "\<exists>dst frag. irp_mdl ?irp = Some dst \<and> im_allocate_pool IM w (k * ss) \<and>
        sio_read_sectors io w ?lba (k * ss) = Inr frag")
      case True
      then obtain dst frag where d: "irp_mdl ?irp = Some dst" "im_allocate_pool IM w (k * ss)"
        "sio_read_sectors io w ?lba (k * ss) = Inr frag"
        by blast
      have "frag = get_sectors (content w) (unat (av_offset_sector v) + r) k"
        using dev.read_ok [OF assms(1), of ?lba k frag] d(3) r(2,5) by simp
      then have view: "fst (with_pipeline decrypt_read v bc ?lba frag) = get_sectors (vol_view c v (content w)) r k"
        using read_buffer_view [OF assms(1-3) r(3,4,6)] by simp
      have bc: "burst_cipher_ok c (snd (with_pipeline decrypt_read v bc ?lba frag))"
        using with_pipeline_eq(2) [OF assms(2,3) r(3), of decrypt_read frag] by (simp add: pipeline_no_span)
      have "irp' = complete_irp (?irp\<lparr>irp_mdl := Some (buf_write 0 (get_sectors (vol_view c v (content w)) r k) dst)\<rparr>)
          STATUS_SUCCESS (k * ss)" "bc' = snd (with_pipeline decrypt_read v bc ?lba frag)" "w' = w"
        using code d k False view ss assms(2) by (auto simp: vol_ok_def same_transfers_def split: prod.splits)
      then show ?thesis
        using assms(5,6) d(1) bc False r(1) by (simp add: served_def k_def)
    next
      case fail: False
      have "irp' = complete_irp ?irp STATUS_UNSUCCESSFUL 0" "bc' = bc" "w' = w"
        using code fail k False ss assms(2) by (auto simp: vol_ok_def same_transfers_def split: option.splits sum.splits if_splits prod.splits)
      then show ?thesis
        using assms(3,5,6) False by (simp add: served_def k_def Let_def)
    qed
  qed
qed

lemma process_write_served:
  assumes "invar w" "vok v" "burst_cipher_ok c bc"
    "entry_ok ss (unat (av_offset_sector v)) (unat (data_sectors v)) ep" "ie_is_write ep" "\<not> irp_cancel (ie_irp ep)"
    "process_write IM (ie_irp ep) v bc w = (irp', bc', w')"
  shows "invar w' \<and> burst_cipher_ok c bc' \<and>
    served ss (unat (av_offset_sector v)) (unat (data_sectors v)) (vol_view c v (content w)) ep irp' (vol_view c v (content w'))"
proof -
  let ?irp = "ie_irp ep"
  define k where "k = unat (irp_length ?irp) div ss"
  have ss: "unat (av_sector_size v) = ss" "0 < ss"
    using assms(2) dev.sector_size_pos [OF assms(1)] by (simp_all add: vol_ok_def)
  show ?thesis
  proof (cases "k = 0")
    case True
    then have "irp' = complete_irp ?irp STATUS_SUCCESS 0" "bc' = bc" "w' = w"
      using assms(7) ss by (simp_all add: process_write_def Let_def k_def split: if_splits)
    then show ?thesis
      using True assms(1,3,5,6) by (simp add: served_def k_def Let_def)
  next
    case False
    have k: "0 < k" "unat (irp_length ?irp) \<noteq> 0"
      using False by (simp, metis k_def div_0)
    obtain r where r: "r = unat (irp_byte_offset ?irp) div ss - unat (av_offset_sector v)"
      "unat (irp_byte_offset ?irp div ucast (av_sector_size v)) = unat (av_offset_sector v) + r"
      "data_relative v (irp_byte_offset ?irp div ucast (av_sector_size v)) = Some (of_nat r)"
      "unat (of_nat r :: u64) = r" "unat (av_offset_sector v) + r + k \<le> cap" "r + k < 2 ^ 64"
      using request_position [OF assms(1,2,4) k_def k(1)] by metis
    let ?lba = "irp_byte_offset ?irp div ucast (av_sector_size v)"
    note code = assms(7) [unfolded process_write_def Let_def ss(1) k_def [symmetric]]
    show ?thesis
    proof (cases "\<exists>src. irp_mdl ?irp = Some src \<and> im_allocate_pool IM w (k * ss)")
      case True
      then obtain src where d: "irp_mdl ?irp = Some src" "im_allocate_pool IM w (k * ss)"
        by blast
      let ?out = "fst (with_pipeline encrypt_write v bc ?lba (take (k * ss) src))"
      have len: "length (take (k * ss) src) = k * ss"
        using assms(4) d(1) by (simp add: entry_ok_def Let_def k_def)
      have bc: "burst_cipher_ok c (snd (with_pipeline encrypt_write v bc ?lba (take (k * ss) src)))"
        using with_pipeline_eq(2) [OF assms(2,3) r(3), of encrypt_write "take (k * ss) src"] by (simp add: pipeline_no_span)
      note out = write_buffer_view [OF assms(1-3) r(3,4,6) len refl]
      have pos: "unat ?lba + k \<le> cap"
        using r(2,5) by simp
      obtain res w1 where w1: "sio_write_sectors io w ?lba ?out = (res, w1)"
        by fastforce
      have run: "irp' = complete_irp ?irp (if is_ok res then STATUS_SUCCESS else STATUS_UNSUCCESSFUL) (if is_ok res then k * ss else 0)"
        "bc' = snd (with_pipeline encrypt_write v bc ?lba (take (k * ss) src))" "w' = w1"
        using code d k False w1 ss assms(2) by (auto simp: vol_ok_def same_transfers_def split: prod.splits sum.splits)
      have inv: "invar w'"
        using dev.write_invar [OF assms(1) pos out(1)] w1 run(3) by simp
      have frame: "vol_view c v (content w') i = vol_view c v (content w) i" if "i < r \<or> r + k \<le> i" for i
        using dev.write_frame [OF assms(1) pos out(1), of "unat (av_offset_sector v) + i"] w1 run(3) r(2) that
        by (auto simp: vol_view_def logical_sector_def)
      show ?thesis
      proof (cases res)
        case (Inl err)
        then show ?thesis
          using run inv bc frame assms(5,6) False r(1) by (simp add: served_def k_def Let_def)
      next
        case (Inr u)
        then have "vol_view c v (content w') = put_sectors ss r (take (k * ss) src) (vol_view c v (content w))"
          using out(2) [of w'] dev.write_ok [OF assms(1) pos out(1)] w1 run(3) r(2) by simp
        then show ?thesis
          using Inr run inv bc assms(5,6) False d(1) r(1) by (simp add: served_def k_def Let_def)
      qed
    next
      case fail: False
      have "irp' = complete_irp ?irp STATUS_UNSUCCESSFUL 0" "bc' = bc" "w' = w"
        using code fail k False ss(2) by (auto split: option.splits if_splits)
      then show ?thesis
        using assms(1,3,5,6) False by (simp add: served_def k_def Let_def)
    qed
  qed
qed

lemma serve_entry_served:
  assumes "invar w" "vok v" "burst_cipher_ok c bc"
    "entry_ok ss (unat (av_offset_sector v)) (unat (data_sectors v)) ep" "serve_entry IM v ep bc w = (irp', bc', w')"
  shows "invar w' \<and> burst_cipher_ok c bc' \<and>
    served ss (unat (av_offset_sector v)) (unat (data_sectors v)) (vol_view c v (content w)) ep irp' (vol_view c v (content w'))"
proof (cases "irp_cancel (ie_irp ep)")
  case True
  then show ?thesis
    using assms by (auto simp: serve_entry_def claim_cancelled_def served_def Let_def)
next
  case False
  then have run: "process_irp IM v ep bc w = (irp', bc', w')"
    using assms(5) by (simp add: serve_entry_def claim_cancelled_def)
  show ?thesis
  proof (cases "ie_is_write ep")
    case True
    then show ?thesis
      using process_write_served [OF assms(1-4) _ False] run by (simp add: process_irp_def)
  next
    case False
    then have "process_read IM (ie_irp ep) v bc w = (irp', bc', w')"
      using run by (simp add: process_irp_def)
    then show ?thesis
      using process_read_served [OF assms(1-4) False \<open>\<not> irp_cancel (ie_irp ep)\<close>] assms(1) by blast
  qed
qed

text \<open>A command changes the direction of the sweep and the metadata sectors, never the data.\<close>

lemma state_change_view:
  assumes "vok v" "vol_synced v"
  shows "vok (v\<lparr>av_encryption := (av_encryption v)\<lparr>en_state := x\<rparr>\<rparr>)"
    "vol_synced (v\<lparr>av_encryption := (av_encryption v)\<lparr>en_state := x\<rparr>\<rparr>)"
    "vol_view c (v\<lparr>av_encryption := (av_encryption v)\<lparr>en_state := x\<rparr>\<rparr>) disk = vol_view c v disk"
proof -
  show "vok (v\<lparr>av_encryption := (av_encryption v)\<lparr>en_state := x\<rparr>\<rparr>)"
    using assms(1) by (intro vol_ok_encryption) (simp_all add: vol_ok_def)
  show "vol_synced (v\<lparr>av_encryption := (av_encryption v)\<lparr>en_state := x\<rparr>\<rparr>)"
    using assms(2) by (simp add: vol_synced_def encrypted_boundary_def)
  show "vol_view c (v\<lparr>av_encryption := (av_encryption v)\<lparr>en_state := x\<rparr>\<rparr>) disk = vol_view c v disk"
    by (simp add: vol_view_def)
qed

lemma store_state_vol_view:
  assumes "invar w" "vok v" "vol_synced v" "os_store_state store w x = (r, w1)"
  shows "invar w1" "i < unat (data_sectors v) \<Longrightarrow> vol_view c v (content w1) i = vol_view c v (content w) i"
  using st.store_state_frame [OF assms(1,4)] command_view [OF assms(1) _ assms(4)] assms(2)
    vol_view_engine [OF assms(2,3)] vol_ok_total [OF assms(2)]
  by (auto simp: vol_ok_def)

definition run_inv :: "nat \<Rightarrow> nat \<Rightarrow> (nat \<Rightarrow> bytes) \<Rightarrow> 'w vt_state \<Rightarrow> bool" where
  "run_inv off tot pd0 s \<longleftrightarrow>
     invar (ts_world s) \<and> vok (ts_vol s) \<and> vol_synced (ts_vol s) \<and> burst_cipher_ok c (ts_cipher s) \<and>
     unat (av_offset_sector (ts_vol s)) = off \<and> unat (data_sectors (ts_vol s)) = tot \<and>
     (\<forall>ep \<in> set (vt_queue (ts_vt s)). entry_ok ss off tot ep) \<and>
     ts_accepted s = map fst (ts_done s) @ vt_queue (ts_vt s) \<and>
     plain_run ss off tot pd0 (ts_done s) (vol_view c (ts_vol s) (content (ts_world s)))"

lemma run_inv_command:
  assumes "run_inv off tot pd0 s" "invar w1"
    "\<And>i. i < tot \<Longrightarrow> vol_view c (ts_vol s) (content w1) i = vol_view c (ts_vol s) (content (ts_world s)) i"
  shows "run_inv off tot pd0 (s\<lparr>ts_vol := (ts_vol s)\<lparr>av_encryption := (av_encryption (ts_vol s))\<lparr>en_state := x\<rparr>\<rparr>, ts_world := w1\<rparr>)"
proof -
  have v: "vok (ts_vol s)" "vol_synced (ts_vol s)"
    using assms(1) by (simp_all add: run_inv_def)
  have "plain_run ss off tot pd0 (ts_done s) (vol_view c (ts_vol s) (content w1))"
    by (rule plain_same [of ss off tot pd0 "ts_done s" "vol_view c (ts_vol s) (content (ts_world s))"])
      (use assms(1,3) in \<open>simp_all add: run_inv_def\<close>)
  then show ?thesis
    using assms(1,2) state_change_view [OF v, of x] by (simp add: run_inv_def)
qed

lemma run_inv_store_state:
  assumes "run_inv off tot pd0 s" "w1 = snd (os_store_state store (ts_world s) d)"
  shows "run_inv off tot pd0 (s\<lparr>ts_vol := (ts_vol s)\<lparr>av_encryption := (av_encryption (ts_vol s))\<lparr>en_state := x\<rparr>\<rparr>, ts_world := w1\<rparr>)"
proof -
  have "os_store_state store (ts_world s) d = (fst (os_store_state store (ts_world s) d), w1)"
    using assms(2) by simp
  note f = store_state_vol_view [OF _ _ _ this, of "ts_vol s"]
  show ?thesis
    using assms(1) f by (intro run_inv_command) (simp_all add: run_inv_def)
qed

lemma vt_run_inv:
  assumes "vt_run IM (entry_ok ss off tot) s0 s" "run_inv off tot pd0 s0"
  shows "run_inv off tot pd0 s"
  using assms
proof (induction rule: vt_run.induct)
  case run_init
  then show ?case .
next
  case (run_enqueue s irp wr irp1 vt1 ep)
  then show ?case
    by (auto simp: run_inv_def enqueue_def vt_signal_def Let_def)
next
  case (run_wake s b)
  then show ?case
    by (simp add: run_inv_def)
next
  case (run_serve s ep q irp1 bc1 w1)
  note inv = run_serve.IH [OF run_serve.prems]
  have "entry_ok ss (unat (av_offset_sector (ts_vol s))) (unat (data_sectors (ts_vol s))) ep"
    using inv run_serve.hyps(2) by (auto simp: run_inv_def)
  then have sv: "invar w1" "burst_cipher_ok c bc1"
    "served ss off tot (vol_view c (ts_vol s) (content (ts_world s))) ep irp1 (vol_view c (ts_vol s) (content w1))"
    using serve_entry_served [OF _ _ _ _ run_serve.hyps(3)] inv by (auto simp: run_inv_def)
  have "plain_run ss off tot pd0 (ts_done s @ [(ep, irp1)]) (vol_view c (ts_vol s) (content w1))"
    by (rule plain_serve [OF _ sv(3)]) (use inv in \<open>simp add: run_inv_def\<close>)
  then show ?case
    using inv sv run_serve.hyps(2) by (simp add: run_inv_def)
next
  case (run_sweep s bsz again v1 w1)
  note inv = run_sweep.IH [OF run_sweep.prems]
  have post: "invar w1" "vok v1" "vol_synced v1" "data_sectors v1 = data_sectors (ts_vol s)"
    "av_offset_sector v1 = av_offset_sector (ts_vol s)"
    "\<forall>i < unat (data_sectors (ts_vol s)). vol_view c v1 (content w1) i = vol_view c (ts_vol s) (content (ts_world s)) i"
    using sweep_step_view [OF _ _ _ run_sweep.hyps(2)] inv by (auto simp: run_inv_def)
  have "plain_run ss off tot pd0 (ts_done s) (vol_view c v1 (content w1))"
    by (rule plain_same [of ss off tot pd0 "ts_done s" "vol_view c (ts_vol s) (content (ts_world s))"])
      (use inv post(6) in \<open>simp_all add: run_inv_def\<close>)
  then show ?case
    using inv post by (simp add: run_inv_def burst_cipher_ok_def)
next
  case (run_start_encrypt s e1 w1)
  note inv = run_start_encrypt.IH [OF run_start_encrypt.prems]
  then have "av_offset_store (ts_vol s) = store"
    by (simp add: run_inv_def vol_ok_def)
  then obtain x where "e1 = (av_encryption (ts_vol s))\<lparr>en_state := x\<rparr>" "w1 = snd (os_store_state store (ts_world s) Encrypt)"
    using command_updates_state(1) [of store "av_encryption (ts_vol s)" "ts_world s"] run_start_encrypt.hyps(2) by auto
  then show ?case
    using run_inv_store_state [OF inv] by simp
next
  case (run_start_decrypt s e1 w1)
  note inv = run_start_decrypt.IH [OF run_start_decrypt.prems]
  then have "av_offset_store (ts_vol s) = store"
    by (simp add: run_inv_def vol_ok_def)
  then obtain x where "e1 = (av_encryption (ts_vol s))\<lparr>en_state := x\<rparr>" "w1 = snd (os_store_state store (ts_world s) Decrypt)"
    using command_updates_state(2) [of store "av_encryption (ts_vol s)" "ts_world s"] run_start_decrypt.hyps(2) by auto
  then show ?case
    using run_inv_store_state [OF inv] by simp
next
  case (run_pause s)
  note inv = run_pause.IH [OF run_pause.prems]
  obtain x where "pause (av_encryption (ts_vol s)) = (av_encryption (ts_vol s))\<lparr>en_state := x\<rparr>"
    using command_updates_state(4) [of "av_encryption (ts_vol s)"] by auto
  then show ?case
    using run_inv_command [OF inv, of "ts_world s" x] inv by (simp add: run_inv_def)
next
  case (run_resume s)
  note inv = run_resume.IH [OF run_resume.prems]
  obtain x where "engine_resume (av_offset_store (ts_vol s)) (av_encryption (ts_vol s)) (ts_world s) =
      (av_encryption (ts_vol s))\<lparr>en_state := x\<rparr>"
    using command_updates_state(3) [of "av_offset_store (ts_vol s)" "av_encryption (ts_vol s)" "ts_world s"] by auto
  then show ?case
    using run_inv_command [OF inv, of "ts_world s" x] inv by (simp add: run_inv_def)
qed

end


section \<open>The loop of the code\<close>

text \<open>Turns of the main loop without new requests: the completed requests and the final state.\<close>

primrec thread_turns ::
    "'w io_manager \<Rightarrow> nat \<Rightarrow> 'w attached_volume \<Rightarrow> vthread \<Rightarrow> 'w
      \<Rightarrow> (irp_entry \<times> irp) list \<times> 'w attached_volume \<times> vthread \<times> 'w" where
  "thread_turns IM 0 v vt w = ([], v, vt, w)"
| "thread_turns IM (Suc n) v vt w =
     (let (cs, _, v1, vt1, w1) = thread_iteration IM v vt w;
          (cs2, v2, vt2, w2) = thread_turns IM n v1 vt1 w1
      in (cs @ cs2, v2, vt2, w2))"

lemma irp_burst_queue:
  "irp_burst IM v n bc q w = (cs, q', bc', w') \<Longrightarrow> map fst cs = take n q \<and> q' = drop n q"
proof (induction n arbitrary: bc q w cs)
  case (Suc n)
  show ?case
  proof (cases q)
    case (Cons ep q1)
    obtain irp1 bc1 w1 where s: "serve_entry IM v ep bc w = (irp1, bc1, w1)"
      using prod_cases3 by blast
    obtain cs2 where "irp_burst IM v n bc1 q1 w1 = (cs2, q', bc', w')" "cs = (ep, irp1) # cs2"
      using Suc.prems s Cons by (auto split: prod.splits)
    then show ?thesis
      using Suc.IH Cons by simp
  qed (use Suc.prems in simp)
qed simp

lemma thread_iteration_queue:
  assumes "thread_iteration IM v vt w = (cs, r, v', vt', w')"
  shows "map fst cs = take MAX_IRP_BURST (vt_queue vt) \<and> vt_queue vt' = drop MAX_IRP_BURST (vt_queue vt)"
proof -
  obtain q bc w1 where b: "irp_burst IM v MAX_IRP_BURST None (vt_queue vt) w = (cs, q, bc, w1)" "vt_queue vt' = q"
    using assms by (auto simp: thread_iteration_def Let_def split: prod.splits)
  show ?thesis
    using irp_burst_queue [OF b(1)] b(2) by simp
qed

lemma thread_turns_queue:
  "thread_turns IM n v vt w = (cs, v', vt', w') \<Longrightarrow>
   map fst cs = take (n * MAX_IRP_BURST) (vt_queue vt) \<and> vt_queue vt' = drop (n * MAX_IRP_BURST) (vt_queue vt)"
proof (induction n arbitrary: v vt w cs)
  case (Suc n)
  obtain cs1 r v1 vt1 w1 where it: "thread_iteration IM v vt w = (cs1, r, v1, vt1, w1)"
    using prod_cases5 by blast
  obtain cs2 where rest: "thread_turns IM n v1 vt1 w1 = (cs2, v', vt', w')" "cs = cs1 @ cs2"
    using Suc.prems it by (auto split: prod.splits)
  show ?case
    using thread_iteration_queue [OF it] Suc.IH [OF rest(1)] rest(2)
    by (simp add: take_add drop_drop add.commute)
qed simp

text \<open>A turn of the code whose sweep batch succeeds is a run of the transition system.\<close>

lemma irp_burst_run:
  "vt_run IM ok s0 s \<Longrightarrow> irp_burst IM (ts_vol s) n (ts_cipher s) (vt_queue (ts_vt s)) (ts_world s) = (cs, q', bc', w') \<Longrightarrow>
   vt_run IM ok s0 (s\<lparr>ts_vt := (ts_vt s)\<lparr>vt_queue := q'\<rparr>, ts_cipher := bc', ts_world := w', ts_done := ts_done s @ cs\<rparr>)"
proof (induction n arbitrary: s cs)
  case 0
  then have "cs = []" "q' = vt_queue (ts_vt s)" "bc' = ts_cipher s" "w' = ts_world s"
    by simp_all
  then show ?case
    using 0(1) by simp
next
  case (Suc n)
  show ?case
  proof (cases "vt_queue (ts_vt s)")
    case Nil
    then have "cs = []" "q' = vt_queue (ts_vt s)" "bc' = ts_cipher s" "w' = ts_world s"
      using Suc.prems(2) by simp_all
    then show ?thesis
      using Suc.prems(1) by simp
  next
    case (Cons ep q1)
    obtain irp1 bc1 w1 where sv: "serve_entry IM (ts_vol s) ep (ts_cipher s) (ts_world s) = (irp1, bc1, w1)"
      using prod_cases3 by blast
    obtain cs2 where rest: "irp_burst IM (ts_vol s) n bc1 q1 w1 = (cs2, q', bc', w')" "cs = (ep, irp1) # cs2"
      using Suc.prems(2) sv Cons by (auto split: prod.splits)
    let ?s1 = "s\<lparr>ts_vt := (ts_vt s)\<lparr>vt_queue := q1\<rparr>, ts_cipher := bc1, ts_world := w1, ts_done := ts_done s @ [(ep, irp1)]\<rparr>"
    have "vt_run IM ok s0 ?s1"
      by (rule run_serve [OF Suc.prems(1) Cons sv])
    then show ?thesis
      using Suc.IH [of ?s1 cs2] rest by simp
  qed
qed

lemma thread_iteration_run:
  assumes "vt_run IM ok s0 s" "ts_cipher s = None"
    "thread_iteration IM (ts_vol s) (ts_vt s) (ts_world s) = (cs, Inr again, v1, vt1, w1)"
  shows "vt_run IM ok s0 (s\<lparr>ts_vol := v1, ts_vt := vt1, ts_world := w1, ts_done := ts_done s @ cs\<rparr>)"
proof -
  obtain q bc w' b where b: "irp_burst IM (ts_vol s) MAX_IRP_BURST (ts_cipher s) (vt_queue (ts_vt s)) (ts_world s) = (cs, q, bc, w')"
    and sw: "sweep_step BATCH_SECTORS (ts_vol s) w' = (Inr again, v1, w1)"
    and vt1: "vt1 = (ts_vt s)\<lparr>vt_queue := q, vt_wake := b\<rparr>"
    using assms(2,3) by (auto simp: thread_iteration_def Let_def split: prod.splits)
  note run1 = irp_burst_run [OF assms(1) b]
  note run2 = run_sweep [OF run1, of BATCH_SECTORS again v1 w1]
  note run3 = run_wake [OF run2, of b]
  show ?thesis
    using run3 sw vt1 assms(2) by (cases s) simp
qed

lemma requests_total_aux:
  fixes len :: u32
  shows "unat len div n * n < 2 ^ 32"
  using u32_lt [of len] div_times_less_eq_dividend [of "unat len" n] by linarith

context reliable_sweep
begin

text \<open>On a reliable device, with memory for the buffer, a request inside the data region succeeds.\<close>

lemma process_read_total:
  assumes "invar w" "vok v" "burst_cipher_ok c bc" "entry_ok ss (unat (av_offset_sector v)) (unat (data_sectors v)) ep"
    "irp_mdl (ie_irp ep) = Some dst" "\<And>n. im_allocate_pool IM w n"
    "k = unat (irp_length (ie_irp ep)) div ss" "0 < k" "r = unat (irp_byte_offset (ie_irp ep)) div ss - unat (av_offset_sector v)"
    "process_read IM (ie_irp ep) v bc w = (irp', bc', w')"
  shows "irp' = complete_irp ((ie_irp ep)\<lparr>irp_mdl := Some (buf_write 0 (get_sectors (vol_view c v (content w)) r k) dst)\<rparr>)
    STATUS_SUCCESS (k * ss)"
proof -
  let ?irp = "ie_irp ep" and ?lba = "irp_byte_offset (ie_irp ep) div ucast (av_sector_size v)"
  have ss: "unat (av_sector_size v) = ss" "0 < ss" "sio_read_sectors (av_sweep_io v) = sio_read_sectors io" "sio_write_sectors (av_sweep_io v) = sio_write_sectors io"
    using assms(2) dev.sector_size_pos [OF assms(1)] by (simp_all add: vol_ok_def same_transfers_def)
  have len: "unat (irp_length ?irp) \<noteq> 0"
    using assms(7,8) by (metis div_0 less_irrefl)
  have small: "k * ss < 2 ^ 32"
    unfolding assms(7) by (rule requests_total_aux)
  obtain p: "unat ?lba = unat (av_offset_sector v) + r" "data_relative v ?lba = Some (of_nat r)" "unat (of_nat r :: u64) = r"
    "unat (av_offset_sector v) + r + k \<le> cap" "r + k < 2 ^ 64"
    using request_position [OF assms(1,2,4,7,8)] assms(9) by metis
  have rd: "sio_read_sectors io w ?lba (k * ss) = Inr (get_sectors (content w) (unat (av_offset_sector v) + r) k)"
    using rdev.read_reliable [OF assms(1), of ?lba k] p(1,4) small by simp
  show ?thesis
    using assms(10) rd ss len assms(5-8) read_buffer_view [OF assms(1-3) p(2,3,5)]
    by (auto simp: process_read_def Let_def split: prod.splits)
qed

lemma process_write_total:
  assumes "invar w" "vok v" "burst_cipher_ok c bc" "entry_ok ss (unat (av_offset_sector v)) (unat (data_sectors v)) ep"
    "irp_mdl (ie_irp ep) = Some src" "\<And>n. im_allocate_pool IM w n"
    "k = unat (irp_length (ie_irp ep)) div ss" "0 < k" "r = unat (irp_byte_offset (ie_irp ep)) div ss - unat (av_offset_sector v)"
    "process_write IM (ie_irp ep) v bc w = (irp', bc', w')"
  shows "irp' = complete_irp (ie_irp ep) STATUS_SUCCESS (k * ss)" "invar w'" "burst_cipher_ok c bc'"
    "vol_view c v (content w') = put_sectors ss r (take (k * ss) src) (vol_view c v (content w))"
proof -
  let ?irp = "ie_irp ep" and ?lba = "irp_byte_offset (ie_irp ep) div ucast (av_sector_size v)"
  let ?p = "with_pipeline encrypt_write v bc ?lba (take (k * ss) src)"
  have ss: "unat (av_sector_size v) = ss" "0 < ss" "sio_read_sectors (av_sweep_io v) = sio_read_sectors io" "sio_write_sectors (av_sweep_io v) = sio_write_sectors io"
    using assms(2) dev.sector_size_pos [OF assms(1)] by (simp_all add: vol_ok_def same_transfers_def)
  have len: "unat (irp_length ?irp) \<noteq> 0"
    using assms(7,8) by (metis div_0 less_irrefl)
  have small: "k * ss < 2 ^ 32"
    unfolding assms(7) by (rule requests_total_aux)
  obtain p: "unat ?lba = unat (av_offset_sector v) + r" "data_relative v ?lba = Some (of_nat r)" "unat (of_nat r :: u64) = r"
    "unat (av_offset_sector v) + r + k \<le> cap" "r + k < 2 ^ 64"
    using request_position [OF assms(1,2,4,7,8)] assms(9) by metis
  have blen: "length (take (k * ss) src) = k * ss"
    using assms(4,5,7) by (simp add: entry_ok_def Let_def)
  note out = write_buffer_view [OF assms(1-3) p(2,3,5) blen refl]
  obtain w1 where w1: "sio_write_sectors io w ?lba (fst ?p) = (Inr (), w1)" "invar w1"
    "content w1 = put_sectors ss (unat ?lba) (fst ?p) (content w)"
    using rdev.write_reliable [OF assms(1), of ?lba k "fst ?p"] p(1,4) out(1) small by metis
  have run: "irp' = complete_irp ?irp STATUS_SUCCESS (k * ss)" "bc' = snd ?p" "w' = w1"
    using assms(10) w1(1) ss len assms(5-8) by (auto simp: process_write_def Let_def split: prod.splits)
  show "irp' = complete_irp (ie_irp ep) STATUS_SUCCESS (k * ss)" "invar w'"
    using run w1(2) by simp_all
  show "burst_cipher_ok c bc'"
    using with_pipeline_eq(2) [OF assms(2,3) p(2), of encrypt_write] run(2) by (simp add: pipeline_no_span)
  show "vol_view c v (content w') = put_sectors ss r (take (k * ss) src) (vol_view c v (content w))"
    using out(2) [of w'] w1(3) run(3) p(1) by simp
qed

end


section \<open>Witness data\<close>

definition toy_state :: "engine_state \<Rightarrow> irp_entry list \<Rightarrow> (jvck_cells \<times> (nat \<Rightarrow> byte)) vt_state" where
  "toy_state x q = \<lparr>ts_vol = toy_volume const_rng 40 x, ts_vt = toy_vt\<lparr>vt_queue := q\<rparr>, ts_cipher = None,
     ts_world = (toy_cells, \<lambda>a. of_nat a), ts_accepted = q, ts_done = []\<rparr>"

definition toy_entry :: "bool \<Rightarrow> irp_entry" where
  "toy_entry wr = \<lparr>ie_irp = toy_irp (if wr then MJ_WRITE else MJ_READ) 20000 1024, ie_is_write = wr\<rparr>"

lemma toy_entry_ok: "entry_ok 512 0 88 (toy_entry wr)"
  by (simp add: entry_ok_def toy_entry_def toy_irp_def)


section \<open>Properties\<close>

text \<open>C5: the volume thread implements a plain disk.  Take any run of the thread, with reads and
  writes inside the data region queued at any time, sweep batches of either direction between them and
  control commands at any time, on any device, as long as no sweep batch fails.  Then the completed requests
  are those of a plain disk that holds the data a reader saw at the start and serves the requests one by one;
  its contents at the end are what a reader sees at the end.  The requests are completed in the order in which
  they were accepted, each exactly once.\<close>

theorem thread_refines_plain_disk:
  assumes "sweep_ok K me disk C rng A st" "drv_vol_ok K me C rng A x st (ts_vol s0)" "vol_synced (ts_vol s0)"
    "ss = unat (ld_sector_size me)" "off = unat (av_offset_sector (ts_vol s0))" "tot = unat (data_sectors (ts_vol s0))"
    "\<forall>ep \<in> set (vt_queue (ts_vt s0)). entry_ok ss off tot ep" "ts_accepted s0 = vt_queue (ts_vt s0)" "ts_done s0 = []"
    "ts_cipher s0 = None" "vt_run IM (entry_ok ss off tot) s0 s"
  shows "plain_run ss off tot
      (vol_view (xts_as_volume_cipher A x) (ts_vol s0) (disk_sector disk ss (snd (ts_world s0)))) (ts_done s)
      (vol_view (xts_as_volume_cipher A x) (ts_vol s) (disk_sector disk ss (snd (ts_world s)))) \<and>
    ts_accepted s = map fst (ts_done s) @ vt_queue (ts_vt s)"
proof -
  let ?view = "\<lambda>s. vol_view (xts_as_volume_cipher A x) (ts_vol s) (disk_sector disk ss (snd (ts_world s)))"
  have "sweep.run_inv K me disk C rng A st x off tot (?view s0) s0"
    unfolding sweep.run_inv_def using assms(1-10) by (simp add: burst_cipher_ok_def plain_run.intros)
  then have "sweep.run_inv K me disk C rng A st x off tot (?view s0) s"
    using sweep.vt_run_inv [where K = K and me = me and disk = disk and C = C and rng = rng and A = A and st = st and x = x]
      assms(4,11) by simp
  then show ?thesis
    unfolding sweep.run_inv_def using assms(4) by simp
qed

theorem thread_refines_plain_disk_witness:
  "\<exists>s. vt_run toy_im (entry_ok 512 0 88) (toy_state Encrypting [toy_entry True]) s \<and> length (ts_done s) = 1 \<and>
     plain_run 512 0 88
       (vol_view (xts_as_volume_cipher toy_aes toy_xts) (toy_volume const_rng 40 Encrypting)
         (disk_sector (\<lambda>w. w) 512 (\<lambda>a. of_nat a))) (ts_done s)
       (vol_view (xts_as_volume_cipher toy_aes toy_xts) (ts_vol s) (disk_sector (\<lambda>w. w) 512 (snd (ts_world s))))"
proof -
  let ?s0 = "toy_state Encrypting [toy_entry True]"
  obtain irp1 bc1 w1 where sv: "serve_entry toy_im (ts_vol ?s0) (toy_entry True) (ts_cipher ?s0) (ts_world ?s0) = (irp1, bc1, w1)"
    using prod_cases3 by blast
  have q: "vt_queue (ts_vt ?s0) = [toy_entry True]"
    by (simp add: toy_state_def)
  define s where "s = ?s0\<lparr>ts_vt := (ts_vt ?s0)\<lparr>vt_queue := []\<rparr>, ts_cipher := bc1, ts_world := w1,
    ts_done := ts_done ?s0 @ [(toy_entry True, irp1)]\<rparr>"
  have run: "vt_run toy_im (entry_ok 512 0 88) ?s0 s"
    unfolding s_def by (rule run_serve [OF run_init q sv])
  have dev: "512 = unat (ld_sector_size toy_device)"
    by (simp add: toy_device_def ld_new_def)
  have ok: "drv_vol_ok ram_kernel toy_device toy_crypto const_rng toy_aes toy_xts toy_store (ts_vol ?s0)" "vol_synced (ts_vol ?s0)"
    using toy_volume_ok [of 40 const_rng Encrypting] by (simp_all add: toy_state_def)
  have fields: "0 = unat (av_offset_sector (ts_vol ?s0))" "88 = unat (data_sectors (ts_vol ?s0))"
    "\<forall>ep \<in> set (vt_queue (ts_vt ?s0)). entry_ok 512 0 88 ep" "ts_accepted ?s0 = vt_queue (ts_vt ?s0)"
    "ts_done ?s0 = []" "ts_cipher ?s0 = None"
    using toy_entry_ok by (simp_all add: toy_state_def)
  note ref = thread_refines_plain_disk [OF toy_sweep(2) ok dev fields run]
  show ?thesis
  proof (intro exI conjI)
    show "vt_run toy_im (entry_ok 512 0 88) ?s0 s"
      by (rule run)
    show "length (ts_done s) = 1"
      by (simp add: s_def toy_state_def)
  qed (use ref in \<open>simp add: toy_state_def\<close>)
qed

text \<open>C21: no request waits for ever.  Each turn of the main loop serves the oldest requests of
  the queue in order, at most 64 of them, whatever happens to the requests or to the sweep, so a queue of
  \<open>n\<close> requests is empty after \<open>n div 64 + 1\<close> turns.\<close>

theorem queue_drains:
  assumes "thread_turns IM n v vt w = (cs, v', vt', w')" "length (vt_queue vt) div 64 < n"
  shows "map fst cs = vt_queue vt \<and> vt_queue vt' = []"
proof -
  have "length (vt_queue vt) < n * 64"
    using assms(2) by (metis add.commute div_less_iff_less_mult zero_less_numeral)
  then show ?thesis
    using thread_turns_queue [OF assms(1)] by (simp add: MAX_IRP_BURST_def)
qed

theorem queue_drains_witness:
  "\<exists>cs v' vt' w'. thread_turns toy_im 2 (toy_volume const_rng 40 Idle) (toy_vt\<lparr>vt_queue := replicate 100 (toy_entry False)\<rparr>)
      (toy_cells, \<lambda>a. of_nat a) = (cs, v', vt', w') \<and> map fst cs = replicate 100 (toy_entry False) \<and> vt_queue vt' = []"
proof -
  obtain cs v' vt' w' where run: "thread_turns toy_im 2 (toy_volume const_rng 40 Idle)
      (toy_vt\<lparr>vt_queue := replicate 100 (toy_entry False)\<rparr>) (toy_cells, \<lambda>a. of_nat a) = (cs, v', vt', w')"
    using prod_cases4 by blast
  show ?thesis
    using queue_drains [OF run] run by auto
qed

text \<open>Read after write.  On a reliable device and with memory available, a write to a
  run of sectors of the data region and a read of the same run both succeed, and the read returns exactly
  the written bytes, wherever the encryption boundary lies; no other data sector changes.\<close>

theorem write_then_read:
  assumes "sweep_reliable K me disk C rng A st" "drv_vol_ok K me C rng A x st v"
    "\<And>w n. im_allocate_pool IM w n" "ss = unat (ld_sector_size me)"
    "entry_ok ss (unat (av_offset_sector v)) (unat (data_sectors v)) \<lparr>ie_irp = wi, ie_is_write = True\<rparr>"
    "entry_ok ss (unat (av_offset_sector v)) (unat (data_sectors v)) \<lparr>ie_irp = ri, ie_is_write = False\<rparr>"
    "irp_mdl wi = Some src" "irp_mdl ri = Some dst"
    "irp_byte_offset ri = irp_byte_offset wi" "irp_length ri = irp_length wi"
    "k = unat (irp_length wi) div ss" "0 < k"
    "process_write IM wi v None (cells, w) = (wi', bc1, cells1, w1)" "process_read IM ri v bc1 (cells1, w1) = (ri', bc2, w2)"
  shows "irp_status wi' = STATUS_SUCCESS \<and> irp_information wi' = k * ss \<and>
    irp_status ri' = STATUS_SUCCESS \<and> irp_mdl ri' = Some (buf_write 0 (take (k * ss) src) dst) \<and>
    (\<forall>i. i < unat (irp_byte_offset wi) div ss - unat (av_offset_sector v) \<or>
        unat (irp_byte_offset wi) div ss - unat (av_offset_sector v) + k \<le> i \<longrightarrow>
      vol_view (xts_as_volume_cipher A x) v (disk_sector disk ss w1) i = vol_view (xts_as_volume_cipher A x) v (disk_sector disk ss w) i)"
proof -
  let ?ww = "\<lparr>ie_irp = wi, ie_is_write = True\<rparr>" and ?rr = "\<lparr>ie_irp = ri, ie_is_write = False\<rparr>"
  define r where "r = unat (irp_byte_offset wi) div ss - unat (av_offset_sector v)"
  have pos: "0 < ss"
    using assms(1,4) by (auto simp: sweep_reliable_def jvck_env_ok_def ld_reliable_def ld_ok_def geometry_ok_def)
  have len: "length (take (k * ss) src) = k * ss"
    using assms(5,7,11) by (simp add: entry_ok_def Let_def)
  have bc: "burst_cipher_ok (xts_as_volume_cipher A x) None"
    by (simp add: burst_cipher_ok_def)
  note pw = rsweep.process_write_total [where K = K and me = me and disk = disk and C = C and rng = rng and A = A and st = st and x = x
      and ep = ?ww and k = k and r = r and src = src and IM = IM, OF assms(1,2) bc]
  have W: "wi' = complete_irp wi STATUS_SUCCESS (k * ss)" "burst_cipher_ok (xts_as_volume_cipher A x) bc1"
    "vol_view (xts_as_volume_cipher A x) v (disk_sector disk ss w1) =
      put_sectors ss r (take (k * ss) src) (vol_view (xts_as_volume_cipher A x) v (disk_sector disk ss w))"
    using pw(1,3,4) [where w = "(cells, w)" and irp' = wi' and bc' = bc1 and w' = "(cells1, w1)"] assms(3-5,7,11-13)
    by (simp_all add: r_def)
  note pr = rsweep.process_read_total [where K = K and me = me and disk = disk and C = C and rng = rng and A = A and st = st and x = x
      and ep = ?rr and k = k and r = r and dst = dst and IM = IM, OF assms(1,2) W(2)]
  have "ri' = complete_irp (ri\<lparr>irp_mdl := Some (buf_write 0
      (get_sectors (vol_view (xts_as_volume_cipher A x) v (disk_sector disk ss w1)) r k) dst)\<rparr>) STATUS_SUCCESS (k * ss)"
    using pr [where w = "(cells1, w1)" and irp' = ri' and bc' = bc2 and w' = w2] assms(3,4,6,8-12,14) by (simp add: r_def)
  moreover have "get_sectors (vol_view (xts_as_volume_cipher A x) v (disk_sector disk ss w1)) r k = take (k * ss) src"
    unfolding W(3) by (rule get_put_same [OF pos len])
  moreover have "length (take (k * ss) src) div ss = k"
    using len pos by simp
  ultimately show ?thesis
    using W(1,3) by (auto simp: complete_irp_def r_def put_sectors_outside)
qed

theorem write_then_read_witness:
  "\<exists>wi' bc1 cells1 w1 ri' bc2 w2.
     process_write toy_im (toy_irp MJ_WRITE 20000 1024) (toy_volume const_rng 40 Idle) None (toy_cells, \<lambda>a. of_nat a) =
       (wi', bc1, cells1, w1) \<and>
     process_read toy_im ((toy_irp MJ_READ 20000 1024)\<lparr>irp_mdl := Some (replicate 1024 0)\<rparr>) (toy_volume const_rng 40 Idle) bc1
       (cells1, w1) = (ri', bc2, w2) \<and>
     irp_status ri' = STATUS_SUCCESS \<and> irp_mdl ri' = Some (replicate 1024 7)"
proof -
  let ?v = "toy_volume const_rng 40 Idle" and ?wi = "toy_irp MJ_WRITE 20000 1024"
  let ?ri = "(toy_irp MJ_READ 20000 1024)\<lparr>irp_mdl := Some (replicate 1024 0)\<rparr>"
  obtain wi' bc1 cells1 w1 where pw: "process_write toy_im ?wi ?v None (toy_cells, \<lambda>a. of_nat a) = (wi', bc1, cells1, w1)"
    using prod_cases4 by blast
  obtain ri' bc2 w2 where pr: "process_read toy_im ?ri ?v bc1 (cells1, w1) = (ri', bc2, w2)"
    using prod_cases3 by blast
  have ss: "512 = unat (ld_sector_size toy_device)"
    by (simp add: toy_device_def ld_new_def)
  have al: "\<And>w n. im_allocate_pool toy_im w n"
    by (simp add: toy_im_def)
  have e: "entry_ok 512 (unat (av_offset_sector ?v)) (unat (data_sectors ?v)) \<lparr>ie_irp = ?wi, ie_is_write = True\<rparr>"
    "entry_ok 512 (unat (av_offset_sector ?v)) (unat (data_sectors ?v)) \<lparr>ie_irp = ?ri, ie_is_write = False\<rparr>"
    by (simp_all add: entry_ok_def toy_irp_def)
  have f: "irp_mdl ?wi = Some (replicate 1024 7)" "irp_mdl ?ri = Some (replicate 1024 0)"
    "irp_byte_offset ?ri = irp_byte_offset ?wi" "irp_length ?ri = irp_length ?wi" "2 = unat (irp_length ?wi) div 512" "0 < (2 :: nat)"
    by (simp_all add: toy_irp_def)
  note res = write_then_read [OF toy_sweep(1) toy_volume_ok(1) [of 40 const_rng Idle, simplified] al ss e f pw pr]
  show ?thesis
    using res pw pr by (auto simp: buf_write_def)
qed

text \<open>Stopping a volume leaves no request behind.  Stopping the thread and dropping it
  completes every queued request as cancelled, in order, whether or not the system thread ever ran, and
  a request that arrives later is refused.\<close>

theorem stop_cancels_queued:
  assumes "vt_stop vt = (cs, vt1)"
  shows "cs @ vt_drop vt1 = map (\<lambda>ep. complete_irp (ie_irp ep) STATUS_CANCELLED 0) (vt_queue vt) \<and>
    enqueue vt1 irp wr = (STATUS_CANCELLED, complete_irp irp STATUS_CANCELLED 0, vt1)"
  using assms by (auto simp: vt_stop_def vt_drop_def drain_cancelled_def enqueue_def vt_signal_def Let_def split: if_splits)

theorem stop_cancels_queued_witness:
  "\<exists>cs vt1. vt_stop (vt_start False 0) = (cs, vt1) \<and> cs @ vt_drop vt1 = []"
proof -
  obtain cs vt1 where "vt_stop (vt_start False 0) = (cs, vt1)"
    by fastforce
  then show ?thesis
    using stop_cancels_queued [of "vt_start False 0" cs vt1 "toy_irp MJ_READ 0 512" False] by (simp add: vt_start_def)
qed

text \<open>One turn of the main loop.  If the sweep batch of the turn succeeds, the requests the
  turn completes are those of a plain disk serving them in order, and the data a reader sees afterwards is the
  contents of that disk; the next turn starts from a volume in the same good state.\<close>

theorem thread_turn_refines_plain_disk:
  assumes "sweep_ok K me disk C rng A st" "drv_vol_ok K me C rng A x st v" "vol_synced v"
    "ss = unat (ld_sector_size me)" "off = unat (av_offset_sector v)" "tot = unat (data_sectors v)"
    "\<forall>ep \<in> set (vt_queue vt). entry_ok ss off tot ep"
    "thread_iteration IM v vt (cells, w) = (cs, Inr again, v', vt', cells', w')"
  shows "plain_run ss off tot (vol_view (xts_as_volume_cipher A x) v (disk_sector disk ss w)) cs
      (vol_view (xts_as_volume_cipher A x) v' (disk_sector disk ss w')) \<and>
    drv_vol_ok K me C rng A x st v' \<and> vol_synced v'"
proof -
  let ?init = "\<lparr>ts_vol = v, ts_vt = vt, ts_cipher = None, ts_world = (cells, w), ts_accepted = vt_queue vt, ts_done = []\<rparr>"
  let ?fin = "?init\<lparr>ts_vol := v', ts_vt := vt', ts_world := (cells', w'), ts_done := cs\<rparr>"
  let ?pd0 = "vol_view (xts_as_volume_cipher A x) v (disk_sector disk ss w)"
  have "vt_run IM (entry_ok ss off tot) ?init ?fin"
    using thread_iteration_run [OF run_init, of ?init IM cs again v' vt' "(cells', w')"] assms(8) by simp
  moreover have "sweep.run_inv K me disk C rng A st x off tot ?pd0 ?init"
    unfolding sweep.run_inv_def using assms(1-7) by (simp add: burst_cipher_ok_def plain_run.intros)
  ultimately have "sweep.run_inv K me disk C rng A st x off tot ?pd0 ?fin"
    using sweep.vt_run_inv [where K = K and me = me and disk = disk and C = C and rng = rng and A = A and st = st and x = x]
      assms(4) by simp
  then show ?thesis
    unfolding sweep.run_inv_def using assms(4) by simp
qed

theorem thread_turn_refines_plain_disk_witness:
  "\<exists>cs v' vt' cells' w'. thread_iteration toy_im (toy_volume const_rng 40 Idle) (toy_vt\<lparr>vt_queue := [toy_entry True, toy_entry False]\<rparr>)
      (toy_cells, \<lambda>a. of_nat a) = (cs, Inr False, v', vt', cells', w') \<and> length cs = 2 \<and> vol_synced v'"
proof -
  let ?v = "toy_volume const_rng 40 Idle" and ?vt = "toy_vt\<lparr>vt_queue := [toy_entry True, toy_entry False]\<rparr>"
  obtain cs r v' vt' cells' w' where it: "thread_iteration toy_im ?v ?vt (toy_cells, \<lambda>a. of_nat a) = (cs, r, v', vt', cells', w')"
    using prod_cases6 by blast
  have r: "r = Inr False"
    using it by (auto simp: thread_iteration_def Let_def sweep_step_def progress_step_def toy_volume_def toy_engine_def
        av_cipher_supplier_def split: prod.splits)
  have ss: "512 = unat (ld_sector_size toy_device)"
    by (simp add: toy_device_def ld_new_def)
  have f: "0 = unat (av_offset_sector ?v)" "88 = unat (data_sectors ?v)" "\<forall>ep \<in> set (vt_queue ?vt). entry_ok 512 0 88 ep"
    using toy_entry_ok by simp_all
  have "length (map fst cs) = 2"
    using thread_iteration_queue [OF it] by (simp add: MAX_IRP_BURST_def)
  then show ?thesis
    using thread_turn_refines_plain_disk [OF toy_sweep(2) toy_volume_ok [of 40 const_rng Idle, simplified] ss f it [unfolded r]] it r
    by auto
qed

end
