(* ===== verification/Filter_Manager.thy ===== *)
theory Filter_Manager
  imports Volume_Thread
begin

text \<open>
  Attaching filter devices to volumes and finding them again
  (\<open>lib/windrv/src/filter/manager.rs\<close>), with \<open>wake_for\<close> of \<open>filter/volume_thread.rs\<close>.

  The driver's state is the heap of volumes, the registry, the extensions of its own device
  objects, the requests completed by a teardown, and the world.  The object and I/O manager are a
  parameter: creating, attaching, detaching and deleting device objects, and the device stack.
\<close>


section \<open>State and services\<close>

record 'w drv =
  dr_heap :: "'w vol_heap"
  dr_reg :: registry
  dr_dev :: "device \<Rightarrow> device_extension option"
  dr_completed :: "irp list"
  dr_world :: 'w

text \<open>\<open>ds_ext\<close>: the kind word and the lower pointer as read from the extension of a device of
  another driver, \<open>None\<close> when it has no extension.\<close>

record 'w dev_services =
  ds_create_device :: "'w \<Rightarrow> (ntstatus \<times> device) \<times> 'w"
  ds_device_pointer :: "'w \<Rightarrow> string \<Rightarrow> (ntstatus \<times> device) \<times> 'w"
  ds_attach :: "'w \<Rightarrow> device \<Rightarrow> device \<Rightarrow> (ntstatus \<times> device) \<times> 'w"
  ds_detach :: "'w \<Rightarrow> device \<Rightarrow> 'w"
  ds_delete :: "'w \<Rightarrow> device \<Rightarrow> 'w"
  ds_create_thread :: "'w \<Rightarrow> bool \<times> 'w"
  ds_base_ref :: "'w \<Rightarrow> device \<Rightarrow> device"
  ds_attached_ref :: "'w \<Rightarrow> device \<Rightarrow> device"
  ds_lower :: "'w \<Rightarrow> device \<Rightarrow> device"
  ds_query_name :: "'w \<Rightarrow> device \<Rightarrow> u16 list option"
  ds_ext :: "'w \<Rightarrow> device \<Rightarrow> (u32 \<times> device) option"

type_synonym filter_pair = "device \<times> device"


section \<open>Binding volumes\<close>

text \<open>\<open>volume_thread::bind\<close> on a filter device.\<close>

definition dev_bind :: "'w dev_services \<Rightarrow> device \<Rightarrow> nat \<Rightarrow> 'w drv \<Rightarrow> 'w drv" where
  "dev_bind DS filter_do volume d =
     (case dr_dev d filter_do of
        None \<Rightarrow> d
      | Some ext \<Rightarrow>
          let (created, w1) =
                (if de_vthread ext = None \<and> av_cipher_supplier (dr_heap d ! volume) \<noteq> None
                 then ds_create_thread DS (dr_world d) else (False, dr_world d))
          in d\<lparr>dr_dev := (dr_dev d)(filter_do := Some (bind_volume (dr_heap d) created ext volume)), dr_world := w1\<rparr>)"

definition set_ext_volume :: "device \<Rightarrow> nat option \<Rightarrow> 'w drv \<Rightarrow> 'w drv" where
  "set_ext_volume filter_do v d =
     (case dr_dev d filter_do of
        None \<Rightarrow> d
      | Some ext \<Rightarrow> d\<lparr>dr_dev := (dr_dev d)(filter_do := Some (ext\<lparr>de_volume := v\<rparr>))\<rparr>)"

definition filter_bind_volume :: "'w dev_services \<Rightarrow> device \<Rightarrow> nat \<Rightarrow> 'w drv \<Rightarrow> 'w drv" where
  "filter_bind_volume DS filter_do volume d = dev_bind DS filter_do volume (set_ext_volume filter_do (Some volume) d)"

text \<open>The reference of the old volume is dropped; volumes stay in the heap.\<close>

definition filter_rebind_volume :: "'w dev_services \<Rightarrow> device \<Rightarrow> nat \<Rightarrow> 'w drv \<Rightarrow> 'w drv" where
  "filter_rebind_volume DS filter_do volume d = dev_bind DS filter_do volume (set_ext_volume filter_do (Some volume) d)"

definition wake_for :: "nat \<Rightarrow> 'w drv \<Rightarrow> 'w drv" where
  "wake_for volume d =
     (let filter_do = av_filter_device (dr_heap d ! volume)
      in if filter_do = 0 then d
         else (case dr_dev d filter_do of
                 None \<Rightarrow> d
               | Some ext \<Rightarrow>
                   (case de_vthread ext of
                      None \<Rightarrow> d
                    | Some vt \<Rightarrow> d\<lparr>dr_dev := (dr_dev d)(filter_do := Some (ext\<lparr>de_vthread := Some (vt_signal vt)\<rparr>))\<rparr>)))"


section \<open>Attaching\<close>

text \<open>Creating the device object, resolving the target where it is given by name, attaching.
  On every failure after the creation the new device object is deleted again.\<close>

definition create_and_attach ::
    "'w dev_services \<Rightarrow> string \<Rightarrow> ('w \<Rightarrow> (device vck_result \<times> 'w)) \<Rightarrow> string \<Rightarrow> 'w \<Rightarrow> filter_pair vck_result \<times> 'w" where
  "create_and_attach DS create_msg resolve attach_msg w =
     (case ds_create_device DS w of
        ((status, filter_do), w1) \<Rightarrow>
          if \<not> nt_success status then (Inl (Io create_msg), w1)
          else (case resolve w1 of
                  (Inl e, w2) \<Rightarrow> (Inl e, ds_delete DS w2 filter_do)
                | (Inr target_do, w2) \<Rightarrow>
                    (case ds_attach DS w2 filter_do target_do of
                       ((status, lower), w3) \<Rightarrow>
                         if \<not> nt_success status \<or> lower = 0 then (Inl (Io attach_msg), ds_delete DS w3 filter_do)
                         else (Inr (filter_do, lower), w3))))"

definition resolve_name :: "'w dev_services \<Rightarrow> string \<Rightarrow> string \<Rightarrow> 'w \<Rightarrow> device vck_result \<times> 'w" where
  "resolve_name DS path msg w =
     (case ds_device_pointer DS w path of
        ((status, target), w1) \<Rightarrow> (if nt_success status then Inr target else Inl (Io msg), w1))"

definition filter_ext :: "device \<Rightarrow> nat option \<Rightarrow> device_extension" where
  "filter_ext lower v = \<lparr>de_kind = DEVICE_KIND_FILTER, de_lower_device = lower, de_volume = v, de_vthread = None\<rparr>"

definition install_filter ::
    "'w dev_services \<Rightarrow> nat option \<Rightarrow> filter_pair vck_result \<times> 'w \<Rightarrow> 'w drv \<Rightarrow> filter_pair vck_result \<times> 'w drv" where
  "install_filter DS volume rw d =
     (case rw of
        (Inl e, w) \<Rightarrow> (Inl e, d\<lparr>dr_world := w\<rparr>)
      | (Inr (filter_do, lower), w) \<Rightarrow>
          let d1 = d\<lparr>dr_dev := (dr_dev d)(filter_do := Some (filter_ext lower volume)), dr_world := w\<rparr>
          in (Inr (filter_do, lower), case volume of Some v \<Rightarrow> dev_bind DS filter_do v d1 | None \<Rightarrow> d1))"

definition attach_filter ::
    "'w dev_services \<Rightarrow> string \<Rightarrow> nat \<Rightarrow> 'w drv \<Rightarrow> filter_pair vck_result \<times> 'w drv" where
  "attach_filter DS target_nt_path volume d =
     install_filter DS (Some volume)
       (create_and_attach DS ''IoCreateDevice(filter) failed''
          (resolve_name DS target_nt_path ''IoGetDeviceObjectPointer(target) failed'')
          ''IoAttachDeviceToDeviceStackSafe failed'' (dr_world d)) d"

definition attach_filter_unbound ::
    "'w dev_services \<Rightarrow> string \<Rightarrow> 'w drv \<Rightarrow> filter_pair vck_result \<times> 'w drv" where
  "attach_filter_unbound DS target_nt_path d =
     install_filter DS None
       (create_and_attach DS ''IoCreateDevice(filter) failed''
          (resolve_name DS target_nt_path ''IoGetDeviceObjectPointer(unbound) failed'')
          ''IoAttachDeviceToDeviceStackSafe(unbound) failed'' (dr_world d)) d"

definition attach_filter_to_raw_device ::
    "'w dev_services \<Rightarrow> device \<Rightarrow> 'w drv \<Rightarrow> filter_pair vck_result \<times> 'w drv" where
  "attach_filter_to_raw_device DS target_do d =
     install_filter DS None
       (create_and_attach DS ''IoCreateDevice(filter-raw) failed'' (\<lambda>w. (Inr target_do, w))
          ''IoAttachDeviceToDeviceStackSafe(raw) failed'' (dr_world d)) d"

definition attach_filter_to_device ::
    "'w dev_services \<Rightarrow> device \<Rightarrow> nat \<Rightarrow> 'w drv \<Rightarrow> filter_pair vck_result \<times> 'w drv" where
  "attach_filter_to_device DS target_do volume d =
     install_filter DS (Some volume)
       (create_and_attach DS ''IoCreateDevice(filter) failed'' (\<lambda>w. (Inr target_do, w))
          ''IoAttachDeviceToDeviceStackSafe(device) failed'' (dr_world d)) d"


section \<open>Tearing down\<close>

text \<open>Stopping and dropping the thread of an extension; gives the cancelled requests.\<close>

definition stop_thread :: "device_extension \<Rightarrow> irp list \<times> device_extension" where
  "stop_thread ext =
     (case de_vthread ext of
        None \<Rightarrow> ([], ext)
      | Some vt \<Rightarrow> let (cs, vt1) = vt_stop vt in (cs @ vt_drop vt1, ext\<lparr>de_vthread := None\<rparr>))"

definition unbind_filter :: "device \<Rightarrow> 'w drv \<Rightarrow> 'w drv" where
  "unbind_filter filter_do d =
     (if filter_do = 0 then d
      else (case dr_dev d filter_do of
              None \<Rightarrow> d
            | Some ext \<Rightarrow>
                let (cs, ext1) = stop_thread ext
                in d\<lparr>dr_dev := (dr_dev d)(filter_do := Some (ext1\<lparr>de_volume := None\<rparr>)), dr_completed := dr_completed d @ cs\<rparr>))"

definition detach_filter :: "'w dev_services \<Rightarrow> device \<Rightarrow> 'w drv \<Rightarrow> 'w drv" where
  "detach_filter DS filter_do d =
     (if filter_do = 0 then d
      else (case dr_dev d filter_do of
              None \<Rightarrow> d
            | Some ext \<Rightarrow>
                let (cs, ext1) = stop_thread ext;
                    w1 = (if de_lower_device ext1 \<noteq> 0 then ds_detach DS (dr_world d) (de_lower_device ext1) else dr_world d)
                in d\<lparr>dr_dev := (dr_dev d)(filter_do := None), dr_completed := dr_completed d @ cs,
                     dr_world := ds_delete DS w1 filter_do\<rparr>))"


section \<open>Finding a filter\<close>

definition ext_words :: "'w dev_services \<Rightarrow> 'w drv \<Rightarrow> device \<Rightarrow> (u32 \<times> device) option" where
  "ext_words DS d dev =
     (case dr_dev d dev of
        Some ext \<Rightarrow> Some (de_kind ext, de_lower_device ext)
      | None \<Rightarrow> ds_ext DS (dr_world d) dev)"

text \<open>The walk looks at no more than the top 13 devices of the stack.\<close>

primrec stack_walk :: "'w dev_services \<Rightarrow> 'w drv \<Rightarrow> nat \<Rightarrow> device \<Rightarrow> filter_pair option" where
  "stack_walk DS d 0 current = None"
| "stack_walk DS d (Suc n) current =
     (case ext_words DS d current of
        Some (kind, lower) \<Rightarrow>
          if kind = DEVICE_KIND_FILTER then Some (current, lower)
          else let nxt = ds_lower DS (dr_world d) current in if nxt = 0 then None else stack_walk DS d n nxt
      | None \<Rightarrow> let nxt = ds_lower DS (dr_world d) current in if nxt = 0 then None else stack_walk DS d n nxt)"

definition find_our_filter_in_stack :: "'w dev_services \<Rightarrow> string \<Rightarrow> 'w drv \<Rightarrow> filter_pair option \<times> 'w drv" where
  "find_our_filter_in_stack DS nt_path d =
     (case ds_device_pointer DS (dr_world d) nt_path of
        ((status, vol_do), w1) \<Rightarrow>
          let d1 = d\<lparr>dr_world := w1\<rparr>
          in if \<not> nt_success status \<or> vol_do = 0 then (None, d1)
             else let top_do = ds_attached_ref DS w1 vol_do
                  in if top_do = 0 then (None, d1) else (stack_walk DS d1 13 top_do, d1))"

text \<open>The name of a device object, at most 64 characters, non-printable ones replaced.\<close>

definition device_name_string :: "u16 list option \<Rightarrow> string" where
  "device_name_string name =
     (case name of
        None \<Rightarrow> []
      | Some cs \<Rightarrow> map (\<lambda>c. if 0x20 \<le> c \<and> c < 0x7F then char_of (unat c) else CHR ''?'') (take 64 cs))"

text \<open>The first of several lookups that succeeds.\<close>

primrec first_some :: "'a option list \<Rightarrow> 'a option" where
  "first_some [] = None"
| "first_some (x # xs) = (case x of Some y \<Rightarrow> Some y | None \<Rightarrow> first_some xs)"

definition find_filter_for_volume ::
    "'w dev_services \<Rightarrow> string \<Rightarrow> (device \<Rightarrow> filter_pair option) \<Rightarrow> (string \<Rightarrow> filter_pair option) \<Rightarrow> 'w drv
      \<Rightarrow> filter_pair option \<times> 'w drv" where
  "find_filter_for_volume DS nt_path lookup_fn name_lookup_fn d =
     (case ds_device_pointer DS (dr_world d) nt_path of
        ((status, vol_do), w1) \<Rightarrow>
          let d1 = d\<lparr>dr_world := w1\<rparr>
          in if \<not> nt_success status \<or> vol_do = 0 then (None, d1)
             else let base_dev = ds_base_ref DS w1 vol_do;
                      dev_name = device_name_string (ds_query_name DS w1 vol_do);
                      top_dev = ds_attached_ref DS w1 vol_do;
                      found = first_some
                        [if dev_name \<noteq> [] then name_lookup_fn dev_name else None,
                         name_lookup_fn nt_path,
                         if base_dev \<noteq> 0 then lookup_fn base_dev else None,
                         lookup_fn vol_do,
                         if top_dev \<noteq> 0 then lookup_fn top_dev else None]
                  in (case found of
                        Some r \<Rightarrow> (Some r, d1)
                      | None \<Rightarrow> find_our_filter_in_stack DS nt_path d1))"

text \<open>The lookup with the two functions of the registry, as all callers use it.\<close>

definition find_filter :: "'w dev_services \<Rightarrow> string \<Rightarrow> 'w drv \<Rightarrow> filter_pair option \<times> 'w drv" where
  "find_filter DS nt_path d =
     find_filter_for_volume DS nt_path (\<lambda>dev. find_pdo_filter dev (dr_reg d)) (\<lambda>name. find_pdo_filter_by_name name (dr_reg d)) d"


section \<open>Device objects in use\<close>

text \<open>What the object manager promises, with \<open>live\<close> the driver's device objects that exist: a
  successful creation gives a new one, a deletion removes it, nothing else changes them.\<close>

definition ds_ok :: "'w dev_services \<Rightarrow> ('w \<Rightarrow> device set) \<Rightarrow> bool" where
  "ds_ok DS live \<longleftrightarrow>
     (\<forall>w s dv w1. ds_create_device DS w = ((s, dv), w1) \<longrightarrow>
        (if nt_success s then dv \<noteq> 0 \<and> dv \<notin> live w \<and> live w1 = insert dv (live w) else live w1 = live w)) \<and>
     (\<forall>w p. live (snd (ds_device_pointer DS w p)) = live w) \<and>
     (\<forall>w f t. live (snd (ds_attach DS w f t)) = live w) \<and>
     (\<forall>w f. live (ds_detach DS w f) = live w) \<and>
     (\<forall>w f. live (ds_delete DS w f) = live w - {f}) \<and>
     (\<forall>w. live (snd (ds_create_thread DS w)) = live w)"

text \<open>The driver has an extension for exactly the device objects that exist.\<close>

definition ledger :: "('w \<Rightarrow> device set) \<Rightarrow> 'w drv \<Rightarrow> bool" where
  "ledger live d \<longleftrightarrow> dom (dr_dev d) = live (dr_world d) \<and> dr_dev d 0 = None"

lemma ds_create:
  assumes "ds_ok DS live" "ds_create_device DS w = ((s, dv), w1)"
  shows "nt_success s \<Longrightarrow> dv \<noteq> 0 \<and> dv \<notin> live w \<and> live w1 = insert dv (live w)"
    "\<not> nt_success s \<Longrightarrow> live w1 = live w"
  using assms(1) [unfolded ds_ok_def, THEN conjunct1, rule_format, OF assms(2)] by simp_all

lemma ds_keep:
  assumes "ds_ok DS live"
  shows "live (snd (ds_device_pointer DS w p)) = live w" "live (snd (ds_attach DS w f t)) = live w"
    "live (ds_detach DS w f) = live w" "live (ds_delete DS w f) = live w - {f}"
    "live (snd (ds_create_thread DS w)) = live w"
  using assms unfolding ds_ok_def by auto

text \<open>A target is resolved without touching the driver's devices.\<close>

definition keeps_live :: "('w \<Rightarrow> device set) \<Rightarrow> ('w \<Rightarrow> 'a \<times> 'w) \<Rightarrow> bool" where
  "keeps_live live f \<longleftrightarrow> (\<forall>w. live (snd (f w)) = live w)"

lemma keeps_live_given [simp]: "keeps_live live (\<lambda>w. (r, w))"
  by (simp add: keeps_live_def)

lemma keeps_live_name: "ds_ok DS live \<Longrightarrow> keeps_live live (resolve_name DS p m)"
  using ds_keep(1) [of DS live _ p] by (simp add: keeps_live_def resolve_name_def split_beta)

lemma create_and_attach_live:
  assumes "ds_ok DS live" "keeps_live live resolve" "create_and_attach DS m1 resolve m2 w = (r, w1)"
  shows "case r of Inl e \<Rightarrow> live w1 = live w
    | Inr (f, lower) \<Rightarrow> f \<noteq> 0 \<and> lower \<noteq> 0 \<and> f \<notin> live w \<and> live w1 = insert f (live w)"
proof -
  obtain s f wc where c: "ds_create_device DS w = ((s, f), wc)"
    by (metis surj_pair)
  show ?thesis
  proof (cases "nt_success s")
    case True
    note cr = ds_create(1) [OF assms(1) c True]
    obtain t wt where t: "resolve wc = (t, wt)"
      by fastforce
    have lt: "live wt = insert f (live w)"
      using assms(2) t cr unfolding keeps_live_def by (metis snd_conv)
    show ?thesis
    proof (cases t)
      case (Inl e)
      then show ?thesis
        using assms(3) c t True cr lt ds_keep(4) [OF assms(1)] by (auto simp: create_and_attach_def)
    next
      case (Inr target)
      obtain s2 lower wa where a: "ds_attach DS wt f target = ((s2, lower), wa)"
        by (metis surj_pair)
      have "live wa = insert f (live w)"
        using ds_keep(2) [OF assms(1), of wt f target] a lt by simp
      then show ?thesis
        using assms(3) c t Inr True cr a ds_keep(4) [OF assms(1)] by (auto simp: create_and_attach_def split: if_splits)
    qed
  next
    case False
    then show ?thesis
      using assms(3) c ds_create(2) [OF assms(1) c] by (auto simp: create_and_attach_def)
  qed
qed

lemma dev_bind_at:
  assumes "dr_dev d f = Some ext"
  shows "\<exists>created w1. dev_bind DS f v d =
      d\<lparr>dr_dev := (dr_dev d)(f := Some (bind_volume (dr_heap d) created ext v)), dr_world := w1\<rparr> \<and>
      (w1 = dr_world d \<or> w1 = snd (ds_create_thread DS (dr_world d)))"
proof (cases "de_vthread ext = None \<and> av_cipher_supplier (dr_heap d ! v) \<noteq> None")
  case True
  then show ?thesis
    using assms by (intro exI [of _ "fst (ds_create_thread DS (dr_world d))"] exI [of _ "snd (ds_create_thread DS (dr_world d))"])
      (simp add: dev_bind_def split_beta)
next
  case False
  then show ?thesis
    using assms by (intro exI [of _ False] exI [of _ "dr_world d"]) (auto simp: dev_bind_def)
qed

lemma bind_volume_simps [simp]:
  "de_lower_device (bind_volume h created ext v) = de_lower_device ext"
  "de_volume (bind_volume h created ext v) = de_volume ext"
  "de_kind (bind_volume h created ext v) = de_kind ext"
  by (auto simp: bind_volume_def split: option.splits)

text \<open>What installing a filter leaves behind, for all four ways to attach.\<close>

lemma install_filter_result:
  assumes "ds_ok DS live" "ledger live d" "keeps_live live resolve"
    "install_filter DS vo (create_and_attach DS m1 resolve m2 (dr_world d)) d = (r, d1)"
  shows "ledger live d1 \<and> dr_reg d1 = dr_reg d \<and> dr_heap d1 = dr_heap d \<and> dr_completed d1 = dr_completed d \<and>
    (case r of Inl e \<Rightarrow> dr_dev d1 = dr_dev d
     | Inr (f, lower) \<Rightarrow> f \<noteq> 0 \<and> lower \<noteq> 0 \<and> dr_dev d f = None \<and>
         (\<exists>ext. dr_dev d1 = (dr_dev d)(f \<mapsto> ext) \<and> de_kind ext = DEVICE_KIND_FILTER \<and> de_lower_device ext = lower \<and>
            de_volume ext = vo))"
proof -
  obtain a w1 where ca: "create_and_attach DS m1 resolve m2 (dr_world d) = (a, w1)"
    by fastforce
  note cl = create_and_attach_live [OF assms(1,3) ca]
  show ?thesis
  proof (cases a)
    case (Inl e)
    then show ?thesis
      using assms(2,4) ca cl by (clarsimp simp: install_filter_def ledger_def)
  next
    case (Inr fl)
    obtain f lower where fl: "fl = (f, lower)"
      by fastforce
    let ?d = "d\<lparr>dr_dev := (dr_dev d)(f := Some (filter_ext lower vo)), dr_world := w1\<rparr>"
    have cl': "f \<noteq> 0" "lower \<noteq> 0" "f \<notin> live (dr_world d)" "live w1 = insert f (live (dr_world d))"
      using cl Inr fl by auto
    have none: "dr_dev d f = None" "dr_dev d 0 = None" "dom (dr_dev d) = live (dr_world d)"
      using assms(2) cl'(3) unfolding ledger_def by auto
    show ?thesis
    proof (cases vo)
      case None
      then show ?thesis
        using assms(4) ca Inr fl cl' none
        by (clarsimp simp: install_filter_def ledger_def filter_ext_def Let_def) (intro exI conjI, rule refl, simp_all)
    next
      case (Some v)
      have e: "dr_dev ?d f = Some (filter_ext lower vo)"
        by simp
      obtain created w2 where b: "dev_bind DS f v ?d =
          ?d\<lparr>dr_dev := (dr_dev ?d)(f := Some (bind_volume (dr_heap ?d) created (filter_ext lower vo) v)), dr_world := w2\<rparr>"
        "w2 = dr_world ?d \<or> w2 = snd (ds_create_thread DS (dr_world ?d))"
        using dev_bind_at [OF e, of DS v] by blast
      have "live w2 = live w1"
        using b(2) ds_keep(5) [OF assms(1)] by auto
      moreover have "r = Inr (f, lower)" "d1 = dev_bind DS f v ?d"
        using assms(4) ca Inr fl Some by (auto simp: install_filter_def Let_def)
      ultimately show ?thesis
        using b(1) cl' none Some
        by (simp add: ledger_def filter_ext_def) (intro exI conjI, rule refl, simp_all)
    qed
  qed
qed

lemma detach_filter_dev:
  "dr_dev d f = Some ext \<Longrightarrow> f \<noteq> 0 \<Longrightarrow> dr_dev (detach_filter DS f d) = (dr_dev d)(f := None)"
  by (auto simp: detach_filter_def Let_def split: prod.splits)

lemma detach_filter_ledger:
  assumes "ds_ok DS live" "ledger live d"
  shows "ledger live (detach_filter DS f d)"
  using assms ds_keep [OF assms(1)]
  by (cases "dr_dev d f") (auto simp: detach_filter_def ledger_def Let_def split: prod.splits)

lemma stop_thread_result:
  "stop_thread ext = (cs, ext1) \<Longrightarrow> ext1 = ext\<lparr>de_vthread := None\<rparr> \<and>
    cs = (case de_vthread ext of None \<Rightarrow> [] | Some vt \<Rightarrow> drain_cancelled (vt_queue vt))"
  by (auto simp: stop_thread_def vt_stop_def vt_drop_def vt_signal_def drain_cancelled_def Let_def
      split: option.splits if_splits)

lemma detach_filter_completed:
  "dr_dev d f = Some ext \<Longrightarrow> f \<noteq> 0 \<Longrightarrow> dr_completed (detach_filter DS f d) =
    dr_completed d @ (case de_vthread ext of None \<Rightarrow> [] | Some vt \<Rightarrow> drain_cancelled (vt_queue vt))"
  by (auto simp: detach_filter_def Let_def split: prod.splits dest: stop_thread_result)

lemma unbind_filter_dev:
  "dr_dev d f = Some ext \<Longrightarrow> f \<noteq> 0 \<Longrightarrow> unbind_filter f d =
    d\<lparr>dr_dev := (dr_dev d)(f := Some (ext\<lparr>de_vthread := None, de_volume := None\<rparr>)),
      dr_completed := dr_completed d @ (case de_vthread ext of None \<Rightarrow> [] | Some vt \<Rightarrow> drain_cancelled (vt_queue vt))\<rparr>"
  by (auto simp: unbind_filter_def Let_def split: prod.splits dest: stop_thread_result)

lemma unbound_passes_through:
  "irp_major irp \<noteq> MJ_PNP \<Longrightarrow> de_volume ext = None \<Longrightarrow>
    handle_filter_irp IM h ext irp w = (case pass_through IM (de_lower_device ext) irp w of (s, out, w1) \<Rightarrow> (s, out, ext, w1))"
  by (simp add: handle_filter_irp_def Let_def)


section \<open>The stack walk\<close>

lemma stack_walk_numeral:
  "stack_walk DS d (numeral k) current =
     (case ext_words DS d current of
        Some (kind, lower) \<Rightarrow>
          if kind = DEVICE_KIND_FILTER then Some (current, lower)
          else let nxt = ds_lower DS (dr_world d) current in if nxt = 0 then None else stack_walk DS d (pred_numeral k) nxt
      | None \<Rightarrow> let nxt = ds_lower DS (dr_world d) current in if nxt = 0 then None else stack_walk DS d (pred_numeral k) nxt)"
  by (simp add: numeral_eq_Suc)

text \<open>The devices of a stack from one device down, at most \<open>n\<close> of them.\<close>

primrec stack_from :: "'w dev_services \<Rightarrow> 'w \<Rightarrow> nat \<Rightarrow> device \<Rightarrow> device list" where
  "stack_from DS w 0 dev = []"
| "stack_from DS w (Suc n) dev =
     dev # (let nxt = ds_lower DS w dev in if nxt = 0 then [] else stack_from DS w n nxt)"

definition marked_filter :: "'w dev_services \<Rightarrow> 'w drv \<Rightarrow> device \<Rightarrow> bool" where
  "marked_filter DS d dev \<longleftrightarrow> map_option fst (ext_words DS d dev) = Some DEVICE_KIND_FILTER"

lemma stack_walk_find:
  "stack_walk DS d n dev =
    map_option (\<lambda>x. (x, snd (the (ext_words DS d x)))) (find (marked_filter DS d) (stack_from DS (dr_world d) n dev))"
  by (induction n arbitrary: dev) (auto simp: marked_filter_def Let_def split: option.splits)



section \<open>A small object manager\<close>

text \<open>A list of the device objects in use is a part of the world; there is room for one device
  object, number 7.  The stack has device 5 on top and device 9 of another driver below it, whose extension
  starts with the given word.\<close>

definition toy_services :: "('w \<Rightarrow> device list) \<Rightarrow> (device list \<Rightarrow> 'w \<Rightarrow> 'w) \<Rightarrow> u32 \<Rightarrow> 'w dev_services" where
  "toy_services used set_used word =
     \<lparr>ds_create_device = (\<lambda>w. if 7 \<in> set (used w) then ((STATUS_UNSUCCESSFUL, 0), w) else ((0, 7), set_used (7 # used w) w)),
      ds_device_pointer = (\<lambda>w p. ((0, 5), w)), ds_attach = (\<lambda>w f t. ((0, t), w)),
      ds_detach = (\<lambda>w f. w), ds_delete = (\<lambda>w f. set_used (filter (\<lambda>x. x \<noteq> f) (used w)) w),
      ds_create_thread = (\<lambda>w. (True, w)), ds_base_ref = (\<lambda>w f. f), ds_attached_ref = (\<lambda>w f. f),
      ds_lower = (\<lambda>w f. if f = 5 then 9 else 0), ds_query_name = (\<lambda>w f. None),
      ds_ext = (\<lambda>w f. if f = 9 then Some (word, 0) else None)\<rparr>"

abbreviation list_services :: "u32 \<Rightarrow> device list dev_services" where
  "list_services \<equiv> toy_services (\<lambda>w. w) (\<lambda>l w. l)"

definition toy_drv :: "'w vol_heap \<Rightarrow> 'w \<Rightarrow> 'w drv" where
  "toy_drv h w = \<lparr>dr_heap = h, dr_reg = registry_new, dr_dev = Map.empty, dr_completed = [], dr_world = w\<rparr>"

lemma toy_services_ok: "ds_ok (list_services word) set"
  by (auto simp: ds_ok_def toy_services_def nt_success_def STATUS_UNSUCCESSFUL_def)

lemma toy_ledger: "ledger set (toy_drv h [])"
  by (simp add: ledger_def toy_drv_def)


section \<open>Properties\<close>

text \<open>C26: no device object is leaked.  However a filter is attached, a failure leaves the driver
  with the device objects it had, and a success adds exactly the new filter device, with the lower device
  and the volume it was asked for; detaching it again restores the table of device objects.  In every case
  the driver has an extension for exactly the device objects that exist.\<close>

theorem attach_detach_no_leak:
  assumes "ds_ok DS live" "ledger live d"
    "(vo, op) \<in> {(Some v, attach_filter DS path v), (None, attach_filter_unbound DS path),
       (None, attach_filter_to_raw_device DS target), (Some v, attach_filter_to_device DS target v)}"
    "op d = (r, d1)"
  shows "ledger live d1 \<and> dr_reg d1 = dr_reg d \<and> dr_completed d1 = dr_completed d \<and>
    (case r of
       Inl e \<Rightarrow> dr_dev d1 = dr_dev d
     | Inr (f, lower) \<Rightarrow>
         dr_dev d f = None \<and>
         (\<exists>ext. dr_dev d1 = (dr_dev d)(f \<mapsto> ext) \<and> de_lower_device ext = lower \<and> lower \<noteq> 0 \<and> de_volume ext = vo) \<and>
         dr_dev (detach_filter DS f d1) = dr_dev d \<and> ledger live (detach_filter DS f d1))"
proof -
  have "\<exists>m1 m2 resolve. keeps_live live resolve \<and>
      op d = install_filter DS vo (create_and_attach DS m1 resolve m2 (dr_world d)) d"
    using assms(3) unfolding insert_iff empty_iff prod.inject
  proof (elim disjE conjE FalseE)
  qed (simp_all only: attach_filter_def attach_filter_unbound_def attach_filter_to_raw_device_def attach_filter_to_device_def,
      (intro exI conjI, rule keeps_live_name [OF assms(1)] keeps_live_given, rule refl)+)
  then obtain m1 m2 resolve where res: "keeps_live live resolve"
    "install_filter DS vo (create_and_attach DS m1 resolve m2 (dr_world d)) d = (r, d1)"
    using assms(4) by metis
  note inst = install_filter_result [OF assms(1,2) res]
  have undo: "dr_dev (detach_filter DS f d1) = dr_dev d"
    if "dr_dev d1 = (dr_dev d)(f \<mapsto> ext)" "f \<noteq> 0" "dr_dev d f = None" for f ext
    using detach_filter_dev [of d1 f ext DS] that by (auto simp: fun_eq_iff)
  show ?thesis
  proof (cases r)
    case (Inl e)
    then show ?thesis
      using inst by simp
  next
    case (Inr fl)
    obtain f lower where fl: "fl = (f, lower)"
      by fastforce
    obtain ext where i: "f \<noteq> 0" "lower \<noteq> 0" "dr_dev d f = None" "dr_dev d1 = (dr_dev d)(f \<mapsto> ext)" "de_lower_device ext = lower"
      "de_volume ext = vo" "ledger live d1" "dr_reg d1 = dr_reg d" "dr_completed d1 = dr_completed d"
      using inst Inr fl by auto
    then show ?thesis
      using undo [OF i(4,1,3)] detach_filter_ledger [OF assms(1) i(7)] Inr fl by auto
  qed
qed

theorem attach_detach_no_leak_witness:
  "\<exists>f lower d1. attach_filter_unbound (list_services 0) ''C:'' (toy_drv [] []) = (Inr (f, lower), d1) \<and>
    dr_dev (detach_filter (list_services 0) f d1) = Map.empty"
proof -
  obtain r d1 where a: "attach_filter_unbound (list_services 0) ''C:'' (toy_drv ([] :: device list vol_heap) []) = (r, d1)"
    by fastforce
  then obtain f lower where r: "r = Inr (f, lower)"
    by (auto simp: attach_filter_unbound_def create_and_attach_def resolve_name_def install_filter_def toy_services_def toy_drv_def
        nt_success_def Let_def)
  show ?thesis
    using attach_detach_no_leak [OF toy_services_ok toy_ledger, where op = "attach_filter_unbound (list_services 0) ''C:''" and
        vo = None and v = 0 and path = "''C:''" and target = 0] a r
    by (fastforce simp: toy_drv_def)
qed

text \<open>C28: a data volume can be taken off and put back without a reboot.  Unbinding a filter
  completes every queued request as cancelled, after which the filter passes every request but those of
  plug and play to the same lower device unchanged; binding another volume makes the filter serve that
  volume, with a fresh thread if the volume has a cipher.\<close>

theorem unbind_then_rebind:
  assumes "dr_dev d f = Some ext" "f \<noteq> 0" "d1 = unbind_filter f d" "dr_dev d1 f = Some ext1"
  shows "dr_completed d1 = dr_completed d @
      (case de_vthread ext of None \<Rightarrow> [] | Some vt \<Rightarrow> map (\<lambda>ep. complete_irp (ie_irp ep) STATUS_CANCELLED 0) (vt_queue vt)) \<and>
    (irp_major irp \<noteq> MJ_PNP \<longrightarrow> handle_filter_irp IM (dr_heap d1) ext1 irp w =
       (case im_call_driver IM w (de_lower_device ext) irp of (s, irp1, w1) \<Rightarrow> (s, Forwarded irp1, ext1, w1))) \<and>
    (\<exists>ext2. dr_dev (filter_bind_volume DS f v d1) f = Some ext2 \<and> de_lower_device ext2 = de_lower_device ext \<and>
       de_volume ext2 = Some v \<and>
       (if av_cipher_supplier (dr_heap d ! v) = None then de_vthread ext2 = None
        else \<exists>vt. de_vthread ext2 = Some vt \<and> vt_current vt = v \<and> vt_queue vt = [] \<and> \<not> vt_shutdown vt))"
proof -
  note u = unbind_filter_dev [OF assms(1,2)]
  have e1: "ext1 = ext\<lparr>de_vthread := None, de_volume := None\<rparr>" and h: "dr_heap d1 = dr_heap d"
    using assms(3,4) u by auto
  have pt: "handle_filter_irp IM (dr_heap d1) ext1 irp w =
      (case im_call_driver IM w (de_lower_device ext) irp of (s, irp1, w1) \<Rightarrow> (s, Forwarded irp1, ext1, w1))"
    if "irp_major irp \<noteq> MJ_PNP"
    using unbound_passes_through [OF that, of ext1] e1 by (simp add: pass_through_def split_beta)
  let ?d2 = "set_ext_volume f (Some v) d1"
  have s: "dr_dev ?d2 f = Some (ext1\<lparr>de_volume := Some v\<rparr>)" "dr_heap ?d2 = dr_heap d"
    using assms(4) h by (simp_all add: set_ext_volume_def)
  obtain created w1 where b: "dr_dev (filter_bind_volume DS f v d1) f =
      Some (bind_volume (dr_heap d) created (ext1\<lparr>de_volume := Some v\<rparr>) v)"
    using dev_bind_at [OF s(1), of DS v] s(2) by (auto simp: filter_bind_volume_def)
  have c: "dr_completed d1 = dr_completed d @
      (case de_vthread ext of None \<Rightarrow> [] | Some vt \<Rightarrow> map (\<lambda>ep. complete_irp (ie_irp ep) STATUS_CANCELLED 0) (vt_queue vt))"
    using assms(3) u by (simp add: drain_cancelled_def split: option.splits)
  let ?ext2 = "bind_volume (dr_heap d) created (ext1\<lparr>de_volume := Some v\<rparr>) v"
  have "de_lower_device ?ext2 = de_lower_device ext" "de_volume ?ext2 = Some v"
    "if av_cipher_supplier (dr_heap d ! v) = None then de_vthread ?ext2 = None
     else \<exists>vt. de_vthread ?ext2 = Some vt \<and> vt_current vt = v \<and> vt_queue vt = [] \<and> \<not> vt_shutdown vt"
    using e1 by (auto simp: bind_volume_def vt_start_def)
  then show ?thesis
    using c pt b by blast
qed

theorem unbind_then_rebind_witness:
  "\<exists>(d :: (jvck_cells \<times> (nat \<Rightarrow> byte)) drv) ext2. dr_dev (filter_bind_volume (toy_services (\<lambda>w. []) (\<lambda>l w. w) 0) 7 0 (unbind_filter 7 d)) 7 = Some ext2 \<and>
    dr_dev d 7 \<noteq> None \<and> de_lower_device ext2 = 5 \<and> de_volume ext2 = Some 0 \<and> de_vthread ext2 \<noteq> None"
proof -
  let ?d = "(toy_drv [toy_volume None 0 Idle] (toy_cells, \<lambda>a. 0))\<lparr>dr_dev := [7 \<mapsto> filter_ext 5 (Some 0)]\<rparr>"
  have f: "dr_dev ?d 7 = Some (filter_ext 5 (Some 0))" "(7 :: device) \<noteq> 0"
    by (simp_all add: toy_drv_def)
  obtain ext1 where e1: "dr_dev (unbind_filter 7 ?d) 7 = Some ext1"
    using unbind_filter_dev [OF f] by simp
  have "av_cipher_supplier (dr_heap ?d ! 0) \<noteq> None"
    by (simp add: toy_drv_def toy_volume_def av_cipher_supplier_def)
  then show ?thesis
    using unbind_then_rebind [OF f refl e1, where v = 0 and DS = "toy_services (\<lambda>w. []) (\<lambda>l w. w) 0"
        and irp = "toy_irp MJ_READ 0 512" and IM = toy_im and w = "(toy_cells, \<lambda>a. 0)"] f
    by (intro exI [of _ ?d]) (auto simp: filter_ext_def)
qed

text \<open>The last resort of the filter lookup.  Walking the device stack finds the first of the
  top 13 devices whose extension starts with the filter mark, and gives up when there is none.\<close>

theorem stack_walk_finds_first:
  "fst (find_our_filter_in_stack DS path d) =
     (case ds_device_pointer DS (dr_world d) path of
        ((status, vol_do), w1) \<Rightarrow>
          if nt_success status \<and> vol_do \<noteq> 0 \<and> ds_attached_ref DS w1 vol_do \<noteq> 0
          then map_option (\<lambda>x. (x, snd (the (ext_words DS (d\<lparr>dr_world := w1\<rparr>) x))))
                 (find (marked_filter DS (d\<lparr>dr_world := w1\<rparr>)) (stack_from DS w1 13 (ds_attached_ref DS w1 vol_do)))
          else None)"
  by (simp add: find_our_filter_in_stack_def stack_walk_find Let_def del: stack_from.simps split: prod.splits)

text \<open>The walk does not check whose device it looks at.  With no filter device of this driver
  anywhere, a device of another driver in the stack is returned as this driver's filter exactly when the
  first word of its extension is 1.\<close>

theorem foreign_device_taken_for_filter:
  "fst (find_our_filter_in_stack (toy_services used set_used word) path (toy_drv h w)) = (if word = 1 then Some (9, 0) else None)"
  by (simp add: find_our_filter_in_stack_def toy_services_def toy_drv_def stack_walk_numeral ext_words_def DEVICE_KIND_FILTER_def
      nt_success_def Let_def)

end
