(* ===== verification/Ioctl_Codes.thy ===== *)
theory Ioctl_Codes
  imports Vck_Common
begin

text \<open>
  Device control codes: the \<open>CTL_CODE\<close> layout of \<open>lib/common/src/ioctl.rs\<close> and the
  codes of \<open>lib/windrv/src/ioctl/codes.rs\<close>; the caller of a control request
  (\<open>RequestorMode\<close>, \<open>AccessToken\<close> and \<open>IoctlAuthContext\<close> of
  \<open>lib/windrv/src/provider.rs\<close>).
\<close>

unbundle bit_operations_syntax


section \<open>Layout\<close>

definition METHOD_BUFFERED :: u32 where "METHOD_BUFFERED = 0"
definition METHOD_IN_DIRECT :: u32 where "METHOD_IN_DIRECT = 1"
definition METHOD_OUT_DIRECT :: u32 where "METHOD_OUT_DIRECT = 2"
definition METHOD_NEITHER :: u32 where "METHOD_NEITHER = 3"
definition FILE_ANY_ACCESS :: u32 where "FILE_ANY_ACCESS = 0"
definition FILE_READ_ACCESS :: u32 where "FILE_READ_ACCESS = 1"
definition FILE_WRITE_ACCESS :: u32 where "FILE_WRITE_ACCESS = 2"
definition FILE_DEVICE_VCK :: u32 where "FILE_DEVICE_VCK = 0x22"

definition ctl_code :: "u32 \<Rightarrow> u32 \<Rightarrow> u32 \<Rightarrow> u32 \<Rightarrow> u32" where
  "ctl_code device_type function method access =
     push_bit 16 device_type OR push_bit 14 access OR push_bit 2 function OR method"


lemma bit_bound:
  fixes x :: u32
  assumes "unat x < 2 ^ k" "bit x n"
  shows "n < k"
proof -
  have "bit (uint x) n"
    using assms(2) bit_imp_le_length [OF assms(2)] by (simp add: bit_uint_iff)
  moreover have "uint x < 2 ^ k"
    using assms(1) by (metis of_nat_less_iff of_nat_numeral of_nat_power uint_nat)
  ultimately show ?thesis
    by (metis bit_take_bit_iff take_bit_int_eq_self uint_ge_0)
qed


section \<open>The codes\<close>

definition IOCTL_VCK_GET_STATUS :: u32 where
  "IOCTL_VCK_GET_STATUS = ctl_code FILE_DEVICE_VCK 0x800 METHOD_BUFFERED FILE_READ_ACCESS"
definition IOCTL_VCK_START_ENCRYPT :: u32 where
  "IOCTL_VCK_START_ENCRYPT = ctl_code FILE_DEVICE_VCK 0x801 METHOD_BUFFERED FILE_WRITE_ACCESS"
definition IOCTL_VCK_START_DECRYPT :: u32 where
  "IOCTL_VCK_START_DECRYPT = ctl_code FILE_DEVICE_VCK 0x802 METHOD_BUFFERED FILE_WRITE_ACCESS"
definition IOCTL_VCK_GET_PROGRESS :: u32 where
  "IOCTL_VCK_GET_PROGRESS = ctl_code FILE_DEVICE_VCK 0x803 METHOD_BUFFERED FILE_READ_ACCESS"
definition IOCTL_VCK_PAUSE :: u32 where
  "IOCTL_VCK_PAUSE = ctl_code FILE_DEVICE_VCK 0x804 METHOD_BUFFERED FILE_WRITE_ACCESS"
definition IOCTL_JVCK_ATTACH :: u32 where
  "IOCTL_JVCK_ATTACH = ctl_code FILE_DEVICE_VCK 0x805 METHOD_BUFFERED FILE_WRITE_ACCESS"
definition IOCTL_VCK_DETACH :: u32 where
  "IOCTL_VCK_DETACH = ctl_code FILE_DEVICE_VCK 0x806 METHOD_BUFFERED FILE_WRITE_ACCESS"
definition IOCTL_JVCK_PREPARE :: u32 where
  "IOCTL_JVCK_PREPARE = ctl_code FILE_DEVICE_VCK 0x807 METHOD_BUFFERED FILE_WRITE_ACCESS"
definition IOCTL_VCK_PAUSE_OS_VOLUME :: u32 where
  "IOCTL_VCK_PAUSE_OS_VOLUME = ctl_code FILE_DEVICE_VCK 0x808 METHOD_BUFFERED FILE_WRITE_ACCESS"
definition IOCTL_VCK_DETACH_ALL_VOLUMES :: u32 where
  "IOCTL_VCK_DETACH_ALL_VOLUMES = ctl_code FILE_DEVICE_VCK 0x809 METHOD_BUFFERED FILE_WRITE_ACCESS"
definition IOCTL_VCK_BENCH_AES :: u32 where
  "IOCTL_VCK_BENCH_AES = ctl_code FILE_DEVICE_VCK 0x80a METHOD_BUFFERED FILE_READ_ACCESS"
definition IOCTL_VCK_LIST_VOLUMES :: u32 where
  "IOCTL_VCK_LIST_VOLUMES = ctl_code FILE_DEVICE_VCK 0x80b METHOD_BUFFERED FILE_READ_ACCESS"

lemmas ctl_constants = METHOD_BUFFERED_def METHOD_IN_DIRECT_def METHOD_OUT_DIRECT_def METHOD_NEITHER_def
  FILE_ANY_ACCESS_def FILE_READ_ACCESS_def FILE_WRITE_ACCESS_def FILE_DEVICE_VCK_def

text \<open>The values the build pins with its assertions.\<close>

lemma ioctl_values:
  "IOCTL_VCK_GET_STATUS = 0x00226000" "IOCTL_VCK_START_ENCRYPT = 0x0022a004" "IOCTL_VCK_START_DECRYPT = 0x0022a008"
  "IOCTL_VCK_GET_PROGRESS = 0x0022600c" "IOCTL_VCK_PAUSE = 0x0022a010" "IOCTL_JVCK_ATTACH = 0x0022a014"
  "IOCTL_VCK_DETACH = 0x0022a018" "IOCTL_JVCK_PREPARE = 0x0022a01c" "IOCTL_VCK_PAUSE_OS_VOLUME = 0x0022a020"
  "IOCTL_VCK_DETACH_ALL_VOLUMES = 0x0022a024" "IOCTL_VCK_BENCH_AES = 0x00226028" "IOCTL_VCK_LIST_VOLUMES = 0x0022602c"
  by (simp_all add: IOCTL_VCK_GET_STATUS_def IOCTL_VCK_START_ENCRYPT_def IOCTL_VCK_START_DECRYPT_def
      IOCTL_VCK_GET_PROGRESS_def IOCTL_VCK_PAUSE_def IOCTL_JVCK_ATTACH_def IOCTL_VCK_DETACH_def IOCTL_JVCK_PREPARE_def
      IOCTL_VCK_PAUSE_OS_VOLUME_def IOCTL_VCK_DETACH_ALL_VOLUMES_def IOCTL_VCK_BENCH_AES_def IOCTL_VCK_LIST_VOLUMES_def
      ctl_code_def ctl_constants)

definition vck_ioctls :: "u32 list" where
  "vck_ioctls = [IOCTL_VCK_GET_STATUS, IOCTL_VCK_START_ENCRYPT, IOCTL_VCK_START_DECRYPT, IOCTL_VCK_GET_PROGRESS,
     IOCTL_VCK_PAUSE, IOCTL_JVCK_ATTACH, IOCTL_VCK_DETACH, IOCTL_JVCK_PREPARE, IOCTL_VCK_PAUSE_OS_VOLUME,
     IOCTL_VCK_DETACH_ALL_VOLUMES, IOCTL_VCK_BENCH_AES, IOCTL_VCK_LIST_VOLUMES]"

definition mutating_ioctls :: "u32 list" where
  "mutating_ioctls = [IOCTL_VCK_START_ENCRYPT, IOCTL_VCK_START_DECRYPT, IOCTL_VCK_PAUSE, IOCTL_JVCK_ATTACH,
     IOCTL_VCK_DETACH, IOCTL_JVCK_PREPARE, IOCTL_VCK_PAUSE_OS_VOLUME, IOCTL_VCK_DETACH_ALL_VOLUMES]"


section \<open>The caller of a request\<close>

datatype requestor_mode = KernelMode | UserMode

text \<open>A token is known by its pointer; \<open>SeTokenIsAdmin\<close> is a parameter.\<close>

record access_token =
  at_token :: u64
  at_owned :: bool

record auth_context =
  ac_ioctl_code :: u32
  ac_requestor_mode :: requestor_mode
  ac_requestor_token :: "access_token option"

text \<open>\<open>AccessToken::from_process\<close>, with the result of \<open>PsReferencePrimaryToken\<close>.\<close>

definition from_process :: "(u64 \<Rightarrow> u64) \<Rightarrow> u64 \<Rightarrow> access_token option" where
  "from_process ps_reference_primary_token process =
     (if process = 0 then None
      else let token = ps_reference_primary_token process
           in if token = 0 then None else Some \<lparr>at_token = token, at_owned = True\<rparr>)"

definition from_raw :: "u64 \<Rightarrow> access_token" where
  "from_raw token = \<lparr>at_token = token, at_owned = False\<rparr>"

definition is_admin :: "(u64 \<Rightarrow> bool) \<Rightarrow> access_token \<Rightarrow> bool" where
  "is_admin se_token_is_admin t = se_token_is_admin (at_token t)"

text \<open>\<open>Drop\<close>: the reference taken by \<open>from_process\<close> is given back.\<close>

definition token_drop :: "(u64 \<Rightarrow> 'w \<Rightarrow> 'w) \<Rightarrow> access_token \<Rightarrow> 'w \<Rightarrow> 'w" where
  "token_drop ps_dereference t w = (if at_owned t \<and> at_token t \<noteq> 0 then ps_dereference (at_token t) w else w)"


section \<open>Properties\<close>

text \<open>The layout of a control code.  As long as every field fits its place (device type 16
  bits, access 2, function 12, method 2), the four fields can be read back from the code, so different
  requests never get the same code.\<close>

theorem ctl_code_fields:
  assumes "device_type < 2 ^ 16" "function < 2 ^ 12" "method < 4" "access < 4"
  shows "drop_bit 16 (ctl_code device_type function method access) = device_type \<and>
    drop_bit 14 (ctl_code device_type function method access) AND 3 = access \<and>
    drop_bit 2 (ctl_code device_type function method access) AND 0xFFF = function \<and>
    ctl_code device_type function method access AND 3 = method"
proof -
  have m: "(3 :: u32) = mask 2" "(0xFFF :: u32) = mask 12"
    by (simp_all add: mask_eq_exp_minus_1)
  have lt: "unat device_type < 2 ^ 16" "unat function < 2 ^ 12" "unat method < 2 ^ 2" "unat access < 2 ^ 2"
    using assms by (simp_all add: word_less_nat_alt)
  note small [dest] = bit_bound [OF lt(1)] bit_bound [OF lt(2)] bit_bound [OF lt(3)] bit_bound [OF lt(4)]
  have "drop_bit 16 (ctl_code device_type function method access) = device_type"
    by (rule bit_word_eqI) (auto simp: ctl_code_def bit_simps)
  moreover have "drop_bit 14 (ctl_code device_type function method access) AND mask 2 = access"
    by (rule bit_word_eqI) (auto simp: ctl_code_def bit_simps)
  moreover have "drop_bit 2 (ctl_code device_type function method access) AND mask 12 = function"
    by (rule bit_word_eqI) (auto simp: ctl_code_def bit_simps)
  moreover have "ctl_code device_type function method access AND mask 2 = method"
    by (rule bit_word_eqI) (auto simp: ctl_code_def bit_simps)
  ultimately show ?thesis
    unfolding m by simp
qed

theorem ctl_code_fields_witness:
  "(0x22 :: u32) < 2 ^ 16 \<and> drop_bit 14 (ctl_code 0x22 0x807 0 2) AND 3 = (2 :: u32)"
  using ctl_code_fields [of "0x22" "0x807" 0 2] by simp


end
