(* ===== verification/Sample_Provider.thy ===== *)
theory Sample_Provider
  imports Vol_Registry Ioctl_Codes
begin

text \<open>
  The policy a driver supplies to the framework: the interface \<open>VolumeProvider\<close> of
  \<open>lib/windrv/src/provider.rs\<close>, and its implementation in
  \<open>sample/windrv/src/provider.rs\<close>, which opens the JVCK metadata of a volume and decides
  who may issue control requests.
\<close>


section \<open>The interface\<close>

text \<open>\<open>on_attach\<close> gets the sector I/O of the volume, the key and the partition identifier.\<close>

record 'w volume_provider =
  vp_on_attach :: "'w sector_io \<Rightarrow> bytes \<Rightarrow> guid option \<Rightarrow> 'w \<Rightarrow> 'w io_config vck_result \<times> 'w"


section \<open>Opening a volume\<close>

text \<open>The two mutable cells of the store that is opened are a component of the world, created by
  the call.  The store reads and writes the device, never the cells, so it works on the device part alone.\<close>

definition drop_cells :: "(jvck_cells \<times> 'w) sector_io \<Rightarrow> 'w sector_io" where
  "drop_cells io =
     \<lparr>sio_sector_size = sio_sector_size io,
      sio_total_sectors = sio_total_sectors io,
      sio_read_sectors = (\<lambda>w lba n. sio_read_sectors io (\<lparr>jc_offset = 0, jc_state = 0\<rparr>, w) lba n),
      sio_write_sectors = (\<lambda>w lba buf.
        (case sio_write_sectors io (\<lparr>jc_offset = 0, jc_state = 0\<rparr>, w) lba buf of (r, _, w1) \<Rightarrow> (r, w1)))\<rparr>"

lemma drop_cells_lift [simp]: "drop_cells (lift_sector_io io) = io"
  by (simp add: drop_cells_def lift_sector_io_def split_beta)

definition sample_on_attach ::
    "jvck_crypto \<Rightarrow> 'w random_source \<Rightarrow> aes256 \<Rightarrow> (jvck_cells \<times> 'w) sector_io \<Rightarrow> bytes \<Rightarrow> guid option
      \<Rightarrow> jvck_cells \<times> 'w \<Rightarrow> (jvck_cells \<times> 'w) io_config vck_result \<times> jvck_cells \<times> 'w" where
  "sample_on_attach C rng A io vmk partition_guid cw =
     (case res_bind (reader_open C (drop_cells io) (snd cw)) (\<lambda>reader.
             into_store C reader (snd cw) vmk (default_selector C (snd cw) vmk)) of
        Inl e \<Rightarrow> (Inl e, cw)
      | Inr (store, cells) \<Rightarrow>
          (case load_offset C store (snd cw) of
             Inl e \<Rightarrow> (Inl e, cw)
           | Inr sector \<Rightarrow>
               let eo = \<lparr>eo_sector = sector, eo_total_sectors = g_data_sectors (js_geometry store)\<rparr>;
                   supplier = static_get_cipher A
                     \<lparr>scs_key1 = fvek_key1 (js_secrets store), scs_key2 = fvek_key2 (js_secrets store)\<rparr>
               in (Inr (Encrypted (Some supplier) (g_offset_sector (js_geometry store)) eo (jvck_offset_store C rng store)),
                   cells, snd cw)))"

definition sample_provider :: "jvck_crypto \<Rightarrow> 'w random_source \<Rightarrow> aes256 \<Rightarrow> (jvck_cells \<times> 'w) volume_provider" where
  "sample_provider C rng A = \<lparr>vp_on_attach = sample_on_attach C rng A\<rparr>"


section \<open>Authorization\<close>

definition require_administrator :: "(u64 \<Rightarrow> bool) \<Rightarrow> auth_context \<Rightarrow> unit vck_result" where
  "require_administrator se_token_is_admin ctx =
     (if ac_requestor_mode ctx = KernelMode then Inr ()
      else (case ac_requestor_token ctx of
              Some token \<Rightarrow>
                if is_admin se_token_is_admin token then Inr ()
                else Inl (PermissionDenied ''administrator privilege required'')
            | None \<Rightarrow> Inl (PermissionDenied ''administrator privilege required'')))"

definition authorize :: "(u64 \<Rightarrow> bool) \<Rightarrow> auth_context \<Rightarrow> unit vck_result" where
  "authorize se_token_is_admin ctx =
     (if ac_ioctl_code ctx = IOCTL_VCK_GET_PROGRESS \<or> ac_ioctl_code ctx = IOCTL_VCK_GET_STATUS then Inr ()
      else require_administrator se_token_is_admin ctx)"


section \<open>What opening gives\<close>

lemma sample_on_attach_open:
  assumes "open_store C io w vmk = Inr (store, cells)" "load_offset C store w = Inr sector"
  shows "sample_on_attach C rng A (lift_sector_io io) vmk guid (cells0, w) =
    (Inr (Encrypted (Some (static_get_cipher A \<lparr>scs_key1 = fvek_key1 (js_secrets store), scs_key2 = fvek_key2 (js_secrets store)\<rparr>))
        (g_offset_sector (js_geometry store))
        \<lparr>eo_sector = sector, eo_total_sectors = g_data_sectors (js_geometry store)\<rparr> (jvck_offset_store C rng store)),
     cells, w)"
  using assms by (simp add: sample_on_attach_def open_store_def Let_def)

lemma sample_on_attach_world:
  "sample_on_attach C rng A io vmk guid (cells0, w) = (r, cells1, w1) \<Longrightarrow> w1 = w"
  by (auto simp: sample_on_attach_def Let_def split: sum.splits prod.splits)

text \<open>The sample opens a volume whose metadata sectors hold the sealed progress.\<close>

lemma sample_attach_held:
  assumes "jvck_env_ok K me disk C rng" "store_ok (ld_sector_io K me) (jvck_cbc_codec C) st"
    "jvck_ld.replicas_hold K me disk C st cells w" "use_footer (js_options st) \<noteq> 0"
  shows "sample_on_attach C rng A (lift_sector_io (ld_sector_io K me)) (js_vmk st) guid (cells0, w) =
    (Inr (Encrypted (Some (static_get_cipher A \<lparr>scs_key1 = fvek_key1 (js_secrets st), scs_key2 = fvek_key2 (js_secrets st)\<rparr>))
        (g_offset_sector (js_geometry st))
        \<lparr>eo_sector = jc_offset cells, eo_total_sectors = g_data_sectors (js_geometry st)\<rparr> (jvck_offset_store C rng st)),
     \<lparr>jc_offset = jc_offset cells, jc_state = as_u16 (from_u16 (jc_state cells))\<rparr>, w)"
  by (rule sample_on_attach_open [OF hold_open [OF assms(1-3) disjI1 [OF assms(4)]] jvck_ld.hold_load_offset [OF assms(2,1,3)]])

text \<open>After the progress of a volume has been stored, the sample opens it again, at any later time at
  which the disk is the same.\<close>

lemma sample_attach_stored:
  assumes "jvck_env_ok K me disk C rng" "store_ok (ld_sector_io K me) (jvck_cbc_codec C) st"
    "js_store rng st (cells, w) off = (r, cells', w')" "use_footer (js_options st) \<noteq> 0" "disk w2 = disk w'"
  shows "sample_on_attach C rng A (lift_sector_io (ld_sector_io K me)) (js_vmk st) guid (cells0, w2) =
    (Inr (Encrypted (Some (static_get_cipher A \<lparr>scs_key1 = fvek_key1 (js_secrets st), scs_key2 = fvek_key2 (js_secrets st)\<rparr>))
        (g_offset_sector (js_geometry st))
        \<lparr>eo_sector = eo_sector off, eo_total_sectors = g_data_sectors (js_geometry st)\<rparr> (jvck_offset_store C rng st)),
     \<lparr>jc_offset = eo_sector off, jc_state = as_u16 (from_u16 (jc_state cells))\<rparr>, w2)"
  using sample_attach_held [OF assms(1,2) replicas_hold_disk [of disk w2 w', OF assms(5) js_store_hold [OF assms(1-3)]] assms(4)] by simp


section \<open>Properties\<close>

text \<open>Who may do what.  A request of the kernel or of an administrator is always authorized;
  anybody else, in particular a user request without a token, gets exactly the two status queries, and none
  of the requests that change state.\<close>

theorem authorization_exact:
  "authorize adm ctx = Inr () \<longleftrightarrow>
     ac_requestor_mode ctx = KernelMode \<or> (\<exists>t. ac_requestor_token ctx = Some t \<and> adm (at_token t)) \<or>
     ac_ioctl_code ctx \<in> {IOCTL_VCK_GET_PROGRESS, IOCTL_VCK_GET_STATUS} \<and> ac_ioctl_code ctx \<notin> set mutating_ioctls"
  by (cases "ac_requestor_token ctx")
    (auto simp: authorize_def require_administrator_def is_admin_def mutating_ioctls_def ioctl_values)

end
