(* ===== verification/Handover_Mount.thy ===== *)
theory Handover_Mount
  imports Filter_Manager Sample_Provider
begin

text \<open>
  Mounting the operating-system volume at boot (\<open>lib/windrv/src/filter/handover_mount.rs\<close>):
  when the lower device of a filter has started, the volume is compared with the one the loader handed
  over, opened through the provider and bound to the filter.

  The kernel, the object manager and the provider are parameters.
\<close>


section \<open>The mount\<close>

fun hex_digits :: "nat \<Rightarrow> string" where
  "hex_digits n =
     (if n < 16 then [''0123456789abcdef'' ! n] else hex_digits (n div 16) @ [''0123456789abcdef'' ! (n mod 16)])"

declare hex_digits.simps [simp del]

text \<open>The name \<open>\Device\HandoverVolume[0x...]\<close>.\<close>

definition handover_volume_name :: "device \<Rightarrow> string" where
  "handover_volume_name lower_do =
     [backslash] @ ''Device'' @ [backslash] @ ''HandoverVolume[0x'' @ hex_digits (unat lower_do) @ '']''"

text \<open>Geometry and partition identifier of the lower device; nothing unless it is the volume the
  loader handed over.\<close>

definition handover_probe :: "'w nt_kernel \<Rightarrow> 'w \<Rightarrow> handover_info \<Rightarrow> device \<Rightarrow> lower_device_io option" where
  "handover_probe K w handover lower_do =
     (case ld_query_geometry K w (ld_new lower_do 0 0) of
        Inl _ \<Rightarrow> None
      | Inr footer_io \<Rightarrow>
          (case ld_read_gpt_partition_id K w footer_io of
             Inl _ \<Rightarrow> None
           | Inr guid \<Rightarrow> if guid \<noteq> hi_partition_guid handover then None else Some footer_io))"

definition handover_volume ::
    "string \<Rightarrow> u32 \<Rightarrow> 'w io_config \<Rightarrow> u64 \<Rightarrow> encrypted_offset \<Rightarrow> 'w offset_store \<Rightarrow> device \<Rightarrow> 'w sector_io
      \<Rightarrow> 'w attached_volume" where
  "handover_volume volume_path store_bps ioc offset_sector eo offset_store filter_do sweep_io =
     \<lparr>av_volume_path = volume_path, av_sector_size = store_bps, av_io_config = ioc,
      av_encryption = engine_new offset_sector eo, av_offset_store = offset_store, av_attach_source = Handover,
      av_filter_device = filter_do, av_sweep_io = sweep_io, av_encrypted_boundary = eo_sector eo\<rparr>"

text \<open>Registering, resuming the sweep in the persisted direction, binding and waking.\<close>

definition install_handover ::
    "'w dev_services \<Rightarrow> device \<Rightarrow> 'w attached_volume \<Rightarrow> 'w drv \<Rightarrow> 'w drv" where
  "install_handover DS filter_do volume d =
     (let v = length (dr_heap d);
          h1 = dr_heap d @ [volume];
          r1 = reg_insert h1 v (dr_reg d);
          resumed = volume\<lparr>av_encryption := engine_resume (av_offset_store volume) (av_encryption volume) (dr_world d)\<rparr>;
          d1 = d\<lparr>dr_heap := dr_heap d @ [resumed], dr_reg := r1\<rparr>
      in wake_for v (filter_bind_volume DS filter_do v d1))"

definition try_mount_handover_volume ::
    "'w nt_kernel \<Rightarrow> 'w dev_services \<Rightarrow> 'w volume_provider option \<Rightarrow> device \<Rightarrow> 'w drv \<Rightarrow> 'w drv" where
  "try_mount_handover_volume K DS P filter_do d =
     (case (rg_handover (dr_reg d), dr_dev d filter_do) of
        (Some handover, Some ext) \<Rightarrow>
          if de_volume ext \<noteq> None \<or> de_lower_device ext = 0 then d
          else let lower_do = de_lower_device ext
               in (case handover_probe K (dr_world d) handover lower_do of
                     None \<Rightarrow> d
                   | Some footer_io \<Rightarrow>
                       (case P of
                          None \<Rightarrow> d
                        | Some provider \<Rightarrow>
                            let store_bps = ld_sector_size footer_io;
                                partition_total = ld_total_sectors footer_io;
                                probe_io = ld_sector_io K (ld_new lower_do store_bps partition_total);
                                (r, w1) = vp_on_attach provider probe_io (hi_vmk handover)
                                  (Some (hi_partition_guid handover)) (dr_world d);
                                d1 = d\<lparr>dr_world := w1\<rparr>
                            in (case r of
                                  Inl _ \<Rightarrow> d1
                                | Inr ioc \<Rightarrow>
                                    (case ic_geometry ioc of
                                       None \<Rightarrow> d1
                                     | Some (offset_sector, eo, offset_store) \<Rightarrow>
                                         let sweep_io = ld_sector_io K (ld_new lower_do store_bps (eo_total_sectors eo));
                                             volume_path = (case pdo_name_for_filter filter_do (dr_reg d) of
                                                Some n \<Rightarrow> n | None \<Rightarrow> handover_volume_name lower_do)
                                         in install_handover DS filter_do
                                              (handover_volume volume_path store_bps ioc offset_sector eo offset_store
                                                 filter_do sweep_io) d1))))
      | _ \<Rightarrow> d)"

definition mount_work_routine ::
    "'w nt_kernel \<Rightarrow> 'w dev_services \<Rightarrow> 'w volume_provider option \<Rightarrow> device \<Rightarrow> 'w drv \<Rightarrow> 'w drv" where
  "mount_work_routine K DS P filter_do d = try_mount_handover_volume K DS P filter_do d"

text \<open>The completion routine; the flags say whether the call runs at \<open>PASSIVE_LEVEL\<close> and
  whether the work item and its context can be allocated.  The routine waits for the work item.\<close>

definition on_start_device_completed ::
    "'w nt_kernel \<Rightarrow> 'w dev_services \<Rightarrow> 'w volume_provider option \<Rightarrow> bool \<Rightarrow> bool \<Rightarrow> bool \<Rightarrow> device \<Rightarrow> 'w drv
      \<Rightarrow> ntstatus \<times> 'w drv" where
  "on_start_device_completed K DS P passive work_item work_ctx filter_do d =
     (STATUS_SUCCESS,
      if passive then try_mount_handover_volume K DS P filter_do d
      else if \<not> work_item \<or> \<not> work_ctx then d
      else mount_work_routine K DS P filter_do d)"

text \<open>A \<open>START_DEVICE\<close> request on a filter device, from the dispatch routine to the end of
  the completion routine.\<close>

definition start_filter_device ::
    "'w nt_kernel \<Rightarrow> 'w io_manager \<Rightarrow> 'w dev_services \<Rightarrow> 'w volume_provider option \<Rightarrow> bool \<Rightarrow> bool \<Rightarrow> bool
      \<Rightarrow> device \<Rightarrow> irp \<Rightarrow> 'w drv \<Rightarrow> ntstatus \<times> 'w drv" where
  "start_filter_device K IM DS P passive work_item work_ctx filter_do irp d =
     (case dr_dev d filter_do of
        None \<Rightarrow> (STATUS_UNSUCCESSFUL, d)
      | Some ext \<Rightarrow>
          (case handle_filter_irp IM (dr_heap d) ext irp (dr_world d) of
             (s, out, ext1, w1) \<Rightarrow>
               let d1 = d\<lparr>dr_dev := (dr_dev d)(filter_do := Some ext1), dr_world := w1\<rparr>
               in (case out of
                     Started _ \<Rightarrow> (s, snd (on_start_device_completed K DS P passive work_item work_ctx filter_do d1))
                   | _ \<Rightarrow> (s, d1))))"


section \<open>The kernel on a larger world\<close>

text \<open>The kernel services on a world that also holds the cells of the store.\<close>

definition lift_nt_kernel :: "'w nt_kernel \<Rightarrow> ('a \<times> 'w) nt_kernel" where
  "lift_nt_kernel K =
     \<lparr>zw_create_file = (\<lambda>cw p. case zw_create_file K (snd cw) p of (r, w) \<Rightarrow> (r, fst cw, w)),
      ob_open_object_by_pointer = (\<lambda>cw dv. case ob_open_object_by_pointer K (snd cw) dv of (r, w) \<Rightarrow> (r, fst cw, w)),
      zw_close = (\<lambda>cw h. (fst cw, zw_close K (snd cw) h)),
      zw_fs_control_file = (\<lambda>cw h c. case zw_fs_control_file K (snd cw) h c of (r, w) \<Rightarrow> (r, fst cw, w)),
      zw_device_io_control_file = (\<lambda>cw. zw_device_io_control_file K (snd cw)),
      zw_read_file = (\<lambda>cw. zw_read_file K (snd cw)),
      zw_write_file = (\<lambda>cw h a b. case zw_write_file K (snd cw) h a b of (r, w) \<Rightarrow> (r, fst cw, w)),
      irp_ioctl = (\<lambda>cw. irp_ioctl K (snd cw)),
      irp_read = (\<lambda>cw. irp_read K (snd cw)),
      irp_write = (\<lambda>cw dv a b. case irp_write K (snd cw) dv a b of (r, w) \<Rightarrow> (r, fst cw, w))\<rparr>"

lemma ld_sector_io_lift: "ld_sector_io (lift_nt_kernel K) me = lift_sector_io (ld_sector_io K me)"
  by (auto simp: ld_sector_io_def lift_sector_io_def byte_sector_io_def run_sync_read_def run_sync_write_def
      ld_transfer_read_def ld_transfer_write_def lift_nt_kernel_def fun_eq_iff res_bind_def Let_def
      split: prod.splits sum.splits option.splits)

lemma ld_device_ioctl_lift: "ld_device_ioctl (lift_nt_kernel K) (c, w) = ld_device_ioctl K w"
  by (simp add: fun_eq_iff ld_device_ioctl_def lift_nt_kernel_def)

lemma handover_probe_lift: "handover_probe (lift_nt_kernel K) (c, w) hi lower = handover_probe K w hi lower"
  unfolding handover_probe_def ld_query_geometry_def ld_read_gpt_partition_id_def ld_device_ioctl_lift ..

lemma handover_probe_device: "handover_probe K w hi lower = Some me \<Longrightarrow> me = ld_new lower (ld_sector_size me) (ld_total_sectors me)"
  by (auto simp: handover_probe_def ld_query_geometry_def ld_new_def res_map_def split: sum.splits if_splits prod.splits)

lemma ld_sector_io_total:
  "same_transfers (ld_sector_io K (ld_new dv ss t1)) (ld_sector_io K (ld_new dv ss t2))"
  by (simp add: same_transfers_def ld_sector_io_def byte_sector_io_def ld_new_def)



section \<open>What a mount leaves behind\<close>

lemma install_handover_result:
  assumes "dr_dev d f = Some ext" "de_vthread ext = None" "av_filter_device volume = f" "f \<noteq> 0" "n = length (dr_heap d)"
  shows "\<exists>ext'. dr_dev (install_handover DS f volume d) = (dr_dev d)(f \<mapsto> ext') \<and> de_volume ext' = Some n \<and>
      de_lower_device ext' = de_lower_device ext \<and>
      (av_cipher_supplier volume \<noteq> None \<longrightarrow>
        (\<exists>vt. de_vthread ext' = Some vt \<and> vt_current vt = n \<and> vt_queue vt = [] \<and> vt_wake vt))"
    "dr_heap (install_handover DS f volume d) =
      dr_heap d @ [volume\<lparr>av_encryption := engine_resume (av_offset_store volume) (av_encryption volume) (dr_world d)\<rparr>]"
    "dr_reg (install_handover DS f volume d) = reg_insert (dr_heap d @ [volume]) n (dr_reg d)"
    "dr_completed (install_handover DS f volume d) = dr_completed d"
proof -
  let ?vol = "volume\<lparr>av_encryption := engine_resume (av_offset_store volume) (av_encryption volume) (dr_world d)\<rparr>"
  let ?d1 = "d\<lparr>dr_heap := dr_heap d @ [?vol], dr_reg := reg_insert (dr_heap d @ [volume]) n (dr_reg d)\<rparr>"
  let ?d2 = "set_ext_volume f (Some n) ?d1"
  have d2: "?d2 = ?d1\<lparr>dr_dev := (dr_dev d)(f \<mapsto> ext\<lparr>de_volume := Some n\<rparr>)\<rparr>"
    using assms(1) by (simp add: set_ext_volume_def)
  have e2: "dr_dev ?d2 f = Some (ext\<lparr>de_volume := Some n\<rparr>)"
    unfolding d2 by simp
  obtain created w1 where b: "dev_bind DS f n ?d2 =
      ?d2\<lparr>dr_dev := (dr_dev ?d2)(f := Some (bind_volume (dr_heap ?d2) created (ext\<lparr>de_volume := Some n\<rparr>) n)), dr_world := w1\<rparr>"
    using dev_bind_at [OF e2, of DS n] by blast
  let ?ext3 = "bind_volume (dr_heap d @ [?vol]) created (ext\<lparr>de_volume := Some n\<rparr>) n"
  let ?d3 = "?d1\<lparr>dr_dev := (dr_dev d)(f \<mapsto> ?ext3), dr_world := w1\<rparr>"
  have sup: "av_cipher_supplier ?vol = av_cipher_supplier volume"
    by (simp add: av_cipher_supplier_def)
  have "dev_bind DS f n ?d2 = ?d3"
    unfolding b unfolding d2 by simp
  then have inst: "install_handover DS f volume d = wake_for n ?d3"
    unfolding install_handover_def filter_bind_volume_def Let_def assms(5) [symmetric] by simp
  show "\<exists>ext'. dr_dev (install_handover DS f volume d) = (dr_dev d)(f \<mapsto> ext') \<and> de_volume ext' = Some n \<and>
      de_lower_device ext' = de_lower_device ext \<and>
      (av_cipher_supplier volume \<noteq> None \<longrightarrow>
        (\<exists>vt. de_vthread ext' = Some vt \<and> vt_current vt = n \<and> vt_queue vt = [] \<and> vt_wake vt))"
  proof (cases "av_cipher_supplier volume")
    case None
    then have "?ext3 = ext\<lparr>de_volume := Some n\<rparr>"
      using assms(2,5) sup by (simp add: bind_volume_def)
    then show ?thesis
      unfolding inst using None assms(2-5)
      by (intro exI [of _ "ext\<lparr>de_volume := Some n\<rparr>"]) (simp add: wake_for_def Let_def)
  next
    case (Some s)
    then have "?ext3 = ext\<lparr>de_volume := Some n, de_vthread := Some (vt_start created n)\<rparr>"
      using assms(2,5) sup by (simp add: bind_volume_def)
    then show ?thesis
      unfolding inst using Some assms(3-5)
      by (intro exI [of _ "ext\<lparr>de_volume := Some n, de_vthread := Some (vt_signal (vt_start created n))\<rparr>"])
        (simp add: wake_for_def vt_signal_def vt_start_def Let_def)
  qed
  show "dr_heap (install_handover DS f volume d) = dr_heap d @ [?vol]"
    "dr_reg (install_handover DS f volume d) = reg_insert (dr_heap d @ [volume]) n (dr_reg d)"
    "dr_completed (install_handover DS f volume d) = dr_completed d"
    unfolding inst by (simp_all add: wake_for_def Let_def split: option.splits)
qed

text \<open>The direction and state a resumed sweep starts in.\<close>

definition resumed_state :: "volume_state \<Rightarrow> encrypted_offset \<Rightarrow> engine_state" where
  "resumed_state dir eo =
     (case dir of Encrypt \<Rightarrow> if is_fully_encrypted eo then Idle else Encrypting
      | Decrypt \<Rightarrow> if eo_sector eo = 0 then Idle else Decrypting)"

lemma engine_resume_state:
  "os_load_state store w = Inr dir \<Longrightarrow>
    engine_resume store e w = e\<lparr>en_state := resumed_state dir (en_encrypted_offset e)\<rparr>"
  by (cases dir) (auto simp: engine_resume_def resumed_state_def word_gt_0)

text \<open>A driver that is about to mount: the loader's handover is registered, the filter is attached
  to the device and not bound.\<close>

definition boot_ready :: "handover_info \<Rightarrow> device \<Rightarrow> device \<Rightarrow> 'w drv \<Rightarrow> bool" where
  "boot_ready hi f lower d \<longleftrightarrow> rg_handover (dr_reg d) = Some hi \<and> dr_dev d f = Some (filter_ext lower None) \<and>
     f \<noteq> 0 \<and> lower \<noteq> 0 \<and> reg_ok (dr_heap d) (dr_reg d)"

lemma mount_held:
  assumes rel: "sweep_reliable K me disk C rng A st" "use_footer (js_options st) \<noteq> 0"
    and x: "xts_new A (fvek_key1 (js_secrets st)) (fvek_key2 (js_secrets st)) = Inr x"
    and held: "jvck_ld.replicas_hold K me disk C st cells w2" "jc_offset cells \<le> g_data_sectors (js_geometry st)"
    and dev: "handover_probe K w2 hi lower = Some me" "hi_vmk hi = js_vmk st"
    and d: "boot_ready hi f lower d" "dr_world d = (cells2, w2)"
    and d': "d' = try_mount_handover_volume (lift_nt_kernel K) DS (Some (sample_provider C rng A)) f d"
  shows "\<exists>v ext. dr_heap d' = dr_heap d @ [v] \<and> reg_get (av_volume_path v) (dr_reg d') = Some (length (dr_heap d)) \<and>
    dr_dev d' f = Some ext \<and> de_volume ext = Some (length (dr_heap d)) \<and> de_vthread ext \<noteq> None \<and> is_os_volume v \<and>
    drv_vol_ok K me C rng A x st v \<and> vol_synced v \<and> av_encrypted_boundary v = jc_offset cells \<and>
    av_offset_sector v = g_offset_sector (js_geometry st) \<and> data_sectors v = g_data_sectors (js_geometry st) \<and>
    en_state (av_encryption v) = resumed_state (from_u16 (jc_state cells))
      \<lparr>eo_sector = jc_offset cells, eo_total_sectors = g_data_sectors (js_geometry st)\<rparr>"
proof -
  let ?eo = "\<lparr>eo_sector = jc_offset cells, eo_total_sectors = g_data_sectors (js_geometry st)\<rparr>"
  let ?sup = "static_get_cipher A \<lparr>scs_key1 = fvek_key1 (js_secrets st), scs_key2 = fvek_key2 (js_secrets st)\<rparr>"
  let ?store = "jvck_offset_store C rng st" and ?off = "g_offset_sector (js_geometry st)"
  let ?ioc = "Encrypted (Some ?sup) ?off ?eo ?store"
  let ?cells = "\<lparr>jc_offset = jc_offset cells, jc_state = as_u16 (from_u16 (jc_state cells))\<rparr>"
  let ?io = "\<lambda>t. lift_sector_io (ld_sector_io K (ld_new lower (ld_sector_size me) t))"
  have me: "ld_new lower (ld_sector_size me) (ld_total_sectors me) = me"
    using handover_probe_device [OF dev(1)] by simp
  have env: "jvck_env_ok K me disk C rng" "store_ok (ld_sector_io K me) (jvck_cbc_codec C) st"
    using rel(1) by (simp_all add: sweep_reliable_def)
  note at = sample_attach_held [OF env held(1) rel(2), of A "Some (hi_partition_guid hi)" cells2]
  define vol where "vol = handover_volume (case pdo_name_for_filter f (dr_reg d) of Some n \<Rightarrow> n | None \<Rightarrow> handover_volume_name lower)
    (ld_sector_size me) ?ioc ?off ?eo ?store f (?io (eo_total_sectors ?eo))"
  define d1 where "d1 = d\<lparr>dr_world := (?cells, w2)\<rparr>"
  have m: "d' = install_handover DS f vol d1"
    using d(1,2) dev at unfolding d' try_mount_handover_volume_def d1_def vol_def boot_ready_def
    by (simp add: handover_probe_lift ld_sector_io_lift sample_provider_def me filter_ext_def ic_geometry_def Let_def)
  have pre: "dr_dev d1 f = Some (filter_ext lower None)" "de_vthread (filter_ext lower None) = None" "av_filter_device vol = f"
    "f \<noteq> 0" "length (dr_heap d) = length (dr_heap d1)"
    using d(1) by (simp_all add: d1_def vol_def handover_volume_def boot_ready_def filter_ext_def)
  note res = install_handover_result [OF pre, of DS, folded m]
  define v where "v = vol\<lparr>av_encryption := engine_resume (av_offset_store vol) (av_encryption vol) (dr_world d1)\<rparr>"
  have tr: "same_transfers (?io t) (lift_sector_io (ld_sector_io K me))" for t
    using ld_sector_io_total [of K lower "ld_sector_size me" t "ld_total_sectors me", unfolded me]
    by (simp add: same_transfers_def lift_sector_io_def)
  have sw: "av_sweep_io v = ?io (eo_total_sectors ?eo)"
    by (simp add: v_def vol_def handover_volume_def)
  have fields: "av_volume_path v = av_volume_path vol" "is_os_volume v" "av_encrypted_boundary v = jc_offset cells"
    "av_offset_sector v = ?off" "data_sectors v = g_data_sectors (js_geometry st)" "av_cipher_supplier v = Some ?sup"
    "av_sector_size v = ld_sector_size me" "av_offset_store v = ?store"
    by (simp_all add: v_def vol_def handover_volume_def is_os_volume_def av_offset_sector_def ic_offset_sector_def data_sectors_def
        av_cipher_supplier_def)
  have en: "av_encryption v = (engine_new ?off ?eo)\<lparr>en_state := resumed_state (from_u16 (jc_state cells)) ?eo\<rparr>"
    using engine_resume_state [of ?store "(?cells, w2)" "from_u16 (jc_state cells)" "engine_new ?off ?eo"]
    by (simp add: v_def vol_def d1_def handover_volume_def js_load_state_def engine_new_def)
  have "engine_for st (av_encryption v)"
    using held(2) en by (simp add: engine_for_def engine_new_def)
  note eok = engine_for_ok [OF sweep_reliable_ok [OF rel(1)] this]
  have sup: "?sup () = Some (xts_as_volume_cipher A x)"
    using x by (simp add: static_get_cipher_def)
  have vok: "drv_vol_ok K me C rng A x st v"
    unfolding vol_ok_def lift_ld_simps
  proof (intro conjI)
    show "same_transfers (av_sweep_io v) (lift_sector_io (ld_sector_io K me))"
      unfolding sw by (rule tr)
    show "\<exists>s. av_cipher_supplier v = Some s \<and> s () = Some (xts_as_volume_cipher A x)"
      using fields(6) sup by blast
  qed (use fields(4,5,7,8) eok en in \<open>simp_all add: engine_new_def\<close>)
  have syn: "vol_synced v" and stt: "en_state (av_encryption v) = resumed_state (from_u16 (jc_state cells)) ?eo"
    using fields(3) en by (simp_all add: vol_synced_def encrypted_boundary_def engine_new_def)
  have reg: "reg_get (av_volume_path v) (dr_reg d') = Some (length (dr_heap d))"
  proof -
    have rok: "reg_ok (dr_heap d @ [vol]) (dr_reg d)"
      using d(1) by (simp add: boot_ready_def reg_ok_alloc)
    have "dr_reg d' = reg_insert (dr_heap d @ [vol]) (length (dr_heap d)) (dr_reg d)"
      using res(3) by (simp add: d1_def)
    then show ?thesis
      unfolding fields(1) by (simp add: reg_get_insert [OF rok])
  qed
  obtain ext where ext: "dr_dev d' f = Some ext" "de_volume ext = Some (length (dr_heap d))" "de_vthread ext \<noteq> None"
    using res(1) fields(6) by (auto simp: v_def av_cipher_supplier_def)
  have "dr_heap d' = dr_heap d @ [v]"
    using res(2) by (simp add: v_def d1_def)
  then show ?thesis
    using reg ext fields(2-5) vok syn stt by blast
qed

lemma mount_stored:
  assumes rel: "sweep_reliable K me disk C rng A st" "use_footer (js_options st) \<noteq> 0"
    and x: "xts_new A (fvek_key1 (js_secrets st)) (fvek_key2 (js_secrets st)) = Inr x"
    and stored: "js_store rng st (cells0, w0) off = (r, cells1, w1)" "eo_sector off \<le> g_data_sectors (js_geometry st)"
    and dev: "handover_probe K w2 hi lower = Some me" "hi_vmk hi = js_vmk st"
    and d: "boot_ready hi f lower d" "dr_world d = (cells2, w2)" "disk w2 = disk w1"
    and d': "d' = try_mount_handover_volume (lift_nt_kernel K) DS (Some (sample_provider C rng A)) f d"
  shows "\<exists>v ext. dr_heap d' = dr_heap d @ [v] \<and> reg_get (av_volume_path v) (dr_reg d') = Some (length (dr_heap d)) \<and>
    dr_dev d' f = Some ext \<and> de_volume ext = Some (length (dr_heap d)) \<and> de_vthread ext \<noteq> None \<and> is_os_volume v \<and>
    drv_vol_ok K me C rng A x st v \<and> vol_synced v \<and> av_encrypted_boundary v = eo_sector off \<and>
    av_offset_sector v = g_offset_sector (js_geometry st) \<and> data_sectors v = g_data_sectors (js_geometry st) \<and>
    en_state (av_encryption v) = resumed_state (from_u16 (jc_state cells0))
      \<lparr>eo_sector = eo_sector off, eo_total_sectors = g_data_sectors (js_geometry st)\<rparr>"
proof -
  have "store_ok (ld_sector_io K me) (jvck_cbc_codec C) st" "jvck_env_ok K me disk C rng"
    using rel(1) by (simp_all add: sweep_reliable_def)
  then have "jvck_ld.replicas_hold K me disk C st (cells0\<lparr>jc_offset := eo_sector off\<rparr>) w2"
    using replicas_hold_disk [of disk w2 w1, OF d(3) js_store_hold [OF _ _ stored(1)]] by simp
  then show ?thesis
    using mount_held [OF rel x _ _ dev d(1,2) d'] stored(2) by fastforce
qed

section \<open>A machine that boots\<close>

text \<open>The memory-backed kernel, answering the geometry and partition queries of the mount.\<close>

definition boot_kernel :: "(nat \<Rightarrow> byte) nt_kernel" where
  "boot_kernel = ram_kernel\<lparr>irp_ioctl := (\<lambda>w dv code n. Some ((STATUS_SUCCESS, STATUS_SUCCESS),
     if code = IOCTL_DISK_GET_DRIVE_GEOMETRY then replicate 20 0 @ le_bytes 4 (512 :: u32) @ replicate 8 0
     else if code = IOCTL_DISK_GET_LENGTH_INFO then le_bytes 8 (307200 :: u64)
     else le_bytes 4 (1 :: u32) @ replicate 140 0))\<rparr>"

definition boot_handover :: handover_info where
  "boot_handover = \<lparr>hi_partition_guid = guid_from_windows_bytes (replicate 16 0), hi_vmk = [1, 2, 3]\<rparr>"

definition boot_drv :: "'w \<Rightarrow> 'w drv" where
  "boot_drv w = (toy_drv [] w)\<lparr>dr_reg := set_handover boot_handover registry_new, dr_dev := [7 \<mapsto> filter_ext 1 None]\<rparr>"

definition boot_xts :: xts_volume_cipher where
  "boot_xts = \<lparr>cipher_1 = fvek_key1 toy_secrets, cipher_2 = fvek_key2 toy_secrets\<rparr>"

lemma boot_sector_io: "ld_sector_io boot_kernel me = ld_sector_io ram_kernel me"
  by (simp add: ld_sector_io_def ld_transfer_read_def [abs_def] ld_transfer_write_def [abs_def] boot_kernel_def fun_eq_iff)

lemma boot_ioctl: "ld_device_ioctl boot_kernel w dv code n = Inr
    (if code = IOCTL_DISK_GET_DRIVE_GEOMETRY then replicate 20 0 @ le_bytes 4 (512 :: u32) @ replicate 8 0
     else if code = IOCTL_DISK_GET_LENGTH_INFO then le_bytes 8 (307200 :: u64)
     else le_bytes 4 (1 :: u32) @ replicate 140 0)"
  by (simp add: ld_device_ioctl_def boot_kernel_def irp_final_status_def STATUS_SUCCESS_def nt_success_def)

lemma boot_probe: "handover_probe boot_kernel w boot_handover 1 = Some toy_device"
proof -
  have "decode_geometry (ld_device_ioctl boot_kernel w 1) m = Inr (512, 600)" for m
    by (simp add: decode_geometry_def boot_ioctl buf_slice_def DISK_GEOMETRY_BYTES_PER_SECTOR_OFFSET_def
        IOCTL_DISK_GET_DRIVE_GEOMETRY_def IOCTL_DISK_GET_LENGTH_INFO_def Let_def of_le_bytes_le_bytes)
  moreover have "decode_gpt_partition_id (ld_device_ioctl boot_kernel w 1) = Inr (guid_from_windows_bytes (replicate 16 0))"
    by (simp add: decode_gpt_partition_id_def boot_ioctl buf_slice_def IOCTL_DISK_GET_PARTITION_INFO_EX_def
        IOCTL_DISK_GET_DRIVE_GEOMETRY_def IOCTL_DISK_GET_LENGTH_INFO_def Let_def of_le_bytes_le_bytes)
  ultimately show ?thesis
    by (simp add: handover_probe_def ld_query_geometry_def ld_read_gpt_partition_id_def boot_handover_def toy_device_def ld_new_def)
qed

lemma boot_fsd: "fsd_ok boot_kernel dv disk = fsd_ok ram_kernel dv disk" "fsd_reliable boot_kernel dv lim = fsd_reliable ram_kernel dv lim"
  by (simp_all add: fsd_ok_def fsd_reliable_def boot_kernel_def)

lemma boot_sweep: "sweep_reliable boot_kernel toy_device (\<lambda>w. w) toy_crypto const_rng toy_aes toy_store"
  using toy_sweep(1) by (simp add: sweep_reliable_def jvck_env_ok_def ld_reliable_def ld_ok_def boot_fsd boot_sector_io)

lemma boot_key: "xts_new toy_aes (fvek_key1 (js_secrets toy_store)) (fvek_key2 (js_secrets toy_store)) = Inr boot_xts"
  by (simp add: toy_store_def boot_xts_def xts_new_def toy_aes_def toy_secrets_def)

lemma boot_drv_ready: "boot_ready boot_handover 7 1 (boot_drv w)" "dr_world (boot_drv w) = w" "hi_vmk boot_handover = js_vmk toy_store"
proof -
  have "reg_ok h (set_handover x registry_new)" for h :: "'a vol_heap" and x
    using reg_ok_new [of h] by (simp add: reg_ok_def reg_get_def set_handover_def)
  then show "boot_ready boot_handover 7 1 (boot_drv w)"
    by (simp add: boot_ready_def boot_drv_def toy_drv_def) (simp add: set_handover_def)
qed (simp_all add: boot_drv_def toy_drv_def boot_handover_def toy_store_def)

definition boot_volume :: "(jvck_cells \<times> (nat \<Rightarrow> byte)) attached_volume" where
  "boot_volume = (toy_volume const_rng 40 Encrypting)\<lparr>av_io_config :=
     Encrypted (Some (\<lambda>_. Some (xts_as_volume_cipher toy_aes boot_xts))) 0
       \<lparr>eo_sector = 0, eo_total_sectors = 88\<rparr> (jvck_offset_store toy_crypto const_rng toy_store)\<rparr>"

lemma boot_volume_ok:
  "drv_vol_ok boot_kernel toy_device toy_crypto const_rng toy_aes boot_xts toy_store boot_volume"
  "vol_synced boot_volume" "engine_for toy_store (av_encryption boot_volume)"
  "av_encryption boot_volume = toy_engine 40 Encrypting"
proof -
  show e: "av_encryption boot_volume = toy_engine 40 Encrypting"
    by (simp add: boot_volume_def toy_volume_def)
  show ef: "engine_for toy_store (av_encryption boot_volume)"
    unfolding e by (rule toy_engine_for) simp
  show "vol_synced boot_volume"
    using toy_volume_ok(2) [of 40 const_rng Encrypting] by (simp add: vol_synced_def boot_volume_def)
  have "engine_ok (unat (ld_sector_size toy_device)) (unat (ld_total_sectors toy_device)) (unat ` set (store_lbas toy_store))
      (av_encryption boot_volume)"
    by (rule engine_for_ok [OF toy_sweep(2) ef])
  then show "drv_vol_ok boot_kernel toy_device toy_crypto const_rng toy_aes boot_xts toy_store boot_volume"
    unfolding boot_sector_io
    by (simp add: vol_ok_def boot_volume_def toy_volume_def av_cipher_supplier_def av_offset_sector_def ic_offset_sector_def
        data_sectors_def) (simp add: toy_engine_def toy_device_def ld_new_def)
qed

lemma boot_step:
  "\<exists>again v1 cells1 w1. sweep_step 8 boot_volume (toy_cells, \<lambda>a. of_nat a) = (Inr again, v1, cells1, w1)"
proof -
  obtain again e1 cells' w' where
    "encrypt_step (lift_sector_io (ld_sector_io boot_kernel toy_device)) (xts_as_volume_cipher toy_aes boot_xts)
      (jvck_offset_store toy_crypto const_rng toy_store) 8 (toy_engine 40 Encrypting) (toy_cells, \<lambda>a. of_nat a) =
      (Inr again, e1, cells', w')"
    using rsweep.encrypt_step_total [OF boot_sweep engine_for_ok_lift [OF sweep_reliable_ok [OF boot_sweep] toy_engine_for [of 40 Encrypting]],
        of 8 boot_xts "(toy_cells, \<lambda>a. of_nat a)"]
    by (auto simp: toy_device_def ld_new_def)
  then have "progress_step (lift_sector_io (ld_sector_io boot_kernel toy_device)) (xts_as_volume_cipher toy_aes boot_xts)
      (jvck_offset_store toy_crypto const_rng toy_store) 8 (av_encryption boot_volume)
      (toy_cells, \<lambda>a. of_nat a) = (Inr again, e1, cells', w')"
    by (simp add: progress_step_def boot_volume_ok(4)) (simp add: toy_engine_def)
  then show ?thesis
    using sweep_step_run [OF boot_volume_ok(1)] by auto
qed


section \<open>Properties\<close>

text \<open>C3: a reboot in the middle of a sweep.  After a sweep batch of an attached volume, a restart
  loses the driver's memory; when the device starts again and the loader hands over the same partition and
  key, the driver mounts the volume: it is registered as an operating-system volume, bound to the filter
  with a running thread, the sweep resumes in the direction recorded on the disk, and a reader sees exactly
  the data it saw before the batch.\<close>

theorem reboot_restores_volume:
  assumes "sweep_reliable K me disk C rng A st" "use_footer (js_options st) \<noteq> 0"
    "xts_new A (fvek_key1 (js_secrets st)) (fvek_key2 (js_secrets st)) = Inr x"
    "drv_vol_ok K me C rng A x st v0" "vol_synced v0" "engine_for st (av_encryption v0)"
    "en_state (av_encryption v0) = Encrypting \<and> \<not> is_fully_encrypted (en_encrypted_offset (av_encryption v0)) \<or>
     en_state (av_encryption v0) = Decrypting \<and> eo_sector (en_encrypted_offset (av_encryption v0)) \<noteq> 0"
    "sweep_step bsz v0 (cells0, w0) = (Inr again, v1, cells1, w1)"
    "handover_probe K w2 hi lower = Some me" "hi_vmk hi = js_vmk st"
    "boot_ready hi f lower d" "dr_world d = (cells2, w2)" "disk w2 = disk w1"
    "d' = try_mount_handover_volume (lift_nt_kernel K) DS (Some (sample_provider C rng A)) f d"
  shows "\<exists>v ext. dr_heap d' = dr_heap d @ [v] \<and> reg_get (av_volume_path v) (dr_reg d') = Some (length (dr_heap d)) \<and>
    dr_dev d' f = Some ext \<and> de_volume ext = Some (length (dr_heap d)) \<and> de_vthread ext \<noteq> None \<and> is_os_volume v \<and>
    drv_vol_ok K me C rng A x st v \<and> vol_synced v \<and> data_sectors v = data_sectors v0 \<and>
    av_encrypted_boundary v = av_encrypted_boundary v1 \<and>
    en_state (av_encryption v) = resumed_state (from_u16 (jc_state cells0)) (en_encrypted_offset (av_encryption v1)) \<and>
    (\<forall>i < unat (data_sectors v).
      vol_view (xts_as_volume_cipher A x) v (disk_sector disk (unat (ld_sector_size me)) w2) i =
      vol_view (xts_as_volume_cipher A x) v0 (disk_sector disk (unat (ld_sector_size me)) w0) i)"
proof -
  note ok = sweep_reliable_ok [OF assms(1)]
  obtain r e1 cw where p: "progress_step (lift_sector_io (ld_sector_io K me)) (xts_as_volume_cipher A x) (jvck_offset_store C rng st)
      bsz (av_encryption v0) (cells0, w0) = (r, e1, cw)"
    using prod_cases3 by blast
  have r: "r = Inr again" "v1 = sync_boundary (v0\<lparr>av_encryption := e1\<rparr>)" "cw = (cells1, w1)"
    using sweep_step_run [OF assms(4) p] assms(8) by auto
  obtain lba buf c' w' where w': "sio_write_sectors (lift_sector_io (ld_sector_io K me)) (cells0, w0) lba buf = (Inr (), c', w')"
    "js_store rng st (c', w') (en_encrypted_offset e1) = (Inr (), cells1, w1)"
    using progress_step_persists [OF p [unfolded r(1,3)] assms(7)] by auto
  have c': "c' = cells0"
    using w'(1) by (auto simp: lift_sector_io_def split: prod.splits)
  note view = sweep.sweep_step_view [where K = K and me = me and disk = disk and C = C and rng = rng and A = A and st = st
      and x = x, OF ok assms(4,5,8), simplified]
  have e1: "engine_for st e1"
    using sweep.progress_step_view [where K = K and me = me and disk = disk and C = C and rng = rng and A = A and st = st
      and x = x, OF ok engine_for_ok_lift [OF ok assms(6)] p [unfolded r(1,3)]] engine_for_same_region [OF assms(6)] by auto
  have bound: "eo_sector (en_encrypted_offset e1) \<le> g_data_sectors (js_geometry st)"
    and eo: "en_encrypted_offset e1 = \<lparr>eo_sector = eo_sector (en_encrypted_offset e1), eo_total_sectors = g_data_sectors (js_geometry st)\<rparr>"
    using e1 by (auto simp: engine_for_def)
  have v1: "en_encrypted_offset (av_encryption v1) = en_encrypted_offset e1" "av_encrypted_boundary v1 = eo_sector (en_encrypted_offset e1)"
    "av_offset_sector v1 = g_offset_sector (js_geometry st)" "data_sectors v1 = g_data_sectors (js_geometry st)"
    using r(2) e1 view by (simp_all add: sync_boundary_def encrypted_boundary_def vol_ok_def engine_for_def)
  obtain v ext where v: "dr_heap d' = dr_heap d @ [v]" "reg_get (av_volume_path v) (dr_reg d') = Some (length (dr_heap d))"
    "dr_dev d' f = Some ext" "de_volume ext = Some (length (dr_heap d))" "de_vthread ext \<noteq> None" "is_os_volume v"
    "drv_vol_ok K me C rng A x st v" "vol_synced v" "av_encrypted_boundary v = eo_sector (en_encrypted_offset e1)"
    "av_offset_sector v = g_offset_sector (js_geometry st)" "data_sectors v = g_data_sectors (js_geometry st)"
    "en_state (av_encryption v) = resumed_state (from_u16 (jc_state cells0)) (en_encrypted_offset e1)"
    using mount_stored [OF assms(1-3) w'(2) bound assms(9-14)] c' eo by auto
  have "vol_view (xts_as_volume_cipher A x) v g = vol_view (xts_as_volume_cipher A x) v1 g" for g
    using v(9,10) v1 by (simp add: vol_view_def)
  moreover have "disk_sector disk n w2 = disk_sector disk n w1" for n
    using assms(13) by (simp add: disk_sector_def fun_eq_iff)
  ultimately show ?thesis
    using v v1 view by auto
qed

theorem reboot_restores_volume_witness:
  "\<exists>again v1 cells1 w1 v. sweep_step 8 boot_volume (toy_cells, \<lambda>a. of_nat a) = (Inr again, v1, cells1, w1) \<and>
     dr_heap (try_mount_handover_volume (lift_nt_kernel boot_kernel) (toy_services (\<lambda>w. []) (\<lambda>l w. w) 0)
       (Some (sample_provider toy_crypto const_rng toy_aes)) 7 (boot_drv (toy_cells, w1))) = [v] \<and>
     is_os_volume v \<and> av_encrypted_boundary v = av_encrypted_boundary v1"
proof -
  obtain again v1 cells1 w1 where s: "sweep_step 8 boot_volume (toy_cells, \<lambda>a. of_nat a) = (Inr again, v1, cells1, w1)"
    using boot_step by blast
  have f: "use_footer (js_options toy_store) \<noteq> 0"
    "en_state (av_encryption boot_volume) = Encrypting \<and> \<not> is_fully_encrypted (en_encrypted_offset (av_encryption boot_volume)) \<or>
     en_state (av_encryption boot_volume) = Decrypting \<and> eo_sector (en_encrypted_offset (av_encryption boot_volume)) \<noteq> 0"
    by (simp_all add: toy_store_def toy_options_def boot_volume_ok(4)) (simp add: toy_engine_def is_fully_encrypted_def)
  have "dr_heap (boot_drv w) = []" for w
    by (simp add: boot_drv_def toy_drv_def)
  then show ?thesis
    using reboot_restores_volume [OF boot_sweep f(1) boot_key boot_volume_ok(1-3) f(2) s boot_probe boot_drv_ready(3,1,2) refl refl,
        of "toy_services (\<lambda>w. []) (\<lambda>l w. w) 0" toy_cells] s by auto
qed

text \<open>C19: only the volume the loader named is mounted.  If the attempt to mount changes the volumes,
  the registry or the devices at all, the loader handed over a volume, the filter was not bound, and the
  partition identifier of its lower device is the one handed over.\<close>

theorem boot_mount_only_target:
  assumes "d' = snd (on_start_device_completed K DS P passive work_item work_ctx f d)"
    "dr_dev d' \<noteq> dr_dev d \<or> dr_heap d' \<noteq> dr_heap d \<or> dr_reg d' \<noteq> dr_reg d"
  shows "\<exists>hi ext me. rg_handover (dr_reg d) = Some hi \<and> dr_dev d f = Some ext \<and> de_volume ext = None \<and>
    ld_query_geometry K (dr_world d) (ld_new (de_lower_device ext) 0 0) = Inr me \<and>
    ld_read_gpt_partition_id K (dr_world d) me = Inr (hi_partition_guid hi)"
proof -
  let ?m = "try_mount_handover_volume K DS P f d"
  have "d' = ?m \<or> d' = d"
    using assms(1) by (auto simp: on_start_device_completed_def mount_work_routine_def)
  then have ch: "dr_dev ?m \<noteq> dr_dev d \<or> dr_heap ?m \<noteq> dr_heap d \<or> dr_reg ?m \<noteq> dr_reg d"
    using assms(2) by auto
  obtain hi ext where h: "rg_handover (dr_reg d) = Some hi" "dr_dev d f = Some ext" "de_volume ext = None" "de_lower_device ext \<noteq> 0"
    using ch by (auto simp: try_mount_handover_volume_def split: option.splits if_splits)
  moreover have "handover_probe K (dr_world d) hi (de_lower_device ext) \<noteq> None"
  proof
    assume "handover_probe K (dr_world d) hi (de_lower_device ext) = None"
    then have "?m = d"
      using h by (simp add: try_mount_handover_volume_def Let_def)
    then show False
      using ch by simp
  qed
  ultimately show ?thesis
    by (auto simp: handover_probe_def split: sum.splits if_splits)
qed

theorem boot_mount_only_target_witness:
  "\<exists>w1 hi ext me. dr_heap (snd (on_start_device_completed (lift_nt_kernel boot_kernel) (toy_services (\<lambda>w. []) (\<lambda>l w. w) 0)
        (Some (sample_provider toy_crypto const_rng toy_aes)) False True True 7 (boot_drv (toy_cells, w1)))) \<noteq> [] \<and>
     rg_handover (dr_reg (boot_drv (toy_cells, w1))) = Some hi \<and> dr_dev (boot_drv (toy_cells, w1)) 7 = Some ext \<and>
     ld_read_gpt_partition_id (lift_nt_kernel boot_kernel) (toy_cells, w1) me = Inr (hi_partition_guid hi)"
proof -
  let ?K = "lift_nt_kernel boot_kernel" and ?DS = "toy_services (\<lambda>w. []) (\<lambda>l w. w) 0"
  let ?P = "Some (sample_provider toy_crypto const_rng toy_aes)"
  let ?off = "\<lparr>eo_sector = 40, eo_total_sectors = 88\<rparr>"
  obtain r cells1 w1 where js: "js_store const_rng toy_store (toy_cells, \<lambda>a. 0) ?off = (r, cells1, w1)"
    using prod_cases3 by blast
  let ?d = "boot_drv (toy_cells, w1)"
  have f: "use_footer (js_options toy_store) \<noteq> 0" "eo_sector ?off \<le> g_data_sectors (js_geometry toy_store)"
    by (simp_all add: toy_store_def toy_options_def)
  have "dr_heap (try_mount_handover_volume ?K ?DS ?P 7 ?d) \<noteq> []"
    using mount_stored [OF boot_sweep f(1) boot_key js f(2) boot_probe boot_drv_ready(3,1,2) refl refl, of ?DS toy_cells]
    by fastforce
  then have ch: "dr_heap (snd (on_start_device_completed ?K ?DS ?P False True True 7 ?d)) \<noteq> []"
    by (simp add: on_start_device_completed_def mount_work_routine_def)
  moreover have "dr_heap ?d = []" "dr_world ?d = (toy_cells, w1)"
    by (simp_all add: boot_drv_def toy_drv_def)
  ultimately show ?thesis
    using boot_mount_only_target [OF refl, of ?K ?DS ?P False True True 7 ?d] by metis
qed

end
