(* ===== verification/Boot_Handover.thy ===== *)
theory Boot_Handover
  imports Handover_Mount
begin

text \<open>
  The handover of the volume key from the UEFI loader to the driver: the locator and the payload
  (\<open>lib/common/src/handover/payload.rs\<close>, \<open>sample/common/src/payload.rs\<close>), publishing them
  (\<open>lib/loader/src/handover.rs\<close>) and reading them (\<open>lib/windrv/src/handover.rs\<close>).

  The msgpack crate, the firmware and the kernel are parameters.
\<close>


section \<open>Locator and payload\<close>

record handover_locator =
  hl_magic :: u32
  hl_version :: u16
  hl_address :: u64
  hl_length :: u64

definition HANDOVER_LOCATOR_MAGIC :: u32 where
  "HANDOVER_LOCATOR_MAGIC = of_le_bytes [0x56, 0x43, 0x4B, 0x4C]"

definition HANDOVER_LOCATOR_VERSION :: u16 where "HANDOVER_LOCATOR_VERSION = 1"

definition locator_new :: "u64 \<Rightarrow> u64 \<Rightarrow> handover_locator" where
  "locator_new address len =
     \<lparr>hl_magic = HANDOVER_LOCATOR_MAGIC, hl_version = HANDOVER_LOCATOR_VERSION, hl_address = address, hl_length = len\<rparr>"

definition locator_validate :: "handover_locator \<Rightarrow> unit vck_result" where
  "locator_validate l =
     (if hl_magic l \<noteq> HANDOVER_LOCATOR_MAGIC then Inl (InvalidData ''handover locator: bad magic'')
      else if hl_version l \<noteq> HANDOVER_LOCATOR_VERSION then Inl (InvalidData ''handover locator: unsupported version'')
      else if hl_address l = 0 \<or> hl_length l = 0 then Inl (InvalidData ''handover locator: empty address/length'')
      else Inr ())"

record vck_handover_payload =
  hp_partition_guid :: guid
  hp_vmk :: bytes

definition HANDOVER_VAR_NAME :: string where "HANDOVER_VAR_NAME = ''VckHandover''"

definition HANDOVER_VAR_GUID :: bytes where
  "HANDOVER_VAR_GUID =
     [0x43, 0x4b, 0x56, 0x59, 0x48, 0x44, 0x4f, 0x56, 0x31, 0x32, 0x2d, 0x56, 0x41, 0x52, 0x21, 0x21]"

text \<open>The msgpack crate on the two types.\<close>

record handover_codec =
  hc_en_payload :: "vck_handover_payload \<Rightarrow> string + bytes"
  hc_de_payload :: "bytes \<Rightarrow> string + vck_handover_payload"
  hc_en_locator :: "handover_locator \<Rightarrow> string + bytes"
  hc_de_locator :: "bytes \<Rightarrow> string + handover_locator"

definition encode_payload :: "handover_codec \<Rightarrow> vck_handover_payload \<Rightarrow> bytes vck_result" where
  "encode_payload M p = (case hc_en_payload M p of Inl m \<Rightarrow> Inl (MsgpackEncode m) | Inr b \<Rightarrow> Inr b)"

definition decode_payload :: "handover_codec \<Rightarrow> bytes \<Rightarrow> vck_handover_payload vck_result" where
  "decode_payload M b = (case hc_de_payload M b of Inl m \<Rightarrow> Inl (MsgpackDecode m) | Inr p \<Rightarrow> Inr p)"

definition encode_locator :: "handover_codec \<Rightarrow> handover_locator \<Rightarrow> bytes vck_result" where
  "encode_locator M l = (case hc_en_locator M l of Inl m \<Rightarrow> Inl (MsgpackEncode m) | Inr b \<Rightarrow> Inr b)"

definition decode_locator :: "handover_codec \<Rightarrow> bytes \<Rightarrow> handover_locator vck_result" where
  "decode_locator M b =
     (case hc_de_locator M b of
        Inl m \<Rightarrow> Inl (MsgpackDecode m)
      | Inr l \<Rightarrow> res_bind (locator_validate l) (\<lambda>_. Inr l))"


section \<open>Firmware and kernel\<close>

text \<open>A vendor identifier in the layout of Windows, and how the driver builds it.\<close>

record win_guid =
  wg_data1 :: u32
  wg_data2 :: u16
  wg_data3 :: u16
  wg_data4 :: bytes

definition handover_guid :: "bytes \<Rightarrow> win_guid" where
  "handover_guid b =
     \<lparr>wg_data1 = of_le_bytes (buf_slice 0 4 b), wg_data2 = of_le_bytes (buf_slice 4 6 b),
      wg_data3 = of_le_bytes (buf_slice 6 8 b), wg_data4 = buf_slice 8 16 b\<rparr>"

text \<open>Memory is physical: the loader runs identity-mapped, the driver maps the range first
  (\<open>pf_map\<close>).  Reading a variable takes the size of the buffer and gives the status, the size of the
  value and the bytes stored into the buffer.  \<open>pf_boot\<close> is the start of the operating system.\<close>

record 'w platform =
  pf_allocate_pool :: "'w \<Rightarrow> nat \<Rightarrow> u64 option \<times> 'w"
  pf_write_memory :: "'w \<Rightarrow> u64 \<Rightarrow> bytes \<Rightarrow> 'w"
  pf_read_memory :: "'w \<Rightarrow> u64 \<Rightarrow> nat \<Rightarrow> bytes"
  pf_ucs2 :: "string \<Rightarrow> bool"
  pf_set_variable :: "'w \<Rightarrow> string \<Rightarrow> bytes \<Rightarrow> bytes \<Rightarrow> bool \<times> 'w"
  pf_boot :: "'w \<Rightarrow> 'w"
  pf_get_variable :: "'w \<Rightarrow> string \<Rightarrow> win_guid \<Rightarrow> u32 \<Rightarrow> ntstatus \<times> u32 \<times> bytes"
  pf_pool :: "'w \<Rightarrow> nat \<Rightarrow> bool"
  pf_map :: "'w \<Rightarrow> u64 \<Rightarrow> nat \<Rightarrow> bool"


section \<open>Publishing (loader)\<close>

definition loader_install_handover ::
    "handover_codec \<Rightarrow> 'w platform \<Rightarrow> vck_handover_payload \<Rightarrow> 'w \<Rightarrow> unit vck_result \<times> 'w" where
  "loader_install_handover M P payload w =
     (case encode_payload M payload of
        Inl e \<Rightarrow> (Inl e, w)
      | Inr data \<Rightarrow>
          (case pf_allocate_pool P w (length data) of
             (None, w1) \<Rightarrow> (Inl (Io ''allocate_pool(RUNTIME_SERVICES_DATA) failed''), w1)
           | (Some address, w1) \<Rightarrow>
               let w2 = pf_write_memory P w1 address data
               in (case encode_locator M (locator_new address (of_nat (length data))) of
                     Inl e \<Rightarrow> (Inl e, w2)
                   | Inr loc_bytes \<Rightarrow>
                       if \<not> pf_ucs2 P HANDOVER_VAR_NAME
                       then (Inl (InvalidData ''handover variable name not valid UCS-2''), w2)
                       else (case pf_set_variable P w2 HANDOVER_VAR_NAME HANDOVER_VAR_GUID loc_bytes of
                               (False, w3) \<Rightarrow> (Inl (Io ''SetVariable(handover locator) failed''), w3)
                             | (True, w3) \<Rightarrow> (Inr (), w3)))))"


section \<open>Reading (driver)\<close>

definition MAX_PAYLOAD_LEN :: nat where "MAX_PAYLOAD_LEN = 64 * 1024"

definition read_handover_variable :: "'w platform \<Rightarrow> string \<Rightarrow> bytes \<Rightarrow> 'w \<Rightarrow> bytes vck_result" where
  "read_handover_variable P var_name var_guid w =
     (let g = handover_guid var_guid;
          (st, len, _) = pf_get_variable P w var_name g 0
      in if st \<noteq> STATUS_BUFFER_TOO_SMALL \<or> len = 0 then Inl (NotFound ''handover variable not present'')
         else if \<not> pf_pool P w (unat len) then Inl (Io ''ExAllocatePool2(handover var) failed'')
         else let (st2, got, buf) = pf_get_variable P w var_name g len
              in if \<not> nt_success st2 then Inl (Io ''ExGetFirmwareEnvironmentVariable(get) failed'')
                 else Inr (take (min (unat got) (unat len)) buf))"

text \<open>The mapped buffer is copied and then overwritten with zeros.\<close>

definition read_handover_payload :: "'w platform \<Rightarrow> handover_locator \<Rightarrow> 'w \<Rightarrow> bytes vck_result \<times> 'w" where
  "read_handover_payload P locator w =
     (let len = unat (hl_length locator)
      in if len = 0 \<or> len > MAX_PAYLOAD_LEN then (Inl (InvalidData ''handover payload length out of range''), w)
         else if \<not> pf_map P w (hl_address locator) len then (Inl (Io ''MmMapIoSpace(handover payload) failed''), w)
         else (Inr (pf_read_memory P w (hl_address locator) len),
               pf_write_memory P w (hl_address locator) (replicate len 0)))"

definition read_handover :: "handover_codec \<Rightarrow> 'w platform \<Rightarrow> 'w \<Rightarrow> vck_handover_payload vck_result \<times> 'w" where
  "read_handover M P w =
     (case res_bind (read_handover_variable P HANDOVER_VAR_NAME HANDOVER_VAR_GUID w) (decode_locator M) of
        Inl e \<Rightarrow> (Inl e, w)
      | Inr locator \<Rightarrow>
          (case read_handover_payload P locator w of
             (Inl e, w1) \<Rightarrow> (Inl e, w1)
           | (Inr payload, w1) \<Rightarrow> (decode_payload M payload, w1)))"


section \<open>What the platform promises\<close>

text \<open>msgpack decodes what it encoded.\<close>

definition codec_ok :: "handover_codec \<Rightarrow> bool" where
  "codec_ok M \<longleftrightarrow>
     (\<forall>p b. hc_en_payload M p = Inr b \<longrightarrow> hc_de_payload M b = Inr p) \<and>
     (\<forall>l b. hc_en_locator M l = Inr b \<longrightarrow> hc_de_locator M b = Inr l \<and> 0 < length b \<and> length b < 2 ^ 32)"

text \<open>Pool memory is not at address 0 and ends within the address space; what is written to memory is read back; a variable that was
  set is found under the identifier the driver builds, first with its size, then with its value; setting
  it leaves memory alone, and so does the start of the system to both; reserved memory can be mapped.\<close>

definition platform_ok :: "'w platform \<Rightarrow> bool" where
  "platform_ok P \<longleftrightarrow>
     (\<forall>w n a w1. pf_allocate_pool P w n = (Some a, w1) \<longrightarrow> a \<noteq> 0 \<and> unat a + n \<le> 2 ^ 64) \<and>
     (\<forall>w a bs. unat a + length bs \<le> 2 ^ 64 \<longrightarrow> pf_read_memory P (pf_write_memory P w a bs) a (length bs) = bs) \<and>
     (\<forall>w n g v w1. pf_set_variable P w n g v = (True, w1) \<longrightarrow>
        (\<forall>a k. pf_read_memory P w1 a k = pf_read_memory P w a k) \<and>
        (0 < length v \<and> length v < 2 ^ 32 \<longrightarrow>
           pf_get_variable P w1 n (handover_guid g) 0 = (STATUS_BUFFER_TOO_SMALL, of_nat (length v), []) \<and>
           pf_get_variable P w1 n (handover_guid g) (of_nat (length v)) = (STATUS_SUCCESS, of_nat (length v), v))) \<and>
     (\<forall>w a k. pf_read_memory P (pf_boot P w) a k = pf_read_memory P w a k) \<and>
     (\<forall>w n g k. pf_get_variable P (pf_boot P w) n g k = pf_get_variable P w n g k) \<and>
     (\<forall>w n. n < 2 ^ 32 \<longrightarrow> pf_pool P (pf_boot P w) n) \<and>
     (\<forall>w a n. n \<le> MAX_PAYLOAD_LEN \<longrightarrow> pf_map P (pf_boot P w) a n)"

lemma read_handover_variable_set:
  assumes "platform_ok P" "pf_set_variable P w n g v = (True, w1)" "0 < length v" "length v < 2 ^ 32"
  shows "read_handover_variable P n g (pf_boot P w1) = Inr v"
proof -
  have g: "pf_get_variable P (pf_boot P w1) n (handover_guid g) 0 = (STATUS_BUFFER_TOO_SMALL, of_nat (length v), [])"
    "pf_get_variable P (pf_boot P w1) n (handover_guid g) (of_nat (length v)) = (STATUS_SUCCESS, of_nat (length v), v)"
    "pf_pool P (pf_boot P w1) (length v)"
    using assms unfolding platform_ok_def by auto
  have u: "unat (of_nat (length v) :: u32) = length v"
    using assms(4) by (intro unat_of_nat_less) simp
  then have "(of_nat (length v) :: u32) \<noteq> 0"
    using assms(3) by (metis unat_0 less_numeral_extra(3))
  then show ?thesis
    using g u by (simp add: read_handover_variable_def STATUS_SUCCESS_def nt_success_def)
qed


lemma read_published:
  assumes "codec_ok M" "platform_ok P" "loader_install_handover M P payload w = (Inr (), w1)"
    "encode_payload M payload = Inr data" "0 < length data" "length data < 2 ^ 64"
  shows "\<exists>a. unat a + length data \<le> 2 ^ 64 \<and> pf_read_memory P w1 a (length data) = data \<and>
    read_handover M P (pf_boot P w1) =
      (if length data \<le> MAX_PAYLOAD_LEN then (Inr payload, pf_write_memory P (pf_boot P w1) a (replicate (length data) 0))
       else (Inl (InvalidData ''handover payload length out of range''), pf_boot P w1))"
proof -
  obtain a wa loc wl where s: "pf_allocate_pool P w (length data) = (Some a, wa)"
    "encode_locator M (locator_new a (of_nat (length data))) = Inr loc"
    "pf_set_variable P (pf_write_memory P wa a data) HANDOVER_VAR_NAME HANDOVER_VAR_GUID loc = (True, w1)"
    using assms(3,4) by (auto simp: loader_install_handover_def Let_def split: prod.splits option.splits sum.splits if_splits bool.splits)
  have enc: "hc_en_locator M (locator_new a (of_nat (length data))) = Inr loc"
    using s(2) by (simp add: encode_locator_def split: sum.splits)
  then have dec: "hc_de_locator M loc = Inr (locator_new a (of_nat (length data)))" "0 < length loc" "length loc < 2 ^ 32"
    using assms(1) unfolding codec_ok_def by blast+
  have var: "read_handover_variable P HANDOVER_VAR_NAME HANDOVER_VAR_GUID (pf_boot P w1) = Inr loc"
    by (rule read_handover_variable_set [OF assms(2) s(3) dec(2,3)])
  have u: "unat (of_nat (length data) :: u64) = length data"
    using assms(6) by (intro unat_of_nat_less) simp
  then have nz: "(of_nat (length data) :: u64) \<noteq> 0"
    using assms(5) by (metis unat_0 less_numeral_extra(3))
  have "a \<noteq> 0" and fits: "unat a + length data \<le> 2 ^ 64"
    using assms(2) s(1) unfolding platform_ok_def by metis+
  then have loc: "decode_locator M loc = Inr (locator_new a (of_nat (length data)))"
    using dec(1) nz by (simp add: decode_locator_def locator_validate_def locator_new_def)
  have mem: "pf_read_memory P w1 a (length data) = data" "pf_read_memory P (pf_boot P w1) a (length data) = data"
    "length data \<le> MAX_PAYLOAD_LEN \<longrightarrow> pf_map P (pf_boot P w1) a (length data)"
    using assms(2) s(3) fits unfolding platform_ok_def by auto
  have pay: "decode_payload M data = Inr payload"
    using assms(1,4) unfolding codec_ok_def decode_payload_def encode_payload_def by (auto split: sum.splits)
  have "read_handover M P (pf_boot P w1) =
      (if length data \<le> MAX_PAYLOAD_LEN then (Inr payload, pf_write_memory P (pf_boot P w1) a (replicate (length data) 0))
       else (Inl (InvalidData ''handover payload length out of range''), pf_boot P w1))"
    using assms(5) var loc mem(2,3) pay u by (simp add: read_handover_def read_handover_payload_def locator_new_def Let_def)
  then show ?thesis
    using fits mem(1) by blast
qed


section \<open>Properties\<close>

text \<open>C14: the key reaches the driver.  When the loader has published a payload, the driver that
  starts afterwards reads exactly that payload and wipes the buffer it came from; a payload longer than
  64 KiB, which the loader publishes as well, is refused.\<close>

theorem handover_roundtrip:
  assumes "codec_ok M" "platform_ok P" "loader_install_handover M P payload w = (Inr (), w1)"
    "encode_payload M payload = Inr data" "0 < length data" "length data < 2 ^ 64"
    "read_handover M P (pf_boot P w1) = (r, w2)"
  shows "if length data \<le> MAX_PAYLOAD_LEN
    then r = Inr payload \<and> (\<exists>a. pf_read_memory P w1 a (length data) = data \<and> pf_read_memory P w2 a (length data) = replicate (length data) 0)
    else r = Inl (InvalidData ''handover payload length out of range'') \<and> w2 = pf_boot P w1"
proof -
  obtain a where a: "unat a + length data \<le> 2 ^ 64" "pf_read_memory P w1 a (length data) = data"
    "read_handover M P (pf_boot P w1) =
      (if length data \<le> MAX_PAYLOAD_LEN then (Inr payload, pf_write_memory P (pf_boot P w1) a (replicate (length data) 0))
       else (Inl (InvalidData ''handover payload length out of range''), pf_boot P w1))"
    using read_published [OF assms(1-6)] by blast
  have "pf_read_memory P (pf_write_memory P (pf_boot P w1) a (replicate (length data) 0)) a (length data) = replicate (length data) 0"
    using assms(2) a(1) unfolding platform_ok_def by (metis length_replicate)
  then show ?thesis
    using assms(7) a(2,3) by auto
qed

text \<open>A platform whose memory is a function, with one variable, and a codec for one partition.\<close>

type_synonym toy_platform_world = "(nat \<Rightarrow> byte) \<times> bytes"

definition toy_platform :: "toy_platform_world platform" where
  "toy_platform =
     \<lparr>pf_allocate_pool = (\<lambda>w n. (if n \<le> 2 ^ 32 then Some 4096 else None, w)),
      pf_write_memory = (\<lambda>w a bs. (put_bytes (unat a) bs (fst w), snd w)),
      pf_read_memory = (\<lambda>w a n. map (fst w) [unat a..<unat a + n]),
      pf_ucs2 = (\<lambda>s. True),
      pf_set_variable = (\<lambda>w n g v. (True, fst w, v)),
      pf_boot = (\<lambda>w. w),
      pf_get_variable = (\<lambda>w n g k. if k = of_nat (length (snd w)) then (STATUS_SUCCESS, k, snd w)
         else (STATUS_BUFFER_TOO_SMALL, of_nat (length (snd w)), [])),
      pf_pool = (\<lambda>w n. True), pf_map = (\<lambda>w a n. True)\<rparr>"

definition toy_handover_codec :: "guid \<Rightarrow> handover_codec" where
  "toy_handover_codec g =
     \<lparr>hc_en_payload = (\<lambda>p. if hp_partition_guid p = g then Inr (hp_vmk p) else Inl ''other partition''),
      hc_de_payload = (\<lambda>b. Inr \<lparr>hp_partition_guid = g, hp_vmk = b\<rparr>),
      hc_en_locator = (\<lambda>l. if hl_magic l = HANDOVER_LOCATOR_MAGIC \<and> hl_version l = HANDOVER_LOCATOR_VERSION
         then Inr (le_bytes 8 (hl_address l) @ le_bytes 8 (hl_length l)) else Inl ''other version''),
      hc_de_locator = (\<lambda>b. Inr (locator_new (of_le_bytes (take 8 b)) (of_le_bytes (drop 8 b))))\<rparr>"

lemma toy_handover_ok: "platform_ok toy_platform" "codec_ok (toy_handover_codec g)"
proof -
  have len: "(0 :: u32) \<noteq> of_nat n" if "0 < n" "n < 2 ^ 32" for n
  proof
    assume "(0 :: u32) = of_nat n"
    moreover have "unat (of_nat n :: u32) = n"
      using that by (intro unat_of_nat_less) simp
    ultimately show False
      using that by (metis unat_0 less_numeral_extra(3))
  qed
  have put: "map (put_bytes a bs m) [a..<a + length bs] = bs" for a and bs :: bytes and m
    by (rule nth_equalityI) (simp_all add: put_bytes_def)
  show "platform_ok toy_platform"
    unfolding platform_ok_def using len by (auto simp: toy_platform_def put split: if_splits)
  have ne: "le_bytes 8 (x :: u64) \<noteq> []" for x
    by (metis length_le_bytes list.size(3) zero_neq_numeral)
  show "codec_ok (toy_handover_codec g)"
    using ne by (auto simp: codec_ok_def toy_handover_codec_def locator_new_def of_le_bytes_le_bytes split: if_splits)
qed

theorem handover_roundtrip_witness:
  "\<exists>w2. read_handover (toy_handover_codec (guid_from_windows_bytes (replicate 16 0))) toy_platform
     (snd (loader_install_handover (toy_handover_codec (guid_from_windows_bytes (replicate 16 0))) toy_platform
        \<lparr>hp_partition_guid = guid_from_windows_bytes (replicate 16 0), hp_vmk = [1, 2, 3]\<rparr> (\<lambda>a. 0, []))) =
     (Inr \<lparr>hp_partition_guid = guid_from_windows_bytes (replicate 16 0), hp_vmk = [1, 2, 3]\<rparr>, w2)"
proof -
  define g where "g = guid_from_windows_bytes (replicate 16 0)"
  let ?M = "toy_handover_codec g" and ?p = "\<lparr>hp_partition_guid = g, hp_vmk = [1, 2, 3]\<rparr>"
  obtain w1 where i: "loader_install_handover ?M toy_platform ?p (\<lambda>a. 0, []) = (Inr (), w1)"
    by (simp add: loader_install_handover_def encode_payload_def encode_locator_def toy_handover_codec_def toy_platform_def
        locator_new_def Let_def)
  obtain r w2 where rd: "read_handover ?M toy_platform (pf_boot toy_platform w1) = (r, w2)"
    by (metis prod.exhaust)
  have enc: "encode_payload ?M ?p = Inr [1, 2, 3]"
    by (simp add: encode_payload_def toy_handover_codec_def)
  have "r = Inr ?p"
    using handover_roundtrip [OF toy_handover_ok(2,1) i enc _ _ rd] by (simp add: MAX_PAYLOAD_LEN_def)
  moreover have "pf_boot toy_platform w1 = w1"
    by (simp add: toy_platform_def)
  ultimately show ?thesis
    using i rd unfolding g_def [symmetric] by auto
qed

end
