(* ===== verification/Loader_Hook.thy ===== *)
theory Loader_Hook
  imports Boot_Handover
begin

text \<open>
  The UEFI loader: the hooks that decrypt and encrypt the blocks of the system volume during boot
  (\<open>lib/loader/src/hook/mod.rs\<close>, \<open>hook/block_io.rs\<close>), the volume it reads the metadata from
  (\<open>uefi_io\<close> of \<open>lib/common/src/jvck/store.rs\<close>) and the flow of the sample loader
  (\<open>sample/loader/src/main.rs\<close>).

  The firmware is a parameter.  The function pointers of a protocol instance are part of the state: each
  is the firmware's own function or the hook.
\<close>


section \<open>State\<close>

record hook_geometry =
  hg_partition_guid :: guid
  hg_offset_sector :: u64
  hg_encrypted_offset :: encrypted_offset

record hook_engine =
  hk_geometry :: hook_geometry
  hk_cipher_supplier :: cipher_supplier
  hk_block_io :: "u64 option"

datatype read_blocks_fn = FirmwareRead | HookedRead
datatype write_blocks_fn = FirmwareWrite | HookedWrite

record hook_entry =
  he_protocol :: u64
  he_original_read :: read_blocks_fn
  he_original_write :: write_blocks_fn
  he_engine :: "hook_engine option"

definition MAX_HOOKS :: nat where "MAX_HOOKS = 8"

record block_io_media =
  bm_media_id :: u32
  bm_media_present :: bool
  bm_block_size :: u32
  bm_last_block :: u64

text \<open>Handles and protocol instances are numbers, 0 the null pointer.  Opening a protocol is exclusive
  and lasts until it is closed.  The status of a transfer is an \<open>EFI_STATUS\<close>.\<close>

record 'w firmware =
  fw_locate_block_io :: "'w \<Rightarrow> u64 list option"
  fw_partition_guid :: "'w \<Rightarrow> u64 \<Rightarrow> bytes option"
  fw_open_block_io :: "'w \<Rightarrow> u64 \<Rightarrow> u64 option \<times> 'w"
  fw_close_block_io :: "'w \<Rightarrow> u64 \<Rightarrow> 'w"
  fw_media :: "'w \<Rightarrow> u64 \<Rightarrow> block_io_media option"
  fw_read_blocks :: "'w \<Rightarrow> u64 \<Rightarrow> u32 \<Rightarrow> u64 \<Rightarrow> nat \<Rightarrow> u64 \<times> bytes"
  fw_write_blocks :: "'w \<Rightarrow> u64 \<Rightarrow> u32 \<Rightarrow> u64 \<Rightarrow> bytes \<Rightarrow> u64 \<times> 'w"

record 'w loader =
  lo_world :: 'w
  lo_read_blocks :: "u64 \<Rightarrow> read_blocks_fn"
  lo_write_blocks :: "u64 \<Rightarrow> write_blocks_fn"
  lo_hook_table :: "hook_entry option list"

text \<open>The state before anything is hooked.\<close>

definition loader_init :: "'w \<Rightarrow> 'w loader" where
  "loader_init w = \<lparr>lo_world = w, lo_read_blocks = (\<lambda>p. FirmwareRead), lo_write_blocks = (\<lambda>p. FirmwareWrite),
     lo_hook_table = replicate MAX_HOOKS None\<rparr>"

definition EFI_SUCCESS :: u64 where "EFI_SUCCESS = 0"
definition EFI_DEVICE_ERROR :: u64 where "EFI_DEVICE_ERROR = 0x8000000000000007"

definition find_entry :: "u64 \<Rightarrow> hook_entry option list \<Rightarrow> hook_entry option" where
  "find_entry protocol table = find (\<lambda>e. he_protocol e = protocol) (map the (filter (\<lambda>s. s \<noteq> None) table))"


section \<open>Decision per sector\<close>

definition checked_sub :: "u64 \<Rightarrow> u64 \<Rightarrow> u64 option" where
  "checked_sub a b = (if b \<le> a then Some (a - b) else None)"

text \<open>One sector of a request: the loop bodies of \<open>decrypt_after_read\<close> and
  \<open>encrypt_before_write\<close>.\<close>

definition hook_sector :: "(u64 \<Rightarrow> bytes \<Rightarrow> bytes) \<Rightarrow> hook_geometry \<Rightarrow> u64 \<Rightarrow> bytes \<Rightarrow> bytes" where
  "hook_sector f g abs_lba sector =
     (case checked_sub abs_lba (hg_offset_sector g) of
        None \<Rightarrow> sector
      | Some rel \<Rightarrow>
          if rel \<ge> eo_total_sectors (hg_encrypted_offset g) then sector
          else if is_encrypted (hg_encrypted_offset g) rel then f rel sector
          else sector)"

definition decrypt_after_read :: "hook_engine \<Rightarrow> u64 \<Rightarrow> nat \<Rightarrow> bytes \<Rightarrow> bytes vck_result" where
  "decrypt_after_read eng lba sector_size buf =
     (if sector_size = 0 then Inr buf
      else (case hk_cipher_supplier eng () of
              None \<Rightarrow> Inr buf
            | Some cipher \<Rightarrow> Inr (area_map (hook_sector (vc_decrypt_sector cipher) (hk_geometry eng)) lba sector_size buf)))"

definition encrypt_before_write :: "hook_engine \<Rightarrow> u64 \<Rightarrow> nat \<Rightarrow> bytes \<Rightarrow> bytes vck_result" where
  "encrypt_before_write eng lba sector_size buf =
     (if sector_size = 0 then Inr buf
      else (case hk_cipher_supplier eng () of
              None \<Rightarrow> Inr buf
            | Some cipher \<Rightarrow> Inr (area_map (hook_sector (vc_encrypt_sector cipher) (hk_geometry eng)) lba sector_size buf)))"


section \<open>The hooks\<close>

text \<open>The bytes of a read are the buffer afterwards; \<open>buffer = False\<close> stands for a null pointer.
  The original function of an entry is called with the same protocol, so a hook whose saved original is
  the hook itself would call itself without end: that is \<open>None\<close>.\<close>

definition after_read :: "'w firmware \<Rightarrow> hook_entry \<Rightarrow> u64 \<Rightarrow> u64 \<Rightarrow> nat \<Rightarrow> bool \<Rightarrow> u64 \<times> bytes \<Rightarrow> 'w \<Rightarrow> u64 \<times> bytes" where
  "after_read FW entry this lba buffer_size buffer res w =
     (case res of (status, buf) \<Rightarrow>
        if status \<noteq> EFI_SUCCESS then (status, buf)
        else (case fw_media FW w this of
                None \<Rightarrow> (status, buf)
              | Some media \<Rightarrow>
                  if \<not> buffer \<or> buffer_size = 0 then (status, buf)
                  else let block_size = unat (bm_block_size media)
                       in if block_size = 0 then (status, buf)
                          else (case he_engine entry of
                                  None \<Rightarrow> (status, buf)
                                | Some eng \<Rightarrow>
                                    (case decrypt_after_read eng lba block_size buf of
                                       Inl _ \<Rightarrow> (EFI_DEVICE_ERROR, buf)
                                     | Inr buf1 \<Rightarrow> (status, buf1)))))"

definition hooked_read_blocks ::
    "'w firmware \<Rightarrow> u64 \<Rightarrow> u32 \<Rightarrow> u64 \<Rightarrow> nat \<Rightarrow> bool \<Rightarrow> 'w loader \<Rightarrow> (u64 \<times> bytes) option" where
  "hooked_read_blocks FW this media_id lba buffer_size buffer lo =
     (case find_entry this (lo_hook_table lo) of
        None \<Rightarrow> Some (EFI_DEVICE_ERROR, [])
      | Some entry \<Rightarrow>
          (case he_original_read entry of
             HookedRead \<Rightarrow> None
           | FirmwareRead \<Rightarrow>
               Some (after_read FW entry this lba buffer_size buffer (fw_read_blocks FW (lo_world lo) this media_id lba buffer_size) (lo_world lo))))"

definition call_read_blocks ::
    "'w firmware \<Rightarrow> u64 \<Rightarrow> u32 \<Rightarrow> u64 \<Rightarrow> nat \<Rightarrow> bool \<Rightarrow> 'w loader \<Rightarrow> (u64 \<times> bytes) option" where
  "call_read_blocks FW this media_id lba buffer_size buffer lo =
     (case lo_read_blocks lo this of
        FirmwareRead \<Rightarrow> Some (fw_read_blocks FW (lo_world lo) this media_id lba buffer_size)
      | HookedRead \<Rightarrow> hooked_read_blocks FW this media_id lba buffer_size buffer lo)"

definition before_write :: "'w firmware \<Rightarrow> hook_entry \<Rightarrow> u64 \<Rightarrow> u64 \<Rightarrow> bytes option \<Rightarrow> 'w \<Rightarrow> bytes option vck_result" where
  "before_write FW entry this lba buffer w =
     (case (fw_media FW w this, buffer, he_engine entry) of
        (Some media, Some src, Some eng) \<Rightarrow>
          let block_size = unat (bm_block_size media)
          in if length src = 0 \<or> block_size = 0 then Inr buffer
             else res_bind (encrypt_before_write eng lba block_size src) (\<lambda>encrypted. Inr (Some encrypted))
      | _ \<Rightarrow> Inr buffer)"

text \<open>The buffer of a write is \<open>None\<close> for a null pointer.\<close>

definition firmware_write :: "'w firmware \<Rightarrow> u64 \<Rightarrow> u32 \<Rightarrow> u64 \<Rightarrow> bytes option \<Rightarrow> 'w loader \<Rightarrow> u64 \<times> 'w loader" where
  "firmware_write FW this media_id lba buffer lo =
     (case fw_write_blocks FW (lo_world lo) this media_id lba (case buffer of None \<Rightarrow> [] | Some b \<Rightarrow> b) of
        (s, w1) \<Rightarrow> (s, lo\<lparr>lo_world := w1\<rparr>))"

definition hooked_write_blocks ::
    "'w firmware \<Rightarrow> u64 \<Rightarrow> u32 \<Rightarrow> u64 \<Rightarrow> bytes option \<Rightarrow> 'w loader \<Rightarrow> (u64 \<times> 'w loader) option" where
  "hooked_write_blocks FW this media_id lba buffer lo =
     (case find_entry this (lo_hook_table lo) of
        None \<Rightarrow> Some (EFI_DEVICE_ERROR, lo)
      | Some entry \<Rightarrow>
          (case before_write FW entry this lba buffer (lo_world lo) of
             Inl _ \<Rightarrow> Some (EFI_DEVICE_ERROR, lo)
           | Inr out \<Rightarrow>
               (case he_original_write entry of
                  HookedWrite \<Rightarrow> None
                | FirmwareWrite \<Rightarrow> Some (firmware_write FW this media_id lba out lo))))"

definition call_write_blocks ::
    "'w firmware \<Rightarrow> u64 \<Rightarrow> u32 \<Rightarrow> u64 \<Rightarrow> bytes option \<Rightarrow> 'w loader \<Rightarrow> (u64 \<times> 'w loader) option" where
  "call_write_blocks FW this media_id lba buffer lo =
     (case lo_write_blocks lo this of
        FirmwareWrite \<Rightarrow> Some (firmware_write FW this media_id lba buffer lo)
      | HookedWrite \<Rightarrow> hooked_write_blocks FW this media_id lba buffer lo)"


section \<open>Installing and removing\<close>

primrec fill_slot :: "hook_entry \<Rightarrow> hook_entry option list \<Rightarrow> hook_entry option list option" where
  "fill_slot e [] = None"
| "fill_slot e (s # ss) = (if s = None then Some (Some e # ss) else map_option ((#) s) (fill_slot e ss))"

definition hook_install :: "u64 \<Rightarrow> hook_engine \<Rightarrow> 'w loader \<Rightarrow> u64 vck_result \<times> 'w loader" where
  "hook_install protocol eng lo =
     (case fill_slot \<lparr>he_protocol = protocol, he_original_read = lo_read_blocks lo protocol,
             he_original_write = lo_write_blocks lo protocol, he_engine = Some eng\<rparr> (lo_hook_table lo) of
        None \<Rightarrow> (Inl (Io ''Block IO hook table is full''), lo)
      | Some table \<Rightarrow>
          (Inr protocol, lo\<lparr>lo_hook_table := table, lo_read_blocks := (lo_read_blocks lo)(protocol := HookedRead),
                            lo_write_blocks := (lo_write_blocks lo)(protocol := HookedWrite)\<rparr>))"

definition hook_uninstall :: "u64 \<Rightarrow> 'w loader \<Rightarrow> 'w loader" where
  "hook_uninstall protocol lo =
     (case find_entry protocol (lo_hook_table lo) of
        None \<Rightarrow> lo
      | Some entry \<Rightarrow>
          lo\<lparr>lo_read_blocks := (lo_read_blocks lo)(protocol := he_original_read entry),
             lo_write_blocks := (lo_write_blocks lo)(protocol := he_original_write entry),
             lo_hook_table := map (\<lambda>s. case s of Some e \<Rightarrow> if he_protocol e = protocol then None else Some e | None \<Rightarrow> None)
               (lo_hook_table lo)\<rparr>)"

definition hook_engine_new :: "hook_geometry \<Rightarrow> cipher_supplier \<Rightarrow> hook_engine" where
  "hook_engine_new g supplier = \<lparr>hk_geometry = g, hk_cipher_supplier = supplier, hk_block_io = None\<rparr>"

text \<open>The first handle whose GPT identifier matches.\<close>

definition guid_matches :: "'w firmware \<Rightarrow> 'w \<Rightarrow> guid \<Rightarrow> u64 \<Rightarrow> bool" where
  "guid_matches FW w target h =
     (case fw_partition_guid FW w h of Some b \<Rightarrow> guid_from_windows_bytes b = target | None \<Rightarrow> False)"

definition engine_install :: "'w firmware \<Rightarrow> hook_engine \<Rightarrow> 'w loader \<Rightarrow> hook_engine vck_result \<times> 'w loader" where
  "engine_install FW eng lo =
     (case fw_locate_block_io FW (lo_world lo) of
        None \<Rightarrow> (Inl (Io ''locate BlockIO handles failed''), lo)
      | Some handles \<Rightarrow>
          (case find (guid_matches FW (lo_world lo) (hg_partition_guid (hk_geometry eng))) handles of
             None \<Rightarrow> (Inl (NotFound ''no Block IO partition matched the target GUID for hooking''), lo)
           | Some handle \<Rightarrow>
               (case fw_open_block_io FW (lo_world lo) handle of
                  (None, w1) \<Rightarrow> (Inl (Io ''open BlockIO for hook failed''), lo\<lparr>lo_world := w1\<rparr>)
                | (Some proto, w1) \<Rightarrow>
                    if proto = 0
                    then (Inl (Io ''BlockIO interface is null''), lo\<lparr>lo_world := fw_close_block_io FW w1 handle\<rparr>)
                    else (case hook_install proto eng (lo\<lparr>lo_world := w1\<rparr>) of
                            (Inl e, lo1) \<Rightarrow> (Inl e, lo1\<lparr>lo_world := fw_close_block_io FW w1 handle\<rparr>)
                          | (Inr p, lo1) \<Rightarrow> (Inr (eng\<lparr>hk_block_io := Some p\<rparr>), lo1)))))"

definition engine_uninstall :: "hook_engine \<Rightarrow> 'w loader \<Rightarrow> hook_engine \<times> 'w loader" where
  "engine_uninstall eng lo =
     (case hk_block_io eng of
        None \<Rightarrow> (eng, lo)
      | Some p \<Rightarrow> (eng\<lparr>hk_block_io := None\<rparr>, hook_uninstall p lo))"


section \<open>The volume the loader reads\<close>

record uefi_block_io_volume =
  uv_handle :: u64
  uv_block_io :: u64
  uv_media_id :: u32
  uv_sector_size :: u32
  uv_total_sectors :: u64

definition saturating_add_one :: "u64 \<Rightarrow> u64" where
  "saturating_add_one a = (if a = - 1 then a else a + 1)"

definition locate_block_io_volume :: "'w firmware \<Rightarrow> guid \<Rightarrow> 'w \<Rightarrow> uefi_block_io_volume vck_result \<times> 'w" where
  "locate_block_io_volume FW partition_guid w =
     (case fw_locate_block_io FW w of
        None \<Rightarrow> (Inl (Io ''locate BlockIO handles failed''), w)
      | Some handles \<Rightarrow>
          (case find (guid_matches FW w partition_guid) handles of
             None \<Rightarrow> (Inl (NotFound ''no Block IO partition matched the target GUID''), w)
           | Some handle \<Rightarrow>
               (case fw_open_block_io FW w handle of
                  (None, w1) \<Rightarrow> (Inl (Io ''open BlockIO failed''), w1)
                | (Some proto, w1) \<Rightarrow>
                    (case fw_media FW w1 proto of
                       Some media \<Rightarrow>
                         if \<not> bm_media_present media
                         then (Inl (Io ''matched partition has no media present''), fw_close_block_io FW w1 handle)
                         else (Inr \<lparr>uv_handle = handle, uv_block_io = proto, uv_media_id = bm_media_id media,
                                 uv_sector_size = bm_block_size media,
                                 uv_total_sectors = saturating_add_one (bm_last_block media)\<rparr>, w1)
                     | None \<Rightarrow> (Inl (Io ''matched partition has no media present''), fw_close_block_io FW w1 handle)))))"

text \<open>Reads go through the protocol of the volume as it is before any hook is installed.  A protocol
  without media, which the specification excludes, counts as one whose media is not present.\<close>

definition uefi_sector_io :: "'w firmware \<Rightarrow> uefi_block_io_volume \<Rightarrow> 'w sector_io" where
  "uefi_sector_io FW v =
     \<lparr>sio_sector_size = uv_sector_size v, sio_total_sectors = uv_total_sectors v,
      sio_read_sectors = (\<lambda>w lba n.
        case fw_read_blocks FW w (uv_block_io v) (uv_media_id v) lba n of
          (status, buf) \<Rightarrow> if status = EFI_SUCCESS then Inr buf else Inl (Io ''BlockIO.ReadBlocks failed'')),
      sio_write_sectors = (\<lambda>w lba buf. (Inl (Unsupported ''loader Block IO volume is read-only''), w))\<rparr>"

definition open_volume_footer_uefi ::
    "jvck_crypto \<Rightarrow> 'w firmware \<Rightarrow> guid \<Rightarrow> bytes \<Rightarrow> 'w \<Rightarrow> ('w jvck_store \<times> jvck_cells) vck_result \<times> 'w" where
  "open_volume_footer_uefi C FW partition_guid vmk w =
     (case locate_block_io_volume FW partition_guid w of
        (Inl e, w1) \<Rightarrow> (Inl e, w1)
      | (Inr io, w1) \<Rightarrow>
          (case open_store C (uefi_sector_io FW io) w1 vmk of
             Inl e \<Rightarrow> (Inl e, fw_close_block_io FW w1 (uv_handle io))
           | Inr st \<Rightarrow> (Inr st, w1)))"


section \<open>The sample loader\<close>

text \<open>From the opened volume to the geometry and the cipher of the hook.\<close>

definition hook_parameters ::
    "jvck_crypto \<Rightarrow> aes256 \<Rightarrow> guid \<Rightarrow> 'w sector_io \<Rightarrow> bytes \<Rightarrow> 'w \<Rightarrow> (hook_geometry \<times> cipher_supplier) vck_result" where
  "hook_parameters C A partition_guid io vmk w =
     res_bind (reader_open C io w) (\<lambda>reader.
     res_bind (into_store C reader w vmk (default_selector C w vmk)) (\<lambda>(store, _).
     res_bind (load_offset C store w) (\<lambda>sector.
       Inr (\<lparr>hg_partition_guid = partition_guid, hg_offset_sector = g_offset_sector (js_geometry store),
             hg_encrypted_offset = \<lparr>eo_sector = sector, eo_total_sectors = g_data_sectors (js_geometry store)\<rparr>\<rparr>,
            static_get_cipher A \<lparr>scs_key1 = fvek_key1 (js_secrets store), scs_key2 = fvek_key2 (js_secrets store)\<rparr>))))"

text \<open>The store, and with it the exclusive protocol, is released before the hook opens the same
  handle again.\<close>

definition install_decrypt_hook ::
    "jvck_crypto \<Rightarrow> aes256 \<Rightarrow> 'w firmware \<Rightarrow> guid \<Rightarrow> bytes \<Rightarrow> 'w loader \<Rightarrow> unit vck_result \<times> 'w loader" where
  "install_decrypt_hook C A FW partition_guid vmk lo =
     (case locate_block_io_volume FW partition_guid (lo_world lo) of
        (Inl e, w1) \<Rightarrow> (Inl e, lo\<lparr>lo_world := w1\<rparr>)
      | (Inr io, w1) \<Rightarrow>
          let lo1 = lo\<lparr>lo_world := fw_close_block_io FW w1 (uv_handle io)\<rparr>
          in (case hook_parameters C A partition_guid (uefi_sector_io FW io) vmk w1 of
                Inl e \<Rightarrow> (Inl e, lo1)
              | Inr (g, supplier) \<Rightarrow>
                  (case engine_install FW (hook_engine_new g supplier) lo1 of
                     (Inl e, lo2) \<Rightarrow> (Inl e, lo2)
                   | (Inr _, lo2) \<Rightarrow> (Inr (), lo2))))"


section \<open>The table of hooks\<close>

text \<open>A protocol is hooked exactly when the table has an entry for it, and the first such entry holds
  the firmware's own functions.\<close>

definition hook_ok_at :: "hook_entry option \<Rightarrow> read_blocks_fn \<Rightarrow> write_blocks_fn \<Rightarrow> bool" where
  "hook_ok_at entry rd wr =
     (case entry of
        None \<Rightarrow> rd = FirmwareRead \<and> wr = FirmwareWrite
      | Some e \<Rightarrow> he_original_read e = FirmwareRead \<and> he_original_write e = FirmwareWrite \<and> rd = HookedRead \<and> wr = HookedWrite)"

lemma hook_ok_at_simps [simp]:
  "hook_ok_at None rd wr \<longleftrightarrow> rd = FirmwareRead \<and> wr = FirmwareWrite"
  "hook_ok_at (Some e) rd wr \<longleftrightarrow>
     he_original_read e = FirmwareRead \<and> he_original_write e = FirmwareWrite \<and> rd = HookedRead \<and> wr = HookedWrite"
  by (simp_all add: hook_ok_at_def)

definition hooks_ok :: "'w loader \<Rightarrow> bool" where
  "hooks_ok lo \<longleftrightarrow> (\<forall>p. hook_ok_at (find_entry p (lo_hook_table lo)) (lo_read_blocks lo p) (lo_write_blocks lo p))"

lemma hooks_okD: "hooks_ok lo \<Longrightarrow> hook_ok_at (find_entry p (lo_hook_table lo)) (lo_read_blocks lo p) (lo_write_blocks lo p)"
  by (simp add: hooks_ok_def)

lemma find_entry_empty: "find_entry p (replicate n None) = None"
  by (simp add: find_entry_def)

lemma loader_init_ok: "hooks_ok (loader_init w)" "find_entry p (lo_hook_table (loader_init w)) = None"
  by (simp_all add: hooks_ok_def loader_init_def find_entry_empty)

lemma find_entry_simps [simp]:
  "find_entry p [] = None"
  "find_entry p (None # t) = find_entry p t"
  "find_entry p (Some e # t) = (if he_protocol e = p then Some e else find_entry p t)"
  by (simp_all add: find_entry_def)

lemma find_entry_fill:
  "fill_slot e t = Some t' \<Longrightarrow> find_entry (he_protocol e) t = None \<Longrightarrow>
     find_entry q t' = (if q = he_protocol e then Some e else find_entry q t)"
proof (induction t arbitrary: t')
  case (Cons s t)
  then show ?case
    by (cases s) (auto split: if_splits)
qed simp

lemma find_entry_clear:
  "find_entry q (map (\<lambda>s. case s of Some e \<Rightarrow> if he_protocol e = p then None else Some e | None \<Rightarrow> None) t) =
     (if q = p then None else find_entry q t)"
proof (induction t)
  case (Cons s t)
  then show ?case
    by (cases s) auto
qed simp

lemma hook_install_ok:
  assumes "hooks_ok lo" "find_entry p (lo_hook_table lo) = None" "hook_install p eng lo = (r, lo1)"
  shows "hooks_ok lo1"
proof (cases r)
  case (Inl e)
  then show ?thesis
    using assms(1,3) by (auto simp: hook_install_def split: option.splits)
next
  case (Inr q)
  let ?e = "\<lparr>he_protocol = p, he_original_read = lo_read_blocks lo p, he_original_write = lo_write_blocks lo p, he_engine = Some eng\<rparr>"
  obtain t where t: "fill_slot ?e (lo_hook_table lo) = Some t"
    "lo1 = lo\<lparr>lo_hook_table := t, lo_read_blocks := (lo_read_blocks lo)(p := HookedRead),
        lo_write_blocks := (lo_write_blocks lo)(p := HookedWrite)\<rparr>"
    using assms(3) Inr by (auto simp: hook_install_def split: option.splits)
  have f: "find_entry q t = (if q = p then Some ?e else find_entry q (lo_hook_table lo))" for q
    using find_entry_fill [OF t(1)] assms(2) by simp
  show ?thesis
    using assms(1) hooks_okD [OF assms(1), of p] by (simp add: hooks_ok_def t(2) f assms(2))
qed

lemma hook_uninstall_ok:
  assumes "hooks_ok lo"
  shows "hooks_ok (hook_uninstall p lo)" "find_entry p (lo_hook_table (hook_uninstall p lo)) = None"
proof -
  have "hooks_ok (hook_uninstall p lo) \<and> find_entry p (lo_hook_table (hook_uninstall p lo)) = None"
  proof (cases "find_entry p (lo_hook_table lo)")
    case (Some e)
    then show ?thesis
      using assms hooks_okD [OF assms, of p] by (simp add: hook_uninstall_def hooks_ok_def find_entry_clear)
  qed (use assms in \<open>simp add: hook_uninstall_def\<close>)
  then show "hooks_ok (hook_uninstall p lo)" "find_entry p (lo_hook_table (hook_uninstall p lo)) = None"
    by simp_all
qed

lemma hooks_ok_calls_return:
  assumes "hooks_ok lo"
  shows "call_read_blocks FW p mid lba n b lo \<noteq> None" "call_write_blocks FW p mid lba buf lo \<noteq> None"
  using hooks_okD [OF assms, of p]
  by (cases "find_entry p (lo_hook_table lo)"; simp add: call_read_blocks_def call_write_blocks_def hooked_read_blocks_def
      hooked_write_blocks_def split: sum.split)+


section \<open>What the hooks show\<close>

text \<open>What a reader of the volume is meant to see during boot: the logical view of the data region, at
  its place on the volume, and the raw sectors outside it.\<close>

definition boot_view :: "volume_cipher \<Rightarrow> hook_geometry \<Rightarrow> (nat \<Rightarrow> bytes) \<Rightarrow> nat \<Rightarrow> bytes" where
  "boot_view c g raw i =
     (let off = unat (hg_offset_sector g); eo = hg_encrypted_offset g
      in if off \<le> i \<and> i < off + unat (eo_total_sectors eo)
         then logical_sector c (eo_sector eo) (\<lambda>j. raw (off + j)) (i - off) else raw i)"

definition hook_region :: "hook_geometry \<Rightarrow> nat \<Rightarrow> bool" where
  "hook_region g i \<longleftrightarrow> unat (hg_offset_sector g) \<le> i \<and>
     i < unat (hg_offset_sector g) + unat (eo_total_sectors (hg_encrypted_offset g)) \<and>
     i - unat (hg_offset_sector g) < unat (eo_sector (hg_encrypted_offset g))"

lemma hook_sector_at:
  "hook_sector f g a s = (if hook_region g (unat a) then f (of_nat (unat a - unat (hg_offset_sector g))) s else s)"
proof (cases "hg_offset_sector g \<le> a")
  case True
  have u: "unat (a - hg_offset_sector g) = unat a - unat (hg_offset_sector g)"
    using True by (simp add: unat_sub_no_wrap word_le_unat)
  have w: "of_nat (unat a - unat (hg_offset_sector g)) = a - hg_offset_sector g"
    unfolding u [symmetric] by simp
  show ?thesis
    using True u by (auto simp: hook_sector_def checked_sub_def hook_region_def is_encrypted_def word_le_unat word_less_unat not_le w)
next
  case False
  then show ?thesis
    by (simp add: hook_sector_def checked_sub_def hook_region_def word_le_unat)
qed

lemma boot_view_sector:
  "boot_view c g raw i = (if hook_region g i then vc_decrypt_sector c (of_nat (i - unat (hg_offset_sector g))) (raw i) else raw i)"
  by (auto simp: boot_view_def hook_region_def logical_sector_def Let_def)

lemma length_hook_sector: "(\<And>r s. length (f r s) = length s) \<Longrightarrow> length (hook_sector f g a s) = length s"
  by (simp add: hook_sector_at)

text \<open>The buffer after the hook, sector by sector.\<close>

lemma hook_area_chunks:
  assumes "0 < ss" "length buf = k * ss" "i < k" "unat lba + k \<le> 2 ^ 64" "\<And>r s. length (f r s) = length s"
  shows "chunks ss (area_map (hook_sector f g) lba ss buf) ! i =
    (if hook_region g (unat lba + i) then f (of_nat (unat lba + i - unat (hg_offset_sector g))) (chunks ss buf ! i) else chunks ss buf ! i)"
proof -
  have u: "unat (lba + of_nat i) = unat lba + i"
    using assms(3,4) by (subst unat_add_no_wrap) (simp_all add: unat_of_nat_less)
  have "chunks ss (area_map (hook_sector f g) lba ss buf) ! i = hook_sector f g (lba + of_nat i) (chunks ss buf ! i)"
    using assms(3) length_chunks_exact [OF assms(1,2)]
    by (simp add: chunks_area_map [OF assms(1,2)] length_hook_sector assms(5) nth_enumerate_zero)
  then show ?thesis
    by (simp add: hook_sector_at u)
qed

lemma hook_area_length: "0 < ss \<Longrightarrow> (\<And>r s. length (f r s) = length s) \<Longrightarrow> length (area_map (hook_sector f g) lba ss buf) = length buf"
  by (rule length_area_map) (simp_all add: length_hook_sector)

context volume_cipher_spec
begin

lemma hook_read_view:
  assumes ok "0 < ss" "\<And>i. length (raw i) = ss" "unat lba + k \<le> 2 ^ 64"
  shows "area_map (hook_sector (vc_decrypt_sector c) g) lba ss (get_sectors raw (unat lba) k) = get_sectors (boot_view c g raw) (unat lba) k"
proof -
  let ?buf = "get_sectors raw (unat lba) k" and ?f = "vc_decrypt_sector c"
  have len: "length ?buf = k * ss"
    using assms(3) by (intro length_get_sectors) simp
  have lf: "length (?f r s) = length s" for r s
    using assms(1) by (rule dec_length)
  have la: "length (area_map (hook_sector ?f g) lba ss ?buf) = k * ss"
    using hook_area_length [OF assms(2) lf] len by simp
  have "chunks ss (area_map (hook_sector ?f g) lba ss ?buf) = map (boot_view c g raw) [unat lba..<unat lba + k]"
  proof (rule nth_equalityI)
    show "length (chunks ss (area_map (hook_sector ?f g) lba ss ?buf)) = length (map (boot_view c g raw) [unat lba..<unat lba + k])"
      using length_chunks_exact [OF assms(2) la] by simp
    fix i assume "i < length (chunks ss (area_map (hook_sector ?f g) lba ss ?buf))"
    then have i: "i < k"
      using length_chunks_exact [OF assms(2) la] by simp
    show "chunks ss (area_map (hook_sector ?f g) lba ss ?buf) ! i = map (boot_view c g raw) [unat lba..<unat lba + k] ! i"
      unfolding hook_area_chunks [OF assms(2) len i assms(4) lf]
      using i by (simp add: chunks_get_sectors [OF assms(2,3)] boot_view_sector)
  qed
  then show ?thesis
    unfolding get_sectors_def [of "boot_view c g raw"] using concat_chunks [OF assms(2)] by metis
qed

lemma hook_write_view:
  assumes ok "0 < ss" "length buf = k * ss" "unat lba + k \<le> 2 ^ 64"
  shows "boot_view c g (put_sectors ss (unat lba) (area_map (hook_sector (vc_encrypt_sector c) g) lba ss buf) raw) =
    put_sectors ss (unat lba) buf (boot_view c g raw)"
proof
  fix j
  let ?f = "vc_encrypt_sector c"
  have lf: "length (?f r s) = length s" for r s
    using assms(1) by (rule enc_length)
  have len: "length (area_map (hook_sector ?f g) lba ss buf) = k * ss"
    using hook_area_length [OF assms(2) lf] assms(3) by simp
  show "boot_view c g (put_sectors ss (unat lba) (area_map (hook_sector ?f g) lba ss buf) raw) j =
      put_sectors ss (unat lba) buf (boot_view c g raw) j"
  proof (cases "unat lba \<le> j \<and> j < unat lba + k")
    case False
    then have "j < unat lba \<or> unat lba + k \<le> j" by linarith
    then show ?thesis
      using len assms(2,3) by (simp add: put_sectors_outside boot_view_sector)
  next
    case True
    then obtain i where i: "j = unat lba + i" "i < k"
      by (metis add_less_cancel_left le_Suc_ex)
    show ?thesis
      unfolding i(1) boot_view_sector put_sectors_chunk [OF assms(2) len i(2)] put_sectors_chunk [OF assms(2,3) i(2)]
        hook_area_chunks [OF assms(2,3) i(2) assms(4) lf]
      by (simp add: dec_enc [OF assms(1)])
  qed
qed

end

end
