(* ===== verification/Loader_Boot.thy ===== *)
theory Loader_Boot
  imports Loader_Hook
begin

text \<open>
  What the loader shows during boot and what the driver shows afterwards are the same volume: the hooks
  behave like a plain disk holding the logical view, and the loader opens the metadata to the same
  geometry, boundary and key as the driver.
\<close>


section \<open>Opening through two devices\<close>

text \<open>Two devices of the same size with the same sectors, one of the loader and one of the driver; failing reads may
  report different errors.\<close>

definition same_reads :: "'a sector_io \<Rightarrow> 'a \<Rightarrow> 'b sector_io \<Rightarrow> 'b \<Rightarrow> bool" where
  "same_reads io1 w1 io2 w2 \<longleftrightarrow>
     sio_sector_size io1 = sio_sector_size io2 \<and> sio_total_sectors io1 = sio_total_sectors io2 \<and>
     (\<forall>lba. unat lba < unat (sio_total_sectors io1) \<longrightarrow> res_ok (sio_read_sectors io1 w1 lba (unat (sio_sector_size io1))) =
            res_ok (sio_read_sectors io2 w2 lba (unat (sio_sector_size io2))))"

lemma res_ok_map: "res_ok (res_map f r) = map_option f (res_ok r)"
  by (cases r) (simp_all add: res_ok_simps)

lemma res_ok_eq_cases:
  assumes "res_ok r1 = res_ok r2"
  obtains x where "r1 = Inr x" "r2 = Inr x" | e1 e2 where "r1 = Inl e1" "r2 = Inl e2"
  using assms by (cases r1; cases r2) (auto simp: res_ok_simps)

lemma same_read_block:
  assumes "same_reads io1 w1 io2 w2" "ss = sio_sector_size io1" "unat lba < unat (sio_total_sectors io1)"
  shows "res_ok (read_block io1 w1 ss lba) = res_ok (read_block io2 w2 ss lba)"
  using assms by (auto simp: same_reads_def read_block_def res_ok_map)

definition rd_agree :: "'a sector_io \<Rightarrow> 'b sector_io \<Rightarrow> 'a jvck_reader \<Rightarrow> 'b jvck_reader \<Rightarrow> bool" where
  "rd_agree io1 io2 rd1 rd2 \<longleftrightarrow>
     jr_io rd1 = io1 \<and> jr_io rd2 = io2 \<and> jr_options rd1 = jr_options rd2 \<and> jr_geometry rd1 = jr_geometry rd2 \<and>
     jr_volume_sectors rd1 = jr_volume_sectors rd2 \<and> jr_header rd1 = jr_header rd2 \<and>
     g_sector_size (jr_geometry rd1) = sio_sector_size io1 \<and>
     (\<forall>lba \<in> set (reader_lbas rd1). unat lba < unat (sio_total_sectors io1))"

text \<open>The metadata sectors of an accepted header are sectors of the volume.\<close>

lemma opened_lbas_in_range:
  assumes "compute_geometry ss vs \<lparr>use_header = ucast (h :: byte), use_footer = ucast (f :: byte), metadata_size = md\<rparr> = Inr g"
    "lba \<in> set (metadata_sector_lbas vs (replica_sectors md (g_sector_size g)) (ucast h) (ucast f))"
  shows "unat lba < unat vs"
proof -
  have "unat h < 2 ^ 8" "unat f < 2 ^ 8"
    using unsigned_less [of h] unsigned_less [of f] by simp_all
  then have "unat (ucast h :: u32) + unat (ucast f :: u32) < 2 ^ 32"
    by simp
  then show ?thesis
    using compute_geometry_layout(1,4) [OF assms(1)] assms(2)
      metadata_lba_outside_data(1) [of vs "replica_sectors md ss" "ucast h" "ucast f" lba] by simp
qed

lemma reader_open_loop_agree:
  assumes "same_reads io1 w1 io2 w2" "\<forall>lba \<in> set lbas. unat lba < unat (sio_total_sectors io1)"
  shows "rel_option (rd_agree io1 io2) (res_ok (reader_open_loop C io1 w1 lbas)) (res_ok (reader_open_loop C io2 w2 lbas))"
  using assms(2)
proof (induction lbas)
  case (Cons lba lbas)
  have sz: "sio_sector_size io1 = sio_sector_size io2" "sio_total_sectors io1 = sio_total_sectors io2"
    using assms(1) by (simp_all add: same_reads_def)
  have ih: "rel_option (rd_agree io1 io2) (res_ok (reader_open_loop C io1 w1 lbas)) (res_ok (reader_open_loop C io2 w2 lbas))"
    using Cons.IH Cons.prems by simp
  have lba: "unat lba < unat (sio_total_sectors io1)"
    using Cons.prems by simp
  show ?case
    using same_read_block [OF assms(1) refl lba]
  proof (cases rule: res_ok_eq_cases)
    case (1 block)
    have g: "g_sector_size g = sio_sector_size io2" if "compute_geometry (sio_sector_size io2) t opt = Inr g" for t opt g
      using that by (auto simp: compute_geometry_def Let_def split: if_splits)
    show ?thesis
    proof (cases "is_ok (verify_crc C block)")
      case True
      then show ?thesis
        using 1 g sz opened_lbas_in_range
        by (cases "parse_header C block")
          (auto simp: res_simps Let_def rd_agree_def reader_lbas_def res_bind_def split: sum.split)
    qed (use 1 ih sz in \<open>simp add: res_simps\<close>)
  qed (simp add: res_simps sz)
qed (simp add: res_ok_simps)

lemma reader_open_agree:
  assumes "same_reads io1 w1 io2 w2"
  shows "rel_option (rd_agree io1 io2) (res_ok (reader_open C io1 w1)) (res_ok (reader_open C io2 w2))"
proof (cases "sio_total_sectors io1 = 0")
  case False
  have "0 < unat (sio_total_sectors io1)"
    using False by (simp add: unat_gt_0)
  moreover have "unat (sio_total_sectors io1 - 1) = unat (sio_total_sectors io1) - 1"
    using False by (simp add: unat_sub_no_wrap word_le_unat Suc_leI unat_gt_0)
  ultimately show ?thesis
    using reader_open_loop_agree [OF assms, of "[sio_total_sectors io1 - 1, 0]" C] assms
    by (auto simp: reader_open_def same_reads_def)
qed (use assms in \<open>simp add: reader_open_def same_reads_def\<close>)

text \<open>Unsealing looks at the block only.\<close>

lemma unseal_block:
  "default_selector C w vmk ctx = res_map (\<lambda>u. (jvck_cbc_codec C, u))
     (res_map (\<lambda>(o1, s, k). \<lparr>un_encrypted_offset = o1, un_state = s, un_secrets = k\<rparr>) (decrypt_payload C (rc_block ctx) vmk))"
  by (simp add: default_selector_def jvck_cbc_codec_def cbc_unseal_def)

lemma ctx_block [simp]: "rc_block (make_ctx h io opt vs ss block idx) = block"
  by (simp add: make_ctx_def Let_def)

lemma select_loop_agree:
  assumes "same_reads io1 w1 io2 w2" "rd_agree io1 io2 rd1 rd2" "\<forall>lba \<in> set lbas. unat lba < unat (sio_total_sectors io1)"
  shows "rel_option (\<lambda>x y. fst x = jvck_cbc_codec C \<and> fst y = jvck_cbc_codec C \<and> snd x = snd y)
    (res_ok (select_loop C rd1 w1 (default_selector C w1 vmk) i lbas e1)) (res_ok (select_loop C rd2 w2 (default_selector C w2 vmk) i lbas e2))"
  using assms(3)
proof (induction lbas arbitrary: i e1 e2)
  case (Cons lba lbas)
  have rd: "jr_io rd1 = io1" "jr_io rd2 = io2" "g_sector_size (jr_geometry rd2) = sio_sector_size io1"
    "g_sector_size (jr_geometry rd1) = sio_sector_size io1"
    using assms(2) by (auto simp: rd_agree_def)
  have lba: "unat lba < unat (sio_total_sectors io1)" "\<forall>lba \<in> set lbas. unat lba < unat (sio_total_sectors io1)"
    using Cons.prems by simp_all
  show ?case
    using same_read_block [OF assms(1) refl lba(1)]
  proof (cases rule: res_ok_eq_cases)
    case (1 block)
    then show ?thesis
      using Cons.IH [OF lba(2)] rd
      by (cases "decrypt_payload C block vmk") (auto simp: unseal_block reader_ctx_def res_simps)
  qed (use Cons.IH [OF lba(2)] rd in simp)
qed (simp add: res_ok_simps)

definition st_agree :: "jvck_crypto \<Rightarrow> 'a sector_io \<Rightarrow> 'b sector_io \<Rightarrow> 'a jvck_store \<Rightarrow> 'b jvck_store \<Rightarrow> bool" where
  "st_agree C io1 io2 st1 st2 \<longleftrightarrow>
     js_io st1 = io1 \<and> js_io st2 = io2 \<and> js_options st1 = js_options st2 \<and> js_vmk st1 = js_vmk st2 \<and>
     js_geometry st1 = js_geometry st2 \<and> js_volume_sectors st1 = js_volume_sectors st2 \<and> js_header st1 = js_header st2 \<and>
     js_secrets st1 = js_secrets st2 \<and> js_codec st1 = jvck_cbc_codec C \<and> js_codec st2 = jvck_cbc_codec C \<and>
     g_sector_size (js_geometry st1) = sio_sector_size io1 \<and>
     (\<forall>lba \<in> set (store_lbas st1). unat lba < unat (sio_total_sectors io1))"

lemma load_offset_loop_agree:
  assumes "same_reads io1 w1 io2 w2" "st_agree C io1 io2 st1 st2" "\<forall>lba \<in> set lbas. unat lba < unat (sio_total_sectors io1)"
  shows "load_offset_loop C st1 w1 i lbas b = load_offset_loop C st2 w2 i lbas b"
  using assms(3)
proof (induction lbas arbitrary: i b)
  case (Cons lba lbas)
  have st: "js_io st1 = io1" "js_io st2 = io2" "g_sector_size (js_geometry st2) = sio_sector_size io1"
    "g_sector_size (js_geometry st1) = sio_sector_size io1" "js_codec st1 = jvck_cbc_codec C" "js_codec st2 = jvck_cbc_codec C"
    "js_vmk st1 = js_vmk st2"
    using assms(2) by (auto simp: st_agree_def)
  have lba: "unat lba < unat (sio_total_sectors io1)" "\<forall>lba \<in> set lbas. unat lba < unat (sio_total_sectors io1)"
    using Cons.prems by simp_all
  show ?case
    using same_read_block [OF assms(1) refl lba(1)]
    by (cases rule: res_ok_eq_cases) (simp_all add: st Cons.IH [OF lba(2)] jvck_cbc_codec_def split: sum.split)
qed simp

lemma load_offset_agree:
  assumes "same_reads io1 w1 io2 w2" "st_agree C io1 io2 st1 st2"
  shows "load_offset C st1 w1 = load_offset C st2 w2"
proof -
  have l: "store_lbas st1 = store_lbas st2" "\<forall>lba \<in> set (store_lbas st1). unat lba < unat (sio_total_sectors io1)"
    using assms(2) by (auto simp: st_agree_def store_lbas_def)
  then show ?thesis
    using load_offset_loop_agree [OF assms, of "store_lbas st1"] by (simp add: load_offset_def)
qed

lemma into_store_agree:
  assumes "same_reads io1 w1 io2 w2" "rd_agree io1 io2 rd1 rd2"
  shows "rel_option (\<lambda>x y. st_agree C io1 io2 (fst x) (fst y))
    (res_ok (into_store C rd1 w1 vmk (default_selector C w1 vmk))) (res_ok (into_store C rd2 w2 vmk (default_selector C w2 vmk)))"
proof -
  have l: "reader_lbas rd1 = reader_lbas rd2"
    using assms(2) by (simp add: rd_agree_def reader_lbas_def)
  show ?thesis
    using select_loop_agree [OF assms, of "reader_lbas rd2" C vmk 0 None None] assms(2) l
    by (auto simp: into_store_def res_ok_map option.rel_map st_agree_def rd_agree_def store_lbas_def reader_lbas_def Let_def
        elim!: option.rel_mono_strong)
qed

lemma hook_parameters_agree:
  assumes "same_reads io1 w1 (drop_cells io2) w2"
  shows "res_ok (hook_parameters C A guid io1 vmk w1) =
    (case fst (sample_on_attach C rng A io2 vmk g (cells, w2)) of
       Inr (Encrypted (Some supplier) off eo _) \<Rightarrow>
         Some (\<lparr>hg_partition_guid = guid, hg_offset_sector = off, hg_encrypted_offset = eo\<rparr>, supplier)
     | _ \<Rightarrow> None)"
proof -
  let ?r1 = "reader_open C io1 w1" and ?r2 = "reader_open C (drop_cells io2) w2"
  have rd: "rel_option (rd_agree io1 (drop_cells io2)) (res_ok ?r1) (res_ok ?r2)"
    by (rule reader_open_agree [OF assms])
  show ?thesis
  proof (cases ?r1)
    case (Inl e)
    then obtain e2 where "?r2 = Inl e2"
      using rd by (cases ?r2) auto
    then show ?thesis
      using Inl by (simp add: hook_parameters_def sample_on_attach_def res_simps)
  next
    case (Inr rd1)
    then obtain rd2 where r2: "?r2 = Inr rd2" and ag: "rd_agree io1 (drop_cells io2) rd1 rd2"
      using rd by (cases ?r2) auto
    let ?s1 = "into_store C rd1 w1 vmk (default_selector C w1 vmk)" and ?s2 = "into_store C rd2 w2 vmk (default_selector C w2 vmk)"
    have st: "rel_option (\<lambda>x y. st_agree C io1 (drop_cells io2) (fst x) (fst y)) (res_ok ?s1) (res_ok ?s2)"
      by (rule into_store_agree [OF assms ag])
    show ?thesis
    proof (cases ?s1)
      case (Inl e)
      then obtain e2 where "?s2 = Inl e2"
        using st by (cases ?s2) auto
      then show ?thesis
        using Inl Inr r2 by (simp add: hook_parameters_def sample_on_attach_def res_simps)
    next
      case s1: (Inr x)
      obtain st1 c1 where x: "x = (st1, c1)"
        by fastforce
      obtain st2 c2 where s2: "?s2 = Inr (st2, c2)" and sa: "st_agree C io1 (drop_cells io2) st1 st2"
        using st s1 x by (cases ?s2) auto
      have lo: "load_offset C st1 w1 = load_offset C st2 w2"
        by (rule load_offset_agree [OF assms sa])
      have eq: "js_geometry st1 = js_geometry st2" "js_secrets st1 = js_secrets st2"
        using sa by (simp_all add: st_agree_def)
      show ?thesis
        using Inr r2 s1 x s2 lo eq
        by (cases "load_offset C st2 w2") (simp_all add: hook_parameters_def sample_on_attach_def res_simps Let_def)
    qed
  qed
qed


section \<open>A disk behind the firmware\<close>

text \<open>Transfers of whole blocks within the capacity succeed, a read gives the sectors of the disk and a
  write replaces them.\<close>

definition fw_disk_ok :: "'w firmware \<Rightarrow> u64 \<Rightarrow> u32 \<Rightarrow> nat \<Rightarrow> nat \<Rightarrow> ('w \<Rightarrow> nat \<Rightarrow> bytes) \<Rightarrow> bool" where
  "fw_disk_ok FW p mid ss cap raw \<longleftrightarrow> 0 < ss \<and> cap \<le> 2 ^ 64 \<and>
     (\<forall>w i. length (raw w i) = ss) \<and>
     (\<forall>w. \<exists>m. fw_media FW w p = Some m \<and> unat (bm_block_size m) = ss) \<and>
     (\<forall>w lba k. unat lba + k \<le> cap \<longrightarrow> fw_read_blocks FW w p mid lba (k * ss) = (EFI_SUCCESS, get_sectors (raw w) (unat lba) k)) \<and>
     (\<forall>w lba k buf. unat lba + k \<le> cap \<and> length buf = k * ss \<longrightarrow>
        (\<exists>w'. fw_write_blocks FW w p mid lba buf = (EFI_SUCCESS, w') \<and> raw w' = put_sectors ss (unat lba) buf (raw w)))"


text \<open>Protocols are opened exclusively: a handle that is held can not be opened again until it is
  closed; opening and closing change nothing else the loader looks at.\<close>

definition fw_exclusive :: "'w firmware \<Rightarrow> ('w \<Rightarrow> u64 set) \<Rightarrow> (u64 \<Rightarrow> u64) \<Rightarrow> bool" where
  "fw_exclusive FW held proto \<longleftrightarrow>
     (\<forall>w h. h \<notin> held w \<longrightarrow> (\<exists>w1. fw_open_block_io FW w h = (Some (proto h), w1) \<and> held w1 = insert h (held w))) \<and>
     (\<forall>w h. h \<in> held w \<longrightarrow> fst (fw_open_block_io FW w h) = None) \<and>
     (\<forall>w h. held (fw_close_block_io FW w h) = held w - {h}) \<and>
     (\<forall>w h. fw_locate_block_io FW (fw_close_block_io FW (snd (fw_open_block_io FW w h)) h) = fw_locate_block_io FW w) \<and>
     (\<forall>w h. fw_partition_guid FW (fw_close_block_io FW (snd (fw_open_block_io FW w h)) h) = fw_partition_guid FW w)"

lemma fw_exclusiveD:
  assumes "fw_exclusive FW held proto"
  shows "h \<notin> held w \<Longrightarrow> \<exists>w1. fw_open_block_io FW w h = (Some (proto h), w1) \<and> held w1 = insert h (held w)"
    "held (fw_close_block_io FW w h) = held w - {h}"
    "fw_open_block_io FW w h = (r, w1) \<Longrightarrow> fw_locate_block_io FW (fw_close_block_io FW w1 h) = fw_locate_block_io FW w"
    "fw_open_block_io FW w h = (r, w1) \<Longrightarrow> fw_partition_guid FW (fw_close_block_io FW w1 h) = fw_partition_guid FW w"
proof -
  note F = assms [unfolded fw_exclusive_def]
  show "h \<notin> held w \<Longrightarrow> \<exists>w1. fw_open_block_io FW w h = (Some (proto h), w1) \<and> held w1 = insert h (held w)"
    using conjunct1 [OF F] by simp
  show "held (fw_close_block_io FW w h) = held w - {h}"
    using F by simp
  assume "fw_open_block_io FW w h = (r, w1)"
  then have w1: "w1 = snd (fw_open_block_io FW w h)"
    by simp
  show "fw_locate_block_io FW (fw_close_block_io FW w1 h) = fw_locate_block_io FW w"
    "fw_partition_guid FW (fw_close_block_io FW w1 h) = fw_partition_guid FW w"
    unfolding w1 using F by simp_all
qed

lemma fill_slot_free: "None \<in> set t \<Longrightarrow> \<exists>t'. fill_slot e t = Some t'"
  by (induction t) auto


text \<open>One transfer through the hook: what it gives, and what it leaves on the disk.\<close>

lemma hooked_transfer:
  assumes "aes_ok A" "fw_disk_ok FW p mid ss cap raw" "hooks_ok lo" "find_entry p (lo_hook_table lo) = Some e"
    "he_engine e = Some eng" "hk_cipher_supplier eng () = Some (xts_as_volume_cipher A x)"
    "unat lba + k \<le> cap" "0 < k"
  shows "call_read_blocks FW p mid lba (k * ss) True lo =
      Some (EFI_SUCCESS, get_sectors (boot_view (xts_as_volume_cipher A x) (hk_geometry eng) (raw (lo_world lo))) (unat lba) k)"
    "length buf = k * ss \<Longrightarrow>
      \<exists>w' out. call_write_blocks FW p mid lba (Some buf) lo = Some (EFI_SUCCESS, lo\<lparr>lo_world := w'\<rparr>) \<and>
        fw_write_blocks FW (lo_world lo) p mid lba out = (EFI_SUCCESS, w') \<and> length out = length buf \<and>
        raw w' = put_sectors ss (unat lba) out (raw (lo_world lo)) \<and>
        boot_view (xts_as_volume_cipher A x) (hk_geometry eng) (raw w') =
          put_sectors ss (unat lba) buf (boot_view (xts_as_volume_cipher A x) (hk_geometry eng) (raw (lo_world lo)))"
proof -
  let ?c = "xts_as_volume_cipher A x" and ?w = "lo_world lo" and ?g = "hk_geometry eng"
  have h: "he_original_read e = FirmwareRead" "he_original_write e = FirmwareWrite" "lo_read_blocks lo p = HookedRead"
    "lo_write_blocks lo p = HookedWrite"
    using hooks_okD [OF assms(3), of p] assms(4) by simp_all
  have d: "0 < ss" "unat lba + k \<le> 2 ^ 64" "\<And>i. length (raw ?w i) = ss"
    "fw_read_blocks FW ?w p mid lba (k * ss) = (EFI_SUCCESS, get_sectors (raw ?w) (unat lba) k)"
    using assms(2,7) unfolding fw_disk_ok_def by auto
  obtain m where m: "fw_media FW ?w p = Some m" "unat (bm_block_size m) = ss"
    using assms(2) unfolding fw_disk_ok_def by blast
  show "call_read_blocks FW p mid lba (k * ss) True lo = Some (EFI_SUCCESS, get_sectors (boot_view ?c ?g (raw ?w)) (unat lba) k)"
    using h m d(1,4) assms(4,5,6,8) volume_cipher_spec.hook_read_view [OF xts.volume_cipher_spec_axioms assms(1) d(1,3,2)]
    by (simp add: call_read_blocks_def hooked_read_blocks_def after_read_def decrypt_after_read_def Let_def)
  let ?out = "area_map (hook_sector (vc_encrypt_sector ?c) ?g) lba ss buf"
  assume buf: "length buf = k * ss"
  have len: "length ?out = k * ss"
    using hook_area_length [OF d(1) xts.enc_length [OF assms(1)]] buf by simp
  obtain w' where w': "fw_write_blocks FW ?w p mid lba ?out = (EFI_SUCCESS, w')" "raw w' = put_sectors ss (unat lba) ?out (raw ?w)"
    using assms(2,7) len unfolding fw_disk_ok_def by blast
  have "call_write_blocks FW p mid lba (Some buf) lo = Some (EFI_SUCCESS, lo\<lparr>lo_world := w'\<rparr>)"
    using h m d(1) assms(4,5,6,8) buf w'(1)
    by (auto simp: call_write_blocks_def hooked_write_blocks_def before_write_def encrypt_before_write_def firmware_write_def Let_def res_simps)
  then show "\<exists>w' out. call_write_blocks FW p mid lba (Some buf) lo = Some (EFI_SUCCESS, lo\<lparr>lo_world := w'\<rparr>) \<and>
        fw_write_blocks FW (lo_world lo) p mid lba out = (EFI_SUCCESS, w') \<and> length out = length buf \<and>
        raw w' = put_sectors ss (unat lba) out (raw (lo_world lo)) \<and>
        boot_view ?c ?g (raw w') = put_sectors ss (unat lba) buf (boot_view ?c ?g (raw (lo_world lo)))"
    using w' len buf volume_cipher_spec.hook_write_view [OF xts.volume_cipher_spec_axioms assms(1) d(1) buf d(2), of x ?g "raw ?w"]
    by - (rule exI [of _ w'], rule exI [of _ ?out], simp)
qed


lemma located_volume:
  assumes "fw_locate_block_io FW w = Some hs" "find (guid_matches FW w guid) hs = Some h" "fw_open_block_io FW w h = (Some p, wo)"
    "locate_block_io_volume FW guid w = (Inr v, w1)"
  shows "uv_handle v = h \<and> w1 = wo"
proof -
  have "locate_block_io_volume FW guid w =
      (case fw_media FW wo p of
         Some media \<Rightarrow>
           if \<not> bm_media_present media
           then (Inl (Io ''matched partition has no media present''), fw_close_block_io FW wo h)
           else (Inr \<lparr>uv_handle = h, uv_block_io = p, uv_media_id = bm_media_id media, uv_sector_size = bm_block_size media,
                   uv_total_sectors = saturating_add_one (bm_last_block media)\<rparr>, wo)
       | None \<Rightarrow> (Inl (Io ''matched partition has no media present''), fw_close_block_io FW wo h))"
    by (simp add: locate_block_io_volume_def assms(1-3))
  then show ?thesis
    using assms(4) by (auto split: option.splits if_splits)
qed

text \<open>Installing the hook.\<close>

lemma decrypt_hook_installs:
  assumes "fw_exclusive FW held proto" "hooks_ok lo" "fw_locate_block_io FW (lo_world lo) = Some hs"
    "find (guid_matches FW (lo_world lo) guid) hs = Some h" "h \<notin> held (lo_world lo)" "proto h \<noteq> 0"
    "locate_block_io_volume FW guid (lo_world lo) = (Inr v, w1)"
    "hook_parameters C A guid (uefi_sector_io FW v) vmk w1 = Inr (g, supplier)"
    "find_entry (proto h) (lo_hook_table lo) = None" "None \<in> set (lo_hook_table lo)"
  shows "\<exists>lo' e. install_decrypt_hook C A FW guid vmk lo = (Inr (), lo') \<and> hooks_ok lo' \<and>
    find_entry (proto h) (lo_hook_table lo') = Some e \<and> he_engine e = Some (hook_engine_new g supplier) \<and>
    held (lo_world lo') = insert h (held (lo_world lo))"
proof -
  let ?w = "lo_world lo"
  obtain wo where wo: "fw_open_block_io FW ?w h = (Some (proto h), wo)" "held wo = insert h (held ?w)"
    using fw_exclusiveD(1) [OF assms(1,5)] by blast
  have v: "uv_handle v = h" "w1 = wo"
    using located_volume [OF assms(3,4) wo(1) assms(7)] by simp_all
  define wc where "wc = fw_close_block_io FW wo h"
  have wc: "held wc = held ?w"
    using assms(5) wo(2) by (simp add: wc_def fw_exclusiveD(2) [OF assms(1)])
  have same: "fw_locate_block_io FW wc = Some hs" "fw_partition_guid FW wc = fw_partition_guid FW ?w"
    using assms(3) fw_exclusiveD(3,4) [OF assms(1) wo(1)] by (simp_all add: wc_def)
  have gm: "guid_matches FW wc guid = guid_matches FW ?w guid"
    by (rule ext) (simp add: guid_matches_def same(2))
  have gid: "hg_partition_guid g = guid"
    using assms(8) by (auto simp: hook_parameters_def res_simps res_bind_def split: sum.splits)
  obtain w2 where w2: "fw_open_block_io FW wc h = (Some (proto h), w2)" "held w2 = insert h (held wc)"
    using fw_exclusiveD(1) [OF assms(1), of h wc] assms(5) wc by auto
  let ?lo = "lo\<lparr>lo_world := w2\<rparr>"
  have lo2: "hooks_ok ?lo"
    using assms(2) by (simp add: hooks_ok_def)
  obtain t where t: "fill_slot \<lparr>he_protocol = proto h, he_original_read = lo_read_blocks lo (proto h),
      he_original_write = lo_write_blocks lo (proto h), he_engine = Some (hook_engine_new g supplier)\<rparr> (lo_hook_table lo) = Some t"
    using fill_slot_free [OF assms(10)] by blast
  obtain lo' where inst: "hook_install (proto h) (hook_engine_new g supplier) ?lo = (Inr (proto h), lo')"
    and lo': "lo_hook_table lo' = t" "lo_world lo' = w2"
    using t by (simp add: hook_install_def)
  have ok: "hooks_ok lo'"
    using hook_install_ok [OF lo2 _ inst] assms(9) by simp
  have "engine_install FW (hook_engine_new g supplier) (lo\<lparr>lo_world := wc\<rparr>) =
      (Inr ((hook_engine_new g supplier)\<lparr>hk_block_io := Some (proto h)\<rparr>), lo')"
    using assms(4,6) same(1) gm w2(1) inst gid by (simp add: engine_install_def hook_engine_new_def)
  then have "install_decrypt_hook C A FW guid vmk lo = (Inr (), lo')"
    using assms(7,8) v by (simp add: install_decrypt_hook_def wc_def Let_def)
  moreover have "find_entry (proto h) t = Some \<lparr>he_protocol = proto h, he_original_read = lo_read_blocks lo (proto h),
      he_original_write = lo_write_blocks lo (proto h), he_engine = Some (hook_engine_new g supplier)\<rparr>"
    using find_entry_fill [OF t] assms(9) by simp
  ultimately show ?thesis
    using ok lo' w2(2) wc by auto
qed


section \<open>A small firmware\<close>

text \<open>One partition with 600 sectors, handle 3, protocol 9; the world lists the handles whose protocol
  is open.\<close>

definition toy_media :: block_io_media where
  "toy_media = \<lparr>bm_media_id = 0, bm_media_present = True, bm_block_size = 512, bm_last_block = 599\<rparr>"

definition toy_firmware :: "((nat \<Rightarrow> byte) \<times> u64 list) firmware" where
  "toy_firmware =
     \<lparr>fw_locate_block_io = (\<lambda>w. Some [3]), fw_partition_guid = (\<lambda>w h. Some (replicate 16 0)),
      fw_open_block_io = (\<lambda>w h. if h \<in> set (snd w) then (None, w) else (Some (h + 6), fst w, h # snd w)),
      fw_close_block_io = (\<lambda>w h. (fst w, filter (\<lambda>x. x \<noteq> h) (snd w))),
      fw_media = (\<lambda>w p. Some toy_media),
      fw_read_blocks = (\<lambda>w p m lba n. (EFI_SUCCESS, map (fst w) [unat lba * 512..<unat lba * 512 + n])),
      fw_write_blocks = (\<lambda>w p m lba buf. (EFI_SUCCESS, put_bytes (unat lba * 512) buf (fst w), snd w))\<rparr>"

lemma toy_firmware_disk: "fw_disk_ok toy_firmware p mid 512 (2 ^ 64) (disk_sector fst 512)"
proof -
  have wr: "\<exists>w'. fw_write_blocks toy_firmware w p mid lba buf = (EFI_SUCCESS, w') \<and>
      disk_sector fst 512 w' = put_sectors 512 (unat lba) buf (disk_sector fst 512 w)" if "length buf = k * 512" for w lba k buf
    using disk_sector_write [of 512 buf k fst "(put_bytes (unat lba * 512) buf (fst w), snd w)" "unat lba" w] that
    by (simp add: toy_firmware_def put_bytes_def)
  have rd: "fw_read_blocks toy_firmware w p mid lba (k * 512) = (EFI_SUCCESS, get_sectors (disk_sector fst 512 w) (unat lba) k)" for w lba k
    by (simp add: toy_firmware_def get_disk_sectors add_mult_distrib)
  have m: "fw_media toy_firmware w p = Some toy_media" for w
    by (simp add: toy_firmware_def)
  show ?thesis
    unfolding fw_disk_ok_def using wr rd m by (simp add: toy_media_def)
qed

lemma toy_firmware_exclusive: "fw_exclusive toy_firmware (\<lambda>w. set (snd w)) (\<lambda>h. h + 6)"
  by (auto simp: fw_exclusive_def toy_firmware_def)


section \<open>Properties\<close>

text \<open>C8: during boot the system volume is a plain disk.  Through the hooks, a read of any blocks
  gives the plaintext of the encrypted part of the data region and the other sectors as they are, and a
  write changes this view exactly like a write to a plain disk.\<close>

theorem boot_hook_refines_plain_disk:
  assumes "aes_ok A" "fw_disk_ok FW p mid ss cap raw" "hooks_ok lo" "find_entry p (lo_hook_table lo) = Some e"
    "he_engine e = Some eng" "hk_cipher_supplier eng () = Some (xts_as_volume_cipher A x)"
    "unat lba + k \<le> cap" "0 < k" "length buf = k * ss"
  shows "call_read_blocks FW p mid lba (k * ss) True lo =
      Some (EFI_SUCCESS, get_sectors (boot_view (xts_as_volume_cipher A x) (hk_geometry eng) (raw (lo_world lo))) (unat lba) k) \<and>
    (\<exists>lo'. call_write_blocks FW p mid lba (Some buf) lo = Some (EFI_SUCCESS, lo') \<and>
      hooks_ok lo' \<and> lo_hook_table lo' = lo_hook_table lo \<and>
      boot_view (xts_as_volume_cipher A x) (hk_geometry eng) (raw (lo_world lo')) =
        put_sectors ss (unat lba) buf (boot_view (xts_as_volume_cipher A x) (hk_geometry eng) (raw (lo_world lo))))"
proof -
  note tr = hooked_transfer [OF assms(1-8)]
  obtain w' out where w': "call_write_blocks FW p mid lba (Some buf) lo = Some (EFI_SUCCESS, lo\<lparr>lo_world := w'\<rparr>)"
    "boot_view (xts_as_volume_cipher A x) (hk_geometry eng) (raw w') =
       put_sectors ss (unat lba) buf (boot_view (xts_as_volume_cipher A x) (hk_geometry eng) (raw (lo_world lo)))"
    using tr(2) [OF assms(9)] by blast
  have "hooks_ok (lo\<lparr>lo_world := w'\<rparr>)"
    using assms(3) by (simp add: hooks_ok_def)
  then show ?thesis
    using tr(1) w' by simp
qed

definition toy_hook_engine :: hook_engine where
  "toy_hook_engine = hook_engine_new
     \<lparr>hg_partition_guid = guid_from_windows_bytes (replicate 16 0), hg_offset_sector = 0,
      hg_encrypted_offset = \<lparr>eo_sector = 40, eo_total_sectors = 88\<rparr>\<rparr> (\<lambda>_. Some (xts_as_volume_cipher toy_aes toy_xts))"

theorem boot_hook_refines_plain_disk_witness:
  "\<exists>lo'. call_write_blocks toy_firmware 9 0 39 (Some (replicate 1024 7)) (snd (hook_install 9 toy_hook_engine (loader_init (\<lambda>a :: nat. 0 :: byte, [] :: u64 list)))) =
      Some (EFI_SUCCESS, lo') \<and>
    boot_view (xts_as_volume_cipher toy_aes toy_xts) (hk_geometry toy_hook_engine) (disk_sector fst 512 (lo_world lo')) 39 = replicate 512 7"
proof -
  let ?lo = "snd (hook_install 9 toy_hook_engine (loader_init (\<lambda>a :: nat. 0 :: byte, [] :: u64 list)))"
  obtain r where inst: "hook_install 9 toy_hook_engine (loader_init (\<lambda>a :: nat. 0 :: byte, [] :: u64 list)) = (r, ?lo)"
    by (metis prod.collapse)
  have ok: "hooks_ok ?lo"
    by (rule hook_install_ok [OF loader_init_ok(1) loader_init_ok(2) inst])
  let ?e = "\<lparr>he_protocol = 9, he_original_read = FirmwareRead, he_original_write = FirmwareWrite, he_engine = Some toy_hook_engine\<rparr>"
  have e: "find_entry 9 (lo_hook_table ?lo) = Some ?e"
    by (simp add: hook_install_def loader_init_def MAX_HOOKS_def numeral_eq_Suc)
  have "hk_cipher_supplier toy_hook_engine () = Some (xts_as_volume_cipher toy_aes toy_xts)"
    by (simp add: toy_hook_engine_def hook_engine_new_def)
  note all = boot_hook_refines_plain_disk [OF toy_aes_ok toy_firmware_disk [of 9 0] ok e _ this, where lba = 39 and k = 2 and buf = "replicate 1024 7"]
  have "put_sectors 512 39 (replicate 1024 7) f 39 = replicate 512 (7 :: byte)" for f
    by (simp add: put_sectors_def buf_slice_def)
  then show ?thesis
    using all by auto
qed

text \<open>C10: loader and driver open the same volume.  Reading the same sectors with the same key, the
  loader's hook is given the data region, the boundary and the cipher that the driver's provider computes,
  and it is given none exactly when the provider refuses the volume; so inside the data region both show
  the same plaintext.\<close>

theorem loader_agrees_with_driver:
  assumes "same_reads (uefi_sector_io FW v) w1 (drop_cells io) w2"
  shows "res_ok (hook_parameters C A guid (uefi_sector_io FW v) vmk w1) =
      (case fst (sample_on_attach C rng A io vmk pg (cells, w2)) of
         Inr (Encrypted (Some supplier) off eo _) \<Rightarrow>
           Some (\<lparr>hg_partition_guid = guid, hg_offset_sector = off, hg_encrypted_offset = eo\<rparr>, supplier)
       | _ \<Rightarrow> None) \<and>
    (\<forall>g supplier c raw j. hook_parameters C A guid (uefi_sector_io FW v) vmk w1 = Inr (g, supplier) \<and> supplier () = Some c \<and>
       j < unat (eo_total_sectors (hg_encrypted_offset g)) \<longrightarrow>
       boot_view c g raw (unat (hg_offset_sector g) + j) =
         logical_sector c (eo_sector (hg_encrypted_offset g)) (\<lambda>i. raw (unat (hg_offset_sector g) + i)) j)"
  using hook_parameters_agree [OF assms, of C A guid vmk rng pg cells] by (simp add: boot_view_def Let_def)

lemma toy_ld_read:
  "unat lba < 600 \<Longrightarrow> sio_read_sectors (ld_sector_io ram_kernel toy_device) w lba 512 = Inr (map w [unat lba * 512..<unat lba * 512 + 512])"
proof -
  assume lba: "unat lba < 600"
  have rel: "ld_reliable ram_kernel toy_device (\<lambda>w. w)"
    using toy_env by (simp add: jvck_env_ok_def)
  have "sio_read_sectors (ld_sector_io ram_kernel toy_device) w lba (1 * unat (sio_sector_size (ld_sector_io ram_kernel toy_device))) =
      Inr (get_sectors (disk_sector (\<lambda>w. w) (unat (ld_sector_size toy_device)) w) (unat lba) 1)"
    using lba by (intro ldr.read_reliable [OF rel])
      (simp_all add: toy_device_def ld_new_def ld_sector_io_def byte_sector_io_def)
  then show ?thesis
    by (simp add: get_disk_sectors toy_device_def ld_new_def ld_sector_io_def byte_sector_io_def add_mult_distrib add.commute [of 512])
qed

abbreviation toy_uefi_volume :: uefi_block_io_volume where
  "toy_uefi_volume \<equiv> \<lparr>uv_handle = 3, uv_block_io = 9, uv_media_id = 0, uv_sector_size = 512, uv_total_sectors = 600\<rparr>"

text \<open>A disk on which 17 sectors are recorded as encrypted.\<close>

lemma toy_stored:
  obtains w' cells' where "same_reads (uefi_sector_io toy_firmware toy_uefi_volume) (w', hs) (drop_cells (lift_sector_io (ld_sector_io ram_kernel toy_device))) w'"
    "fst (sample_on_attach toy_crypto const_rng toy_aes (lift_sector_io (ld_sector_io ram_kernel toy_device)) [1, 2, 3] None (toy_cells, w')) =
       Inr (Encrypted (Some (static_get_cipher toy_aes \<lparr>scs_key1 = fvek_key1 toy_secrets, scs_key2 = fvek_key2 toy_secrets\<rparr>)) 0
         \<lparr>eo_sector = 17, eo_total_sectors = 88\<rparr> (jvck_offset_store toy_crypto const_rng toy_store))"
proof -
  let ?io = "ld_sector_io ram_kernel toy_device"
  obtain r cells' w' where st: "js_store const_rng toy_store (toy_cells, \<lambda>a. 0) \<lparr>eo_sector = 17, eo_total_sectors = 88\<rparr> = (r, cells', w')"
    by (metis prod.exhaust)
  have so: "store_ok ?io (jvck_cbc_codec toy_crypto) toy_store" "use_footer (js_options toy_store) \<noteq> 0"
    using toy_sweep(1) by (simp_all add: sweep_reliable_def toy_store_def toy_options_def)
  note att = sample_attach_stored [OF toy_env so(1) st so(2) refl, where A = toy_aes and guid = None and ?cells0.0 = toy_cells]
  have reads: "same_reads (uefi_sector_io toy_firmware toy_uefi_volume) (w', hs) (drop_cells (lift_sector_io ?io)) w'"
    using toy_ld_read [of _ w']
    by (simp add: same_reads_def uefi_sector_io_def toy_firmware_def toy_device_def ld_new_def ld_sector_io_def byte_sector_io_def)
  have "js_vmk toy_store = [1, 2, 3]" "js_geometry toy_store = \<lparr>g_offset_sector = 0, g_data_sectors = 88, g_sector_size = 512\<rparr>"
    "js_secrets toy_store = toy_secrets"
    by (simp_all add: toy_store_def)
  then show thesis
    using that [OF reads] att by simp
qed

theorem loader_agrees_with_driver_witness:
  "\<exists>w g supplier. hook_parameters toy_crypto toy_aes (replicate 16 0) (uefi_sector_io toy_firmware toy_uefi_volume) [1, 2, 3] w =
     Inr (g, supplier) \<and> hg_encrypted_offset g = \<lparr>eo_sector = 17, eo_total_sectors = 88\<rparr>"
proof (rule toy_stored)
  fix w'
  assume reads: "same_reads (uefi_sector_io toy_firmware toy_uefi_volume) (w', [])
      (drop_cells (lift_sector_io (ld_sector_io ram_kernel toy_device))) w'"
    and att: "fst (sample_on_attach toy_crypto const_rng toy_aes (lift_sector_io (ld_sector_io ram_kernel toy_device)) [1, 2, 3] None (toy_cells, w')) =
       Inr (Encrypted (Some (static_get_cipher toy_aes \<lparr>scs_key1 = fvek_key1 toy_secrets, scs_key2 = fvek_key2 toy_secrets\<rparr>)) 0
         \<lparr>eo_sector = 17, eo_total_sectors = 88\<rparr> (jvck_offset_store toy_crypto const_rng toy_store))"
  show ?thesis
    using loader_agrees_with_driver [OF reads, of toy_crypto toy_aes "replicate 16 0" "[1, 2, 3]" const_rng None toy_cells] att
    by (intro exI [of _ "(w', [])"]) (auto simp: res_ok_def split: sum.splits)
qed

text \<open>C32: the loader installs its hook.  With firmware that opens protocols exclusively, a matching
  partition that nobody holds, readable metadata and a free slot, the hook ends up installed with the
  parameters read from the metadata: the handle has been given back before it is opened again.\<close>

theorem decrypt_hook_installed:
  assumes "fw_exclusive FW held proto" "hooks_ok lo" "fw_locate_block_io FW (lo_world lo) = Some hs"
    "find (guid_matches FW (lo_world lo) guid) hs = Some h" "h \<notin> held (lo_world lo)" "proto h \<noteq> 0"
    "locate_block_io_volume FW guid (lo_world lo) = (Inr v, w1)"
    "hook_parameters C A guid (uefi_sector_io FW v) vmk w1 = Inr (g, supplier)"
    "find_entry (proto h) (lo_hook_table lo) = None" "None \<in> set (lo_hook_table lo)"
  shows "\<exists>lo' e. install_decrypt_hook C A FW guid vmk lo = (Inr (), lo') \<and> hooks_ok lo' \<and>
    find_entry (proto h) (lo_hook_table lo') = Some e \<and> he_engine e = Some (hook_engine_new g supplier) \<and>
    held (lo_world lo') = insert h (held (lo_world lo))"
  by (rule decrypt_hook_installs [OF assms])

theorem decrypt_hook_installed_witness:
  "\<exists>(w :: nat \<Rightarrow> byte) lo'. install_decrypt_hook toy_crypto toy_aes toy_firmware (guid_from_windows_bytes (replicate 16 0)) [1, 2, 3]
     (loader_init (w, [])) = (Inr (), lo') \<and> hooks_ok lo' \<and> find_entry 9 (lo_hook_table lo') \<noteq> None"
proof (rule toy_stored [where hs = "[3]"])
  fix w' :: "nat \<Rightarrow> byte"
  let ?guid = "guid_from_windows_bytes (replicate 16 0)"
  assume reads: "same_reads (uefi_sector_io toy_firmware toy_uefi_volume) (w', [3])
      (drop_cells (lift_sector_io (ld_sector_io ram_kernel toy_device))) w'"
    and att: "fst (sample_on_attach toy_crypto const_rng toy_aes (lift_sector_io (ld_sector_io ram_kernel toy_device)) [1, 2, 3] None (toy_cells, w')) =
       Inr (Encrypted (Some (static_get_cipher toy_aes \<lparr>scs_key1 = fvek_key1 toy_secrets, scs_key2 = fvek_key2 toy_secrets\<rparr>)) 0
         \<lparr>eo_sector = 17, eo_total_sectors = 88\<rparr> (jvck_offset_store toy_crypto const_rng toy_store))"
  obtain g supplier where hp: "hook_parameters toy_crypto toy_aes ?guid (uefi_sector_io toy_firmware toy_uefi_volume) [1, 2, 3] (w', [3]) = Inr (g, supplier)"
    using hook_parameters_agree [OF reads, of toy_crypto toy_aes ?guid "[1, 2, 3]" const_rng None toy_cells] att
    by (auto simp: res_ok_def split: sum.splits)
  have loc: "locate_block_io_volume toy_firmware ?guid (w', []) = (Inr toy_uefi_volume, (w', [3]))"
    by (simp add: locate_block_io_volume_def guid_matches_def toy_firmware_def toy_media_def saturating_add_one_def)
  have f: "fw_locate_block_io toy_firmware (lo_world (loader_init (w', []))) = Some [3]"
    "find (guid_matches toy_firmware (lo_world (loader_init (w', []))) ?guid) [3] = Some 3"
    "None \<in> set (lo_hook_table (loader_init (w', [])))"
    by (simp_all add: toy_firmware_def guid_matches_def loader_init_def MAX_HOOKS_def)
  show ?thesis
    using decrypt_hook_installed [OF toy_firmware_exclusive loader_init_ok(1) f(1,2), of toy_uefi_volume "(w', [3])", OF _ _ _ hp loader_init_ok(2) f(3)] loc
    by (fastforce simp: loader_init_def)
qed

text \<open>Hooks can be taken off again.  Installing a hook for a protocol that has none keeps the
  table consistent, whether or not a slot is free, and removing it restores the functions of every
  protocol; with a consistent table every transfer returns.\<close>

theorem hook_table_consistent:
  assumes "hooks_ok lo" "find_entry p (lo_hook_table lo) = None" "hook_install p eng lo = (r, lo1)"
  shows "hooks_ok lo1 \<and> hooks_ok (hook_uninstall p lo1) \<and>
    lo_read_blocks (hook_uninstall p lo1) = lo_read_blocks lo \<and> lo_write_blocks (hook_uninstall p lo1) = lo_write_blocks lo \<and>
    call_read_blocks FW q mid lba n b lo1 \<noteq> None \<and> call_write_blocks FW q mid lba buf lo1 \<noteq> None"
proof -
  have ok: "hooks_ok lo1"
    by (rule hook_install_ok [OF assms])
  have p: "lo_read_blocks lo p = FirmwareRead" "lo_write_blocks lo p = FirmwareWrite"
    using hooks_okD [OF assms(1), of p] assms(2) by simp_all
  have un: "lo_read_blocks (hook_uninstall p lo1) p = FirmwareRead" "lo_write_blocks (hook_uninstall p lo1) p = FirmwareWrite"
    using hooks_okD [OF hook_uninstall_ok(1) [OF ok], of p p] hook_uninstall_ok(2) [OF ok, of p] by simp_all
  have other: "lo_read_blocks (hook_uninstall p lo1) q = lo_read_blocks lo q" "lo_write_blocks (hook_uninstall p lo1) q = lo_write_blocks lo q"
    if "q \<noteq> p" for q
    using assms(3) that by (auto simp: hook_install_def hook_uninstall_def split: option.splits)
  have "lo_read_blocks (hook_uninstall p lo1) = lo_read_blocks lo" "lo_write_blocks (hook_uninstall p lo1) = lo_write_blocks lo"
    using un p other by (metis ext)+
  then show ?thesis
    using ok hook_uninstall_ok(1) [OF ok] hooks_ok_calls_return [OF ok] by blast
qed

theorem hook_table_consistent_witness:
  "lo_read_blocks (hook_uninstall 9 (snd (hook_install 9 toy_hook_engine (loader_init (\<lambda>a :: nat. 0 :: byte, [] :: u64 list))))) =
     lo_read_blocks (loader_init (\<lambda>a :: nat. 0 :: byte, [] :: u64 list))"
proof -
  let ?lo = "loader_init (\<lambda>a :: nat. 0 :: byte, [] :: u64 list)"
  obtain r where inst: "hook_install 9 toy_hook_engine ?lo = (r, snd (hook_install 9 toy_hook_engine ?lo))"
    by (metis prod.collapse)
  show ?thesis
    using hook_table_consistent [OF loader_init_ok(1) loader_init_ok(2) inst] by blast
qed

text \<open>Hooking a protocol twice can hang the boot.  After an earlier slot of the table has been
  freed, a second hook of a protocol that is still hooked is found first; it has saved the hook itself
  as the original function, and a read through it never returns.\<close>

theorem double_hook_never_returns:
  "let lo1 = snd (hook_install 1 eng (loader_init w));
       lo2 = snd (hook_install 2 eng lo1);
       lo3 = hook_uninstall 1 lo2;
       lo4 = snd (hook_install 2 eng lo3)
   in call_read_blocks FW 2 mid lba n b lo2 \<noteq> None \<and> call_read_blocks FW 2 mid lba n b lo4 = None"
  by (simp add: hook_install_def hook_uninstall_def loader_init_def MAX_HOOKS_def numeral_eq_Suc call_read_blocks_def
      hooked_read_blocks_def Let_def)

end
