(* ===== verification/Vck_Config.thy ===== *)
theory Vck_Config
  imports Vck_Common
begin

text \<open>
  The configuration file of the loader (\<open>sample/common/src/config.rs\<close>): the scanner for flat JSON
  objects, the base64 decoder and \<open>VckConfig::parse_json\<close>.  A Rust string is the list of its code
  points, a \<open>&str\<close> as bytes their UTF-8 encoding; indices are natural numbers, and an access past the
  end is \<open>None\<close> as with \<open>slice::get\<close>.  Parsing of UUIDs is a parameter.  The file is compared
  with a reference printer for JSON and for base64 (RFC 8259, RFC 4648).
\<close>

type_synonym rust_string = "u32 list"

definition byte_chr :: "char \<Rightarrow> byte" where
  "byte_chr c = of_char c"

definition ustr :: "string \<Rightarrow> rust_string" where
  "ustr s = map of_char s"


section \<open>UTF-8\<close>

text \<open>The encoding of a code point, \<open>char::encode_utf8\<close>, and the check of
  \<open>core::str::from_utf8\<close>.\<close>

definition utf8_char :: "u32 \<Rightarrow> bytes" where
  "utf8_char c =
     (let n = unat c
      in if n < 0x80 then [of_nat n]
         else if n < 0x800 then [of_nat (0xC0 + n div 64), of_nat (0x80 + n mod 64)]
         else if n < 0x10000 then [of_nat (0xE0 + n div 4096), of_nat (0x80 + n div 64 mod 64), of_nat (0x80 + n mod 64)]
         else [of_nat (0xF0 + n div 262144), of_nat (0x80 + n div 4096 mod 64), of_nat (0x80 + n div 64 mod 64), of_nat (0x80 + n mod 64)])"

definition as_bytes :: "rust_string \<Rightarrow> bytes" where
  "as_bytes s = concat (map utf8_char s)"

definition between :: "nat \<Rightarrow> byte \<Rightarrow> nat \<Rightarrow> bool" where
  "between lo b hi = (lo \<le> unat b \<and> unat b \<le> hi)"

abbreviation continuation :: "byte \<Rightarrow> bool" where
  "continuation b \<equiv> between 0x80 b 0xBF"

fun utf8_valid :: "bytes \<Rightarrow> bool" where
  "utf8_valid [] = True"
| "utf8_valid (b # bs) =
     (if between 0 b 0x7F then utf8_valid bs
      else if between 0xC2 b 0xDF then (case bs of c1 # r \<Rightarrow> continuation c1 \<and> utf8_valid r | _ \<Rightarrow> False)
      else if between 0xE0 b 0xEF then
        (case bs of
           c1 # c2 # r \<Rightarrow>
             between (if b = 0xE0 then 0xA0 else 0x80) c1 (if b = 0xED then 0x9F else 0xBF) \<and> continuation c2 \<and> utf8_valid r
         | _ \<Rightarrow> False)
      else if between 0xF0 b 0xF4 then
        (case bs of
           c1 # c2 # c3 # r \<Rightarrow>
             between (if b = 0xF0 then 0x90 else 0x80) c1 (if b = 0xF4 then 0x8F else 0xBF) \<and>
             continuation c2 \<and> continuation c3 \<and> utf8_valid r
         | _ \<Rightarrow> False)
      else False)"

text \<open>\<open>char::from_u32\<close>: the scalar values.\<close>

definition char_from_u32 :: "u32 \<Rightarrow> u32 option" where
  "char_from_u32 cp = (if 0xD800 \<le> cp \<and> cp \<le> 0xDFFF \<or> 0x10FFFF < cp then None else Some cp)"

definition scalar_value :: "u32 \<Rightarrow> bool" where
  "scalar_value c = (char_from_u32 c = Some c)"


section \<open>The JSON scanner\<close>

definition quoted :: "string \<Rightarrow> string" where
  "quoted s = CHR 0x27 # s @ [CHR 0x27]"

definition bytes_get :: "bytes \<Rightarrow> nat \<Rightarrow> byte option" where
  "bytes_get bs i = (if i < length bs then Some (bs ! i) else None)"

definition is_json_ws :: "byte \<Rightarrow> bool" where
  "is_json_ws c = (c = 0x20 \<or> c = 0x09 \<or> c = 0x0D \<or> c = 0x0A)"

function skip_ws :: "bytes \<Rightarrow> nat \<Rightarrow> nat" where
  "skip_ws bs i = (case bytes_get bs i of
     Some c \<Rightarrow> if is_json_ws c then skip_ws bs (i + 1) else i
   | None \<Rightarrow> i)"
  by pat_completeness auto
termination
  by (relation "measure (\<lambda>(bs, i). length bs - i)") (auto simp: bytes_get_def split: if_splits)

declare skip_ws.simps [simp del]

text \<open>\<open>char::to_digit(16)\<close>.\<close>

definition to_digit16 :: "byte \<Rightarrow> u32 option" where
  "to_digit16 h =
     (if between 0x30 h 0x39 then Some (ucast h - 0x30)
      else if between 0x61 h 0x66 then Some (ucast h - 0x61 + 10)
      else if between 0x41 h 0x46 then Some (ucast h - 0x41 + 10)
      else None)"

fun parse_hex :: "u32 \<Rightarrow> bytes \<Rightarrow> u32 vck_result" where
  "parse_hex cp [] = Inr cp"
| "parse_hex cp (h # hs) =
     res_bind (ok_or (InvalidData (''vck.json: bad '' @ CHR 0x5C # ''u escape'')) (to_digit16 h)) (\<lambda>d. parse_hex (cp * 16 + d) hs)"

text \<open>The character after a backslash, and the index past the escape.\<close>

definition unescape :: "bytes \<Rightarrow> nat \<Rightarrow> (u32 \<times> nat) vck_result" where
  "unescape bs i =
     (case bytes_get bs i of
        None \<Rightarrow> Inl (InvalidData ''vck.json: bad escape'')
      | Some c \<Rightarrow>
          if c = byte_chr (CHR 0x22) then Inr (0x22, i + 1)
          else if c = byte_chr (CHR 0x5C) then Inr (0x5C, i + 1)
          else if c = byte_chr (CHR ''/'') then Inr (0x2F, i + 1)
          else if c = byte_chr (CHR ''n'') then Inr (0x0A, i + 1)
          else if c = byte_chr (CHR ''r'') then Inr (0x0D, i + 1)
          else if c = byte_chr (CHR ''t'') then Inr (0x09, i + 1)
          else if c = byte_chr (CHR ''b'') then Inr (0x08, i + 1)
          else if c = byte_chr (CHR ''f'') then Inr (0x0C, i + 1)
          else if c = byte_chr (CHR ''u'') then
            (if i + 5 > length bs then Inl (InvalidData (''vck.json: truncated '' @ CHR 0x5C # ''u escape''))
             else res_bind (parse_hex 0 (buf_slice (i + 1) (i + 5) bs)) (\<lambda>cp.
                  res_bind (ok_or (InvalidData ''vck.json: bad code point'') (char_from_u32 cp)) (\<lambda>ch.
                    Inr (ch, i + 5))))
          else Inl (InvalidData ''vck.json: bad escape''))"

lemma unescape_advances: "unescape bs i = Inr (ch, n) \<Longrightarrow> i < n"
  by (auto simp: unescape_def res_simps split: option.splits if_splits)

function parse_string_loop :: "bytes \<Rightarrow> nat \<Rightarrow> rust_string \<Rightarrow> (rust_string \<times> nat) vck_result" where
  "parse_string_loop bs i out =
     (case bytes_get bs i of
        None \<Rightarrow> Inl (InvalidData ''vck.json: unterminated string'')
      | Some c \<Rightarrow>
          if c = byte_chr (CHR 0x22) then Inr (out, i + 1)
          else if c = byte_chr (CHR 0x5C) then
            (case unescape bs (i + 1) of
               Inl e \<Rightarrow> Inl e
             | Inr (ch, next) \<Rightarrow> parse_string_loop bs next (out @ [ch]))
          else parse_string_loop bs (i + 1) (out @ [ucast c]))"
  by pat_completeness auto
termination
  by (relation "measure (\<lambda>(bs, i, out). length bs - i)")
    (auto simp: bytes_get_def dest!: unescape_advances split: if_splits)

declare parse_string_loop.simps [simp del]

definition parse_string :: "bytes \<Rightarrow> nat \<Rightarrow> (rust_string \<times> nat) vck_result" where
  "parse_string bs start = parse_string_loop bs (start + 1) []"

text \<open>One member, from the quote of its key to the index past its value.\<close>

definition parse_member :: "bytes \<Rightarrow> nat \<Rightarrow> ((rust_string \<times> rust_string) \<times> nat) vck_result" where
  "parse_member bs i =
     res_bind (parse_string bs i) (\<lambda>(key, next).
       let i = skip_ws bs next
       in if bytes_get bs i \<noteq> Some (byte_chr (CHR '':'')) then Inl (InvalidData (''vck.json: expected '' @ quoted '':''))
          else let i = skip_ws bs (i + 1)
               in if bytes_get bs i \<noteq> Some (byte_chr (CHR 0x22)) then Inl (InvalidData ''vck.json: only string values supported'')
                  else res_bind (parse_string bs i) (\<lambda>(val, next). Inr ((key, val), next)))"

lemma parse_string_loop_advances: "parse_string_loop bs i out = Inr (s, n) \<Longrightarrow> i < n"
proof (induction bs i out rule: parse_string_loop.induct)
  case (1 bs i out)
  from 1(3) [unfolded parse_string_loop.simps [of bs i out]] show ?case
    using 1(1,2) by (fastforce split: option.splits if_splits sum.splits dest: unescape_advances)
qed

lemma skip_ws_ge: "i \<le> skip_ws bs i"
  by (induction bs i rule: skip_ws.induct) (subst skip_ws.simps, auto split: option.splits)

lemma parse_member_advances: "parse_member bs i = Inr (kv, n) \<Longrightarrow> i < n"
proof -
  assume "parse_member bs i = Inr (kv, n)"
  then obtain s1 n1 s2 where *: "parse_string bs i = Inr (s1, n1)" "parse_string bs (skip_ws bs (skip_ws bs n1 + 1)) = Inr (s2, n)"
    by (auto simp: parse_member_def Let_def res_simps split: if_splits prod.splits)
  then show "i < n"
    using skip_ws_ge [of "skip_ws bs n1 + 1" bs] skip_ws_ge [of n1 bs]
    by (auto simp: parse_string_def dest!: parse_string_loop_advances)
qed

function parse_members :: "bytes \<Rightarrow> nat \<Rightarrow> (rust_string \<times> rust_string) list \<Rightarrow> (rust_string \<times> rust_string) list vck_result" where
  "parse_members bs i0 entries =
     (let i = skip_ws bs i0
      in if bytes_get bs i = Some (byte_chr (CHR ''}'')) then Inr entries
         else if bytes_get bs i \<noteq> Some (byte_chr (CHR 0x22)) then Inl (InvalidData (''vck.json: expected key or '' @ quoted ''}''))
         else (case parse_member bs i of
                 Inl e \<Rightarrow> Inl e
               | Inr (entry, next) \<Rightarrow>
                   let i = skip_ws bs next
                   in if bytes_get bs i = Some (byte_chr (CHR '','')) then parse_members bs (i + 1) (entries @ [entry])
                      else if bytes_get bs i = Some (byte_chr (CHR ''}'')) then Inr (entries @ [entry])
                      else Inl (InvalidData (''vck.json: expected '' @ quoted '','' @ '' or '' @ quoted ''}''))))"
  by pat_completeness auto
termination
proof (relation "measure (\<lambda>(bs, i, entries). length bs - i)", goal_cases)
  case (2 bs i0 entries i z entry nx j)
  have "i0 \<le> i" "nx \<le> j"
    using 2 skip_ws_ge by simp_all
  moreover have "i < nx" "i < length bs"
    using 2 parse_member_advances [of bs i entry nx] by (auto simp: bytes_get_def split: if_splits)
  ultimately show ?case
    by simp
qed simp

declare parse_members.simps [simp del]

definition json_parse :: "bytes \<Rightarrow> (rust_string \<times> rust_string) list vck_result" where
  "json_parse bs =
     (let i = skip_ws bs 0
      in if bytes_get bs i \<noteq> Some (byte_chr (CHR ''{'')) then Inl (InvalidData (''vck.json: expected '' @ quoted ''{''))
         else parse_members bs (i + 1) [])"

definition json_get :: "(rust_string \<times> rust_string) list \<Rightarrow> rust_string \<Rightarrow> rust_string option" where
  "json_get entries key = map_option snd (find (\<lambda>(k, _). k = key) entries)"


section \<open>Base64\<close>

definition base64_val :: "byte \<Rightarrow> byte option" where
  "base64_val c =
     (if between 0x41 c 0x5A then Some (c - 0x41)
      else if between 0x61 c 0x7A then Some (c - 0x61 + 26)
      else if between 0x30 c 0x39 then Some (c - 0x30 + 52)
      else if c = byte_chr (CHR ''+'') then Some 62
      else if c = byte_chr (CHR ''/'') then Some 63
      else None)"

text \<open>The count of pending bits stays below 14, so it is a natural number.\<close>

fun base64_loop :: "bytes \<Rightarrow> u32 \<Rightarrow> nat \<Rightarrow> bytes \<Rightarrow> bytes vck_result" where
  "base64_loop [] acc nbits out = Inr out"
| "base64_loop (c # cs) acc nbits out =
     (if c = byte_chr (CHR ''='') then Inr out
      else if is_json_ws c then base64_loop cs acc nbits out
      else (case base64_val c of
              None \<Rightarrow> Inl (InvalidData ''vck.json: invalid base64 in vmk'')
            | Some v \<Rightarrow>
                let acc = push_bit 6 acc OR ucast v; nbits = nbits + 6
                in if nbits \<ge> 8
                   then base64_loop cs acc (nbits - 8) (out @ [ucast (drop_bit (nbits - 8) acc)])
                   else base64_loop cs acc nbits out))"

definition base64_decode :: "rust_string \<Rightarrow> bytes vck_result" where
  "base64_decode input = base64_loop (as_bytes input) 0 0 []"


section \<open>The configuration\<close>

definition DEFAULT_OSLOADER :: rust_string where
  "DEFAULT_OSLOADER = ustr ''/EFI/Microsoft/Boot/msbootmgfw.os.efi''"

record vck_config =
  cfg_partition_guid :: guid
  cfg_vmk :: bytes
  cfg_osloader :: rust_string

text \<open>\<open>parse_guid\<close> stands for \<open>Guid::parse_str\<close>.\<close>

definition parse_json :: "(rust_string \<Rightarrow> guid option) \<Rightarrow> bytes \<Rightarrow> vck_config vck_result" where
  "parse_json parse_guid bs =
     (if \<not> utf8_valid bs then Inl (InvalidData ''vck.json is not valid UTF-8'')
      else
        res_bind (json_parse bs) (\<lambda>obj.
        res_bind (ok_or (InvalidData ''vck.json: missing partition_guid'') (json_get obj (ustr ''partition_guid''))) (\<lambda>guid_str.
        res_bind (ok_or (InvalidData ''vck.json: partition_guid is not a valid GUID'') (parse_guid guid_str)) (\<lambda>partition_guid.
        res_bind (ok_or (InvalidData ''vck.json: missing vmk'') (json_get obj (ustr ''vmk''))) (\<lambda>vmk_b64.
        res_bind (base64_decode vmk_b64) (\<lambda>vmk.
        if vmk = [] then Inl (InvalidData ''vck.json: vmk is empty'')
        else Inr \<lparr>cfg_partition_guid = partition_guid, cfg_vmk = vmk,
                  cfg_osloader = (case json_get obj (ustr ''osloader'') of
                                    Some s \<Rightarrow> if s \<noteq> [] then s else DEFAULT_OSLOADER
                                  | None \<Rightarrow> DEFAULT_OSLOADER)\<rparr>))))))"


section \<open>Reference printers\<close>

definition hex_char :: "nat \<Rightarrow> byte" where
  "hex_char n = (if n < 10 then of_nat (0x30 + n) else of_nat (0x57 + n))"

definition escape_char :: "u32 \<Rightarrow> bytes" where
  "escape_char c =
     (if c = 0x22 then [0x5C, 0x22] else if c = 0x5C then [0x5C, 0x5C]
      else if c = 0x0A then [0x5C, 0x6E] else if c = 0x0D then [0x5C, 0x72] else if c = 0x09 then [0x5C, 0x74]
      else if c = 0x08 then [0x5C, 0x62] else if c = 0x0C then [0x5C, 0x66]
      else if c < 0x20 \<or> c = 0x3C \<or> c = 0x3E \<or> c = 0x26
        then [0x5C, 0x75, 0x30, 0x30, hex_char (unat c div 16), hex_char (unat c mod 16)]
      else utf8_char c)"

definition quote :: "rust_string \<Rightarrow> bytes" where
  "quote s = 0x22 # concat (map escape_char s) @ [0x22]"

definition print_member :: "bytes \<Rightarrow> rust_string \<times> rust_string \<Rightarrow> bytes" where
  "print_member ws kv = quote (fst kv) @ ws @ [0x3A] @ ws @ quote (snd kv) @ ws"

fun print_members :: "bytes \<Rightarrow> (rust_string \<times> rust_string) list \<Rightarrow> bytes" where
  "print_members ws [] = []"
| "print_members ws [kv] = print_member ws kv"
| "print_members ws (kv # kvs) = print_member ws kv @ [0x2C] @ ws @ print_members ws kvs"

definition print_object :: "bytes \<Rightarrow> (rust_string \<times> rust_string) list \<Rightarrow> bytes" where
  "print_object ws entries = ws @ [0x7B] @ ws @ print_members ws entries @ [0x7D] @ ws"

text \<open>What the scanner makes of a character: the bytes of a character outside ASCII one by one.\<close>

definition scanned_char :: "u32 \<Rightarrow> rust_string" where
  "scanned_char c = (if c < 0x80 then [c] else map ucast (utf8_char c))"

definition scanned :: "rust_string \<Rightarrow> rust_string" where
  "scanned s = concat (map scanned_char s)"

definition base64_char :: "byte \<Rightarrow> u32" where
  "base64_char v = (let n = unat v in if n < 26 then of_nat (65 + n) else if n < 52 then of_nat (71 + n)
     else if n < 62 then of_nat (n - 4) else if n = 62 then 43 else 47)"

fun base64_encode :: "bytes \<Rightarrow> rust_string" where
  "base64_encode [] = []"
| "base64_encode [a] = [base64_char (drop_bit 2 a), base64_char (push_bit 4 (take_bit 2 a)), 61, 61]"
| "base64_encode [a, b] =
     [base64_char (drop_bit 2 a), base64_char (push_bit 4 (take_bit 2 a) OR drop_bit 4 b), base64_char (push_bit 2 (take_bit 4 b)), 61]"
| "base64_encode (a # b # c # r) =
     [base64_char (drop_bit 2 a), base64_char (push_bit 4 (take_bit 2 a) OR drop_bit 4 b),
      base64_char (push_bit 2 (take_bit 4 b) OR drop_bit 6 c), base64_char (take_bit 6 c)] @ base64_encode r"


section \<open>The scanner reads what is printed\<close>

lemma byte_chr_values:
  "byte_chr (CHR 0x22) = 0x22" "byte_chr (CHR 0x5C) = 0x5C" "byte_chr (CHR '':'') = 0x3A" "byte_chr (CHR '','') = 0x2C"
  "byte_chr (CHR ''{'') = 0x7B" "byte_chr (CHR ''}'') = 0x7D" "byte_chr (CHR ''/'') = 0x2F" "byte_chr (CHR ''n'') = 0x6E"
  "byte_chr (CHR ''r'') = 0x72" "byte_chr (CHR ''t'') = 0x74" "byte_chr (CHR ''b'') = 0x62" "byte_chr (CHR ''f'') = 0x66"
  "byte_chr (CHR ''u'') = 0x75" "byte_chr (CHR ''='') = 0x3D" "byte_chr (CHR ''+'') = 0x2B"
  by (simp_all add: byte_chr_def)

lemma bytes_get_drop: "drop i bs = x # r \<Longrightarrow> bytes_get bs i = Some x \<and> drop (Suc i) bs = r \<and> i < length bs"
  by (metis Cons_nth_drop_Suc bytes_get_def drop_all leI list.discI list.inject)

lemma skip_ws_run:
  "drop i bs = ws @ x # r \<Longrightarrow> list_all is_json_ws ws \<Longrightarrow> \<not> is_json_ws x \<Longrightarrow> skip_ws bs i = i + length ws"
proof (induction ws arbitrary: i)
  case Nil
  then show ?case
    using bytes_get_drop [of i bs x r] by (simp add: skip_ws.simps)
next
  case (Cons w ws)
  then have "skip_ws bs i = skip_ws bs (Suc i)"
    using bytes_get_drop [of i bs w "ws @ x # r"] by (subst skip_ws.simps) simp
  then show ?case
    using Cons bytes_get_drop [of i bs w "ws @ x # r"] by simp
qed

lemma parse_raw_run:
  "drop i bs = xs @ r \<Longrightarrow> list_all (\<lambda>x. x \<noteq> 0x22 \<and> x \<noteq> 0x5C) xs \<Longrightarrow>
     parse_string_loop bs i out = parse_string_loop bs (i + length xs) (out @ map ucast xs)"
proof (induction xs arbitrary: i out)
  case Nil
  then show ?case
    by simp
next
  case (Cons x xs)
  then have "parse_string_loop bs i out = parse_string_loop bs (Suc i) (out @ [ucast x])"
    using bytes_get_drop [of i bs x "xs @ r"] by (subst parse_string_loop.simps) (simp add: byte_chr_values)
  then show ?case
    using Cons bytes_get_drop [of i bs x "xs @ r"] by simp
qed

lemma scalar_value_unat: "scalar_value c = (unat c \<le> 0x10FFFF \<and> \<not> (0xD800 \<le> unat c \<and> unat c \<le> 0xDFFF))"
  by (auto simp: scalar_value_def char_from_u32_def word_le_unat word_less_unat)

lemma unat_byte: "n < 256 \<Longrightarrow> unat (of_nat n :: byte) = n"
  by (simp add: unat_of_nat_less)

lemma utf8_char_high:
  assumes "scalar_value c" "\<not> c < 0x80"
  shows "list_all (\<lambda>x. 0x80 \<le> unat x) (utf8_char c) \<and> 1 < length (utf8_char c)"
  using assms by (auto simp: scalar_value_unat word_less_unat utf8_char_def Let_def unat_byte simp del: of_nat_add)

lemma byte_eq_numeral: "a < 256 \<Longrightarrow> numeral k < (256 :: nat) \<Longrightarrow> ((of_nat a :: byte) = numeral k) = (a = numeral k)"
  by (metis of_nat_numeral unat_byte)

lemma div_mod_less: "m div 64 = k \<Longrightarrow> m mod 64 = m - 64 * (k :: nat)"
  by (metis minus_mult_div_eq_mod)

lemma utf8_valid_lead:
  "a \<le> 0x7F \<Longrightarrow> utf8_valid (of_nat a # r) = utf8_valid r"
  "0xC2 \<le> a \<Longrightarrow> a \<le> 0xDF \<Longrightarrow> 0x80 \<le> b \<Longrightarrow> b \<le> 0xBF \<Longrightarrow> utf8_valid (of_nat a # of_nat b # r) = utf8_valid r"
  "0xE0 \<le> a \<Longrightarrow> a \<le> 0xEF \<Longrightarrow> 0x80 \<le> b \<Longrightarrow> b \<le> 0xBF \<Longrightarrow> (a = 0xE0 \<longrightarrow> 0xA0 \<le> b) \<Longrightarrow> (a = 0xED \<longrightarrow> b \<le> 0x9F) \<Longrightarrow>
     0x80 \<le> c \<Longrightarrow> c \<le> 0xBF \<Longrightarrow> utf8_valid (of_nat a # of_nat b # of_nat c # r) = utf8_valid r"
  "0xF0 \<le> a \<Longrightarrow> a \<le> 0xF4 \<Longrightarrow> 0x80 \<le> b \<Longrightarrow> b \<le> 0xBF \<Longrightarrow> (a = 0xF0 \<longrightarrow> 0x90 \<le> b) \<Longrightarrow> (a = 0xF4 \<longrightarrow> b \<le> 0x8F) \<Longrightarrow>
     0x80 \<le> c \<Longrightarrow> c \<le> 0xBF \<Longrightarrow> 0x80 \<le> d \<Longrightarrow> d \<le> 0xBF \<Longrightarrow>
     utf8_valid (of_nat a # of_nat b # of_nat c # of_nat d # r) = utf8_valid r"
  by (simp_all add: between_def unat_byte byte_eq_numeral)

lemma utf8_valid_char:
  assumes "scalar_value c"
  shows "utf8_valid (utf8_char c @ r) = utf8_valid r"
proof -
  have n: "unat c \<le> 0x10FFFF" "\<not> (0xD800 \<le> unat c \<and> unat c \<le> 0xDFFF)"
    using assms by (simp_all add: scalar_value_unat)
  consider "unat c < 0x80" | "0x80 \<le> unat c" "unat c < 0x800" | "0x800 \<le> unat c" "unat c < 0x10000" | "0x10000 \<le> unat c"
    by linarith
  then show ?thesis
  proof cases
    case 1
    then show ?thesis
      using utf8_valid_lead(1) [of "unat c" r] by (simp add: utf8_char_def)
  next
    case 2
    then show ?thesis
      using utf8_valid_lead(2) [of "0xC0 + unat c div 64" "0x80 + unat c mod 64" r]
      by (simp add: utf8_char_def Let_def del: of_nat_add)
  next
    case 3
    have "unat c div 4096 = unat c div 64 div 64"
      by (simp add: div_mult2_eq [symmetric])
    moreover have "0x20 \<le> unat c div 64" "unat c div 64 < 864 \<or> 895 < unat c div 64"
      using 3 n by linarith+
    ultimately have "unat c div 4096 = 0 \<longrightarrow> 0x20 \<le> unat c div 64 mod 64" "unat c div 4096 = 13 \<longrightarrow> unat c div 64 mod 64 \<le> 0x1F"
      "unat c div 4096 < 16"
      using 3 div_mod_less [of "unat c div 64" 13] by (auto, linarith+)
    then show ?thesis
      using 3 utf8_valid_lead(3) [of "0xE0 + unat c div 4096" "0x80 + unat c div 64 mod 64" "0x80 + unat c mod 64" r]
      by (simp add: utf8_char_def Let_def del: of_nat_add)
  next
    case 4
    have "unat c div 262144 = unat c div 4096 div 64"
      by (simp add: div_mult2_eq [symmetric])
    moreover have "0x10 \<le> unat c div 4096" "unat c div 4096 \<le> 271"
      using 4 n by linarith+
    ultimately have "unat c div 262144 = 0 \<longrightarrow> 0x10 \<le> unat c div 4096 mod 64" "unat c div 262144 = 4 \<longrightarrow> unat c div 4096 mod 64 \<le> 0xF"
      "unat c div 262144 \<le> 4"
      using div_mod_less [of "unat c div 4096" 4] by (auto, linarith+)
    then show ?thesis
      using 4 utf8_valid_lead(4) [of "0xF0 + unat c div 262144" "0x80 + unat c div 4096 mod 64" "0x80 + unat c div 64 mod 64" "0x80 + unat c mod 64" r]
      by (simp add: utf8_char_def Let_def del: of_nat_add)
  qed
qed

lemma utf8_char_ascii: "c < 0x80 \<Longrightarrow> utf8_char c = [ucast c]"
  by (simp add: utf8_char_def word_less_unat)

lemma ascii_byte: "(c :: u32) < 0x80 \<Longrightarrow> unat (ucast c :: byte) = unat c" "(c :: u32) < 0x80 \<Longrightarrow> ucast (ucast c :: byte) = c"
proof -
  assume "c < 0x80"
  then show b: "unat (ucast c :: byte) = unat c"
    by (simp add: unsigned_ucast_eq word_less_unat unsigned_take_bit_eq take_bit_nat_eq_self)
  show "ucast (ucast c :: byte) = c"
    using b by (simp add: word_unat_eq_iff)
qed

lemma hex_char_digit: "n < 16 \<Longrightarrow> to_digit16 (hex_char n) = Some (of_nat n)"
proof -
  have "list_all (\<lambda>n. to_digit16 (hex_char n) = Some (of_nat n)) [0..<16]"
    by code_simp
  then show "n < 16 \<Longrightarrow> to_digit16 (hex_char n) = Some (of_nat n)"
    by (simp add: list_all_iff)
qed

lemma unescape_short:
  assumes "drop i bs = x # r"
  shows "x = 0x22 \<Longrightarrow> unescape bs i = Inr (0x22, Suc i)" "x = 0x5C \<Longrightarrow> unescape bs i = Inr (0x5C, Suc i)"
    "x = 0x6E \<Longrightarrow> unescape bs i = Inr (0x0A, Suc i)" "x = 0x72 \<Longrightarrow> unescape bs i = Inr (0x0D, Suc i)"
    "x = 0x74 \<Longrightarrow> unescape bs i = Inr (0x09, Suc i)" "x = 0x62 \<Longrightarrow> unescape bs i = Inr (0x08, Suc i)"
    "x = 0x66 \<Longrightarrow> unescape bs i = Inr (0x0C, Suc i)"
  using bytes_get_drop [OF assms] by (simp_all add: unescape_def byte_chr_values)

lemma unescape_hex:
  assumes "drop i bs = [0x75, 0x30, 0x30, hex_char (unat c div 16), hex_char (unat c mod 16)] @ r" "c < 0x80"
  shows "unescape bs i = Inr (c, i + 5)"
proof -
  have c: "unat c < 128"
    using assms(2) by (simp add: word_less_unat)
  have "length (drop i bs) = 5 + length r"
    by (simp add: assms(1))
  then have len: "i + 5 \<le> length bs"
    by simp
  have hex: "buf_slice (Suc i) (i + 5) bs = [0x30, 0x30, hex_char (unat c div 16), hex_char (unat c mod 16)]"
    using bytes_get_drop [of i bs] assms(1) by (simp add: buf_slice_def)
  have "(of_nat (unat c div 16) :: u32) * 16 + of_nat (unat c mod 16) = of_nat (unat c div 16 * 16 + unat c mod 16)"
    by (simp only: of_nat_add of_nat_mult of_nat_numeral)
  also have "\<dots> = c"
    by (simp only: div_mult_mod_eq) simp
  finally have val: "(of_nat (unat c div 16) :: u32) * 16 + of_nat (unat c mod 16) = c" .
  have digit0: "to_digit16 0x30 = Some 0"
    by (simp add: to_digit16_def between_def)
  have "parse_hex 0 [0x30, 0x30, hex_char (unat c div 16), hex_char (unat c mod 16)] = Inr c"
    using c by (simp add: hex_char_digit digit0 val)
  moreover have "char_from_u32 c = Some c"
    using c by (simp add: char_from_u32_def word_le_unat word_less_unat)
  ultimately show ?thesis
    using bytes_get_drop [of i bs] assms(1) len by (simp add: unescape_def byte_chr_values hex del: parse_hex.simps)
qed

lemma parse_escaped:
  assumes "drop i bs = 0x5C # xs" "unescape bs (Suc i) = Inr (c, n)"
  shows "parse_string_loop bs i out = parse_string_loop bs n (out @ [c])"
  using bytes_get_drop [OF assms(1)] assms(2) by (subst parse_string_loop.simps) (simp add: byte_chr_values)

lemma parse_char:
  assumes "drop i bs = escape_char c @ r" "scalar_value c"
  shows "parse_string_loop bs i out = parse_string_loop bs (i + length (escape_char c)) (out @ scanned_char c)"
proof -
  have next_drop: "drop (Suc i) bs = xs" if "drop i bs = x # xs" for x xs
    using bytes_get_drop [OF that] by simp
  consider (short) x where "escape_char c = [0x5C, x]" "c < 0x80" "unescape bs (Suc i) = Inr (c, i + 2)"
    | (hex) "escape_char c = [0x5C, 0x75, 0x30, 0x30, hex_char (unat c div 16), hex_char (unat c mod 16)]" "c < 0x80"
    | (raw) "escape_char c = utf8_char c" "c \<noteq> 0x22" "c \<noteq> 0x5C"
    using next_drop assms(1) unescape_short [of "Suc i" bs]
    by (auto simp: escape_char_def word_less_unat split: if_splits)
  then show ?thesis
  proof cases
    case short
    then show ?thesis
      using parse_escaped [of i bs "x # r" c] assms(1) by (simp add: scanned_char_def)
  next
    case hex
    have "unescape bs (Suc i) = Inr (c, Suc i + 5)"
      using hex assms(1) next_drop by (intro unescape_hex [where r = r]) simp_all
    then have "parse_string_loop bs i out = parse_string_loop bs (Suc i + 5) (out @ [c])"
      using assms(1) hex(1) by (intro parse_escaped [where xs = "tl (escape_char c) @ r"]) simp_all
    moreover have "i + length (escape_char c) = Suc i + 5" "scanned_char c = [c]"
      using hex by (simp_all add: scanned_char_def)
    ultimately show ?thesis
      by (simp only:)
  next
    case raw
    have "list_all (\<lambda>x. x \<noteq> 0x22 \<and> x \<noteq> 0x5C) (utf8_char c) \<and> map ucast (utf8_char c) = scanned_char c"
    proof (cases "c < 0x80")
      case True
      then show ?thesis
        using raw(2,3) ascii_byte [OF True] by (auto simp: utf8_char_ascii scanned_char_def word_unat_eq_iff)
    next
      case False
      then show ?thesis
        using utf8_char_high [OF assms(2)] by (auto simp: scanned_char_def list_all_iff)
    qed
    then show ?thesis
      using parse_raw_run [of i bs "utf8_char c" r] assms(1) raw(1) by simp
  qed
qed

lemma parse_chars:
  "drop i bs = concat (map escape_char s) @ 0x22 # r \<Longrightarrow> list_all scalar_value s \<Longrightarrow>
     parse_string_loop bs i out = Inr (out @ scanned s, i + length (concat (map escape_char s)) + 1)"
proof (induction s arbitrary: i out)
  case Nil
  then show ?case
    using bytes_get_drop [of i bs "0x22" r] by (subst parse_string_loop.simps) (simp add: byte_chr_values scanned_def)
next
  case (Cons c s)
  then have "parse_string_loop bs i out = parse_string_loop bs (i + length (escape_char c)) (out @ scanned_char c)"
    by (intro parse_char [where r = "concat (map escape_char s) @ 0x22 # r"]) simp_all
  moreover have "drop (i + length (escape_char c)) bs = concat (map escape_char s) @ 0x22 # r"
    using Cons.prems(1) by (metis add.commute append_assoc append_eq_conv_conj concat.simps(2) drop_drop list.simps(9))
  ultimately show ?case
    using Cons by (simp add: scanned_def add.assoc)
qed

lemma parse_quoted:
  assumes "drop i bs = quote s @ r" "list_all scalar_value s"
  shows "parse_string bs i = Inr (scanned s, i + length (quote s)) \<and> bytes_get bs i = Some 0x22 \<and> drop (i + length (quote s)) bs = r"
proof -
  have d: "drop (Suc i) bs = concat (map escape_char s) @ 0x22 # r" "bytes_get bs i = Some 0x22"
    using bytes_get_drop [of i bs] assms(1) by (simp_all add: quote_def)
  have "drop (length (quote s)) (drop i bs) = r"
    by (simp add: assms(1))
  then show ?thesis
    using parse_chars [OF d(1) assms(2)] d(2) by (simp add: parse_string_def quote_def add.commute)
qed

lemma skip_ws_drop:
  assumes "drop i bs = ws @ x # r" "list_all is_json_ws ws" "\<not> is_json_ws x"
  shows "bytes_get bs (skip_ws bs i) = Some x" "drop (skip_ws bs i) bs = x # r" "drop (Suc (skip_ws bs i)) bs = r"
proof -
  have "drop (skip_ws bs i) bs = drop (length ws) (drop i bs)"
    by (simp add: skip_ws_run [OF assms] add.commute)
  then show d: "drop (skip_ws bs i) bs = x # r"
    by (simp add: assms(1))
  show "bytes_get bs (skip_ws bs i) = Some x" "drop (Suc (skip_ws bs i)) bs = r"
    using bytes_get_drop [OF d] by simp_all
qed

lemma json_ws_tokens [simp]:
  "\<not> is_json_ws 0x22" "\<not> is_json_ws 0x3A" "\<not> is_json_ws 0x2C" "\<not> is_json_ws 0x7B" "\<not> is_json_ws 0x7D"
  by (simp_all add: is_json_ws_def)

lemma parse_printed_member:
  assumes "drop i bs = print_member ws kv @ r" "list_all is_json_ws ws" "list_all scalar_value (fst kv)" "list_all scalar_value (snd kv)"
  shows "bytes_get bs i = Some 0x22" "\<exists>n. parse_member bs i = Inr (map_prod scanned scanned kv, n) \<and> drop n bs = ws @ r"
proof -
  let ?n1 = "i + length (quote (fst kv))"
  have "drop i bs = quote (fst kv) @ ws @ 0x3A # ws @ quote (snd kv) @ ws @ r"
    using assms(1) by (simp add: print_member_def)
  note q1 = parse_quoted [OF this assms(3)]
  then show "bytes_get bs i = Some 0x22"
    by simp
  note colon = skip_ws_drop [OF conjunct2 [OF conjunct2 [OF q1]] assms(2), simplified]
  have "drop (Suc (skip_ws bs ?n1)) bs = ws @ 0x22 # concat (map escape_char (snd kv)) @ 0x22 # ws @ r"
    using colon(3) by (simp add: quote_def)
  note val = skip_ws_drop [OF this assms(2), simplified]
  have "drop (skip_ws bs (Suc (skip_ws bs ?n1))) bs = quote (snd kv) @ ws @ r"
    using val(2) by (simp add: quote_def)
  note q2 = parse_quoted [OF this assms(4)]
  show "\<exists>n. parse_member bs i = Inr (map_prod scanned scanned kv, n) \<and> drop n bs = ws @ r"
    using q1 q2 colon(1) by (simp add: parse_member_def Let_def byte_chr_values map_prod_def split: prod.split)
qed

lemma parse_printed_members:
  "drop i bs = ws @ print_members ws kvs @ 0x7D # r \<Longrightarrow> list_all is_json_ws ws \<Longrightarrow>
     list_all (\<lambda>kv. list_all scalar_value (fst kv) \<and> list_all scalar_value (snd kv)) kvs \<Longrightarrow>
     parse_members bs i entries = Inr (entries @ map (map_prod scanned scanned) kvs)"
proof (induction ws kvs arbitrary: i entries rule: print_members.induct)
  case (1 ws)
  then show ?case
    using skip_ws_drop(1) [of i bs ws "0x7D" r] by (subst parse_members.simps) (simp add: byte_chr_values)
next
  case (2 ws kv)
  let ?i = "skip_ws bs i"
  have "drop ?i bs = print_member ws kv @ 0x7D # r"
    using skip_ws_drop(2) [of i bs ws "0x22"] 2 by (simp add: print_member_def quote_def)
  from parse_printed_member [OF this 2(2)] 2(3) obtain n where
    m: "bytes_get bs ?i = Some 0x22" "parse_member bs ?i = Inr (map_prod scanned scanned kv, n)" "drop n bs = ws @ 0x7D # r"
    by auto
  then show ?case
    using skip_ws_drop(1) [OF m(3) 2(2)] by (subst parse_members.simps) (simp add: byte_chr_values)
next
  case (3 ws kv kv2 kvs)
  let ?i = "skip_ws bs i"
  have "drop ?i bs = print_member ws kv @ 0x2C # ws @ print_members ws (kv2 # kvs) @ 0x7D # r"
    using skip_ws_drop(2) [of i bs ws "0x22"] 3 by (simp add: print_member_def quote_def)
  from parse_printed_member [OF this 3(3)] 3(4) obtain n where
    m: "bytes_get bs ?i = Some 0x22" "parse_member bs ?i = Inr (map_prod scanned scanned kv, n)"
    "drop n bs = ws @ 0x2C # ws @ print_members ws (kv2 # kvs) @ 0x7D # r"
    by auto
  note comma = skip_ws_drop [OF m(3) 3(3), simplified]
  have "parse_members bs i entries = parse_members bs (Suc (skip_ws bs n)) (entries @ [map_prod scanned scanned kv])"
    using m(1,2) comma(1) by (subst parse_members.simps) (simp add: byte_chr_values)
  then show ?case
    using 3(1) [OF comma(3) 3(3)] 3(4) by simp
qed

lemma parse_printed_object:
  assumes "list_all is_json_ws ws" "list_all (\<lambda>kv. list_all scalar_value (fst kv) \<and> list_all scalar_value (snd kv)) kvs"
  shows "json_parse (print_object ws kvs) = Inr (map (map_prod scanned scanned) kvs)"
proof -
  have "drop 0 (print_object ws kvs) = ws @ 0x7B # ws @ print_members ws kvs @ 0x7D # ws"
    by (simp add: print_object_def)
  note brace = skip_ws_drop [OF this assms(1), simplified]
  show ?thesis
    using brace(1) parse_printed_members [OF brace(3) assms, of "[]"] by (simp add: json_parse_def byte_chr_values)
qed

definition utf8_run :: "bytes \<Rightarrow> bool" where
  "utf8_run xs = (\<forall>r. utf8_valid (xs @ r) = utf8_valid r)"

lemma utf8_run_append: "utf8_run xs \<Longrightarrow> utf8_run ys \<Longrightarrow> utf8_run (xs @ ys)"
  by (simp add: utf8_run_def)

lemma utf8_run_ascii: "list_all (\<lambda>b. unat b < 0x80) xs \<Longrightarrow> utf8_run xs"
  by (induction xs) (auto simp: utf8_run_def between_def)

lemma utf8_run_concat: "list_all utf8_run xss \<Longrightarrow> utf8_run (concat xss)"
  by (induction xss) (auto simp: utf8_run_def)

lemma unat_hex_char: "n < 16 \<Longrightarrow> unat (hex_char n) < 0x80"
  by (simp add: hex_char_def unat_byte del: of_nat_add)

lemma utf8_run_escape: "scalar_value c \<Longrightarrow> utf8_run (escape_char c)"
proof -
  assume c: "scalar_value c"
  have "unat c div 16 < 16" if "c < 0x80"
    using that by (simp add: word_less_unat)
  then show "utf8_run (escape_char c)"
    using c by (auto simp: escape_char_def utf8_run_def [of "utf8_char c"] utf8_valid_char word_less_unat
        intro!: utf8_run_ascii unat_hex_char)
qed

lemma utf8_run_quote:
  assumes "list_all scalar_value s"
  shows "utf8_run (quote s)"
proof -
  have "utf8_run [0x22]"
    by (simp add: utf8_run_ascii)
  moreover have "utf8_run (concat (map escape_char s))"
    using assms by (intro utf8_run_concat) (auto simp: list_all_iff utf8_run_escape)
  ultimately show ?thesis
    by (simp add: quote_def utf8_run_def)
qed

lemma utf8_run_ws: "list_all is_json_ws ws \<Longrightarrow> utf8_run ws"
  by (rule utf8_run_ascii) (auto simp: list_all_iff is_json_ws_def)

lemma utf8_run_member:
  assumes "list_all is_json_ws ws" "list_all scalar_value (fst kv)" "list_all scalar_value (snd kv)"
  shows "utf8_run (print_member ws kv)"
  using utf8_run_ascii [of "[0x3A]"] utf8_run_ws [OF assms(1)] utf8_run_quote [OF assms(2)] utf8_run_quote [OF assms(3)]
  by (simp add: utf8_run_def print_member_def)

lemma utf8_run_members:
  "list_all is_json_ws ws \<Longrightarrow> list_all (\<lambda>kv. list_all scalar_value (fst kv) \<and> list_all scalar_value (snd kv)) kvs \<Longrightarrow>
     utf8_run (print_members ws kvs)"
proof (induction ws kvs rule: print_members.induct)
  case (3 ws kv kv2 kvs)
  then show ?case
    using utf8_run_ascii [of "[0x2C]"] utf8_run_ws [of ws] utf8_run_member [of ws kv] by (simp add: utf8_run_def)
qed (simp_all add: utf8_run_def [of "[]"] utf8_run_member)

lemma utf8_valid_object:
  assumes "list_all is_json_ws ws" "list_all (\<lambda>kv. list_all scalar_value (fst kv) \<and> list_all scalar_value (snd kv)) kvs"
  shows "utf8_valid (print_object ws kvs)"
proof -
  have "utf8_run [0x7B]" "utf8_run [0x7D]" "utf8_run (ws @ [])"
    using utf8_run_ws [OF assms(1)] by (simp_all add: utf8_run_ascii)
  moreover have "utf8_valid ws"
    using utf8_run_ws [OF assms(1)] by (metis append_Nil2 utf8_run_def utf8_valid.simps(1))
  ultimately show ?thesis
    using utf8_run_members [OF assms] by (simp add: print_object_def utf8_run_def)
qed


section \<open>Base64 and its decoder\<close>

lemma base64_char_value:
  assumes "unat v < 64"
  shows "base64_char v < 0x80" "base64_val (ucast (base64_char v)) = Some v"
    "(ucast (base64_char v) :: byte) \<noteq> byte_chr (CHR ''='')" "\<not> is_json_ws (ucast (base64_char v))"
proof -
  have "list_all (\<lambda>n. let v = of_nat n :: byte in base64_char v < 0x80 \<and> base64_val (ucast (base64_char v)) = Some v \<and>
      (ucast (base64_char v) :: byte) \<noteq> byte_chr (CHR ''='') \<and> \<not> is_json_ws (ucast (base64_char v))) [0..<64]"
    by code_simp
  then have "let v = of_nat (unat v) :: byte in base64_char v < 0x80 \<and> base64_val (ucast (base64_char v)) = Some v \<and>
      (ucast (base64_char v) :: byte) \<noteq> byte_chr (CHR ''='') \<and> \<not> is_json_ws (ucast (base64_char v))"
    using assms unfolding list_all_iff by fastforce
  then show "base64_char v < 0x80" "base64_val (ucast (base64_char v)) = Some v"
    "(ucast (base64_char v) :: byte) \<noteq> byte_chr (CHR ''='')" "\<not> is_json_ws (ucast (base64_char v))"
    by (simp_all add: Let_def)
qed

lemma base64_step:
  assumes "unat v < 64"
  shows "base64_loop (as_bytes (base64_char v # cs)) acc nbits out =
     (let acc = push_bit 6 acc OR ucast v; nbits = nbits + 6
      in if nbits \<ge> 8 then base64_loop (as_bytes cs) acc (nbits - 8) (out @ [ucast (drop_bit (nbits - 8) acc)])
         else base64_loop (as_bytes cs) acc nbits out)"
  using base64_char_value [OF assms] by (simp add: as_bytes_def utf8_char_ascii Let_def)

lemma byte_bit: "bit (b :: byte) n \<Longrightarrow> n < 8"
  using bit_imp_le_length by force

lemma six_bits: "(\<And>n. bit v n \<Longrightarrow> n < 6) \<Longrightarrow> unat (v :: byte) < 64"
proof -
  assume "\<And>n. bit v n \<Longrightarrow> n < 6"
  then have "take_bit 6 v = v"
    by (intro bit_word_eqI) (auto simp: bit_take_bit_iff)
  then have "unat v = unat v mod 2 ^ 6"
    by (metis take_bit_eq_mod unsigned_take_bit_eq)
  then show "unat v < 64"
    using mod_less_divisor [of "2 ^ 6" "unat v"] by simp
qed

lemma base64_groups:
  "unat (drop_bit 2 a) < 64" "unat (push_bit 4 (take_bit 2 a) OR drop_bit 4 b) < 64" "unat (push_bit 2 (take_bit 4 b) OR drop_bit 6 c) < 64"
  "unat (take_bit 6 c) < 64" "unat (push_bit 4 (take_bit 2 a)) < 64" "unat (push_bit 2 (take_bit 4 b)) < 64" for a b c :: byte
  by (rule six_bits, auto simp: bit_simps dest: byte_bit)+

lemma base64_byte1:
  "ucast (drop_bit 4 (push_bit 6 (push_bit 6 acc OR ucast (drop_bit 2 a)) OR ucast (push_bit 4 (take_bit 2 a) OR drop_bit 4 b))) = a"
  for a b :: byte and acc :: u32
proof (rule bit_word_eqI)
  fix n
  have "Suc (Suc (n - 2)) = n" if "\<not> n < 2"
    using that by simp
  then show "bit (ucast (drop_bit 4 (push_bit 6 (push_bit 6 acc OR ucast (drop_bit 2 a)) OR ucast (push_bit 4 (take_bit 2 a) OR drop_bit 4 b))) :: byte) n \<longleftrightarrow> bit a n"
    if "n < LENGTH(8)"
    using that by (cases "n < 2") (auto simp: bit_simps dest: byte_bit)
qed

lemma base64_byte2:
  "ucast (drop_bit 2 (push_bit 6 (push_bit 6 acc OR ucast (push_bit 4 x OR drop_bit 4 b)) OR ucast (push_bit 2 (take_bit 4 b) OR drop_bit 6 c))) = b"
  for x b c :: byte and acc :: u32
proof (rule bit_word_eqI)
  fix n
  show "bit (ucast (drop_bit 2 (push_bit 6 (push_bit 6 acc OR ucast (push_bit 4 x OR drop_bit 4 b)) OR ucast (push_bit 2 (take_bit 4 b) OR drop_bit 6 c))) :: byte) n \<longleftrightarrow> bit b n"
    if "n < LENGTH(8)"
    using that by (cases "n < 4") (auto simp: bit_simps dest: byte_bit)
qed

lemma base64_byte3:
  "ucast (push_bit 6 (push_bit 6 acc OR ucast (push_bit 2 x OR drop_bit 6 c)) OR ucast (take_bit 6 c)) = c"
  for x c :: byte and acc :: u32
proof (rule bit_word_eqI)
  fix n
  show "bit (ucast (push_bit 6 (push_bit 6 acc OR ucast (push_bit 2 x OR drop_bit 6 c)) OR ucast (take_bit 6 c)) :: byte) n \<longleftrightarrow> bit c n"
    if "n < LENGTH(8)"
    using that by (cases "n < 6") (auto simp: bit_simps dest: byte_bit)
qed

lemma base64_padding: "base64_loop (as_bytes (61 # cs)) acc nbits out = Inr out"
  by (simp add: as_bytes_def utf8_char_def byte_chr_values)

lemma base64_loop_encode: "base64_loop (as_bytes (base64_encode v)) acc 0 out = Inr (out @ v)"
proof (induction v arbitrary: acc out rule: base64_encode.induct)
  case 1
  then show ?case
    by (simp add: as_bytes_def)
next
  case (2 a)
  then show ?case
    using base64_byte1 [of acc a 0] by (simp add: base64_step base64_groups base64_padding Let_def)
next
  case (3 a b)
  then show ?case
    using base64_byte1 [of acc a b] base64_byte2 [of _ _ b 0] by (simp add: base64_step base64_groups base64_padding Let_def)
next
  case (4 a b c r)
  let ?acc = "push_bit 6 acc OR ucast (drop_bit 2 a)"
  show ?case
    using 4 base64_byte1 [of acc a b] base64_byte2 [of ?acc "take_bit 2 a" b c]
      base64_byte3 [of "push_bit 6 ?acc OR ucast (push_bit 4 (take_bit 2 a) OR drop_bit 4 b)" "take_bit 4 b" c]
    by (simp add: base64_step base64_groups Let_def)
qed

lemma base64_encode_ascii: "list_all (\<lambda>c. c < 0x80) (base64_encode v)"
  by (induction v rule: base64_encode.induct) (auto simp: base64_char_value base64_groups)

lemma scalar_value_ascii: "list_all (\<lambda>c. c < 0x80) s \<Longrightarrow> list_all scalar_value s"
  by (auto simp: list_all_iff scalar_value_unat word_less_unat)

lemma scanned_ascii: "list_all (\<lambda>c. c < 0x80) s \<Longrightarrow> scanned s = s"
  by (induction s) (simp_all add: scanned_def scanned_char_def)

lemma length_scanned: "list_all scalar_value s \<Longrightarrow> length s \<le> length (scanned s) \<and> (length (scanned s) = length s \<longrightarrow> list_all (\<lambda>c. c < 0x80) s)"
proof (induction s)
  case (Cons c s)
  then show ?case
    using utf8_char_high [of c] by (auto simp: scanned_def scanned_char_def)
qed (simp add: scanned_def)



section \<open>Properties\<close>

definition printed_config :: "bytes \<Rightarrow> rust_string \<Rightarrow> bytes \<Rightarrow> rust_string \<Rightarrow> bytes" where
  "printed_config ws guid_str vmk path =
     print_object ws [(ustr ''partition_guid'', guid_str), (ustr ''vmk'', base64_encode vmk), (ustr ''osloader'', path)]"

lemma json_get_config:
  "json_get [(ustr ''partition_guid'', g), (ustr ''vmk'', v), (ustr ''osloader'', p)] (ustr ''partition_guid'') = Some g"
  "json_get [(ustr ''partition_guid'', g), (ustr ''vmk'', v), (ustr ''osloader'', p)] (ustr ''vmk'') = Some v"
  "json_get [(ustr ''partition_guid'', g), (ustr ''vmk'', v), (ustr ''osloader'', p)] (ustr ''osloader'') = Some p"
  by (simp_all add: json_get_def ustr_def)

lemma config_keys_ascii: "list_all (\<lambda>c. c < 0x80) (ustr ''partition_guid'')" "list_all (\<lambda>c. c < 0x80) (ustr ''vmk'')"
  "list_all (\<lambda>c. c < 0x80) (ustr ''osloader'')"
  by (simp_all add: ustr_def)

lemma parse_printed_config:
  assumes "list_all is_json_ws ws" "list_all (\<lambda>c. c < 0x80) guid_str" "parse_guid guid_str = Some g" "vmk \<noteq> []"
    "path \<noteq> []" "list_all scalar_value path"
  shows "parse_json parse_guid (printed_config ws guid_str vmk path) =
    Inr \<lparr>cfg_partition_guid = g, cfg_vmk = vmk, cfg_osloader = scanned path\<rparr>"
proof -
  let ?kvs = "[(ustr ''partition_guid'', guid_str), (ustr ''vmk'', base64_encode vmk), (ustr ''osloader'', path)]"
  have sc: "list_all (\<lambda>kv. list_all scalar_value (fst kv) \<and> list_all scalar_value (snd kv)) ?kvs"
    using assms(2,6) by (simp add: scalar_value_ascii config_keys_ascii base64_encode_ascii)
  have "map (map_prod scanned scanned) ?kvs =
      [(ustr ''partition_guid'', guid_str), (ustr ''vmk'', base64_encode vmk), (ustr ''osloader'', scanned path)]"
    using assms(2) by (simp add: scanned_ascii config_keys_ascii base64_encode_ascii)
  then have "json_parse (print_object ws ?kvs) =
      Inr [(ustr ''partition_guid'', guid_str), (ustr ''vmk'', base64_encode vmk), (ustr ''osloader'', scanned path)]"
    using parse_printed_object [OF assms(1) sc] by simp
  moreover have "scanned path \<noteq> []"
    using length_scanned [OF assms(6)] assms(5) by auto
  ultimately show ?thesis
    using assms(3,4) utf8_valid_object [OF assms(1) sc] base64_loop_encode [of vmk 0 "[]"]
    by (simp add: parse_json_def printed_config_def json_get_config base64_decode_def)
qed

text \<open>C18: the loader reads back the configuration that was written.  For every identifier, key and
  path, printed as JSON with any white space between the tokens, the parser returns the identifier and
  the key; it returns the path exactly when all its characters are ASCII, and otherwise the path with
  the UTF-8 bytes of the other characters as characters of their own.\<close>

theorem config_roundtrip:
  assumes "list_all is_json_ws ws" "list_all (\<lambda>c. c < 0x80) guid_str" "parse_guid guid_str = Some g" "vmk \<noteq> []"
    "path \<noteq> []" "list_all scalar_value path"
  shows "parse_json parse_guid (printed_config ws guid_str vmk path) =
      Inr \<lparr>cfg_partition_guid = g, cfg_vmk = vmk, cfg_osloader = scanned path\<rparr> \<and>
    (scanned path = path \<longleftrightarrow> list_all (\<lambda>c. c < 0x80) path)"
  using parse_printed_config [of ws guid_str parse_guid g vmk path] assms length_scanned [OF assms(6)] scanned_ascii [of path] by auto

theorem config_roundtrip_witness:
  "parse_json (\<lambda>_. Some (replicate 16 7)) (printed_config [0x20] (ustr ''0f77'') [0, 1, 2, 3] (ustr ''/EFI/<os>'')) =
     Inr \<lparr>cfg_partition_guid = replicate 16 7, cfg_vmk = [0, 1, 2, 3], cfg_osloader = ustr ''/EFI/<os>''\<rparr> \<and>
   scanned [0xE9] \<noteq> [0xE9]"
proof -
  have "list_all (\<lambda>c. c < 0x80) (ustr ''0f77'')" "list_all (\<lambda>c. c < 0x80) (ustr ''/EFI/<os>'')" "ustr ''/EFI/<os>'' \<noteq> []"
    "list_all is_json_ws [0x20]" "list_all scalar_value [0xE9]"
    by (simp_all add: ustr_def is_json_ws_def scalar_value_def char_from_u32_def)
  then show ?thesis
    using config_roundtrip [of "[0x20]" "ustr ''0f77''" "\<lambda>_. Some (replicate 16 7)" "replicate 16 7" "[0, 1, 2, 3]" "ustr ''/EFI/<os>''"]
      config_roundtrip [of "[0x20]" "ustr ''0f77''" "\<lambda>_. Some (replicate 16 7)" "replicate 16 7" "[0, 1, 2, 3]" "[0xE9]"]
    by (simp add: scalar_value_ascii)
qed

end
