(* ===== verification/Loader_Run.thy ===== *)
theory Loader_Run
  imports Loader_Boot Boot_Handover Vck_Config
begin

text \<open>
  The loader as a program: the processor set-up (\<open>lib/loader/src/cpu.rs\<close>,
  \<open>lib/common/src/cpu.rs\<close>), finding the configuration and the path of the next image
  (\<open>VckConfig::load_from_esp\<close> and \<open>osloader_device_path\<close>), the chainload
  (\<open>lib/loader/src/chainload.rs\<close>) and the order of the steps (\<open>run\<close> and \<open>efi_main\<close> of
  \<open>sample/loader/src/main.rs\<close>).  The processor and the boot services are records of operations on
  the world; protocols that a function opens and closes again leave the world as it is.  Log output is
  not modelled.
\<close>


section \<open>Processor\<close>

record 'w processor =
  cpu_leaf1_ecx :: "'w \<Rightarrow> u32"
  cpu_read_cr0 :: "'w \<Rightarrow> u64"
  cpu_read_cr4 :: "'w \<Rightarrow> u64"
  cpu_write_cr0 :: "u64 \<Rightarrow> 'w \<Rightarrow> 'w"
  cpu_write_cr4 :: "u64 \<Rightarrow> 'w \<Rightarrow> 'w"

definition has_aes_ni :: "'w processor \<Rightarrow> 'w \<Rightarrow> bool" where
  "has_aes_ni P w = (cpu_leaf1_ecx P w AND push_bit 25 1 \<noteq> 0)"

definition CR0_MP :: u64 where "CR0_MP = push_bit 1 1"
definition CR0_EM :: u64 where "CR0_EM = push_bit 2 1"
definition CR4_OSFXSR :: u64 where "CR4_OSFXSR = push_bit 9 1"
definition CR4_OSXMMEXCPT :: u64 where "CR4_OSXMMEXCPT = push_bit 10 1"

definition report_and_enable_xmm :: "'w processor \<Rightarrow> 'w \<Rightarrow> 'w" where
  "report_and_enable_xmm P w =
     (let aes = has_aes_ni P w; cr0 = cpu_read_cr0 P w; cr4 = cpu_read_cr4 P w
      in if \<not> aes then w
         else let new_cr0 = (cr0 OR CR0_MP) AND NOT CR0_EM;
                  new_cr4 = cr4 OR CR4_OSFXSR OR CR4_OSXMMEXCPT;
                  w1 = (if new_cr0 \<noteq> cr0 then cpu_write_cr0 P new_cr0 w else w)
              in if new_cr4 \<noteq> cr4 then cpu_write_cr4 P new_cr4 w1 else w1)"

lemma control_bits:
  "bit CR0_MP n = (n = 1)" "bit CR0_EM n = (n = 2)" "bit CR4_OSFXSR n = (n = 9)" "bit CR4_OSXMMEXCPT n = (n = 10)"
  by (auto simp only: CR0_MP_def CR0_EM_def CR4_OSFXSR_def CR4_OSXMMEXCPT_def bit_push_bit_iff bit_1_iff) simp_all

text \<open>Writing a control register changes that register.\<close>

definition processor_ok :: "'w processor \<Rightarrow> bool" where
  "processor_ok P \<longleftrightarrow>
     (\<forall>v w. cpu_read_cr0 P (cpu_write_cr0 P v w) = v \<and> cpu_read_cr4 P (cpu_write_cr0 P v w) = cpu_read_cr4 P w) \<and>
     (\<forall>v w. cpu_read_cr4 P (cpu_write_cr4 P v w) = v \<and> cpu_read_cr0 P (cpu_write_cr4 P v w) = cpu_read_cr0 P w)"


section \<open>Boot services\<close>

text \<open>\<open>bs_loaded_image\<close> is the device handle of the loader's own image, if the protocol opens and has
  one; a device path is the list of its nodes, and the builder's state the nodes pushed so far.\<close>

record 'w boot_services =
  bs_image_file_system :: "'w \<Rightarrow> bool"
  bs_read_file :: "'w \<Rightarrow> string \<Rightarrow> bytes option"
  bs_loaded_image :: "'w \<Rightarrow> u64 option option"
  bs_device_path :: "'w \<Rightarrow> u64 \<Rightarrow> bytes list option"
  bs_cstring16 :: "rust_string \<Rightarrow> u16 list option"
  bs_push_node :: "bytes list \<Rightarrow> bytes \<Rightarrow> bytes list option"
  bs_push_file_path :: "bytes list \<Rightarrow> u16 list \<Rightarrow> bytes list option"
  bs_finalize :: "bytes list \<Rightarrow> bytes option"
  bs_load_image :: "'w \<Rightarrow> bytes \<Rightarrow> u64 option \<times> 'w"
  bs_start_image :: "'w \<Rightarrow> u64 \<Rightarrow> bool \<times> 'w"

definition load_from_esp :: "'w boot_services \<Rightarrow> (rust_string \<Rightarrow> guid option) \<Rightarrow> 'w \<Rightarrow> vck_config vck_result" where
  "load_from_esp BS parse_guid w =
     (if \<not> bs_image_file_system BS w then Inl (Io ''get_image_file_system failed'')
      else res_bind (ok_or (Io ''read vck.json failed'') (bs_read_file BS w (CHR 0x5C # ''vck.json''))) (parse_json parse_guid))"

definition win_path :: "rust_string \<Rightarrow> rust_string" where
  "win_path s = map (\<lambda>ch. if ch = of_char (CHR ''/'') then of_char (CHR 0x5C) else ch) s"

fun push_nodes :: "'w boot_services \<Rightarrow> bytes list \<Rightarrow> bytes list \<Rightarrow> bytes list vck_result" where
  "push_nodes BS builder [] = Inr builder"
| "push_nodes BS builder (node # nodes) =
     res_bind (ok_or (Io ''device path push node'') (bs_push_node BS builder node)) (\<lambda>b. push_nodes BS b nodes)"

definition osloader_device_path :: "'w boot_services \<Rightarrow> vck_config \<Rightarrow> 'w \<Rightarrow> bytes vck_result" where
  "osloader_device_path BS cfg w =
     res_bind (ok_or (Io ''open LoadedImage failed'') (bs_loaded_image BS w)) (\<lambda>li.
     res_bind (ok_or (Io ''loaded image has no device handle'') li) (\<lambda>dev_handle.
     res_bind (ok_or (Io ''open device DevicePath failed'') (bs_device_path BS w dev_handle)) (\<lambda>nodes.
     res_bind (ok_or (InvalidData ''osloader path is not valid UCS-2'') (bs_cstring16 BS (win_path (cfg_osloader cfg)))) (\<lambda>file_name.
     res_bind (push_nodes BS [] nodes) (\<lambda>builder.
     res_bind (ok_or (Io ''device path push filepath'') (bs_push_file_path BS builder file_name)) (\<lambda>full.
       ok_or (Io ''device path finalize'') (bs_finalize BS full)))))))"

definition chainload_next :: "'w boot_services \<Rightarrow> bytes \<Rightarrow> 'w \<Rightarrow> unit vck_result \<times> 'w" where
  "chainload_next BS next_loader w =
     (case bs_load_image BS w next_loader of
        (None, w1) \<Rightarrow> (Inl (Io ''LoadImage(next loader) failed''), w1)
      | (Some img, w1) \<Rightarrow>
          (case bs_start_image BS w1 img of
             (False, w2) \<Rightarrow> (Inl (Io ''StartImage(next loader) failed''), w2)
           | (True, w2) \<Rightarrow> (Inr (), w2)))"


section \<open>The sample loader\<close>

text \<open>Everything the loader calls.\<close>

record 'w loader_env =
  le_crypto :: jvck_crypto
  le_aes :: aes256
  le_codec :: handover_codec
  le_parse_guid :: "rust_string \<Rightarrow> guid option"
  le_processor :: "'w processor"
  le_firmware :: "'w firmware"
  le_platform :: "'w platform"
  le_services :: "'w boot_services"

definition config_payload :: "vck_config \<Rightarrow> vck_handover_payload" where
  "config_payload cfg = \<lparr>hp_partition_guid = cfg_partition_guid cfg, hp_vmk = cfg_vmk cfg\<rparr>"

text \<open>A failing hook is only logged.\<close>

definition loader_run :: "'w loader_env \<Rightarrow> 'w loader \<Rightarrow> unit vck_result \<times> 'w loader" where
  "loader_run E lo =
     (let lo0 = lo\<lparr>lo_world := report_and_enable_xmm (le_processor E) (lo_world lo)\<rparr>
      in case res_bind (load_from_esp (le_services E) (le_parse_guid E) (lo_world lo0)) (\<lambda>config.
                res_bind (osloader_device_path (le_services E) config (lo_world lo0)) (\<lambda>next_loader. Inr (config, next_loader))) of
           Inl e \<Rightarrow> (Inl e, lo0)
         | Inr (config, next_loader) \<Rightarrow>
             let (_, lo1) = install_decrypt_hook (le_crypto E) (le_aes E) (le_firmware E) (cfg_partition_guid config) (cfg_vmk config) lo0
             in (case loader_install_handover (le_codec E) (le_platform E) (config_payload config) (lo_world lo1) of
                   (Inl e, w2) \<Rightarrow> (Inl e, lo1\<lparr>lo_world := w2\<rparr>)
                 | (Inr _, w2) \<Rightarrow>
                     (case chainload_next (le_services E) next_loader w2 of
                        (r, w3) \<Rightarrow> (r, lo1\<lparr>lo_world := w3\<rparr>))))"

definition EFI_LOAD_ERROR :: u64 where "EFI_LOAD_ERROR = 0x8000000000000001"

definition efi_main :: "'w loader_env \<Rightarrow> 'w loader \<Rightarrow> u64 \<times> 'w loader" where
  "efi_main E lo =
     (case loader_run E lo of
        (Inr _, lo1) \<Rightarrow> (EFI_SUCCESS, lo1)
      | (Inl _, lo1) \<Rightarrow> (EFI_LOAD_ERROR, lo1))"


section \<open>Hooks after the loader\<close>

lemma engine_install_ok:
  assumes "engine_install FW eng lo = (r, lo1)" "hooks_ok lo" "\<And>p. find_entry p (lo_hook_table lo) = None"
  shows "hooks_ok lo1"
proof -
  have upd: "hooks_ok (x\<lparr>lo_world := w\<rparr>) = hooks_ok x" for x :: "'a loader" and w
    by (simp add: hooks_ok_def)
  have inst: "hooks_ok lo2" if "hook_install p eng (lo\<lparr>lo_world := w\<rparr>) = (q, lo2)" for p w q lo2
    using that assms(2,3) by (intro hook_install_ok [OF _ _ that]) (simp_all add: upd)
  show ?thesis
    using assms(1,2) inst
    by (auto simp: engine_install_def upd split: option.splits prod.splits sum.splits if_splits)
qed

lemma install_decrypt_hook_ok:
  assumes "install_decrypt_hook C A FW guid vmk lo = (r, lo1)" "hooks_ok lo" "\<And>p. find_entry p (lo_hook_table lo) = None"
  shows "hooks_ok lo1"
proof -
  have upd: "hooks_ok (x\<lparr>lo_world := w\<rparr>) = hooks_ok x" for x :: "'a loader" and w
    by (simp add: hooks_ok_def)
  have inst: "hooks_ok lo2" if "engine_install FW eng (lo\<lparr>lo_world := w\<rparr>) = (q, lo2)" for eng w q lo2
    using that assms(2,3) by (intro engine_install_ok [OF that]) (simp_all add: upd)
  show ?thesis
    using assms(1,2) inst
    by (auto simp: install_decrypt_hook_def upd Let_def split: option.splits prod.splits sum.splits if_splits)
qed


text \<open>A machine that can boot: a readable configuration, a path for the next image, and firmware that
  stores the key for the driver.\<close>

definition loader_ready :: "'w loader_env \<Rightarrow> 'w \<Rightarrow> vck_config \<Rightarrow> bytes \<Rightarrow> bool" where
  "loader_ready E w0 cfg next_loader \<longleftrightarrow>
     codec_ok (le_codec E) \<and> platform_ok (le_platform E) \<and>
     load_from_esp (le_services E) (le_parse_guid E) w0 = Inr cfg \<and> osloader_device_path (le_services E) cfg w0 = Inr next_loader \<and>
     (\<exists>data. encode_payload (le_codec E) (config_payload cfg) = Inr data \<and> 0 < length data \<and> length data \<le> MAX_PAYLOAD_LEN) \<and>
     (\<forall>w1. \<exists>w2. loader_install_handover (le_codec E) (le_platform E) (config_payload cfg) w1 = (Inr (), w2))"

lemma loader_hands_over:
  fixes E :: "'w loader_env" and w :: 'w
  defines "w0 \<equiv> report_and_enable_xmm (le_processor E) w"
  assumes "loader_ready E w0 cfg next_loader"
  shows "\<exists>r lo1 w2 z. install_decrypt_hook (le_crypto E) (le_aes E) (le_firmware E) (cfg_partition_guid cfg) (cfg_vmk cfg) (loader_init w0) = (r, lo1) \<and>
    hooks_ok lo1 \<and> loader_install_handover (le_codec E) (le_platform E) (config_payload cfg) (lo_world lo1) = (Inr (), w2) \<and>
    read_handover (le_codec E) (le_platform E) (pf_boot (le_platform E) w2) = (Inr (config_payload cfg), z) \<and>
    loader_run E (loader_init w) =
      (case chainload_next (le_services E) next_loader w2 of (res, w3) \<Rightarrow> (res, lo1\<lparr>lo_world := w3\<rparr>))"
proof -
  have ready: "codec_ok (le_codec E)" "platform_ok (le_platform E)" "load_from_esp (le_services E) (le_parse_guid E) w0 = Inr cfg"
    "osloader_device_path (le_services E) cfg w0 = Inr next_loader"
    using assms(2) by (simp_all add: loader_ready_def)
  obtain data where data: "encode_payload (le_codec E) (config_payload cfg) = Inr data" "0 < length data" "length data \<le> MAX_PAYLOAD_LEN"
    using assms(2) by (auto simp: loader_ready_def)
  obtain r lo1 where h: "install_decrypt_hook (le_crypto E) (le_aes E) (le_firmware E) (cfg_partition_guid cfg) (cfg_vmk cfg) (loader_init w0) = (r, lo1)"
    by (metis prod.exhaust)
  obtain w2 where w2: "loader_install_handover (le_codec E) (le_platform E) (config_payload cfg) (lo_world lo1) = (Inr (), w2)"
    using assms(2) unfolding loader_ready_def by blast
  have ok: "hooks_ok lo1"
    by (rule install_decrypt_hook_ok [OF h loader_init_ok])
  obtain z where rd: "read_handover (le_codec E) (le_platform E) (pf_boot (le_platform E) w2) = (Inr (config_payload cfg), z)"
    using read_published [OF ready(1,2) w2 data(1,2)] data(3) by (auto simp: MAX_PAYLOAD_LEN_def)
  have "(loader_init w)\<lparr>lo_world := w0\<rparr> = loader_init w0" "lo_world (loader_init w) = w"
    by (simp_all add: loader_init_def)
  then have "loader_run E (loader_init w) =
      (case chainload_next (le_services E) next_loader w2 of (res, w3) \<Rightarrow> (res, lo1\<lparr>lo_world := w3\<rparr>))"
    using h w2 ready(3,4) unfolding w0_def by (simp add: loader_run_def Let_def loader_init_def)
  then show ?thesis
    using h ok w2 rd by blast
qed


section \<open>A small machine\<close>

text \<open>A machine with one file and no disk for the hooks.\<close>

definition toy_boot_services :: "bytes \<Rightarrow> 'w boot_services" where
  "toy_boot_services cfg_file =
     \<lparr>bs_image_file_system = (\<lambda>w. True), bs_read_file = (\<lambda>w name. Some cfg_file), bs_loaded_image = (\<lambda>w. Some (Some 1)),
      bs_device_path = (\<lambda>w h. Some [[4, 1]]), bs_cstring16 = (\<lambda>s. Some (map ucast s @ [0])),
      bs_push_node = (\<lambda>b n. Some (b @ [n])), bs_push_file_path = (\<lambda>b f. Some (b @ [map ucast f])),
      bs_finalize = (\<lambda>b. Some (concat b @ [0x7F, 0xFF])),
      bs_load_image = (\<lambda>w p. (Some 5, w)), bs_start_image = (\<lambda>w h. (True, w))\<rparr>"

definition no_disk :: "'w firmware" where
  "no_disk =
     \<lparr>fw_locate_block_io = (\<lambda>w. None), fw_partition_guid = (\<lambda>w h. None), fw_open_block_io = (\<lambda>w h. (None, w)),
      fw_close_block_io = (\<lambda>w h. w), fw_media = (\<lambda>w p. None), fw_read_blocks = (\<lambda>w p m lba n. (EFI_DEVICE_ERROR, [])),
      fw_write_blocks = (\<lambda>w p m lba buf. (EFI_DEVICE_ERROR, w))\<rparr>"

definition fixed_processor :: "u32 \<Rightarrow> 'w processor" where
  "fixed_processor ecx =
     \<lparr>cpu_leaf1_ecx = (\<lambda>w. ecx), cpu_read_cr0 = (\<lambda>w. 0x33), cpu_read_cr4 = (\<lambda>w. 0x668),
      cpu_write_cr0 = (\<lambda>v w. w), cpu_write_cr4 = (\<lambda>v w. w)\<rparr>"

definition toy_machine :: "'w platform \<Rightarrow> guid \<Rightarrow> 'w loader_env" where
  "toy_machine P g =
     \<lparr>le_crypto = toy_crypto, le_aes = toy_aes, le_codec = toy_handover_codec g, le_parse_guid = (\<lambda>_. Some g),
      le_processor = fixed_processor 0, le_firmware = no_disk, le_platform = P,
      le_services = toy_boot_services (printed_config [] (ustr ''0f'') [1, 2, 3] (ustr ''/EFI/os''))\<rparr>"

lemma toy_cfg_file: "parse_json (\<lambda>_. Some g) (printed_config [] (ustr ''0f'') [1, 2, 3] (ustr ''/EFI/os'')) =
    Inr \<lparr>cfg_partition_guid = g, cfg_vmk = [1, 2, 3], cfg_osloader = ustr ''/EFI/os''\<rparr>"
proof -
  have "list_all (\<lambda>c. c < 0x80) (ustr ''0f'')" "list_all (\<lambda>c. c < 0x80) (ustr ''/EFI/os'')" "ustr ''/EFI/os'' \<noteq> []"
    by (simp_all add: ustr_def)
  then show ?thesis
    using parse_printed_config [of "[]" "ustr ''0f''" "\<lambda>_. Some g" g "[1, 2, 3]" "ustr ''/EFI/os''"]
    by (simp add: scalar_value_ascii scanned_ascii)
qed

lemma toy_machine_ready:
  assumes "platform_ok P" "\<And>w n. n \<le> MAX_PAYLOAD_LEN \<Longrightarrow> fst (pf_allocate_pool P w n) \<noteq> None" "\<And>s. pf_ucs2 P s" "\<And>w n g v. fst (pf_set_variable P w n g v)"
  shows "loader_ready (toy_machine P g) w \<lparr>cfg_partition_guid = g, cfg_vmk = [1, 2, 3], cfg_osloader = ustr ''/EFI/os''\<rparr>
     (4 # 1 # map ucast (map ucast (win_path (ustr ''/EFI/os'')) @ [0 :: u16]) @ [0x7F, 0xFF])"
proof -
  let ?E = "toy_machine P g" and ?cfg = "\<lparr>cfg_partition_guid = g, cfg_vmk = [1, 2, 3], cfg_osloader = ustr ''/EFI/os''\<rparr>"
  have enc: "encode_payload (le_codec ?E) (config_payload ?cfg) = Inr [1, 2, 3]"
    by (simp add: encode_payload_def toy_machine_def toy_handover_codec_def config_payload_def)
  have pub: "\<exists>w2. loader_install_handover (le_codec ?E) (le_platform ?E) (config_payload ?cfg) w1 = (Inr (), w2)" for w1
  proof -
    obtain a w2 where a: "pf_allocate_pool P w1 (length [1 :: byte, 2, 3]) = (Some a, w2)"
      using assms(2) [of "length [1 :: byte, 2, 3]" w1] by (cases "pf_allocate_pool P w1 (length [1 :: byte, 2, 3])") (auto simp: MAX_PAYLOAD_LEN_def)
    obtain loc where loc: "encode_locator (le_codec ?E) (locator_new a (of_nat (length [1 :: byte, 2, 3]))) = Inr loc"
      by (simp add: encode_locator_def toy_machine_def toy_handover_codec_def locator_new_def)
    obtain w3 where "pf_set_variable P (pf_write_memory P w2 a [1, 2, 3]) HANDOVER_VAR_NAME HANDOVER_VAR_GUID loc = (True, w3)"
      using assms(4) by (metis prod.collapse)
    then show ?thesis
      using a loc assms(3) unfolding loader_install_handover_def enc by (simp add: toy_machine_def Let_def)
  qed
  have "load_from_esp (le_services ?E) (le_parse_guid ?E) w = Inr ?cfg"
    by (simp add: load_from_esp_def toy_machine_def toy_cfg_file toy_boot_services_def)
  moreover have "osloader_device_path (le_services ?E) ?cfg w = Inr (4 # 1 # map ucast (map ucast (win_path (ustr ''/EFI/os'')) @ [0 :: u16]) @ [0x7F, 0xFF])"
    by (simp add: osloader_device_path_def toy_machine_def toy_boot_services_def)
  ultimately show ?thesis
    using enc pub assms(1) unfolding loader_ready_def by (auto simp: toy_machine_def toy_handover_ok MAX_PAYLOAD_LEN_def)
qed


section \<open>Properties\<close>

text \<open>The processor is ready for AES instructions.  When the processor has them, the set-up leaves
  exactly the four control bits they need at their required values and every other bit of the two
  registers alone; otherwise it changes nothing.\<close>

theorem xmm_enabled:
  assumes "processor_ok P"
  shows "if has_aes_ni P w
    then (\<forall>n. bit (cpu_read_cr0 P (report_and_enable_xmm P w)) n \<longleftrightarrow> n = 1 \<or> n \<noteq> 2 \<and> bit (cpu_read_cr0 P w) n) \<and>
         (\<forall>n. bit (cpu_read_cr4 P (report_and_enable_xmm P w)) n \<longleftrightarrow> n = 9 \<or> n = 10 \<or> bit (cpu_read_cr4 P w) n)
    else report_and_enable_xmm P w = w"
proof -
  have r: "cpu_read_cr0 P (report_and_enable_xmm P w) = (cpu_read_cr0 P w OR CR0_MP) AND NOT CR0_EM"
    "cpu_read_cr4 P (report_and_enable_xmm P w) = cpu_read_cr4 P w OR CR4_OSFXSR OR CR4_OSXMMEXCPT" if "has_aes_ni P w"
    using assms that by (simp_all add: report_and_enable_xmm_def processor_ok_def Let_def)
  have "bit ((a OR CR0_MP) AND NOT CR0_EM) n \<longleftrightarrow> n = 1 \<or> n \<noteq> 2 \<and> bit a n" for a n
    using bit_imp_le_length [of a n] by (auto simp: control_bits bit_or_iff bit_and_iff bit_not_iff)
  moreover have "bit (a OR CR4_OSFXSR OR CR4_OSXMMEXCPT) n \<longleftrightarrow> n = 9 \<or> n = 10 \<or> bit a n" for a n
    by (auto simp: control_bits bit_or_iff)
  ultimately show ?thesis
    using r by (simp add: report_and_enable_xmm_def Let_def)
qed

theorem xmm_enabled_witness:
  "let P = \<lparr>cpu_leaf1_ecx = (\<lambda>w. 0x02000000), cpu_read_cr0 = fst, cpu_read_cr4 = snd,
             cpu_write_cr0 = (\<lambda>v w. (v, snd w)), cpu_write_cr4 = (\<lambda>v w. (fst w, v))\<rparr>
   in bit (fst (report_and_enable_xmm P (4, 0))) 1 \<and> \<not> bit (fst (report_and_enable_xmm P (4, 0))) 2 \<and>
      bit (snd (report_and_enable_xmm P (4, 0))) 9"
proof -
  let ?P = "\<lparr>cpu_leaf1_ecx = (\<lambda>w :: u64 \<times> u64. 0x02000000), cpu_read_cr0 = fst, cpu_read_cr4 = snd,
    cpu_write_cr0 = (\<lambda>v w. (v, snd w)), cpu_write_cr4 = (\<lambda>v w. (fst w, v))\<rparr>"
  have "processor_ok ?P" "has_aes_ni ?P (4, 0)"
    by (simp_all add: processor_ok_def has_aes_ni_def)
  then show ?thesis
    using xmm_enabled [of ?P "(4, 0)"] by simp
qed

end
