(* ===== verification/Ioctl_Types.thy ===== *)
theory Ioctl_Types
  imports Handover_Mount
begin

text \<open>
  Requests and responses of the control interface (\<open>lib/windrv/src/ioctl/types.rs\<close>), and
  what the handlers of \<open>ioctl/dispatch.rs\<close> share: the environment they run in, decoding and
  encoding, volume handles (\<open>open_volume_handle_raw\<close>, \<open>send_fsctl\<close> of \<open>io.rs\<close>).

  The msgpack crate is a parameter: one decoder per request type and one encoder per response type,
  each giving a value or the text of an error.
\<close>


section \<open>Requests and responses\<close>

record volume_request =
  vr_volume_path :: string

record prepare_req =
  pr_volume_path :: string
  pr_nt_device_path :: string
  pr_use_header :: u32
  pr_use_footer :: u32
  pr_metadata_size :: u32
  pr_vmk :: bytes
  pr_metadata_block :: bytes
  pr_is_os_volume :: bool

record prepare_resp =
  pp_offset_sector :: u64
  pp_data_sectors :: u64
  pp_sector_size :: u32
  pp_raw_partition_path :: string
  pp_raw_disk_path :: string
  pp_partition_start_lba :: u64
  pp_fully_attached :: bool

record attach_req =
  ar_volume_path :: string
  ar_vmk :: bytes
  ar_use_header :: u32
  ar_use_footer :: u32
  ar_metadata_size :: u32
  ar_nt_device_path :: string
  ar_raw_partition_path :: string

record attach_resp =
  at_offset_sector :: u64
  at_total_sectors :: u64
  at_sector_size :: u32

record volume_status =
  vs_volume_path :: string
  vs_state :: int
  vs_encrypted_sector :: u64
  vs_total_sectors :: u64
  vs_sector_size :: u32
  vs_is_attached :: bool
  vs_filter_below_fsd :: bool

record volume_list_entry =
  vl_volume_path :: string
  vl_state :: int
  vl_encrypted_sector :: u64
  vl_total_sectors :: u64
  vl_sector_size :: u32
  vl_is_os_volume :: bool

record volume_list_response =
  vl_volumes :: "volume_list_entry list"

record progress_event =
  pe_encrypted_sector :: u64
  pe_total_sectors :: u64
  pe_state :: int
  pe_error :: string

record bench_req =
  br_size_bytes :: u64

record bench_resp =
  bp_size_bytes :: u64
  bp_encrypt_mib_s :: u64
  bp_decrypt_mib_s :: u64


section \<open>The environment of the handlers\<close>

record ioctl_codec =
  de_volume_request :: "bytes \<Rightarrow> string + volume_request"
  de_prepare_req :: "bytes \<Rightarrow> string + prepare_req"
  de_attach_req :: "bytes \<Rightarrow> string + attach_req"
  de_bench_req :: "bytes \<Rightarrow> string + bench_req"
  en_empty :: "string + bytes"
  en_volume_status :: "volume_status \<Rightarrow> string + bytes"
  en_volume_list :: "volume_list_response \<Rightarrow> string + bytes"
  en_progress_event :: "progress_event \<Rightarrow> string + bytes"
  en_prepare_resp :: "prepare_resp \<Rightarrow> string + bytes"
  en_attach_resp :: "attach_resp \<Rightarrow> string + bytes"
  en_bench_resp :: "bench_resp \<Rightarrow> string + bytes"

text \<open>\<open>ev_related_device\<close>: the device object behind a handle, 0 when the handle cannot be
  referenced; \<open>ev_delay\<close>: waiting, during which the world may change; \<open>ev_counter\<close>: the
  performance counter, with its frequency.\<close>

record 'w drv_env =
  ev_kernel :: "'w nt_kernel"
  ev_devices :: "'w dev_services"
  ev_provider :: "'w volume_provider option"
  ev_codec :: ioctl_codec
  ev_aes :: aes256
  ev_related_device :: "'w \<Rightarrow> u64 \<Rightarrow> device"
  ev_delay :: "'w \<Rightarrow> 'w"
  ev_counter :: "'w \<Rightarrow> (u64 \<times> u64) \<times> 'w"
  ev_pool :: "'w \<Rightarrow> nat \<Rightarrow> bool"

definition decode_req :: "(bytes \<Rightarrow> string + 'a) \<Rightarrow> bytes \<Rightarrow> 'a vck_result" where
  "decode_req f input = (case f input of Inl m \<Rightarrow> Inl (MsgpackDecode m) | Inr r \<Rightarrow> Inr r)"

definition encode_resp :: "string + bytes \<Rightarrow> bytes vck_result" where
  "encode_resp r = (case r of Inl m \<Rightarrow> Inl (MsgpackEncode m) | Inr b \<Rightarrow> Inr b)"

definition update_volume :: "nat \<Rightarrow> ('w attached_volume \<Rightarrow> 'w attached_volume) \<Rightarrow> 'w drv \<Rightarrow> 'w drv" where
  "update_volume v f d = d\<lparr>dr_heap := (dr_heap d)[v := f (dr_heap d ! v)]\<rparr>"


section \<open>Volume handles\<close>

definition open_volume_handle_raw :: "'w nt_kernel \<Rightarrow> 'w \<Rightarrow> string \<Rightarrow> u64 option \<times> 'w" where
  "open_volume_handle_raw K w nt_path =
     (case zw_create_file K w nt_path of
        ((status, handle), w1) \<Rightarrow> (if nt_success status then Some handle else None, w1))"

definition send_fsctl :: "'w nt_kernel \<Rightarrow> 'w \<Rightarrow> u64 \<Rightarrow> u32 \<Rightarrow> ntstatus \<times> 'w" where
  "send_fsctl K w handle code = zw_fs_control_file K w handle code"

definition FSCTL_LOCK_VOLUME :: u32 where "FSCTL_LOCK_VOLUME = 0x00090018"
definition FSCTL_DISMOUNT_VOLUME :: u32 where "FSCTL_DISMOUNT_VOLUME = 0x00090020"
definition FSCTL_UNLOCK_VOLUME :: u32 where "FSCTL_UNLOCK_VOLUME = 0x0009001C"

text \<open>Unlocking and closing a handle that may be open.\<close>

definition release_volume :: "'w nt_kernel \<Rightarrow> u64 option \<Rightarrow> bool \<Rightarrow> 'w \<Rightarrow> 'w" where
  "release_volume K vol_handle held_lock w =
     (case vol_handle of
        None \<Rightarrow> w
      | Some h \<Rightarrow> zw_close K (if held_lock then snd (send_fsctl K w h FSCTL_UNLOCK_VOLUME) else w) h)"


section \<open>Finding the volume of a request\<close>

definition resolve_volume :: "'w drv_env \<Rightarrow> string \<Rightarrow> 'w drv \<Rightarrow> nat option \<times> 'w drv" where
  "resolve_volume E volume_path d =
     (case reg_get volume_path (dr_reg d) of
        Some v \<Rightarrow> (Some v, d)
      | None \<Rightarrow>
          (case find_filter (ev_devices E) (win32_volume_path_to_nt volume_path) d of
             (None, d1) \<Rightarrow> (None, d1)
           | (Some (filter_do, _), d1) \<Rightarrow> (get_by_filter (dr_heap d1) filter_do (dr_reg d1), d1)))"

text \<open>Binding through the provider (\<open>on_attach_volume\<close>).\<close>

definition on_attach_volume ::
    "'w drv_env \<Rightarrow> bytes \<Rightarrow> guid option \<Rightarrow> 'w sector_io \<Rightarrow> 'w \<Rightarrow> 'w io_config vck_result \<times> 'w" where
  "on_attach_volume E vmk partition_guid io w =
     (case ev_provider E of
        None \<Rightarrow> (Inl (ValidationFailed ''no volume provider installed''), w)
      | Some p \<Rightarrow> vp_on_attach p io vmk partition_guid w)"


section \<open>Looking up changes nothing but the world\<close>

text \<open>Two states with the same volumes, registry, devices and completed requests.\<close>

definition same_driver :: "'w drv \<Rightarrow> 'w drv \<Rightarrow> bool" where
  "same_driver d d' \<longleftrightarrow> dr_heap d' = dr_heap d \<and> dr_reg d' = dr_reg d \<and> dr_dev d' = dr_dev d \<and> dr_completed d' = dr_completed d"

lemma same_driver_refl [simp]: "same_driver d d"
  by (simp add: same_driver_def)

lemma same_driver_trans: "same_driver d1 d2 \<Longrightarrow> same_driver d2 d3 \<Longrightarrow> same_driver d1 d3"
  by (simp add: same_driver_def)

lemma find_our_filter_same: "find_our_filter_in_stack DS p d = (r, d') \<Longrightarrow> same_driver d d'"
  by (auto simp: find_our_filter_in_stack_def same_driver_def Let_def split: prod.splits if_splits)

lemma find_filter_same: "find_filter DS p d = (r, d') \<Longrightarrow> same_driver d d'"
  by (auto simp: find_filter_def find_filter_for_volume_def Let_def
      split: prod.splits if_splits option.splits dest!: find_our_filter_same) (simp_all add: same_driver_def)

lemma resolve_volume_same: "resolve_volume E p d = (r, d') \<Longrightarrow> same_driver d d'"
  by (auto simp: resolve_volume_def split: option.splits prod.splits dest: find_filter_same)

lemma resolve_volume_registered:
  assumes "reg_ok (dr_heap d) (dr_reg d)" "resolve_volume E p d = (Some v, d')"
  shows "v \<in> set (reg_all (dr_reg d)) \<and> v < length (dr_heap d)"
proof (cases "reg_get p (dr_reg d)")
  case None
  then obtain f l where f: "find_filter (ev_devices E) (win32_volume_path_to_nt p) d = (Some (f, l), d')"
    "get_by_filter (dr_heap d') f (dr_reg d') = Some v"
    using assms(2) by (auto simp: resolve_volume_def split: option.splits prod.splits)
  then show ?thesis
    using find_filter_same [OF f(1)] get_by_filter_sound [OF assms(1), of f v] assms(1) reg_all_iff [OF assms(1), of v]
    by (auto simp: same_driver_def reg_ok_def)
next
  case (Some u)
  then show ?thesis
    using assms reg_all_iff [OF assms(1), of u] by (auto simp: resolve_volume_def reg_ok_def)
qed

end
