(* ===== verification/Ioctl_Control.thy ===== *)
theory Ioctl_Control
  imports Ioctl_Types
begin

text \<open>
  The handlers of \<open>lib/windrv/src/ioctl/dispatch.rs\<close> that query volumes, drive the sweep and
  detach volumes: status, list, progress, start of encryption and decryption, pause, detach, the two
  shutdown requests and the benchmark.
\<close>


section \<open>Queries\<close>

definition handle_get_status :: "'w drv_env \<Rightarrow> bytes \<Rightarrow> 'w drv \<Rightarrow> bytes vck_result \<times> 'w drv" where
  "handle_get_status E input d =
     (case decode_req (de_volume_request (ev_codec E)) input of
        Inl e \<Rightarrow> (Inl e, d)
      | Inr req \<Rightarrow>
          let (found, d1) = find_filter (ev_devices E) (win32_volume_path_to_nt (vr_volume_path req)) d;
              filter_below_fsd = (found \<noteq> None);
              (vo, d2) = resolve_volume E (vr_volume_path req) d1
          in (encode_resp (en_volume_status (ev_codec E)
                (case vo of
                   Some v \<Rightarrow>
                     let volume = dr_heap d2 ! v; s = snapshot (av_encryption volume)
                     in \<lparr>vs_volume_path = av_volume_path volume, vs_state = as_wire (ps_state s),
                         vs_encrypted_sector = ps_encrypted_sector s, vs_total_sectors = ps_total_sectors s,
                         vs_sector_size = av_sector_size volume, vs_is_attached = True,
                         vs_filter_below_fsd = filter_below_fsd\<rparr>
                 | None \<Rightarrow>
                     \<lparr>vs_volume_path = vr_volume_path req, vs_state = 0, vs_encrypted_sector = 0, vs_total_sectors = 0,
                      vs_sector_size = 0, vs_is_attached = False, vs_filter_below_fsd = filter_below_fsd\<rparr>)), d2))"

definition list_entry :: "'w attached_volume \<Rightarrow> volume_list_entry" where
  "list_entry v =
     (let s = snapshot (av_encryption v)
      in \<lparr>vl_volume_path = av_volume_path v, vl_state = as_wire (ps_state s), vl_encrypted_sector = ps_encrypted_sector s,
          vl_total_sectors = ps_total_sectors s, vl_sector_size = av_sector_size v, vl_is_os_volume = is_os_volume v\<rparr>)"

definition handle_list_volumes :: "'w drv_env \<Rightarrow> 'w drv \<Rightarrow> bytes vck_result \<times> 'w drv" where
  "handle_list_volumes E d =
     (encode_resp (en_volume_list (ev_codec E) \<lparr>vl_volumes = map (\<lambda>v. list_entry (dr_heap d ! v)) (reg_all (dr_reg d))\<rparr>), d)"

text \<open>Decoding the path and finding the volume, which four handlers begin with.\<close>

definition with_volume ::
    "'w drv_env \<Rightarrow> bytes \<Rightarrow> (nat \<Rightarrow> 'w drv \<Rightarrow> bytes vck_result \<times> 'w drv) \<Rightarrow> 'w drv \<Rightarrow> bytes vck_result \<times> 'w drv" where
  "with_volume E input f d =
     (case decode_req (de_volume_request (ev_codec E)) input of
        Inl e \<Rightarrow> (Inl e, d)
      | Inr req \<Rightarrow>
          (case resolve_volume E (vr_volume_path req) d of
             (None, d1) \<Rightarrow> (Inl (NotFound ''volume is not attached''), d1)
           | (Some v, d1) \<Rightarrow> f v d1))"

definition handle_get_progress :: "'w drv_env \<Rightarrow> bytes \<Rightarrow> 'w drv \<Rightarrow> bytes vck_result \<times> 'w drv" where
  "handle_get_progress E input =
     with_volume E input (\<lambda>v d.
       let s = snapshot (av_encryption (dr_heap d ! v))
       in (encode_resp (en_progress_event (ev_codec E)
             \<lparr>pe_encrypted_sector = ps_encrypted_sector s, pe_total_sectors = ps_total_sectors s,
              pe_state = as_wire (ps_state s), pe_error = []\<rparr>), d))"


section \<open>Driving the sweep\<close>

definition command_volume ::
    "('w offset_store \<Rightarrow> engine \<Rightarrow> 'w \<Rightarrow> engine \<times> 'w) \<Rightarrow> nat \<Rightarrow> 'w drv \<Rightarrow> 'w drv" where
  "command_volume cmd v d =
     (let volume = dr_heap d ! v;
          (e1, w1) = cmd (av_offset_store volume) (av_encryption volume) (dr_world d)
      in (update_volume v (\<lambda>x. x\<lparr>av_encryption := e1\<rparr>) d)\<lparr>dr_world := w1\<rparr>)"

definition handle_start_encrypt :: "'w drv_env \<Rightarrow> bytes \<Rightarrow> 'w drv \<Rightarrow> bytes vck_result \<times> 'w drv" where
  "handle_start_encrypt E input =
     with_volume E input (\<lambda>v d. (encode_resp (en_empty (ev_codec E)), wake_for v (command_volume start_encrypt v d)))"

definition handle_start_decrypt :: "'w drv_env \<Rightarrow> bytes \<Rightarrow> 'w drv \<Rightarrow> bytes vck_result \<times> 'w drv" where
  "handle_start_decrypt E input =
     with_volume E input (\<lambda>v d. (encode_resp (en_empty (ev_codec E)), wake_for v (command_volume start_decrypt v d)))"

definition pause_volume :: "nat \<Rightarrow> 'w drv \<Rightarrow> 'w drv" where
  "pause_volume v d = update_volume v (\<lambda>x. x\<lparr>av_encryption := pause (av_encryption x)\<rparr>) d"

definition handle_pause :: "'w drv_env \<Rightarrow> bytes \<Rightarrow> 'w drv \<Rightarrow> bytes vck_result \<times> 'w drv" where
  "handle_pause E input = with_volume E input (\<lambda>v d. (encode_resp (en_empty (ev_codec E)), pause_volume v d))"

definition handle_pause_os_volume :: "'w drv \<Rightarrow> bytes vck_result \<times> 'w drv" where
  "handle_pause_os_volume d =
     (Inr [], fold (\<lambda>v d. if is_os_volume (dr_heap d ! v) then pause_volume v d else d) (reg_all (dr_reg d)) d)"


section \<open>Detaching\<close>

definition MAX_RETRIES :: nat where "MAX_RETRIES = 100"

text \<open>Dismounting, at most \<open>n\<close> attempts with a delay between two of them.\<close>

primrec dismount_loop :: "'w nt_kernel \<Rightarrow> ('w \<Rightarrow> 'w) \<Rightarrow> u64 \<Rightarrow> nat \<Rightarrow> 'w \<Rightarrow> bool \<times> 'w" where
  "dismount_loop K delay h 0 w = (False, w)"
| "dismount_loop K delay h (Suc n) w =
     (case send_fsctl K w h FSCTL_DISMOUNT_VOLUME of
        (st, w1) \<Rightarrow>
          if nt_success st then (True, w1)
          else dismount_loop K delay h n (if n = 0 then w1 else delay w1))"

text \<open>Locking and dismounting the file system; an error when files are open and may not be
  ignored.\<close>

definition dismount_volume ::
    "'w drv_env \<Rightarrow> string \<Rightarrow> bool \<Rightarrow> 'w \<Rightarrow> unit vck_result \<times> 'w" where
  "dismount_volume E nt_path ignore_open_files w =
     (let K = ev_kernel E
      in case open_volume_handle_raw K w nt_path of
           (None, w1) \<Rightarrow> (Inr (), w1)
         | (Some h, w1) \<Rightarrow>
             (case send_fsctl K w1 h FSCTL_LOCK_VOLUME of
                (lock_st, w2) \<Rightarrow>
                  let held_lock = nt_success lock_st
                  in if \<not> held_lock \<and> \<not> ignore_open_files
                     then (Inl (Io ''FSCTL_LOCK_VOLUME failed (files open)''), zw_close K w2 h)
                     else let (_, w3) = dismount_loop K (ev_delay E) h MAX_RETRIES w2
                          in (Inr (), release_volume K (Some h) held_lock w3)))"

definition detach_volume_with_dismount ::
    "'w drv_env \<Rightarrow> string \<Rightarrow> bool \<Rightarrow> bool \<Rightarrow> 'w drv \<Rightarrow> unit vck_result \<times> 'w drv" where
  "detach_volume_with_dismount E volume_path ignore_open_files keep_filter d =
     (case reg_remove volume_path (dr_reg d) of
        (None, r1) \<Rightarrow> (Inl (NotFound ''volume is not attached''), d\<lparr>dr_reg := r1\<rparr>)
      | (Some v, r1) \<Rightarrow>
          let filter_do = av_filter_device (dr_heap d ! v);
              d1 = update_volume v (\<lambda>x. x\<lparr>av_filter_device := 0\<rparr>) (d\<lparr>dr_reg := r1\<rparr>)
          in (case dismount_volume E (win32_volume_path_to_nt volume_path) ignore_open_files (dr_world d1) of
                (Inl e, w1) \<Rightarrow> (Inl e, d1\<lparr>dr_world := w1\<rparr>)
              | (Inr _, w1) \<Rightarrow>
                  let d2 = d1\<lparr>dr_world := ev_delay E w1\<rparr>
                  in (Inr (), if filter_do = 0 then d2
                              else if keep_filter then unbind_filter filter_do d2
                              else detach_filter (ev_devices E) filter_do d2)))"

definition handle_detach :: "'w drv_env \<Rightarrow> bytes \<Rightarrow> 'w drv \<Rightarrow> bytes vck_result \<times> 'w drv" where
  "handle_detach E input d =
     (case decode_req (de_volume_request (ev_codec E)) input of
        Inl e \<Rightarrow> (Inl e, d)
      | Inr req \<Rightarrow>
          if (case reg_get (vr_volume_path req) (dr_reg d) of
                Some v \<Rightarrow> is_os_volume (dr_heap d ! v) \<and> has_encrypted_data (dr_heap d ! v) | None \<Rightarrow> False)
          then (Inl (PermissionDenied ''OS volume is encrypted; detach is not allowed''), d)
          else (case detach_volume_with_dismount E (vr_volume_path req) False True d of
                  (Inl e, d1) \<Rightarrow> (Inl e, d1)
                | (Inr _, d1) \<Rightarrow> (encode_resp (en_empty (ev_codec E)), d1)))"

definition data_paths :: "'w drv \<Rightarrow> string list" where
  "data_paths d = map (\<lambda>v. av_volume_path (dr_heap d ! v)) (filter (\<lambda>v. \<not> is_os_volume (dr_heap d ! v)) (reg_all (dr_reg d)))"

definition handle_detach_all_volumes :: "'w drv_env \<Rightarrow> 'w drv \<Rightarrow> bytes vck_result \<times> 'w drv" where
  "handle_detach_all_volumes E d =
     (Inr [], fold (\<lambda>path d. snd (detach_volume_with_dismount E path True False d)) (data_paths d) d)"


section \<open>The benchmark\<close>

definition div_ceil :: "nat \<Rightarrow> nat \<Rightarrow> nat" where
  "div_ceil a b = (a + b - 1) div b"

definition checked_div :: "u64 \<Rightarrow> u64 \<Rightarrow> u64 option" where
  "checked_div a b = (if b = 0 then None else Some (a div b))"

text \<open>The passes over the scratch buffer only take time: their output is not used.\<close>

definition handle_bench_aes :: "'w drv_env \<Rightarrow> bytes \<Rightarrow> 'w drv \<Rightarrow> bytes vck_result \<times> 'w drv" where
  "handle_bench_aes E input d =
     (case decode_req (de_bench_req (ev_codec E)) input of
        Inl e \<Rightarrow> (Inl e, d)
      | Inr req \<Rightarrow>
          let size_bytes = (if br_size_bytes req = 0 then 2 ^ 30 else br_size_bytes req)
          in if \<not> is_ok (xts_new (ev_aes E) (replicate 32 0) (replicate 32 0)) then (Inl (CryptoFailed ''bench cipher init''), d)
             else if \<not> ev_pool E (dr_world d) (2 ^ 20) then (Inl (Io ''bench: NonPagedPool alloc failed''), d)
             else let chunks = of_nat (div_ceil (unat size_bytes) (2 ^ 20)) :: u64;
                      actual_bytes = chunks * 2 ^ 20;
                      actual_mib = actual_bytes div (1024 * 1024);
                      ((freq, enc_start), w1) = ev_counter E (dr_world d);
                      ((_, enc_end), w2) = ev_counter E w1;
                      ((_, dec_start), w3) = ev_counter E w2;
                      ((_, dec_end), w4) = ev_counter E w3;
                      rate = (\<lambda>ticks. case checked_div (actual_mib * freq) ticks of Some r \<Rightarrow> r | None \<Rightarrow> 0)
                  in (encode_resp (en_bench_resp (ev_codec E)
                        \<lparr>bp_size_bytes = actual_bytes, bp_encrypt_mib_s = rate (enc_end - enc_start),
                         bp_decrypt_mib_s = rate (dec_end - dec_start)\<rparr>), d\<lparr>dr_world := w4\<rparr>))"

end
