(* ===== verification/Kernel_Support.thy ===== *)
theory Kernel_Support
  imports Vck_Config Nt_Io
begin

text \<open>
  The support code of the driver: the system clock of the shared user page, the mapping of MDLs and the
  exchange of cancel routines (\<open>lib/windrv/src/ntddk_ex.rs\<close>), time stamps, the panic line and
  the log line (\<open>lib/windrv/src/debug.rs\<close>), the kernel's random source
  (\<open>lib/windrv/src/rng.rs\<close>) and kernel strings (\<open>lib/windrv/src/nt.rs\<close>).

  The clock is read while another processor updates it.  The model of the shared page is its contents at
  each read, so every interleaving of the reader with the writer is a function from the number of the
  read to the contents.  The loop ends only when both copies of the high half agree, so it is a partial
  function.  Strings are their UTF-8 bytes.  Formatted output is the sequence of pieces that the
  formatter hands to \<open>write_str\<close>; the results do not depend on how the text is cut into pieces.
\<close>


section \<open>The system clock\<close>

definition saturating_sub :: "u64 \<Rightarrow> u64 \<Rightarrow> u64" where
  "saturating_sub a b = (if b \<le> a then a - b else 0)"

text \<open>\<open>KSYSTEM_TIME\<close>.\<close>

record ksystem_time =
  kst_low :: u32
  kst_high1 :: u32
  kst_high2 :: u32

text \<open>\<open>page n\<close> is the shared page at the \<open>n\<close>-th volatile read; the result has the time
  and the number of the next read.\<close>

partial_function (option) KeQuerySystemTime :: "(nat \<Rightarrow> ksystem_time) \<Rightarrow> nat \<Rightarrow> (u64 \<times> nat) option" where
  "KeQuerySystemTime page n =
     (let h1 = ucast (kst_high1 (page n)) :: u64;
          lo = ucast (kst_low (page (n + 1))) :: u64;
          h2 = ucast (kst_high2 (page (n + 2))) :: u64
      in if h1 = h2 then Some (push_bit 32 h1 OR lo, n + 3) else KeQuerySystemTime page (n + 3))"

definition FILETIME_EPOCH_DIFF :: u64 where "FILETIME_EPOCH_DIFF = 116444736000000000"

text \<open>The argument is the system time.\<close>

definition get_timestamp :: "u64 \<Rightarrow> u64 \<times> u32" where
  "get_timestamp system_time =
     (let unix_100ns = saturating_sub system_time FILETIME_EPOCH_DIFF
      in (unix_100ns div 10000000, ucast ((unix_100ns mod 10000000) div 10000)))"

definition remaining_stack :: "u64 \<Rightarrow> u64 \<Rightarrow> u64" where
  "remaining_stack rsp limit = saturating_sub rsp limit"


section \<open>Memory descriptors and cancel routines\<close>

definition MDL_MAPPED_TO_SYSTEM_VA :: u16 where "MDL_MAPPED_TO_SYSTEM_VA = 1"
definition MDL_SOURCE_IS_NONPAGED_POOL :: u16 where "MDL_SOURCE_IS_NONPAGED_POOL = 4"

record mdl =
  mdl_flags :: u16
  mdl_mapped_system_va :: u64

text \<open>The parameter is \<open>MmMapLockedPagesSpecifyCache\<close>, which updates the descriptor; a null
  address stands for failure.\<close>

definition MmGetSystemAddressForMdlSafe :: "(mdl \<Rightarrow> 'w \<Rightarrow> u64 \<times> mdl \<times> 'w) \<Rightarrow> mdl option \<Rightarrow> 'w \<Rightarrow> u64 \<times> mdl option \<times> 'w" where
  "MmGetSystemAddressForMdlSafe map_pages mdl w =
     (case mdl of
        None \<Rightarrow> (0, None, w)
      | Some m \<Rightarrow>
          if mdl_flags m AND (MDL_MAPPED_TO_SYSTEM_VA OR MDL_SOURCE_IS_NONPAGED_POOL) \<noteq> 0
          then (mdl_mapped_system_va m, Some m, w)
          else (case map_pages m w of (va, m1, w1) \<Rightarrow> (va, Some m1, w1)))"

text \<open>The slot holds the address of the routine; the result is the old routine and the new slot.\<close>

definition IoSetCancelRoutine :: "u64 option \<Rightarrow> u64 \<Rightarrow> u64 option \<times> u64" where
  "IoSetCancelRoutine routine slot =
     (if slot = 0 then None else Some slot, case routine of None \<Rightarrow> 0 | Some r \<Rightarrow> r)"


section \<open>The panic line\<close>

record panic_writer =
  pw_buf :: bytes
  pw_len :: nat

definition panic_writer_new :: panic_writer where
  "panic_writer_new = \<lparr>pw_buf = replicate 512 0, pw_len = 0\<rparr>"

definition ends_with_newline :: "panic_writer \<Rightarrow> bool" where
  "ends_with_newline pw \<longleftrightarrow> pw_len pw > 0 \<and> pw_buf pw ! (pw_len pw - 1) = 0x0A"

text \<open>\<open>write_str\<close>: whether it succeeded, and the writer.\<close>

definition write_str :: "panic_writer \<Rightarrow> bytes \<Rightarrow> bool \<times> panic_writer" where
  "write_str pw s =
     (let available = length (pw_buf pw) - pw_len pw
      in if available = 0 then (False, pw)
         else let to_copy = min available (length s)
              in (\<not> to_copy < length s,
                  \<lparr>pw_buf = buf_write (pw_len pw) (take to_copy s) (pw_buf pw), pw_len = pw_len pw + to_copy\<rparr>))"

text \<open>\<open>write!\<close>: the formatter stops at the first piece that fails.\<close>

fun write_pieces :: "panic_writer \<Rightarrow> bytes list \<Rightarrow> panic_writer" where
  "write_pieces pw [] = pw"
| "write_pieces pw (s # ss) = (case write_str pw s of (ok, pw1) \<Rightarrow> if ok then write_pieces pw1 ss else pw1)"

text \<open>\<open>DbgPrint\<close> with the format \<open>%s\<close> prints up to the first zero byte.\<close>

definition c_string :: "bytes \<Rightarrow> bytes" where
  "c_string = takeWhile (\<lambda>b. b \<noteq> 0)"

text \<open>\<open>write_debugcon\<close>: the bytes sent to the debug port.\<close>

fun write_debugcon :: "bytes \<Rightarrow> bytes" where
  "write_debugcon [] = []"
| "write_debugcon (b # bs) = (if b = 0 then [] else b # write_debugcon bs)"

text \<open>What reaches the debugger and the debug port.\<close>

definition pw_flush :: "bool \<Rightarrow> panic_writer \<Rightarrow> bytes \<times> bytes" where
  "pw_flush debugcon pw =
     (let len = min (pw_len pw) 512;
          line = (buf_write 0 (take len (pw_buf pw)) (replicate 513 0))[len := 0]
      in (c_string line, if debugcon then write_debugcon (take (len + 1) line) else []))"

definition bstr :: "string \<Rightarrow> bytes" where
  "bstr = map byte_chr"

definition dec :: "nat \<Rightarrow> bytes" where
  "dec n = bstr (decimal n)"

definition pad3 :: "bytes \<Rightarrow> bytes" where
  "pad3 ds = replicate (3 - length ds) 0x30 @ ds"

definition stamp_pieces :: "u64 \<Rightarrow> bytes list" where
  "stamp_pieces now = (case get_timestamp now of (secs, millis) \<Rightarrow> [dec (unat secs), bstr ''.'', pad3 (dec (unat millis))])"

text \<open>The location is the file, the line and the column; after the line is printed the code spins
  forever, so the result is the output.\<close>

definition location_pieces :: "(bytes \<times> u32 \<times> u32) option \<Rightarrow> bytes list" where
  "location_pieces loc = (case loc of
     None \<Rightarrow> [bstr ''<unknown location>'']
   | Some (f, l, c) \<Rightarrow> [f, bstr '':'', dec (unat l), bstr '':'', dec (unat c)])"

definition panic_print :: "bool \<Rightarrow> u64 \<Rightarrow> (bytes \<times> u32 \<times> u32) option \<Rightarrow> bytes list \<Rightarrow> bytes \<times> bytes" where
  "panic_print debugcon now loc message =
     (let pw1 = write_pieces panic_writer_new (stamp_pieces now @ [bstr '' vck-windrv: panic: '']);
          pw2 = write_pieces pw1 (location_pieces loc);
          pw3 = snd (write_str pw2 (bstr '' ''));
          pw4 = write_pieces pw3 message;
          pw5 = (if ends_with_newline pw4 then pw4 else snd (write_str pw4 [0x0A]))
      in pw_flush debugcon pw5)"


section \<open>The log line\<close>

text \<open>\<open>CString::new\<close> refuses a line with a zero byte, and then nothing is printed.\<close>

definition log_line :: "u64 \<Rightarrow> bytes \<Rightarrow> bytes \<Rightarrow> bytes" where
  "log_line now level args = concat (stamp_pieces now) @ bstr '' vck-windrv: ['' @ level @ bstr ''] '' @ args @ [0x0A]"

definition log_record :: "bool \<Rightarrow> u64 \<Rightarrow> bytes \<Rightarrow> bytes \<Rightarrow> bytes \<times> bytes" where
  "log_record debugcon now level args =
     (let line = log_line now level args
      in if 0 \<in> set line then ([], [])
         else (c_string (line @ [0]), if debugcon then write_debugcon (line @ [0]) else []))"

text \<open>Registration with the log facade, whose two functions are parameters: \<open>set_logger\<close> fails when a logger
  is registered already, and then the level stays as it is.\<close>

datatype level_filter = LvlOff | LvlError | LvlWarn | LvlInfo | LvlDebug | LvlTrace

definition init_logger :: "('w \<Rightarrow> bool \<times> 'w) \<Rightarrow> (level_filter \<Rightarrow> 'w \<Rightarrow> 'w) \<Rightarrow> 'w \<Rightarrow> 'w" where
  "init_logger set_logger set_max_level w =
     (case set_logger w of (ok, w1) \<Rightarrow> if ok then set_max_level LvlTrace w1 else w1)"


section \<open>The kernel's random source\<close>

definition BCRYPT_USE_SYSTEM_PREFERRED_RNG :: u32 where "BCRYPT_USE_SYSTEM_PREFERRED_RNG = 2"

text \<open>The parameter is \<open>BCryptGenRandom\<close> without an algorithm handle: length and flags to the
  status and the bytes it has written.  The length is cut to 32 bits.\<close>

type_synonym 'w gen_random = "u32 \<Rightarrow> u32 \<Rightarrow> 'w \<Rightarrow> ntstatus \<times> bytes \<times> 'w"

definition kernel_rng_fill :: "'w gen_random \<Rightarrow> bytes \<Rightarrow> 'w \<Rightarrow> bytes vck_result \<times> 'w" where
  "kernel_rng_fill gen buf w =
     (case gen (of_nat (length buf)) BCRYPT_USE_SYSTEM_PREFERRED_RNG w of
        (status, random, w1) \<Rightarrow>
          if \<not> nt_success status then (Inl (CryptoFailed ''BCryptGenRandom failed''), w1)
          else (Inr (buf_write 0 random buf), w1))"

text \<open>As a source of the metadata store, which asks with a zeroed buffer.\<close>

definition KERNEL_RNG :: "'w gen_random \<Rightarrow> 'w \<Rightarrow> nat \<Rightarrow> bytes vck_result \<times> 'w" where
  "KERNEL_RNG gen w n = kernel_rng_fill gen (replicate n 0) w"


section \<open>The writer of the clock\<close>

text \<open>The kernel writes the second copy of the high half, then the low half, then the first copy.
  \<open>clock_page c n\<close> is the page after \<open>n\<close> of these writes, when the clock takes the values
  \<open>c 0, c 1, \<dots>\<close>.\<close>

definition high_half :: "u64 \<Rightarrow> u32" where
  "high_half v = ucast (drop_bit 32 v)"

definition low_half :: "u64 \<Rightarrow> u32" where
  "low_half v = ucast v"

definition clock_page :: "(nat \<Rightarrow> u64) \<Rightarrow> nat \<Rightarrow> ksystem_time" where
  "clock_page c n =
     \<lparr>kst_low = low_half (c (if n mod 3 = 2 then n div 3 + 1 else n div 3)),
      kst_high1 = high_half (c (n div 3)),
      kst_high2 = high_half (c (if n mod 3 = 0 then n div 3 else n div 3 + 1))\<rparr>"

lemma clock_page_select:
  "kst_high1 (clock_page c n) = high_half (c (n div 3))"
  "kst_low (clock_page c n) = low_half (c ((n + 1) div 3))"
  "kst_high2 (clock_page c n) = high_half (c ((n + 2) div 3))"
proof -
  have "(n + 1) div 3 = (if n mod 3 = 2 then n div 3 + 1 else n div 3)" "(n + 2) div 3 = (if n mod 3 = 0 then n div 3 else n div 3 + 1)"
    by presburger+
  then show "kst_high1 (clock_page c n) = high_half (c (n div 3))"
    "kst_low (clock_page c n) = low_half (c ((n + 1) div 3))"
    "kst_high2 (clock_page c n) = high_half (c ((n + 2) div 3))"
    by (simp_all add: clock_page_def)
qed

lemma widen_inject: "(ucast a :: u64) = ucast b \<longleftrightarrow> a = (b :: u32)"
proof -
  have "ucast (ucast x :: u64) = x" for x :: u32
    by (rule bit_word_eqI) (simp add: bit_simps)
  then show ?thesis
    by metis
qed

lemma halves_join: "push_bit 32 (ucast (high_half v)) OR ucast (low_half v) = v"
  by (rule bit_word_eqI) (auto simp: high_half_def low_half_def bit_simps)

lemma high_half_mono: "v \<le> w \<Longrightarrow> high_half v \<le> high_half w"
proof -
  have "unat (high_half x) = unat x div 2 ^ 32" for x
  proof -
    have "unat x div 2 ^ 32 < 2 ^ 32"
      using unsigned_less [of x, where ?'a = nat] by (simp add: div_less_iff_less_mult)
    then show ?thesis
      by (simp add: high_half_def unsigned_ucast_eq drop_bit_eq_div unat_div_distrib take_bit_nat_eq_self)
  qed
  then show "v \<le> w \<Longrightarrow> high_half v \<le> high_half w"
    by (simp add: word_le_nat_alt div_le_mono)
qed

text \<open>One round: equal copies of the high half mean that no carry happened between the reads.\<close>

lemma round_consistent:
  assumes "mono c" "k0 \<le> k1" "k1 \<le> k2"
    "kst_high1 (clock_page c k0) = kst_high2 (clock_page c k2)"
  shows "push_bit 32 (ucast (kst_high1 (clock_page c k0))) OR ucast (kst_low (clock_page c k1)) = c ((k1 + 1) div 3)"
proof -
  have "k0 div 3 \<le> (k1 + 1) div 3" "(k1 + 1) div 3 \<le> (k2 + 2) div 3"
    using assms(2,3) by (auto intro: div_le_mono)
  then have "high_half (c (k0 div 3)) \<le> high_half (c ((k1 + 1) div 3))" "high_half (c ((k1 + 1) div 3)) \<le> high_half (c ((k2 + 2) div 3))"
    using assms(1) by (auto intro!: high_half_mono dest: monoD)
  then have "high_half (c (k0 div 3)) = high_half (c ((k1 + 1) div 3))"
    using assms(4) by (simp add: clock_page_select)
  then show ?thesis
    by (simp add: clock_page_select halves_join)
qed


lemma round_returns:
  assumes "mono c" "mono k" "\<And>n. page n = clock_page c (k n)" "high_half (c (k n div 3)) = high_half (c ((k (n + 2) + 2) div 3))"
  shows "\<exists>j. KeQuerySystemTime page n = Some (c j, n + 3) \<and> k n div 3 \<le> j \<and> j \<le> (k (n + 2) + 2) div 3"
proof (intro exI conjI)
  have k: "k n \<le> k (n + 1)" "k (n + 1) \<le> k (n + 2)"
    using assms(2) by (simp_all add: mono_def)
  have eq: "kst_high1 (clock_page c (k n)) = kst_high2 (clock_page c (k (n + 2)))"
    using assms(4) by (simp add: clock_page_select)
  show "KeQuerySystemTime page n = Some (c ((k (n + 1) + 1) div 3), n + 3)"
    using round_consistent [OF assms(1) k eq] eq by (simp add: KeQuerySystemTime.simps assms(3))
  show "k n div 3 \<le> (k (n + 1) + 1) div 3" "(k (n + 1) + 1) div 3 \<le> (k (n + 2) + 2) div 3"
    using k by (auto intro!: div_le_mono)
qed


section \<open>Descriptors\<close>

text \<open>Mapping as documented: a successful mapping is recorded in the descriptor.\<close>

definition maps_pages_ok :: "(mdl \<Rightarrow> 'w \<Rightarrow> u64 \<times> mdl \<times> 'w) \<Rightarrow> bool" where
  "maps_pages_ok map_pages \<longleftrightarrow>
     (\<forall>m w va m1 w1. map_pages m w = (va, m1, w1) \<longrightarrow> va \<noteq> 0 \<longrightarrow>
        bit (mdl_flags m1) 0 \<and> mdl_mapped_system_va m1 = va)"

text \<open>A descriptor is mapped at most once: a second call returns the same address and maps nothing.\<close>

lemma mdl_mapped_once:
  assumes "maps_pages_ok map_pages" "MmGetSystemAddressForMdlSafe map_pages mdl w = (va, mdl1, w1)" "va \<noteq> 0"
  shows "MmGetSystemAddressForMdlSafe map_pages mdl1 w' = (va, mdl1, w')"
proof -
  have flag: "f AND (MDL_MAPPED_TO_SYSTEM_VA OR MDL_SOURCE_IS_NONPAGED_POOL) \<noteq> 0" if "bit f 0" for f
  proof -
    have "bit (f AND (MDL_MAPPED_TO_SYSTEM_VA OR MDL_SOURCE_IS_NONPAGED_POOL)) 0"
      using that by (simp add: bit_simps MDL_MAPPED_TO_SYSTEM_VA_def)
    then show ?thesis
      by (metis bit_0_eq bot_apply bot_bool_def)
  qed
  have mapped: "bit (mdl_flags m1) 0" "mdl_mapped_system_va m1 = va" if "map_pages m w = (va, m1, w1)" for m m1
    using assms(1,3) that unfolding maps_pages_ok_def by blast+
  show ?thesis
  proof (cases mdl)
    case None
    then show ?thesis
      using assms(2,3) by (simp add: MmGetSystemAddressForMdlSafe_def)
  next
    case (Some m)
    then show ?thesis
      using assms(2) flag mapped by (auto simp: MmGetSystemAddressForMdlSafe_def split: if_splits prod.splits)
  qed
qed

text \<open>Of two contenders that exchange the routine for none, only the first gets it.\<close>

lemma cancel_routine_claimed_once:
  assumes "IoSetCancelRoutine None slot = (old, slot1)"
  shows "fst (IoSetCancelRoutine None slot1) = None"
  using assms by (auto simp: IoSetCancelRoutine_def)


section \<open>Lines\<close>

lemma write_debugcon_eq: "write_debugcon bs = c_string bs"
  by (induction bs) (simp_all add: c_string_def)

lemma takeWhile_append_zero: "takeWhile (\<lambda>b. b \<noteq> 0) (xs @ 0 # ys) = takeWhile (\<lambda>b. b \<noteq> (0 :: byte)) xs"
  by (induction xs) simp_all

definition pw_ok :: "panic_writer \<Rightarrow> bool" where
  "pw_ok pw \<longleftrightarrow> length (pw_buf pw) = 512 \<and> pw_len pw \<le> 512"

definition pw_text :: "panic_writer \<Rightarrow> bytes" where
  "pw_text pw = take (pw_len pw) (pw_buf pw)"

lemma panic_writer_new_ok [simp]: "pw_ok panic_writer_new" "pw_text panic_writer_new = []"
  by (simp_all add: panic_writer_new_def pw_ok_def pw_text_def)

lemma length_pw_text: "pw_ok pw \<Longrightarrow> length (pw_text pw) = pw_len pw"
  by (simp add: pw_ok_def pw_text_def)

lemma write_str_text:
  assumes "pw_ok pw" "write_str pw s = (ok, pw1)"
  shows "pw_ok pw1" "pw_text pw1 = take 512 (pw_text pw @ s)" "ok \<longleftrightarrow> pw_len pw < 512 \<and> length (pw_text pw @ s) \<le> 512"
  using assms by (auto simp: write_str_def pw_ok_def pw_text_def buf_write_def Let_def min_def split: if_splits)

lemma write_pieces_text:
  assumes "pw_ok pw"
  shows "pw_ok (write_pieces pw ss) \<and> pw_text (write_pieces pw ss) = take 512 (pw_text pw @ concat ss)"
  using assms
proof (induction ss arbitrary: pw)
  case Nil
  then show ?case
    by (simp add: pw_text_def pw_ok_def)
next
  case (Cons s ss)
  obtain ok pw1 where w: "write_str pw s = (ok, pw1)"
    by (metis prod.exhaust)
  note step = write_str_text [OF Cons.prems w]
  show ?case
  proof (cases ok)
    case True
    then have "min (length s) (512 - length (pw_text pw)) = length s"
      using step(3) by (auto simp: min_def)
    then show ?thesis
      using True Cons.IH [OF step(1)] step(2,3) w by simp
  next
    case False
    then have "512 \<le> length (pw_text pw @ s)"
      using step(3) length_pw_text [OF Cons.prems] Cons.prems by (auto simp: pw_ok_def)
    then show ?thesis
      using False step(1,2) w by simp
  qed
qed

lemma ends_with_newline_text:
  assumes "pw_ok pw"
  shows "ends_with_newline pw \<longleftrightarrow> pw_text pw \<noteq> [] \<and> last (pw_text pw) = 0x0A"
proof -
  have "last (pw_text pw) = pw_buf pw ! (pw_len pw - 1)" if "0 < pw_len pw"
    using that length_pw_text [OF assms] last_conv_nth [of "pw_text pw"] by (force simp: pw_text_def)
  then show ?thesis
    using length_pw_text [OF assms] length_greater_0_conv [of "pw_text pw"] by (auto simp: ends_with_newline_def)
qed

lemma pw_flush_text:
  assumes "pw_ok pw"
  shows "pw_flush debugcon pw = (c_string (pw_text pw), if debugcon then c_string (pw_text pw) else [])"
proof -
  let ?t = "pw_text pw"
  have len: "length ?t = pw_len pw" "pw_len pw \<le> 512"
    using assms by (simp_all add: length_pw_text pw_ok_def)
  have line: "(buf_write 0 (take (pw_len pw) (pw_buf pw)) (replicate 513 0))[pw_len pw := 0] = ?t @ 0 # replicate (512 - pw_len pw) 0"
  proof -
    have "buf_write 0 ?t (replicate 513 0) = ?t @ replicate (Suc (512 - pw_len pw)) 0"
      using len by (simp add: buf_write_def Suc_diff_le del: replicate_Suc)
    then show ?thesis
      using len by (simp add: pw_text_def list_update_append)
  qed
  have "take (pw_len pw + 1) (?t @ 0 # replicate (512 - pw_len pw) 0) = ?t @ [0]"
    using len by simp
  then show ?thesis
    using len line by (simp add: pw_flush_def Let_def write_debugcon_eq c_string_def takeWhile_append_zero min_absorb1)
qed


section \<open>The random source\<close>

text \<open>\<open>BCryptGenRandom\<close> as documented: on success it has written as many bytes as it was asked for.\<close>

definition gen_random_ok :: "'w gen_random \<Rightarrow> bool" where
  "gen_random_ok gen \<longleftrightarrow>
     (\<forall>n w. nt_success (fst (gen n BCRYPT_USE_SYSTEM_PREFERRED_RNG w)) \<longrightarrow>
        length (fst (snd (gen n BCRYPT_USE_SYSTEM_PREFERRED_RNG w))) = unat n)"

text \<open>The buffer keeps its length, and it is filled up to the length modulo \<open>2 ^ 32\<close>.\<close>

lemma kernel_rng_fills:
  assumes "gen_random_ok gen" "gen (of_nat n) BCRYPT_USE_SYSTEM_PREFERRED_RNG w = (status, random, w1)" "nt_success status"
  shows "KERNEL_RNG gen w n = (Inr (random @ replicate (n - n mod 2 ^ 32) 0), w1) \<and> length random = n mod 2 ^ 32"
proof -
  have "length random = unat (of_nat n :: u32)"
    using assms by (metis fst_conv gen_random_ok_def snd_conv)
  then have "length random = n mod 2 ^ 32"
    by (simp add: unat_of_nat)
  then show ?thesis
    using assms(2,3) by (simp add: KERNEL_RNG_def kernel_rng_fill_def buf_write_def)
qed


section \<open>Unicode strings\<close>

text \<open>\<open>str::encode_utf16\<close>.\<close>

definition utf16_of :: "u32 \<Rightarrow> u16 list" where
  "utf16_of c = (if c < 0x10000 then [ucast c]
     else let d = c - 0x10000 in [0xD800 OR ucast (drop_bit 10 d), 0xDC00 OR ucast (d AND 0x3FF)])"

definition encode_utf16 :: "rust_string \<Rightarrow> u16 list" where
  "encode_utf16 s = concat (map utf16_of s)"

record unicode_string =
  us_length :: u16
  us_maximum_length :: u16
  us_buffer :: "u16 list"

text \<open>\<open>UnicodeString::new\<close>; the parameter is \<open>RtlInitUnicodeString\<close>, which computes the two lengths of
  a terminated string.\<close>

definition unicode_string_new :: "(u16 list \<Rightarrow> u16 \<times> u16) \<Rightarrow> rust_string \<Rightarrow> unicode_string" where
  "unicode_string_new rtl_init value =
     (let buffer = encode_utf16 value @ [0]; (len, max_len) = rtl_init buffer
      in \<lparr>us_length = len, us_maximum_length = max_len, us_buffer = buffer\<rparr>)"

text \<open>\<open>RtlInitUnicodeString\<close> as documented: the length in bytes up to the terminator, and two more with it.\<close>

definition rtl_init_ok :: "(u16 list \<Rightarrow> u16 \<times> u16) \<Rightarrow> bool" where
  "rtl_init_ok rtl_init \<longleftrightarrow>
     (\<forall>s t. 0 \<notin> set s \<and> 2 * length s + 2 < 2 ^ 16 \<longrightarrow> rtl_init (s @ 0 # t) = (of_nat (2 * length s), of_nat (2 * length s + 2)))"

text \<open>The code units that the kernel sees.\<close>

definition us_text :: "unicode_string \<Rightarrow> u16 list" where
  "us_text us = take (unat (us_length us) div 2) (us_buffer us)"

lemma utf16_nonzero: "scalar_value c \<Longrightarrow> c \<noteq> 0 \<Longrightarrow> 0 \<notin> set (utf16_of c)"
proof -
  assume c: "scalar_value c" "c \<noteq> 0"
  show ?thesis
  proof (cases "c < 0x10000")
    case True
    then have "unat (ucast c :: u16) = unat c"
      by (simp add: unsigned_ucast_eq take_bit_nat_eq_self word_less_nat_alt)
    then have "(ucast c :: u16) \<noteq> 0"
      using c(2) by (metis unat_0 unat_eq_zero)
    then show ?thesis
      using True by (simp add: utf16_of_def)
  next
    case False
    have "bit (0xD800 OR x :: u16) 15" "bit (0xDC00 OR x :: u16) 15" for x
      by (simp_all add: bit_or_iff)
    then have "(0xD800 OR x :: u16) \<noteq> 0" "(0xDC00 OR x :: u16) \<noteq> 0" for x
      by (metis bit_0_eq bot_apply bot_bool_def)+
    then show ?thesis
      using False by (simp add: utf16_of_def Let_def)
  qed
qed

lemma encode_utf16_nonzero: "list_all scalar_value s \<Longrightarrow> 0 \<notin> set s \<Longrightarrow> 0 \<notin> set (encode_utf16 s)"
  by (induction s) (auto simp: encode_utf16_def dest: utf16_nonzero)


section \<open>Properties\<close>

text \<open>The system clock.  Whatever the writer does between the reads, the clock that
  \<open>KeQuerySystemTime\<close> returns is a value that it had between the first and the last read, never a
  mixture of two values.  It returns as soon as the high half of the clock stays the same during one
  round of reads.\<close>

theorem system_time_consistent:
  assumes "mono c" "mono k" "\<And>n. page n = clock_page c (k n)"
    "high_half (c (k (n + 3 * i) div 3)) = high_half (c ((k (n + 3 * i + 2) + 2) div 3))"
  shows "\<exists>j n'. KeQuerySystemTime page n = Some (c j, n') \<and> n < n' \<and> n' \<le> n + 3 * i + 3 \<and> k n div 3 \<le> j \<and> j \<le> (k (n' - 1) + 2) div 3"
  using assms(4)
proof (induction i arbitrary: n)
  case 0
  then show ?case
    using round_returns [OF assms(1-3), of n] by fastforce
next
  case (Suc i)
  show ?case
  proof (cases "high_half (c (k n div 3)) = high_half (c ((k (n + 2) + 2) div 3))")
    case True
    then show ?thesis
      using round_returns [OF assms(1-3), of n] by fastforce
  next
    case False
    then have "KeQuerySystemTime page n = KeQuerySystemTime page (n + 3)"
      by (subst KeQuerySystemTime.simps) (simp add: assms(3) Let_def clock_page_select widen_inject)
    moreover have "k n div 3 \<le> k (n + 3) div 3"
      using assms(2) by (simp add: div_le_mono mono_def)
    moreover obtain j n' where "KeQuerySystemTime page (n + 3) = Some (c j, n')" "n + 3 < n'" "n' \<le> n + 3 + 3 * i + 3"
      "k (n + 3) div 3 \<le> j" "j \<le> (k (n' - 1) + 2) div 3"
      using Suc.IH [of "n + 3"] Suc.prems by (auto simp: algebra_simps)
    ultimately show ?thesis
      by (intro exI [of _ j] exI [of _ n']) simp
  qed
qed

theorem system_time_consistent_witness:
  "\<exists>(j :: nat) n'. KeQuerySystemTime (\<lambda>n. clock_page (\<lambda>i. if i = 0 then 0xFFFFFFFF else 0x100000000) (min (n + 1) 3)) 0 = Some (if j = 0 then 0xFFFFFFFF else 0x100000000, n') \<and>
     n' \<le> 6"
proof -
  let ?c = "\<lambda>i :: nat. if i = 0 then 0xFFFFFFFF else 0x100000000 :: u64" and ?k = "\<lambda>n. min (n + 1) (3 :: nat)"
  have "mono ?c" "mono ?k"
    by (auto simp: mono_def min_def word_le_nat_alt)
  moreover have "high_half (?c (?k (0 + 3 * 1) div 3)) = high_half (?c ((?k (0 + 3 * 1 + 2) + 2) div 3))"
    by simp
  ultimately obtain j n' where "KeQuerySystemTime (\<lambda>n. clock_page ?c (?k n)) 0 = Some (?c j, n')" "n' \<le> 0 + 3 * 1 + 3"
    using system_time_consistent [of ?c ?k "\<lambda>n. clock_page ?c (?k n)" 0 1] by blast
  then show ?thesis
    by - (rule exI [of _ j], rule exI [of _ n'], simp)
qed

text \<open>Time stamps.  Seconds and milliseconds count the time since 1970 in milliseconds, the
  milliseconds are below 1000, and a clock before 1970 gives zero.\<close>

theorem timestamp_exact:
  assumes "get_timestamp t = (secs, millis)"
  shows "unat millis < 1000 \<and> unat secs * 1000 + unat millis = (unat t - unat FILETIME_EPOCH_DIFF) div 10000"
proof -
  let ?x = "saturating_sub t FILETIME_EPOCH_DIFF"
  have x: "unat ?x = unat t - unat FILETIME_EPOCH_DIFF"
    by (auto simp: saturating_sub_def unat_sub word_le_nat_alt)
  have s: "unat secs = unat ?x div 10000000"
    using assms by (auto simp: get_timestamp_def Let_def unat_div_distrib)
  have "unat ?x mod 10000000 div 10000 < 2 ^ 32"
    by simp
  then have m: "unat millis = unat ?x mod 10000000 div 10000"
    using assms by (auto simp: get_timestamp_def Let_def unsigned_ucast_eq unat_div_distrib unat_mod_distrib take_bit_nat_eq_self)
  have "a div 10000000 = a div 10000 div 1000" "a mod 10000000 div 10000 = a div 10000 mod 1000" for a :: nat
    using div_mult2_eq [of a 10000 1000] mod_mult2_eq [of a 10000 1000] by simp_all
  then show ?thesis
    using s m x by simp
qed

theorem timestamp_exact_witness:
  "get_timestamp (FILETIME_EPOCH_DIFF + 12345678) = (1, 234) \<and> unat (234 :: u32) < 1000"
proof -
  have "get_timestamp (FILETIME_EPOCH_DIFF + 12345678) = (1, 234)"
    by (simp add: get_timestamp_def saturating_sub_def FILETIME_EPOCH_DIFF_def)
  then show ?thesis
    using timestamp_exact by blast
qed

text \<open>The panic line.  Whatever the location and the message are and however the formatter cuts
  them into pieces, no write leaves the buffer: the debugger gets the first 512 bytes of the line, with a
  newline after a message that has none as long as there is room, up to the first zero byte, and the debug
  port gets the same bytes.\<close>

theorem panic_line_exact:
  fixes now loc message
  defines "text \<equiv> concat (stamp_pieces now) @ bstr '' vck-windrv: panic: '' @ concat (location_pieces loc) @ bstr '' '' @ concat message"
  shows "panic_print debugcon now loc message =
    (let line = c_string (take 512 (if last (take 512 text) = 0x0A then text else text @ [0x0A]))
     in (line, if debugcon then line else []))"
proof -
  let ?p1 = "write_pieces panic_writer_new (stamp_pieces now @ [bstr '' vck-windrv: panic: ''])"
  let ?p2 = "write_pieces ?p1 (location_pieces loc)"
  let ?p3 = "snd (write_str ?p2 (bstr '' ''))"
  let ?p4 = "write_pieces ?p3 message"
  have snd_str: "pw_ok (snd (write_str pw s)) \<and> pw_text (snd (write_str pw s)) = take 512 (pw_text pw @ s)" if "pw_ok pw" for pw s
    using write_str_text [OF that prod.collapse [symmetric]] by simp
  have p1: "pw_ok ?p1 \<and> pw_text ?p1 = take 512 (concat (stamp_pieces now) @ bstr '' vck-windrv: panic: '')"
    using write_pieces_text [OF panic_writer_new_ok(1), of "stamp_pieces now @ [bstr '' vck-windrv: panic: '']"] by simp
  have cut: "take 512 (take 512 xs @ ys) = take 512 (xs @ ys)" for xs ys :: bytes
    by (simp add: min_def)
  have "pw_ok ?p2 \<and> pw_text ?p2 = take 512 (concat (stamp_pieces now) @ bstr '' vck-windrv: panic: '' @ concat (location_pieces loc))"
    using write_pieces_text [of ?p1 "location_pieces loc"] p1 cut by (metis append.assoc)
  then have "pw_ok ?p3 \<and> pw_text ?p3 = take 512 (concat (stamp_pieces now) @ bstr '' vck-windrv: panic: '' @ concat (location_pieces loc) @ bstr '' '')"
    using snd_str [of ?p2 "bstr '' ''"] cut by (metis append.assoc)
  then have p4: "pw_ok ?p4 \<and> pw_text ?p4 = take 512 text"
    using write_pieces_text [of ?p3 message] cut unfolding text_def by (metis append.assoc)
  have "text \<noteq> []"
    by (simp add: text_def bstr_def)
  then have nl: "ends_with_newline ?p4 \<longleftrightarrow> last (take 512 text) = 0x0A"
    using ends_with_newline_text [of ?p4] p4 by simp
  have "pw_flush debugcon (if ends_with_newline ?p4 then ?p4 else snd (write_str ?p4 [0x0A])) =
     (let line = c_string (take 512 (if last (take 512 text) = 0x0A then text else text @ [0x0A]))
      in (line, if debugcon then line else []))"
    using p4 nl snd_str [of ?p4 "[0x0A]"] cut by (simp add: pw_flush_text Let_def)
  then show ?thesis
    by (simp only: panic_print_def Let_def)
qed


text \<open>Names reach the kernel up to their first NUL.  A name whose encoding fits into a counted
  string is handed over unit by unit up to its first NUL character; without one, it is handed over whole.\<close>

theorem unicode_string_exact:
  assumes "rtl_init_ok rtl_init" "list_all scalar_value s" "0 \<notin> set s" "2 * length (encode_utf16 s) + 2 < 2 ^ 16"
  shows "us_text (unicode_string_new rtl_init s) = encode_utf16 s \<and> us_text (unicode_string_new rtl_init (s @ 0 # t)) = encode_utf16 s"
proof -
  let ?e = "encode_utf16 s"
  have z: "0 \<notin> set ?e"
    by (rule encode_utf16_nonzero [OF assms(2,3)])
  have r: "rtl_init (?e @ 0 # u) = (of_nat (2 * length ?e), of_nat (2 * length ?e + 2))" for u
    using assms(1,4) z unfolding rtl_init_ok_def by blast
  have u: "unat (of_nat (2 * length ?e) :: u16) div 2 = length ?e"
    using assms(4) by (subst unat_of_nat_less) simp_all
  have t: "encode_utf16 (s @ 0 # t) = ?e @ 0 # encode_utf16 t"
    by (simp add: encode_utf16_def utf16_of_def)
  show ?thesis
    using r [of "[]"] r [of "encode_utf16 t @ [0]"] u by (simp add: unicode_string_new_def us_text_def t Let_def del: of_nat_mult)
qed

theorem unicode_string_exact_witness:
  "us_text (unicode_string_new (\<lambda>b. let n = length (takeWhile (\<lambda>x. x \<noteq> 0) b) in (of_nat (2 * n), of_nat (2 * n + 2))) [0x44, 0x3A, 0, 0x58]) = [0x44, 0x3A]"
proof -
  let ?r = "\<lambda>b :: u16 list. let n = length (takeWhile (\<lambda>x. x \<noteq> 0) b) in (of_nat (2 * n), of_nat (2 * n + 2)) :: u16 \<times> u16"
  have "takeWhile (\<lambda>x. x \<noteq> 0) (s @ 0 # t) = s" if "0 \<notin> set s" for s t :: "u16 list"
    using that by (induction s) auto
  then have "rtl_init_ok ?r"
    by (simp add: rtl_init_ok_def Let_def)
  moreover have "list_all scalar_value [0x44, 0x3A]" "encode_utf16 [0x44, 0x3A] = [0x44, 0x3A]"
    by (simp_all add: scalar_value_def char_from_u32_def encode_utf16_def utf16_of_def)
  ultimately show ?thesis
    using unicode_string_exact [of ?r "[0x44, 0x3A]" "[0x58]"] by simp
qed

end
