(* ===== verification/Ioctl_Attach.thy ===== *)
theory Ioctl_Attach
  imports Ioctl_Control Kernel_Support
begin

text \<open>
  Preparing and attaching a volume on request (\<open>handle_jvck_prepare\<close> with both of its paths,
  and \<open>handle_jvck_attach\<close>, of \<open>lib/windrv/src/ioctl/dispatch.rs\<close>).

  The I/O objects a volume holds keep their handles as long as the volume is referenced; closing them
  with the last reference is not modelled.
\<close>


section \<open>Placeholders of a provisional volume\<close>

definition dummy_offset_store :: "u64 \<Rightarrow> 'w offset_store" where
  "dummy_offset_store total_sectors =
     \<lparr>os_load = (\<lambda>w. Inr \<lparr>eo_sector = 0, eo_total_sectors = total_sectors\<rparr>),
      os_store = (\<lambda>w _. (Inr (), w)),
      os_flush = (\<lambda>w. (Inr (), w)),
      os_load_state = (\<lambda>w. Inr Encrypt),
      os_store_state = (\<lambda>w _. (Inr (), w))\<rparr>"

definition dummy_sector_io :: "u32 \<Rightarrow> u64 \<Rightarrow> 'w sector_io" where
  "dummy_sector_io sector_size total_sectors =
     \<lparr>sio_sector_size = sector_size, sio_total_sectors = total_sectors,
      sio_read_sectors = (\<lambda>w _ _. Inl (Io ''DummySectorIo: not ready yet'')),
      sio_write_sectors = (\<lambda>w _ _. (Inl (Io ''DummySectorIo: not ready yet''), w))\<rparr>"

definition attach_source_of :: "prepare_req \<Rightarrow> attach_source" where
  "attach_source_of req = (if pr_is_os_volume req then Handover else Ioctl)"

definition provisional_volume ::
    "string \<Rightarrow> u32 \<Rightarrow> u64 \<Rightarrow> u64 \<Rightarrow> attach_source \<Rightarrow> device \<Rightarrow> 'w attached_volume" where
  "provisional_volume volume_path sector_size offset_sector tot source filter_do =
     (let eo = \<lparr>eo_sector = 0, eo_total_sectors = tot\<rparr>
      in \<lparr>av_volume_path = volume_path, av_sector_size = sector_size,
          av_io_config = Encrypted None offset_sector eo (dummy_offset_store tot),
          av_encryption = engine_new offset_sector eo, av_offset_store = dummy_offset_store tot,
          av_attach_source = source, av_filter_device = filter_do,
          av_sweep_io = dummy_sector_io sector_size tot, av_encrypted_boundary = 0\<rparr>)"

definition complete_volume ::
    "string \<Rightarrow> u32 \<Rightarrow> 'w io_config \<Rightarrow> u64 \<Rightarrow> encrypted_offset \<Rightarrow> 'w offset_store \<Rightarrow> attach_source \<Rightarrow> device
      \<Rightarrow> 'w sector_io \<Rightarrow> 'w attached_volume" where
  "complete_volume volume_path bps ioc offset_sector eo offset_store source filter_do sweep_io =
     \<lparr>av_volume_path = volume_path, av_sector_size = bps, av_io_config = ioc,
      av_encryption = engine_new offset_sector eo, av_offset_store = offset_store, av_attach_source = source,
      av_filter_device = filter_do, av_sweep_io = sweep_io, av_encrypted_boundary = eo_sector eo\<rparr>"

text \<open>Allocating a volume and filing it under its path.\<close>

definition register_volume :: "'w attached_volume \<Rightarrow> 'w drv \<Rightarrow> nat \<times> 'w drv" where
  "register_volume volume d =
     (let v = length (dr_heap d); h1 = dr_heap d @ [volume]
      in (v, d\<lparr>dr_heap := h1, dr_reg := reg_insert h1 v (dr_reg d)\<rparr>))"

definition unregister_volume :: "string \<Rightarrow> 'w drv \<Rightarrow> 'w drv" where
  "unregister_volume path d = d\<lparr>dr_reg := snd (reg_remove path (dr_reg d))\<rparr>"

text \<open>The clean-up of a half-made attachment.\<close>

definition abandon :: "'w drv_env \<Rightarrow> string \<Rightarrow> device \<Rightarrow> 'w drv \<Rightarrow> 'w drv" where
  "abandon E path filter_do d = detach_filter (ev_devices E) filter_do (unregister_volume path d)"

text \<open>Replacing the provisional volume by the complete one.\<close>

definition replace_volume :: "'w drv_env \<Rightarrow> device \<Rightarrow> 'w attached_volume \<Rightarrow> 'w drv \<Rightarrow> 'w drv" where
  "replace_volume E filter_do volume d =
     (let (v, d1) = register_volume volume (unregister_volume (av_volume_path volume) d)
      in filter_rebind_volume (ev_devices E) filter_do v d1)"


section \<open>Geometry and metadata\<close>

text \<open>Offset and size of the data region, as computed from the request.\<close>

definition prepare_layout :: "prepare_req \<Rightarrow> u32 \<Rightarrow> u64 \<Rightarrow> u64 \<times> u64" where
  "prepare_layout req sector_size total_sectors =
     (let rs = ucast (pr_metadata_size req div sector_size);
          footer_sectors = ucast (pr_use_footer req) * rs;
          header_sectors = ucast (pr_use_header req) * rs
      in (header_sectors, saturating_sub total_sectors (header_sectors + footer_sectors)))"

definition prepare_replica_lbas :: "prepare_req \<Rightarrow> u32 \<Rightarrow> u64 \<Rightarrow> u64 list" where
  "prepare_replica_lbas req sector_size total_sectors =
     (let rs = ucast (pr_metadata_size req div sector_size);
          fs = total_sectors - ucast (pr_use_footer req) * rs
      in map (\<lambda>i. of_nat i * rs) [0..<unat (pr_use_header req)] @
         map (\<lambda>j. fs + of_nat j * rs + rs - 1) [0..<unat (pr_use_footer req)])"

definition metadata_sector_buf :: "bytes \<Rightarrow> u32 \<Rightarrow> bytes" where
  "metadata_sector_buf block sector_size =
     (let copy_len = min METADATA_BLOCK_SIZE (unat sector_size)
      in buf_write 0 (take copy_len block) (replicate (unat sector_size) 0))"

primrec write_replicas :: "'w sector_io \<Rightarrow> bytes \<Rightarrow> u64 list \<Rightarrow> 'w \<Rightarrow> unit vck_result \<times> 'w" where
  "write_replicas io buf [] w = (Inr (), w)"
| "write_replicas io buf (lba # lbas) w =
     (case sio_write_sectors io w lba buf of
        (Inl e, w1) \<Rightarrow> (Inl e, w1)
      | (Inr _, w1) \<Rightarrow> write_replicas io buf lbas w1)"

definition IOCTL_STORAGE_GET_DEVICE_NUMBER :: u32 where "IOCTL_STORAGE_GET_DEVICE_NUMBER = 0x002D1080"

definition harddisk_path :: "u32 \<Rightarrow> string \<Rightarrow> string" where
  "harddisk_path disk_num rest =
     [backslash] @ ''Device'' @ [backslash] @ ''Harddisk'' @ decimal (unat disk_num) @ [backslash] @ rest"

definition nil_volume_id :: "string \<Rightarrow> volume_id" where
  "nil_volume_id path = \<lparr>vid_partition_guid = replicate 16 0, vid_device_path = path\<rparr>"

definition prepare_response ::
    "u64 \<Rightarrow> u64 \<Rightarrow> u32 \<Rightarrow> string \<times> string \<times> u64 \<Rightarrow> bool \<Rightarrow> prepare_resp" where
  "prepare_response offset_sector tot sector_size paths fully =
     (case paths of (part, disk, start) \<Rightarrow>
        \<lparr>pp_offset_sector = offset_sector, pp_data_sectors = tot, pp_sector_size = sector_size,
         pp_raw_partition_path = part, pp_raw_disk_path = disk, pp_partition_start_lba = start, pp_fully_attached = fully\<rparr>)"


section \<open>PREPARE with a filter in place\<close>

text \<open>The status of the two queries is ignored; the buffers keep what the kernel left in them.\<close>

definition adddevice_paths :: "'w nt_kernel \<Rightarrow> string \<Rightarrow> u32 \<Rightarrow> 'w \<Rightarrow> (string \<times> string \<times> u64) \<times> 'w" where
  "adddevice_paths K nt_path sector_size w =
     (case open_volume_handle_raw K w nt_path of
        (vh, w1) \<Rightarrow>
          let (sdn, info, w2) =
                (case vh of
                   None \<Rightarrow> (replicate 12 0, replicate 64 0, w1)
                 | Some h \<Rightarrow>
                     (snd (zw_device_io_control_file K w1 h IOCTL_STORAGE_GET_DEVICE_NUMBER 12),
                      snd (zw_device_io_control_file K w1 h IOCTL_DISK_GET_PARTITION_INFO_EX 64), zw_close K w1 h));
              disk_num = of_le_bytes (buf_slice 4 8 sdn) :: u32;
              part_num = of_le_bytes (buf_slice 8 12 sdn) :: u32;
              start_bytes = of_le_bytes (buf_slice 4 12 info) :: u64
          in ((harddisk_path disk_num (''Partition'' @ decimal (unat part_num)), harddisk_path disk_num ''DR0'',
               start_bytes div ucast sector_size), w2))"

text \<open>With a key: opening the metadata and replacing the provisional volume.\<close>

definition adddevice_attach ::
    "'w drv_env \<Rightarrow> prepare_req \<Rightarrow> device \<Rightarrow> device \<Rightarrow> u32 \<Rightarrow> u64 \<Rightarrow> string \<times> string \<times> u64 \<Rightarrow> 'w drv
      \<Rightarrow> bytes vck_result \<times> 'w drv" where
  "adddevice_attach E req filter_do lower_do sector_size total_sectors paths d =
     (let K = ev_kernel E;
          probe_io = ld_sector_io K (ld_new lower_do sector_size total_sectors)
      in case on_attach_volume E (pr_vmk req) None probe_io (dr_world d) of
           (Inl e, w1) \<Rightarrow> (Inl e, abandon E (pr_volume_path req) filter_do (d\<lparr>dr_world := w1\<rparr>))
         | (Inr ioc, w1) \<Rightarrow>
             (case ic_geometry ioc of
                None \<Rightarrow> (Inl (ValidationFailed ''on_attach returned passthrough for a VMK-provided volume''), d\<lparr>dr_world := w1\<rparr>)
              | Some (store_offset, eo, offset_store) \<Rightarrow>
                  let sweep_io = ld_sector_io K (ld_new lower_do sector_size (eo_total_sectors eo));
                      complete = complete_volume (pr_volume_path req) sector_size ioc store_offset eo offset_store
                        (attach_source_of req) filter_do sweep_io
                  in (encode_resp (en_prepare_resp (ev_codec E)
                        (prepare_response store_offset (eo_total_sectors eo) sector_size paths True)),
                      replace_volume E filter_do complete (d\<lparr>dr_world := w1\<rparr>))))"

definition handle_jvck_prepare_adddevice_path ::
    "'w drv_env \<Rightarrow> prepare_req \<Rightarrow> string \<Rightarrow> device \<Rightarrow> device \<Rightarrow> 'w drv \<Rightarrow> bytes vck_result \<times> 'w drv" where
  "handle_jvck_prepare_adddevice_path E req nt_path filter_do lower_do d =
     (let K = ev_kernel E
      in case kv_open_query K (dr_world d) (nil_volume_id nt_path) of
           (Inl e, w1) \<Rightarrow> (Inl e, d\<lparr>dr_world := w1\<rparr>)
         | (Inr geom_io, w1) \<Rightarrow>
             let sector_size = kv_sector_size geom_io;
                 total_sectors = kv_total_sectors geom_io;
                 w2 = kv_drop K w1 geom_io;
                 (offset_sector, tot) = prepare_layout req sector_size total_sectors;
                 lo = ld_sector_io K (ld_new lower_do sector_size total_sectors);
                 (written, w3) =
                   (if pr_metadata_block req = [] then (Inr (), w2)
                    else if length (pr_metadata_block req) < METADATA_BLOCK_SIZE
                    then (Inl (InvalidData ''metadata_block too short''), w2)
                    else write_replicas lo (metadata_sector_buf (pr_metadata_block req) sector_size)
                           (prepare_replica_lbas req sector_size total_sectors) w2)
             in (case written of
                   Inl e \<Rightarrow> (Inl e, d\<lparr>dr_world := w3\<rparr>)
                 | Inr _ \<Rightarrow>
                     let (v, d1) = register_volume
                           (provisional_volume (pr_volume_path req) sector_size offset_sector tot (attach_source_of req) filter_do)
                           (d\<lparr>dr_world := w3\<rparr>);
                         d2 = filter_bind_volume (ev_devices E) filter_do v d1;
                         (paths, w4) = adddevice_paths K nt_path sector_size (dr_world d2);
                         d3 = d2\<lparr>dr_world := w4\<rparr>
                     in if pr_vmk req \<noteq> [] then adddevice_attach E req filter_do lower_do sector_size total_sectors paths d3
                        else (encode_resp (en_prepare_resp (ev_codec E)
                                (prepare_response offset_sector tot sector_size paths False)), d3)))"


section \<open>PREPARE without a filter\<close>

text \<open>Lock, dismount, and lock again when the first attempt failed.\<close>

definition lock_and_dismount :: "'w nt_kernel \<Rightarrow> u64 option \<Rightarrow> 'w \<Rightarrow> bool \<times> 'w" where
  "lock_and_dismount K vol_handle w =
     (case vol_handle of
        None \<Rightarrow> (False, w)
      | Some h \<Rightarrow>
          let (st1, w1) = send_fsctl K w h FSCTL_LOCK_VOLUME;
              (_, w2) = send_fsctl K w1 h FSCTL_DISMOUNT_VOLUME
          in if nt_success st1 then (True, w2)
             else let (st2, w3) = send_fsctl K w2 h FSCTL_LOCK_VOLUME in (nt_success st2, w3))"

definition fallback_geometry :: "'w nt_kernel \<Rightarrow> u64 option \<Rightarrow> 'w \<Rightarrow> u32 \<times> u64" where
  "fallback_geometry K vol_handle w =
     (case vol_handle of
        None \<Rightarrow> (512, 0)
      | Some h \<Rightarrow>
          let (st1, geom) = zw_device_io_control_file K w h IOCTL_DISK_GET_DRIVE_GEOMETRY 32;
              bps0 = of_le_bytes (buf_slice 20 24 geom) :: u32;
              bps = (if nt_success st1 \<and> bps0 \<noteq> 0 then bps0 else 512);
              (st2, len_buf) = zw_device_io_control_file K w h IOCTL_DISK_GET_LENGTH_INFO 8
          in (bps, if nt_success st2 then (of_le_bytes len_buf :: u64) div ucast bps else 0))"

definition fallback_target :: "'w drv_env \<Rightarrow> u64 option \<Rightarrow> 'w \<Rightarrow> device" where
  "fallback_target E vol_handle w = (case vol_handle of None \<Rightarrow> 0 | Some h \<Rightarrow> ev_related_device E w h)"

text \<open>Writing the replicas through the volume, on a handle of its own.  When a write fails, the caller
  closes the handle, after its clean-up.\<close>

definition fallback_write_metadata ::
    "'w drv_env \<Rightarrow> prepare_req \<Rightarrow> string \<Rightarrow> u32 \<Rightarrow> u64 \<Rightarrow> 'w \<Rightarrow> ((vck_error \<times> kernel_volume_io option) + unit) \<times> 'w" where
  "fallback_write_metadata E req nt_path sector_size total_sectors w =
     (let K = ev_kernel E
      in if pr_metadata_block req = [] then (Inr (), w)
         else if length (pr_metadata_block req) < METADATA_BLOCK_SIZE
         then (Inl (InvalidData ''metadata_block must be at least 512 bytes'', None), w)
         else (case kv_open K w (nil_volume_id nt_path) sector_size total_sectors of
                 (Inl e, w1) \<Rightarrow> (Inl (e, None), w1)
               | (Inr write_io, w1) \<Rightarrow>
                   (case write_replicas (kv_sector_io K write_io)
                         (metadata_sector_buf (pr_metadata_block req) sector_size)
                         (prepare_replica_lbas req sector_size total_sectors) w1 of
                      (Inl e, w2) \<Rightarrow> (Inl (e, Some write_io), w2)
                    | (Inr _, w2) \<Rightarrow> (Inr (), kv_drop K w2 write_io))))"

definition fallback_paths :: "'w nt_kernel \<Rightarrow> string \<Rightarrow> u32 \<Rightarrow> 'w \<Rightarrow> (string \<times> string \<times> u64) \<times> 'w" where
  "fallback_paths K nt_path sector_size w =
     (case open_volume_handle_raw K w nt_path of
        (vh, w1) \<Rightarrow>
          let (disk_num, part_num, start_offset_bytes, w2) =
                (case vh of
                   None \<Rightarrow> (0 :: u32, 0 :: u32, 0 :: u64, w1)
                 | Some h \<Rightarrow>
                     let (st1, sdn) = zw_device_io_control_file K w1 h IOCTL_STORAGE_GET_DEVICE_NUMBER 12;
                         (st2, info) = zw_device_io_control_file K w1 h IOCTL_DISK_GET_PARTITION_INFO_EX 64
                     in (if nt_success st1 then of_le_bytes (buf_slice 4 8 sdn) else 0,
                         if nt_success st1 then of_le_bytes (buf_slice 8 12 sdn) else 0,
                         if nt_success st2 then of_le_bytes (buf_slice 4 12 info) else 0,
                         zw_close K w1 h));
              known = (disk_num > 0 \<or> part_num > 0)
          in ((if known then harddisk_path disk_num (''Partition'' @ decimal (unat part_num)) else [],
               if known then harddisk_path disk_num ''DR0'' else [],
               start_offset_bytes div ucast sector_size), w2))"

text \<open>The device the sweep uses: the raw disk shifted to the partition, the partition, or the volume.\<close>

definition fallback_sweep_io ::
    "'w nt_kernel \<Rightarrow> string \<Rightarrow> string \<times> string \<times> u64 \<Rightarrow> u32 \<Rightarrow> u64 \<Rightarrow> 'w \<Rightarrow> 'w sector_io vck_result \<times> 'w" where
  "fallback_sweep_io K io_nt_path paths store_bps store_data w =
     (case paths of (raw_partition_path, raw_disk_path, partition_start_lba) \<Rightarrow>
        if raw_disk_path \<noteq> [] \<and> partition_start_lba > 0
        then (case kv_open K w (nil_volume_id raw_disk_path) store_bps (partition_start_lba + store_data + 1024) of
                (Inl e, w1) \<Rightarrow> (Inl e, w1)
              | (Inr disk_io, w1) \<Rightarrow> (Inr (offset_sector_io (kv_sector_io K disk_io) partition_start_lba), w1))
        else (case kv_open K w (nil_volume_id (if raw_partition_path \<noteq> [] then raw_partition_path else io_nt_path)) store_bps store_data of
                (Inl e, w1) \<Rightarrow> (Inl e, w1)
              | (Inr part_io, w1) \<Rightarrow> (Inr (kv_sector_io K part_io), w1)))"

definition fallback_attach ::
    "'w drv_env \<Rightarrow> prepare_req \<Rightarrow> device \<Rightarrow> string \<times> string \<times> u64 \<Rightarrow> 'w drv \<Rightarrow> bytes vck_result \<times> 'w drv" where
  "fallback_attach E req filter_do paths d =
     (let K = ev_kernel E;
          path = pr_volume_path req;
          io_nt_path = (if pr_nt_device_path req \<noteq> [] then pr_nt_device_path req else win32_volume_path_to_nt path)
      in case kv_open_query K (dr_world d) (nil_volume_id io_nt_path) of
           (Inl e, w1) \<Rightarrow> (Inl e, abandon E path filter_do (d\<lparr>dr_world := w1\<rparr>))
         | (Inr probe_io, w1) \<Rightarrow>
             let store_bps = kv_sector_size probe_io
             in (case on_attach_volume E (pr_vmk req) None (kv_sector_io K probe_io) w1 of
                   (Inl e, w2) \<Rightarrow> (Inl e, abandon E path filter_do (d\<lparr>dr_world := kv_drop K w2 probe_io\<rparr>))
                 | (Inr ioc, w2) \<Rightarrow>
                     (case ic_geometry ioc of
                        None \<Rightarrow> (Inl (ValidationFailed ''on_attach returned passthrough for a VMK-provided volume''), d\<lparr>dr_world := w2\<rparr>)
                      | Some (store_offset, eo, offset_store) \<Rightarrow>
                          (case fallback_sweep_io K io_nt_path paths store_bps (eo_total_sectors eo) w2 of
                             (Inl e, w3) \<Rightarrow> (Inl e, abandon E path filter_do (d\<lparr>dr_world := w3\<rparr>))
                           | (Inr sweep_io, w3) \<Rightarrow>
                               (encode_resp (en_prepare_resp (ev_codec E)
                                  (prepare_response store_offset (eo_total_sectors eo) store_bps paths True)),
                                replace_volume E filter_do
                                  (complete_volume path store_bps ioc store_offset eo offset_store (attach_source_of req) filter_do sweep_io)
                                  (d\<lparr>dr_world := w3\<rparr>))))))"

text \<open>From the attached filter on: provisional volume, unlock, metadata, paths, complete volume.\<close>

definition prepare_fallback_bind ::
    "'w drv_env \<Rightarrow> prepare_req \<Rightarrow> string \<Rightarrow> u64 option \<Rightarrow> bool \<Rightarrow> u32 \<Rightarrow> u64 \<Rightarrow> device \<Rightarrow> 'w drv
      \<Rightarrow> bytes vck_result \<times> 'w drv" where
  "prepare_fallback_bind E req nt_path vol_handle held_lock sector_size total_sectors filter_do d =
     (let K = ev_kernel E;
          (offset_sector, tot) = prepare_layout req sector_size total_sectors;
          (v, d1) = register_volume
            (provisional_volume (pr_volume_path req) sector_size offset_sector tot (attach_source_of req) filter_do) d;
          d2 = filter_bind_volume (ev_devices E) filter_do v d1;
          w3 = release_volume K vol_handle held_lock (dr_world d2)
      in case fallback_write_metadata E req nt_path sector_size total_sectors w3 of
           (Inl (e, left_open), w4) \<Rightarrow>
             let d3 = abandon E (pr_volume_path req) filter_do (d2\<lparr>dr_world := w4\<rparr>)
             in (Inl e, d3\<lparr>dr_world := (case left_open of None \<Rightarrow> dr_world d3 | Some io \<Rightarrow> kv_drop K (dr_world d3) io)\<rparr>)
         | (Inr _, w4) \<Rightarrow>
             let (paths, w5) = fallback_paths K nt_path sector_size w4;
                 d3 = d2\<lparr>dr_world := w5\<rparr>
             in if pr_vmk req \<noteq> [] then fallback_attach E req filter_do paths d3
                else (encode_resp (en_prepare_resp (ev_codec E) (prepare_response offset_sector tot sector_size paths False)), d3))"

definition prepare_fallback ::
    "'w drv_env \<Rightarrow> prepare_req \<Rightarrow> string \<Rightarrow> 'w drv \<Rightarrow> bytes vck_result \<times> 'w drv" where
  "prepare_fallback E req nt_path d =
     (let K = ev_kernel E;
          (vol_handle, w1) = open_volume_handle_raw K (dr_world d) nt_path;
          (held_lock, w2) = lock_and_dismount K vol_handle w1;
          (sector_size, total_sectors) = fallback_geometry K vol_handle w2
      in if sector_size = 0 \<or> total_sectors = 0
         then (Inl (Io ''could not query volume geometry''), d\<lparr>dr_world := release_volume K vol_handle held_lock w2\<rparr>)
         else let target_do = fallback_target E vol_handle w2;
                  (attached, d1) =
                    (if target_do \<noteq> 0 then attach_filter_to_raw_device (ev_devices E) target_do (d\<lparr>dr_world := w2\<rparr>)
                     else attach_filter_unbound (ev_devices E) (win32_volume_path_to_nt (pr_volume_path req)) (d\<lparr>dr_world := w2\<rparr>))
              in (case attached of
                    Inl e \<Rightarrow> (Inl e, d1\<lparr>dr_world := release_volume K vol_handle held_lock (dr_world d1)\<rparr>)
                  | Inr (filter_do, _) \<Rightarrow>
                      prepare_fallback_bind E req nt_path vol_handle held_lock sector_size total_sectors filter_do d1))"

definition handle_jvck_prepare :: "'w drv_env \<Rightarrow> bytes \<Rightarrow> 'w drv \<Rightarrow> bytes vck_result \<times> 'w drv" where
  "handle_jvck_prepare E input d =
     (case decode_req (de_prepare_req (ev_codec E)) input of
        Inl e \<Rightarrow> (Inl e, d)
      | Inr req \<Rightarrow>
          if reg_get (pr_volume_path req) (dr_reg d) \<noteq> None then (Inl (Unsupported ''volume already prepared/attached''), d)
          else if rg_driver_object (dr_reg d) = 0 then (Inl (Io ''driver object not registered''), d)
          else let nt_path = (if pr_nt_device_path req \<noteq> [] then pr_nt_device_path req
                              else win32_volume_path_to_nt (pr_volume_path req))
               in (case find_filter (ev_devices E) nt_path d of
                     (Some (filter_do, lower_do), d1) \<Rightarrow>
                       handle_jvck_prepare_adddevice_path E req nt_path filter_do lower_do d1
                   | (None, d1) \<Rightarrow> prepare_fallback E req nt_path d1))"


section \<open>ATTACH\<close>

definition attach_sweep_io ::
    "'w nt_kernel \<Rightarrow> attach_req \<Rightarrow> string \<Rightarrow> u32 \<Rightarrow> u64 \<Rightarrow> 'w \<Rightarrow> 'w sector_io vck_result \<times> 'w" where
  "attach_sweep_io K req io_nt_path bps tot w =
     (case kv_open K w (nil_volume_id (if ar_raw_partition_path req \<noteq> [] then ar_raw_partition_path req else io_nt_path)) bps tot of
        (Inl e, w1) \<Rightarrow> (Inl e, w1)
      | (Inr part_io, w1) \<Rightarrow> (Inr (kv_sector_io K part_io), w1))"

definition handle_jvck_attach :: "'w drv_env \<Rightarrow> bytes \<Rightarrow> 'w drv \<Rightarrow> bytes vck_result \<times> 'w drv" where
  "handle_jvck_attach E input d =
     (case decode_req (de_attach_req (ev_codec E)) input of
        Inl e \<Rightarrow> (Inl e, d)
      | Inr req \<Rightarrow>
          (case reg_get (ar_volume_path req) (dr_reg d) of
             None \<Rightarrow> (Inl (NotFound ''volume not prepared; call IOCTL_JVCK_PREPARE first''), d)
           | Some p \<Rightarrow>
               if av_cipher_supplier (dr_heap d ! p) \<noteq> None then (Inl (Unsupported ''volume already fully attached''), d)
               else
                 let K = ev_kernel E;
                     filter_do = av_filter_device (dr_heap d ! p);
                     io_nt_path = (if ar_nt_device_path req \<noteq> [] then ar_nt_device_path req
                                   else win32_volume_path_to_nt (ar_volume_path req))
                 in (case kv_open_query K (dr_world d) (nil_volume_id io_nt_path) of
                       (Inl e, w1) \<Rightarrow> (Inl e, d\<lparr>dr_world := w1\<rparr>)
                     | (Inr probe_io, w1) \<Rightarrow>
                         let bps = kv_sector_size probe_io
                         in (case on_attach_volume E (ar_vmk req) None (kv_sector_io K probe_io) w1 of
                               (Inl e, w2) \<Rightarrow> (Inl e, d\<lparr>dr_world := kv_drop K w2 probe_io\<rparr>)
                             | (Inr ioc, w2) \<Rightarrow>
                                 (case ic_geometry ioc of
                                    None \<Rightarrow> (Inl (ValidationFailed ''on_attach returned passthrough for a VMK-provided volume''), d\<lparr>dr_world := w2\<rparr>)
                                  | Some (offset_sector, eo, offset_store) \<Rightarrow>
                                      (case attach_sweep_io K req io_nt_path bps (eo_total_sectors eo) w2 of
                                         (Inl e, w3) \<Rightarrow> (Inl e, d\<lparr>dr_world := w3\<rparr>)
                                       | (Inr sweep_io, w3) \<Rightarrow>
                                           (encode_resp (en_attach_resp (ev_codec E)
                                              \<lparr>at_offset_sector = offset_sector, at_total_sectors = eo_total_sectors eo,
                                               at_sector_size = bps\<rparr>),
                                            replace_volume E filter_do
                                              (complete_volume (ar_volume_path req) bps ioc offset_sector eo offset_store Ioctl
                                                 filter_do sweep_io)
                                              (d\<lparr>dr_world := w3\<rparr>))))))))"

end
