(* ===== verification/Ioctl_Dispatch.thy ===== *)
theory Ioctl_Dispatch
  imports Ioctl_Attach
begin

text \<open>
  Authorizing and routing control requests (\<open>dispatch_ioctl\<close> of
  \<open>lib/windrv/src/ioctl/dispatch.rs\<close>), and what the requests do to the driver as a whole.
\<close>


section \<open>Dispatch\<close>

definition dispatch_ioctl ::
    "(auth_context \<Rightarrow> unit vck_result) \<Rightarrow> 'w drv_env \<Rightarrow> auth_context \<Rightarrow> bytes \<Rightarrow> 'w drv \<Rightarrow> bytes vck_result \<times> 'w drv" where
  "dispatch_ioctl auth E ctx input d =
     (case auth ctx of
        Inl e \<Rightarrow> (Inl e, d)
      | Inr _ \<Rightarrow>
          let code = ac_ioctl_code ctx
          in if code = IOCTL_VCK_GET_STATUS then handle_get_status E input d
             else if code = IOCTL_VCK_START_ENCRYPT then handle_start_encrypt E input d
             else if code = IOCTL_VCK_START_DECRYPT then handle_start_decrypt E input d
             else if code = IOCTL_VCK_GET_PROGRESS then handle_get_progress E input d
             else if code = IOCTL_VCK_PAUSE then handle_pause E input d
             else if code = IOCTL_JVCK_PREPARE then handle_jvck_prepare E input d
             else if code = IOCTL_JVCK_ATTACH then handle_jvck_attach E input d
             else if code = IOCTL_VCK_DETACH then handle_detach E input d
             else if code = IOCTL_VCK_PAUSE_OS_VOLUME then handle_pause_os_volume d
             else if code = IOCTL_VCK_DETACH_ALL_VOLUMES then handle_detach_all_volumes E d
             else if code = IOCTL_VCK_BENCH_AES then handle_bench_aes E input d
             else if code = IOCTL_VCK_LIST_VOLUMES then handle_list_volumes E d
             else (Inl (Unsupported ''unknown IOCTL code''), d))"


section \<open>Queries change nothing\<close>

lemma handle_get_status_same: "handle_get_status E input d = (r, d') \<Longrightarrow> same_driver d d'"
  by (auto simp: handle_get_status_def Let_def split: sum.splits prod.splits
      dest!: find_filter_same resolve_volume_same intro: same_driver_trans)

lemma handle_get_progress_same: "handle_get_progress E input d = (r, d') \<Longrightarrow> same_driver d d'"
  by (auto simp: handle_get_progress_def with_volume_def Let_def split: sum.splits prod.splits option.splits
      dest!: resolve_volume_same)


section \<open>Operations on devices leave volumes and registry alone\<close>

lemma dev_bind_frame [simp]: "dr_heap (dev_bind DS f v d) = dr_heap d" "dr_reg (dev_bind DS f v d) = dr_reg d"
  by (auto simp: dev_bind_def split: option.splits prod.splits)

lemma set_ext_volume_frame [simp]: "dr_heap (set_ext_volume f v d) = dr_heap d" "dr_reg (set_ext_volume f v d) = dr_reg d"
  by (auto simp: set_ext_volume_def split: option.splits)

lemma bind_frame [simp]:
  "dr_heap (filter_bind_volume DS f v d) = dr_heap d" "dr_reg (filter_bind_volume DS f v d) = dr_reg d"
  "dr_heap (filter_rebind_volume DS f v d) = dr_heap d" "dr_reg (filter_rebind_volume DS f v d) = dr_reg d"
  by (simp_all add: filter_bind_volume_def filter_rebind_volume_def)

lemma wake_for_frame [simp]: "dr_heap (wake_for v d) = dr_heap d" "dr_reg (wake_for v d) = dr_reg d"
  by (auto simp: wake_for_def Let_def split: option.splits)

lemma teardown_frame [simp]:
  "dr_heap (unbind_filter f d) = dr_heap d" "dr_reg (unbind_filter f d) = dr_reg d"
  "dr_heap (detach_filter DS f d) = dr_heap d" "dr_reg (detach_filter DS f d) = dr_reg d"
  by (auto simp: unbind_filter_def detach_filter_def Let_def split: option.splits prod.splits)

lemma install_filter_frame: "install_filter DS vo rw d = (r, d1) \<Longrightarrow> dr_heap d1 = dr_heap d \<and> dr_reg d1 = dr_reg d"
  by (auto simp: install_filter_def Let_def split: prod.splits sum.splits option.splits)

lemma attach_frame:
  "attach_filter_to_raw_device DS t d = (r, d1) \<Longrightarrow> dr_heap d1 = dr_heap d \<and> dr_reg d1 = dr_reg d"
  "attach_filter_unbound DS p d = (r, d1) \<Longrightarrow> dr_heap d1 = dr_heap d \<and> dr_reg d1 = dr_reg d"
  by (auto simp: attach_filter_to_raw_device_def attach_filter_unbound_def dest!: install_filter_frame)


section \<open>An encrypted operating-system volume\<close>

text \<open>\<open>guarded p v d\<close>: volume \<open>v\<close> is registered under \<open>p\<close>, belongs to the operating
  system, has a cipher and holds encrypted sectors.\<close>

definition guarded :: "string \<Rightarrow> nat \<Rightarrow> 'w drv \<Rightarrow> bool" where
  "guarded p v d \<longleftrightarrow> reg_ok (dr_heap d) (dr_reg d) \<and> reg_get p (dr_reg d) = Some v \<and>
     is_os_volume (dr_heap d ! v) \<and> has_encrypted_data (dr_heap d ! v) \<and> av_cipher_supplier (dr_heap d ! v) \<noteq> None"

lemma guarded_cong: "dr_heap d' = dr_heap d \<Longrightarrow> dr_reg d' = dr_reg d \<Longrightarrow> guarded p v d' = guarded p v d"
  by (simp add: guarded_def)

lemma guarded_same: "same_driver d d' \<Longrightarrow> guarded p v d' = guarded p v d"
  by (simp add: guarded_def same_driver_def)

lemma guarded_lt: "guarded p v d \<Longrightarrow> v < length (dr_heap d)"
  by (auto simp: guarded_def reg_ok_def)

lemma guarded_world [simp]: "guarded p v (d\<lparr>dr_world := w\<rparr>) = guarded p v d"
  by (simp add: guarded_def)

text \<open>Changing a volume without touching what identifies it.\<close>

lemma guarded_update:
  assumes "guarded p v d" "\<And>x. av_volume_path (f x) = av_volume_path x" "\<And>x. av_attach_source (f x) = av_attach_source x"
    "\<And>x. av_encrypted_boundary (f x) = av_encrypted_boundary x" "\<And>x. av_io_config (f x) = av_io_config x"
  shows "guarded p v (update_volume u f d)"
proof -
  have nth: "dr_heap (update_volume u f d) ! i = (if i = u \<and> u < length (dr_heap d) then f (dr_heap d ! u) else dr_heap d ! i)"
    if "i < length (dr_heap d)" for i
    using that by (auto simp: update_volume_def nth_list_update)
  have "reg_ok (dr_heap (update_volume u f d)) (dr_reg d)"
    using assms(1,2) by (simp add: guarded_def update_volume_def reg_ok_update)
  then show ?thesis
    using assms nth [OF guarded_lt [OF assms(1)]]
    by (auto simp: guarded_def is_os_volume_def has_encrypted_data_def av_cipher_supplier_def) (simp_all add: update_volume_def)
qed

lemma guarded_register:
  assumes "guarded p v d" "av_volume_path volume \<noteq> p"
  shows "guarded p v (snd (register_volume volume d))"
proof -
  have ok: "reg_ok (dr_heap d @ [volume]) (dr_reg d)"
    using assms(1) by (simp add: guarded_def reg_ok_alloc)
  show ?thesis
    using assms guarded_lt [OF assms(1)] reg_ok_insert [OF ok, of "length (dr_heap d)"] reg_get_insert [OF ok, of p "length (dr_heap d)"]
    by (simp add: guarded_def register_volume_def Let_def nth_append)
qed

lemma guarded_unregister: "guarded p v d \<Longrightarrow> q \<noteq> p \<Longrightarrow> guarded p v (unregister_volume q d)"
  using reg_ok_remove [of "dr_heap d" "dr_reg d" q] reg_get_remove [of "dr_heap d" "dr_reg d" p q]
  by (simp add: guarded_def unregister_volume_def)

lemma guarded_abandon: "guarded p v d \<Longrightarrow> q \<noteq> p \<Longrightarrow> guarded p v (abandon E q f d)"
  using guarded_unregister [of p v d q] guarded_cong [of "abandon E q f d" "unregister_volume q d"] by (simp add: abandon_def)

lemma guarded_replace: "guarded p v d \<Longrightarrow> av_volume_path volume \<noteq> p \<Longrightarrow> guarded p v (replace_volume E f volume d)"
  using guarded_register [OF guarded_unregister, of p v d "av_volume_path volume" volume]
    guarded_cong [of "replace_volume E f volume d" "snd (register_volume volume (unregister_volume (av_volume_path volume) d))"]
  by (simp add: replace_volume_def split_beta)

text \<open>Every handler keeps an encrypted volume of the operating system.\<close>

lemma guarded_with_volume:
  assumes "guarded p v d" "\<And>u d1. guarded p v d1 \<Longrightarrow> guarded p v (snd (f u d1))"
  shows "guarded p v (snd (with_volume E input f d))"
  using assms guarded_same [OF resolve_volume_same, of E _ d] by (auto simp: with_volume_def split: sum.splits prod.splits option.splits)

lemma guarded_pause: "guarded p v d \<Longrightarrow> guarded p v (pause_volume u d)"
  unfolding pause_volume_def by (rule guarded_update) simp_all

lemma guarded_command: "guarded p v d \<Longrightarrow> guarded p v (wake_for u (command_volume cmd u d))"
proof -
  assume g: "guarded p v d"
  obtain e1 w1 where c: "cmd (av_offset_store (dr_heap d ! u)) (av_encryption (dr_heap d ! u)) (dr_world d) = (e1, w1)"
    by fastforce
  have "guarded p v (update_volume u (\<lambda>x. x\<lparr>av_encryption := e1\<rparr>) d)"
    by (rule guarded_update [OF g]) simp_all
  then show ?thesis
    using c guarded_cong [of "wake_for u (command_volume cmd u d)" "command_volume cmd u d"] by (simp add: command_volume_def Let_def)
qed

lemma guarded_detach:
  assumes "guarded p v d" "q \<noteq> p"
  shows "guarded p v (snd (detach_volume_with_dismount E q ignore keep d))"
proof -
  let ?d = "d\<lparr>dr_reg := snd (reg_remove q (dr_reg d))\<rparr>"
  have g: "guarded p v ?d"
    using guarded_unregister [OF assms] by (simp add: unregister_volume_def)
  have "guarded p v (update_volume u (\<lambda>x. x\<lparr>av_filter_device := 0\<rparr>) ?d)" for u
    by (rule guarded_update [OF g]) simp_all
  then show ?thesis
    using g by (cases "reg_remove q (dr_reg d)")
      (auto simp: detach_volume_with_dismount_def Let_def guarded_def split: option.splits prod.splits sum.splits)
qed

lemma guarded_handle_detach:
  assumes "guarded p v d"
  shows "guarded p v (snd (handle_detach E input d))"
proof (cases "decode_req (de_volume_request (ev_codec E)) input")
  case (Inl e)
  then show ?thesis
    using assms by (simp add: handle_detach_def)
next
  case (Inr req)
  show ?thesis
  proof (cases "vr_volume_path req = p")
    case True
    then show ?thesis
      using assms Inr by (simp add: handle_detach_def guarded_def)
  next
    case False
    then show ?thesis
      using guarded_detach [OF assms False, of E False True] assms Inr
      by (auto simp: handle_detach_def split: option.splits prod.splits sum.splits)
  qed
qed

lemma guarded_fold:
  assumes "guarded p v d" "\<And>x d1. x \<in> set xs \<Longrightarrow> guarded p v d1 \<Longrightarrow> guarded p v (f x d1)"
  shows "guarded p v (fold f xs d)"
  using assms by (induction xs arbitrary: d) auto

lemma guarded_not_data_path: "guarded p v d \<Longrightarrow> p \<notin> set (data_paths d)"
proof
  assume g: "guarded p v d" and "p \<in> set (data_paths d)"
  then obtain u where u: "u \<in> set (reg_all (dr_reg d))" "\<not> is_os_volume (dr_heap d ! u)" "p = av_volume_path (dr_heap d ! u)"
    by (auto simp: data_paths_def)
  have ok: "reg_ok (dr_heap d) (dr_reg d)"
    using g by (simp add: guarded_def)
  then have "reg_get p (dr_reg d) = Some u"
    using u(1,3) reg_all_iff [OF ok] unfolding reg_ok_def by metis
  then show False
    using g u(2) by (simp add: guarded_def)
qed

lemma guarded_handle_detach_all: "guarded p v d \<Longrightarrow> guarded p v (snd (handle_detach_all_volumes E d))"
  unfolding handle_detach_all_volumes_def snd_conv
  by (rule guarded_fold) (use guarded_not_data_path guarded_detach in metis)+

lemma guarded_handle_pause_os: "guarded p v d \<Longrightarrow> guarded p v (snd (handle_pause_os_volume d))"
  unfolding handle_pause_os_volume_def snd_conv by (rule guarded_fold) (simp_all add: guarded_pause)

lemma guarded_handle_bench: "guarded p v d \<Longrightarrow> guarded p v (snd (handle_bench_aes E input d))"
  by (simp add: handle_bench_aes_def Let_def split: sum.splits prod.splits)

lemma volume_paths [simp]:
  "av_volume_path (provisional_volume p ss o1 t src f) = p"
  "av_volume_path (complete_volume p ss ioc o1 eo os src f io) = p"
  by (simp_all add: provisional_volume_def complete_volume_def Let_def)

lemma guarded_adddevice_attach:
  assumes "guarded p v d" "pr_volume_path req \<noteq> p"
  shows "guarded p v (snd (adddevice_attach E req f l ss t paths d))"
  using assms by (auto simp: adddevice_attach_def Let_def guarded_abandon guarded_replace split: prod.splits sum.splits option.splits)

lemma guarded_fallback_attach:
  assumes "guarded p v d" "pr_volume_path req \<noteq> p"
  shows "guarded p v (snd (fallback_attach E req f paths d))"
  using assms by (simp add: fallback_attach_def Let_def guarded_abandon guarded_replace split: prod.splits sum.splits option.splits)

text \<open>Registering the provisional volume and binding it.\<close>

lemma guarded_provisional:
  assumes "guarded p v d" "pr_volume_path req \<noteq> p"
    "x = register_volume (provisional_volume (pr_volume_path req) ss o1 t src f) d"
  shows "guarded p v (filter_bind_volume DS f (fst x) (snd x))"
  using guarded_register [OF assms(1), of "provisional_volume (pr_volume_path req) ss o1 t src f"] assms(2,3)
    guarded_cong [of "filter_bind_volume DS f (fst x) (snd x)" "snd x"] by simp

lemma guarded_prepare_adddevice:
  assumes "guarded p v d" "pr_volume_path req \<noteq> p"
  shows "guarded p v (snd (handle_jvck_prepare_adddevice_path E req nt f l d))"
  unfolding handle_jvck_prepare_adddevice_path_def Let_def split_beta
  using assms
  by (auto split: sum.split intro!: guarded_adddevice_attach guarded_provisional [OF _ assms(2) refl])

lemma guarded_prepare_bind:
  assumes "guarded p v d" "pr_volume_path req \<noteq> p"
  shows "guarded p v (snd (prepare_fallback_bind E req nt vh held ss t f d))"
  unfolding prepare_fallback_bind_def Let_def split_beta
  using assms
  by (auto split: sum.split intro!: guarded_abandon guarded_fallback_attach guarded_provisional [OF _ assms(2) refl])

lemma guarded_prepare_fallback:
  assumes "guarded p v d" "pr_volume_path req \<noteq> p"
  shows "guarded p v (snd (prepare_fallback E req nt d))"
proof -
  have att: "guarded p v (snd (attach_filter_to_raw_device DS t (d\<lparr>dr_world := w\<rparr>)))"
    "guarded p v (snd (attach_filter_unbound DS q (d\<lparr>dr_world := w\<rparr>)))" for DS t w q
    using assms(1) attach_frame [of DS _ "d\<lparr>dr_world := w\<rparr>"]
    by (metis guarded_cong guarded_world prod.collapse)+
  show ?thesis
    unfolding prepare_fallback_def Let_def split_beta
    using assms by (auto split: sum.split intro!: guarded_prepare_bind att)
qed

lemma guarded_handle_prepare:
  assumes "guarded p v d"
  shows "guarded p v (snd (handle_jvck_prepare E input d))"
proof (cases "decode_req (de_prepare_req (ev_codec E)) input")
  case (Inr req)
  show ?thesis
  proof (cases "reg_get (pr_volume_path req) (dr_reg d) = None")
    case True
    then have ne: "pr_volume_path req \<noteq> p"
      using assms by (auto simp: guarded_def)
    have find: "guarded p v d1" if "find_filter DS q d = (r, d1)" for DS q r d1
      using guarded_same [OF find_filter_same [OF that]] assms by blast
    show ?thesis
      using True Inr ne assms find
      by (auto simp: handle_jvck_prepare_def Let_def guarded_prepare_adddevice guarded_prepare_fallback
          split: prod.split option.split)
  qed (use assms Inr in \<open>simp add: handle_jvck_prepare_def\<close>)
qed (use assms in \<open>simp add: handle_jvck_prepare_def\<close>)

lemma guarded_handle_attach:
  assumes "guarded p v d"
  shows "guarded p v (snd (handle_jvck_attach E input d))"
proof (cases "decode_req (de_attach_req (ev_codec E)) input")
  case (Inr req)
  show ?thesis
  proof (cases "ar_volume_path req = p")
    case True
    then show ?thesis
      using assms Inr by (simp add: handle_jvck_attach_def guarded_def)
  next
    case False
    then show ?thesis
      using assms Inr
      by (auto simp: handle_jvck_attach_def Let_def guarded_replace split: prod.split sum.split option.split)
  qed
qed (use assms in \<open>simp add: handle_jvck_attach_def\<close>)

lemma guarded_dispatch:
  assumes "guarded p v d"
  shows "guarded p v (snd (dispatch_ioctl auth E ctx input d))"
proof -
  have q: "guarded p v (snd (handle_get_status E input d))" "guarded p v (snd (handle_get_progress E input d))"
    using assms guarded_same [OF handle_get_status_same] guarded_same [OF handle_get_progress_same] by (metis prod.collapse)+
  have c: "guarded p v (snd (handle_start_encrypt E input d))" "guarded p v (snd (handle_start_decrypt E input d))"
    "guarded p v (snd (handle_pause E input d))"
    unfolding handle_start_encrypt_def handle_start_decrypt_def handle_pause_def
    using assms by (auto intro!: guarded_with_volume guarded_command guarded_pause)
  show ?thesis
    using assms q c by (simp add: dispatch_ioctl_def Let_def guarded_handle_prepare guarded_handle_attach guarded_handle_detach
        guarded_handle_pause_os guarded_handle_detach_all guarded_handle_bench handle_list_volumes_def split: sum.split)
qed


section \<open>Pausing at shutdown\<close>

lemma pause_idem [simp]: "pause (pause e) = pause e"
  by (simp add: pause_def)

lemma paused_no_step: "progress_step io c store bsz (pause e) w = (Inr False, pause e, w)"
  by (cases "en_state e") (simp_all add: pause_def progress_step_def)

lemma pause_fold:
  "dr_heap (fold (\<lambda>v d. if is_os_volume (dr_heap d ! v) then pause_volume v d else d) vs d) ! i =
     (if i \<in> set vs \<and> is_os_volume (dr_heap d ! i) \<and> i < length (dr_heap d)
      then (dr_heap d ! i)\<lparr>av_encryption := pause (av_encryption (dr_heap d ! i))\<rparr> else dr_heap d ! i)"
proof (induction vs arbitrary: d)
  case (Cons u vs)
  define d1 where "d1 = (if is_os_volume (dr_heap d ! u) then pause_volume u d else d)"
  have len: "length (dr_heap d1) = length (dr_heap d)"
    by (simp add: d1_def pause_volume_def update_volume_def)
  have nth: "dr_heap d1 ! i = (if i = u \<and> is_os_volume (dr_heap d ! u) \<and> u < length (dr_heap d)
      then (dr_heap d ! u)\<lparr>av_encryption := pause (av_encryption (dr_heap d ! u))\<rparr> else dr_heap d ! i)" for i
    by (cases "u < length (dr_heap d)")
      (auto simp: d1_def pause_volume_def update_volume_def nth_list_update list_update_beyond)
  have os: "is_os_volume (dr_heap d1 ! i) = is_os_volume (dr_heap d ! i)" for i
    by (simp add: nth is_os_volume_def)
  show ?case
    unfolding fold_Cons o_apply d1_def [symmetric] Cons.IH [of d1] os len nth by auto
qed simp

lemma pause_fold_frame:
  "dr_reg (fold (\<lambda>v d. if is_os_volume (dr_heap d ! v) then pause_volume v d else d) vs d) = dr_reg d"
  "dr_dev (fold (\<lambda>v d. if is_os_volume (dr_heap d ! v) then pause_volume v d else d) vs d) = dr_dev d"
  by (induction vs arbitrary: d) (simp_all add: pause_volume_def update_volume_def)


section \<open>Detaching at shutdown\<close>

lemma dismount_ignoring: "\<exists>w1. dismount_volume E nt True w = (Inr (), w1)"
  by (simp add: dismount_volume_def Let_def split: prod.split option.split)

text \<open>Detaching one volume completely.\<close>

lemma detach_one:
  assumes "reg_get q (dr_reg d) = Some u" "d1 = snd (detach_volume_with_dismount E q True False d)"
  shows "dr_reg d1 = snd (reg_remove q (dr_reg d))"
    "dr_heap d1 = (dr_heap d)[u := (dr_heap d ! u)\<lparr>av_filter_device := 0\<rparr>]"
    "g \<noteq> av_filter_device (dr_heap d ! u) \<Longrightarrow> dr_dev d1 g = dr_dev d g"
proof -
  obtain w1 where w1: "dismount_volume E (win32_volume_path_to_nt q) True (dr_world d) = (Inr (), w1)"
    using dismount_ignoring [of E "win32_volume_path_to_nt q" "dr_world d"] by blast
  have rm: "reg_remove q (dr_reg d) = (Some u, snd (reg_remove q (dr_reg d)))"
    using assms(1) by (simp add: reg_remove_def reg_get_def)
  let ?d = "(update_volume u (\<lambda>x. x\<lparr>av_filter_device := 0\<rparr>) (d\<lparr>dr_reg := snd (reg_remove q (dr_reg d))\<rparr>))
      \<lparr>dr_world := ev_delay E w1\<rparr>"
  have d1: "d1 = (if av_filter_device (dr_heap d ! u) = 0 then ?d
      else detach_filter (ev_devices E) (av_filter_device (dr_heap d ! u)) ?d)"
    unfolding assms(2) detach_volume_with_dismount_def by (subst rm) (simp add: w1 update_volume_def)
  show "dr_reg d1 = snd (reg_remove q (dr_reg d))"
    "dr_heap d1 = (dr_heap d)[u := (dr_heap d ! u)\<lparr>av_filter_device := 0\<rparr>]"
    unfolding d1 by (simp_all add: update_volume_def)
  show "g \<noteq> av_filter_device (dr_heap d ! u) \<Longrightarrow> dr_dev d1 g = dr_dev d g"
    unfolding d1 by (auto simp: update_volume_def detach_filter_def Let_def split: option.split prod.split)
qed

lemma detach_none: "reg_get q (dr_reg d) = None \<Longrightarrow> same_driver d (snd (detach_volume_with_dismount E q i k d))"
proof -
  assume a: "reg_get q (dr_reg d) = None"
  then have "bt_remove q (rg_entries (dr_reg d)) = rg_entries (dr_reg d)"
    by (auto simp: reg_get_def bt_get_def bt_remove_def filter_id_conv map_of_eq_None_iff)
  then show ?thesis
    using a by (simp add: detach_volume_with_dismount_def reg_remove_def reg_get_def same_driver_def)
qed

text \<open>Detaching a list of paths.\<close>

lemma detach_fold:
  assumes "reg_ok (dr_heap d) (dr_reg d)"
  shows "reg_get q (dr_reg (fold (\<lambda>q d. snd (detach_volume_with_dismount E q True False d)) qs d)) =
      (if q \<in> set qs then None else reg_get q (dr_reg d)) \<and>
    ((\<forall>q \<in> set qs. reg_get q (dr_reg d) \<noteq> Some i) \<longrightarrow>
      dr_heap (fold (\<lambda>q d. snd (detach_volume_with_dismount E q True False d)) qs d) ! i = dr_heap d ! i) \<and>
    ((\<forall>q \<in> set qs. \<forall>u. reg_get q (dr_reg d) = Some u \<longrightarrow> av_filter_device (dr_heap d ! u) \<noteq> g) \<longrightarrow>
      dr_dev (fold (\<lambda>q d. snd (detach_volume_with_dismount E q True False d)) qs d) g = dr_dev d g)"
  using assms
proof (induction qs arbitrary: d)
  case (Cons p qs)
  let ?d = "snd (detach_volume_with_dismount E p True False d)"
  show ?case
  proof (cases "reg_get p (dr_reg d)")
    case None
    note same = detach_none [OF None, of E True False]
    then have "reg_ok (dr_heap ?d) (dr_reg ?d)"
      using Cons.prems by (simp add: same_driver_def)
    then show ?thesis
      using Cons.IH [of ?d] same None by (auto simp: same_driver_def)
  next
    case (Some u)
    note one = detach_one [where E = E, OF Some refl]
    have ok: "reg_ok (dr_heap ?d) (dr_reg ?d)"
      unfolding one using Cons.prems by (simp add: reg_ok_remove reg_ok_update)
    have rg: "reg_get q (dr_reg ?d) = (if q = p then None else reg_get q (dr_reg d))" for q
      unfolding one by (rule reg_get_remove [OF Cons.prems])
    have other: "u' \<noteq> u" if "reg_get q (dr_reg d) = Some u'" "q \<noteq> p" for q u'
      using that Some Cons.prems unfolding reg_ok_def by metis
    have heap: "dr_heap ?d ! j = dr_heap d ! j" if "j \<noteq> u" for j
      using that by (simp add: one(2))
    note ih = Cons.IH [OF ok]
    show ?thesis
    proof (intro conjI impI)
      show "reg_get q (dr_reg (fold (\<lambda>q d. snd (detach_volume_with_dismount E q True False d)) (p # qs) d)) =
          (if q \<in> set (p # qs) then None else reg_get q (dr_reg d))"
        using ih rg by simp
    next
      assume h: "\<forall>q \<in> set (p # qs). reg_get q (dr_reg d) \<noteq> Some i"
      then have "\<forall>q \<in> set qs. reg_get q (dr_reg ?d) \<noteq> Some i" "i \<noteq> u"
        using rg Some by auto
      then show "dr_heap (fold (\<lambda>q d. snd (detach_volume_with_dismount E q True False d)) (p # qs) d) ! i = dr_heap d ! i"
        using ih heap by simp
    next
      assume h: "\<forall>q \<in> set (p # qs). \<forall>u. reg_get q (dr_reg d) = Some u \<longrightarrow> av_filter_device (dr_heap d ! u) \<noteq> g"
      then have "\<forall>q \<in> set qs. \<forall>u. reg_get q (dr_reg ?d) = Some u \<longrightarrow> av_filter_device (dr_heap ?d ! u) \<noteq> g"
        using rg other heap by (metis list.set_intros(2) option.distinct(1))
      moreover have "g \<noteq> av_filter_device (dr_heap d ! u)"
        using h Some by auto
      ultimately show "dr_dev (fold (\<lambda>q d. snd (detach_volume_with_dismount E q True False d)) (p # qs) d) g = dr_dev d g"
        using ih one(3) by simp
    qed
  qed
qed simp


section \<open>A small environment\<close>

text \<open>Requests are the bytes of a path; a \<open>PREPARE\<close> asks for no replicas and carries no key.\<close>

definition toy_codec :: ioctl_codec where
  "toy_codec =
     \<lparr>de_volume_request = (\<lambda>b. Inr \<lparr>vr_volume_path = map (\<lambda>x. char_of (unat x)) b\<rparr>),
      de_prepare_req = (\<lambda>b. Inr \<lparr>pr_volume_path = map (\<lambda>x. char_of (unat x)) b, pr_nt_device_path = [], pr_use_header = 0,
        pr_use_footer = 1, pr_metadata_size = 262144, pr_vmk = [], pr_metadata_block = [], pr_is_os_volume = False\<rparr>),
      de_attach_req = (\<lambda>b. Inl ''none''), de_bench_req = (\<lambda>b. Inr \<lparr>br_size_bytes = 0\<rparr>), en_empty = Inr [],
      en_volume_status = (\<lambda>_. Inr []), en_volume_list = (\<lambda>_. Inr []), en_progress_event = (\<lambda>_. Inr []),
      en_prepare_resp = (\<lambda>_. Inr []), en_attach_resp = (\<lambda>_. Inr []), en_bench_resp = (\<lambda>_. Inr [])\<rparr>"

definition toy_drv_env :: "'w nt_kernel \<Rightarrow> 'w drv_env" where
  "toy_drv_env K =
     \<lparr>ev_kernel = K, ev_devices = toy_services (\<lambda>w. []) (\<lambda>l w. w) 0, ev_provider = None, ev_codec = toy_codec, ev_aes = toy_aes,
      ev_related_device = (\<lambda>w h. 5), ev_delay = (\<lambda>w. w), ev_counter = (\<lambda>w. ((1, 0), w)), ev_pool = (\<lambda>w n. True)\<rparr>"

text \<open>One volume, registered under \<open>vol\<close> and bound to filter 1.\<close>

definition toy_loaded ::
    "attach_source \<Rightarrow> engine_state \<Rightarrow> (jvck_cells \<times> (nat \<Rightarrow> byte)) drv" where
  "toy_loaded src s =
     (let h = [(toy_volume const_rng 40 s)\<lparr>av_attach_source := src\<rparr>]
      in (toy_drv h (toy_cells, \<lambda>a. 0))\<lparr>dr_reg := set_driver_object 1 (reg_insert h 0 registry_new),
           dr_dev := [1 \<mapsto> toy_ext]\<rparr>)"

lemma toy_loaded_simps [simp]:
  "dr_heap (toy_loaded src s) = [(toy_volume const_rng 40 s)\<lparr>av_attach_source := src\<rparr>]"
  "dr_dev (toy_loaded src s) = [1 \<mapsto> toy_ext]" "dr_world (toy_loaded src s) = (toy_cells, \<lambda>a. 0)"
  "reg_get q (dr_reg (toy_loaded src s)) = (if q = ''vol'' then Some 0 else None)"
  "reg_all (dr_reg (toy_loaded src s)) = [0]" "rg_driver_object (dr_reg (toy_loaded src s)) = 1"
  "rg_pdo_filters (dr_reg (toy_loaded src s)) = []"
  by (simp_all add: toy_loaded_def toy_drv_def Let_def reg_get_def reg_insert_def set_driver_object_def registry_new_def
      bt_get_def reg_all_def bt_values_def toy_volume_def)

lemma toy_loaded_ok: "reg_ok (dr_heap (toy_loaded src s)) (dr_reg (toy_loaded src s))"
proof -
  have "bt_ok (rg_entries (dr_reg (toy_loaded src s)))"
    by (simp add: toy_loaded_def toy_drv_def Let_def reg_insert_def set_driver_object_def registry_new_def bt_ok_def)
  then show ?thesis
    by (simp add: reg_ok_def toy_volume_def)
qed

lemma toy_loaded_guarded: "guarded ''vol'' 0 (toy_loaded Handover s)"
  using toy_loaded_ok [of Handover s]
  by (simp add: guarded_def is_os_volume_def has_encrypted_data_def av_cipher_supplier_def) (simp add: toy_volume_def)

definition vol_bytes :: bytes where "vol_bytes = [118, 111, 108]"

lemma vol_bytes_request [simp]:
  "decode_req (de_volume_request (ev_codec (toy_drv_env K))) vol_bytes = Inr \<lparr>vr_volume_path = ''vol''\<rparr>"
  by (simp add: decode_req_def toy_drv_env_def toy_codec_def vol_bytes_def) (simp add: char_of_def bit_0)


section \<open>Properties\<close>

text \<open>C17: a caller without privileges changes nothing.  Whatever the code and the input of a request
  from user mode without an administrator token, the volumes, the registry, the devices and the completed
  requests stay as they are; any request but the two status queries is refused before it is looked at.\<close>

theorem unprivileged_changes_nothing:
  assumes "ac_requestor_mode ctx = UserMode" "\<forall>t. ac_requestor_token ctx = Some t \<longrightarrow> \<not> adm (at_token t)"
    "dispatch_ioctl (authorize adm) E ctx input d = (r, d')"
  shows "same_driver d d' \<and>
    (ac_ioctl_code ctx \<notin> {IOCTL_VCK_GET_STATUS, IOCTL_VCK_GET_PROGRESS} \<longrightarrow>
      d' = d \<and> r = Inl (PermissionDenied ''administrator privilege required''))"
proof (cases "ac_ioctl_code ctx \<in> {IOCTL_VCK_GET_STATUS, IOCTL_VCK_GET_PROGRESS}")
  case True
  then have "(r, d') = handle_get_status E input d \<or> (r, d') = handle_get_progress E input d"
    using assms(3) by (auto simp: dispatch_ioctl_def authorize_def ioctl_values)
  then have "same_driver d d'"
    using handle_get_status_same handle_get_progress_same by metis
  then show ?thesis
    using True by blast
next
  case False
  then have "authorize adm ctx = Inl (PermissionDenied ''administrator privilege required'')"
    using assms(1,2) by (auto simp: authorize_def require_administrator_def is_admin_def split: option.split)
  then show ?thesis
    using assms(3) by (simp add: dispatch_ioctl_def)
qed

theorem unprivileged_changes_nothing_witness:
  "dispatch_ioctl (authorize (\<lambda>t. False)) (toy_drv_env (lift_nt_kernel ram_kernel))
     \<lparr>ac_ioctl_code = IOCTL_VCK_DETACH, ac_requestor_mode = UserMode, ac_requestor_token = None\<rparr> vol_bytes (toy_loaded Ioctl Idle) =
   (Inl (PermissionDenied ''administrator privilege required''), toy_loaded Ioctl Idle)"
  using unprivileged_changes_nothing [of "\<lparr>ac_ioctl_code = IOCTL_VCK_DETACH, ac_requestor_mode = UserMode, ac_requestor_token = None\<rparr>"
      "\<lambda>t. False" "toy_drv_env (lift_nt_kernel ram_kernel)" vol_bytes "toy_loaded Ioctl Idle"]
  by (cases "dispatch_ioctl (authorize (\<lambda>t. False)) (toy_drv_env (lift_nt_kernel ram_kernel))
     \<lparr>ac_ioctl_code = IOCTL_VCK_DETACH, ac_requestor_mode = UserMode, ac_requestor_token = None\<rparr> vol_bytes (toy_loaded Ioctl Idle)")
    (simp add: ioctl_values)

text \<open>No control request, not even of an administrator or the kernel, takes an encrypted
  operating-system volume from the registry: it stays registered under its path as an encrypted volume of
  the operating system, so the driver still refuses to unload.\<close>

theorem encrypted_os_volume_stays:
  assumes "reg_ok (dr_heap d) (dr_reg d)" "reg_get p (dr_reg d) = Some v" "is_os_volume (dr_heap d ! v)"
    "has_encrypted_data (dr_heap d ! v)" "av_cipher_supplier (dr_heap d ! v) \<noteq> None"
    "dispatch_ioctl auth E ctx input d = (r, d')"
  shows "reg_ok (dr_heap d') (dr_reg d') \<and> reg_get p (dr_reg d') = Some v \<and> is_os_volume (dr_heap d' ! v) \<and>
    has_encrypted_data (dr_heap d' ! v) \<and> has_encrypted_os_volume (dr_heap d') (dr_reg d')"
proof -
  have "guarded p v d"
    using assms(1-5) by (simp add: guarded_def)
  then have g: "guarded p v d'"
    using guarded_dispatch [of p v d auth E ctx input] assms(6) by simp
  then have "has_encrypted_os_volume (dr_heap d') (dr_reg d')"
    using has_encrypted_os_volume_iff [of "dr_heap d'" "dr_reg d'"] by (auto simp: guarded_def)
  then show ?thesis
    using g by (simp add: guarded_def)
qed

theorem encrypted_os_volume_stays_witness:
  "\<exists>r d'. dispatch_ioctl (\<lambda>_. Inr ()) (toy_drv_env (lift_nt_kernel ram_kernel))
     \<lparr>ac_ioctl_code = IOCTL_VCK_DETACH, ac_requestor_mode = KernelMode, ac_requestor_token = None\<rparr> vol_bytes (toy_loaded Handover Idle) =
     (r, d') \<and> reg_get ''vol'' (dr_reg d') = Some 0"
proof -
  obtain r d' where run: "dispatch_ioctl (\<lambda>_. Inr ()) (toy_drv_env (lift_nt_kernel ram_kernel))
     \<lparr>ac_ioctl_code = IOCTL_VCK_DETACH, ac_requestor_mode = KernelMode, ac_requestor_token = None\<rparr> vol_bytes (toy_loaded Handover Idle) =
     (r, d')"
    by fastforce
  have g: "guarded ''vol'' 0 (toy_loaded Handover Idle)"
    by (rule toy_loaded_guarded)
  show ?thesis
    using encrypted_os_volume_stays [OF _ _ _ _ _ run, of "''vol''" 0] g run by (simp add: guarded_def)
qed

end
