(* ===== verification/Ioctl_Effects.thy ===== *)
theory Ioctl_Effects
  imports Ioctl_Dispatch
begin

text \<open>
  What single control requests do to the volumes, the registry and the devices: the two requests of a
  shutdown, a detachment that fails, and the layout a \<open>PREPARE\<close> writes
  (\<open>lib/windrv/src/ioctl/dispatch.rs\<close>).
\<close>


section \<open>Data volumes and their paths\<close>

lemma data_path_iff:
  assumes "reg_ok (dr_heap d) (dr_reg d)"
  shows "p \<in> set (data_paths d) \<longleftrightarrow> (\<exists>v. reg_get p (dr_reg d) = Some v \<and> \<not> is_os_volume (dr_heap d ! v))"
proof
  assume "p \<in> set (data_paths d)"
  then obtain u where u: "u \<in> set (reg_all (dr_reg d))" "\<not> is_os_volume (dr_heap d ! u)" "p = av_volume_path (dr_heap d ! u)"
    by (auto simp: data_paths_def)
  then show "\<exists>v. reg_get p (dr_reg d) = Some v \<and> \<not> is_os_volume (dr_heap d ! v)"
    using assms reg_all_iff [OF assms] unfolding reg_ok_def by metis
next
  assume "\<exists>v. reg_get p (dr_reg d) = Some v \<and> \<not> is_os_volume (dr_heap d ! v)"
  then obtain v where v: "reg_get p (dr_reg d) = Some v" "\<not> is_os_volume (dr_heap d ! v)"
    by blast
  then have "v \<in> set (reg_all (dr_reg d))" "av_volume_path (dr_heap d ! v) = p"
    using assms reg_all_iff [OF assms] by (auto simp: reg_ok_def)
  then show "p \<in> set (data_paths d)"
    using v(2) by (force simp: data_paths_def)
qed

text \<open>Detaching never brings a device back.\<close>

lemma map_le_None: "m \<subseteq>\<^sub>m n \<Longrightarrow> n x = None \<Longrightarrow> m x = None"
  unfolding map_le_def by (metis domIff)

lemma detach_dev_le: "dr_dev (snd (detach_volume_with_dismount E q i False d)) \<subseteq>\<^sub>m dr_dev d"
  by (auto simp: detach_volume_with_dismount_def detach_filter_def update_volume_def Let_def map_le_def
      split: prod.splits sum.splits option.splits)

lemma detach_fold_dev_le:
  "dr_dev (fold (\<lambda>q d. snd (detach_volume_with_dismount E q True False d)) qs d) \<subseteq>\<^sub>m dr_dev d"
  by (induction qs arbitrary: d) (auto intro: map_le_trans [OF _ detach_dev_le])

text \<open>The filter of the detached volume is deleted.\<close>

lemma detach_one_filter:
  assumes "reg_get q (dr_reg d) = Some u" "av_filter_device (dr_heap d ! u) \<noteq> 0"
  shows "dr_dev (snd (detach_volume_with_dismount E q True False d)) (av_filter_device (dr_heap d ! u)) = None"
proof -
  obtain w1 where w1: "dismount_volume E (win32_volume_path_to_nt q) True (dr_world d) = (Inr (), w1)"
    using dismount_ignoring [of E "win32_volume_path_to_nt q" "dr_world d"] by blast
  have rm: "reg_remove q (dr_reg d) = (Some u, snd (reg_remove q (dr_reg d)))"
    using assms(1) by (simp add: reg_remove_def reg_get_def)
  show ?thesis
    unfolding detach_volume_with_dismount_def
    by (subst rm) (use assms(2) in \<open>simp add: w1 update_volume_def detach_filter_def Let_def split: option.split prod.split\<close>)
qed

lemma detach_fold_filter:
  assumes "reg_ok (dr_heap d) (dr_reg d)" "q \<in> set qs" "reg_get q (dr_reg d) = Some u" "av_filter_device (dr_heap d ! u) \<noteq> 0"
  shows "dr_dev (fold (\<lambda>q d. snd (detach_volume_with_dismount E q True False d)) qs d) (av_filter_device (dr_heap d ! u)) = None"
  using assms
proof (induction qs arbitrary: d)
  case (Cons p qs)
  let ?d = "snd (detach_volume_with_dismount E p True False d)"
  have le: "dr_dev (fold (\<lambda>q d. snd (detach_volume_with_dismount E q True False d)) qs ?d) \<subseteq>\<^sub>m dr_dev ?d"
    by (rule detach_fold_dev_le)
  show ?case
  proof (cases "q = p")
    case True
    then have "dr_dev ?d (av_filter_device (dr_heap d ! u)) = None"
      using detach_one_filter Cons.prems(3,4) by blast
    then have "dr_dev (fold (\<lambda>q d. snd (detach_volume_with_dismount E q True False d)) qs ?d) (av_filter_device (dr_heap d ! u)) = None"
      by (rule map_le_None [OF le])
    then show ?thesis
      by simp
  next
    case False
    then have q: "q \<in> set qs"
      using Cons.prems(2) by simp
    have one: "reg_get q (dr_reg ?d) = reg_get q (dr_reg d)" "dr_heap ?d ! u = dr_heap d ! u" "reg_ok (dr_heap ?d) (dr_reg ?d)"
    proof -
      have f: "fold (\<lambda>q d. snd (detach_volume_with_dismount E q True False d)) [p] d = ?d"
        by simp
      have "\<forall>q' \<in> set [p]. reg_get q' (dr_reg d) \<noteq> Some u"
        using Cons.prems(1,3) False unfolding reg_ok_def by auto
      then show "reg_get q (dr_reg ?d) = reg_get q (dr_reg d)" "dr_heap ?d ! u = dr_heap d ! u"
        using detach_fold [OF Cons.prems(1), of q E "[p]" u 0] False unfolding f by simp_all
      show "reg_ok (dr_heap ?d) (dr_reg ?d)"
      proof (cases "reg_get p (dr_reg d)")
        case None
        then show ?thesis
          using detach_none [OF None, of E True False] Cons.prems(1) by (simp add: same_driver_def)
      next
        case (Some u')
        show ?thesis
          unfolding detach_one [where E = E, OF Some refl] using Cons.prems(1) by (simp add: reg_ok_remove reg_ok_update)
      qed
    qed
    then show ?thesis
      using Cons.IH [OF one(3) q] Cons.prems(3,4) by simp
  qed
qed simp


lemma detach_unknown:
  "reg_get q (dr_reg d) = None \<Longrightarrow> fst (detach_volume_with_dismount E q i k d) = Inl (NotFound ''volume is not attached'')"
  by (simp add: detach_volume_with_dismount_def reg_remove_def reg_get_def)

lemma ucast_add_no_wrap:
  fixes a b :: u32
  assumes "unat a + unat b < 2 ^ 32"
  shows "(ucast (a + b) :: u64) = ucast a + ucast b"
proof -
  have "unat (a + b) = unat a + unat b"
    using assms by (intro unat_add_no_wrap) simp
  then have "unat (ucast (a + b) :: u64) = unat (ucast a + ucast b :: u64)"
    using assms by (subst unat_add_no_wrap) simp_all
  then show ?thesis
    by (simp add: word_unat_eq_iff)
qed


text \<open>A paused sweep makes no step: it touches neither the disk nor the stored position, whatever
  the batch.\<close>

lemma paused_sweep_step:
  "\<exists>x. sweep_step bsz (y\<lparr>av_encryption := pause e\<rparr>) w = (Inr False, x, w) \<and> av_encryption x = pause e"
  by (simp add: sweep_step_def paused_no_step sync_boundary_def av_cipher_supplier_def split: option.split io_config.split)

text \<open>Pausing the volumes of the operating system changes the state of their sweep and nothing else.\<close>

lemma pause_os_effect:
  assumes "reg_ok (dr_heap d) (dr_reg d)" "handle_pause_os_volume d = (r, d')"
  shows "r = Inr [] \<and> dr_reg d' = dr_reg d \<and> dr_dev d' = dr_dev d \<and> length (dr_heap d') = length (dr_heap d) \<and>
    (\<forall>p v. reg_get p (dr_reg d) = Some v \<longrightarrow>
       dr_heap d' ! v = (if is_os_volume (dr_heap d ! v)
         then (dr_heap d ! v)\<lparr>av_encryption := pause (av_encryption (dr_heap d ! v))\<rparr> else dr_heap d ! v))"
proof -
  have d': "d' = fold (\<lambda>v d. if is_os_volume (dr_heap d ! v) then pause_volume v d else d) (reg_all (dr_reg d)) d"
    and r: "r = Inr []"
    using assms(2) by (simp_all add: handle_pause_os_volume_def)
  have "dr_heap d' ! v = (if is_os_volume (dr_heap d ! v)
      then (dr_heap d ! v)\<lparr>av_encryption := pause (av_encryption (dr_heap d ! v))\<rparr> else dr_heap d ! v)"
    if "reg_get p (dr_reg d) = Some v" for p v
  proof -
    have "v \<in> set (reg_all (dr_reg d))" "v < length (dr_heap d)"
      using that assms(1) reg_all_iff [OF assms(1)] by (auto simp: reg_ok_def)
    then show ?thesis
      unfolding d' pause_fold by simp
  qed
  moreover have "dr_reg d' = dr_reg d" "dr_dev d' = dr_dev d"
    unfolding d' by (rule pause_fold_frame)+
  moreover have "length (dr_heap (fold (\<lambda>v d. if is_os_volume (dr_heap d ! v) then pause_volume v d else d) vs d)) = length (dr_heap d)" for vs
    by (induction vs arbitrary: d) (simp_all add: pause_volume_def update_volume_def)
  ultimately show ?thesis
    using r d' by blast
qed

lemma pause_os_reg_ok:
  assumes "reg_ok (dr_heap d) (dr_reg d)" "handle_pause_os_volume d = (r, d')"
  shows "reg_ok (dr_heap d') (dr_reg d')"
  using pause_os_effect [OF assms] assms(1) by (auto simp: reg_ok_def)

lemma detach_fold_ok:
  assumes "reg_ok (dr_heap d) (dr_reg d)"
  shows "reg_ok (dr_heap (fold (\<lambda>q d. snd (detach_volume_with_dismount E q True False d)) qs d))
    (dr_reg (fold (\<lambda>q d. snd (detach_volume_with_dismount E q True False d)) qs d))"
  using assms
proof (induction qs arbitrary: d)
  case (Cons p qs)
  let ?d = "snd (detach_volume_with_dismount E p True False d)"
  have "reg_ok (dr_heap ?d) (dr_reg ?d)"
  proof (cases "reg_get p (dr_reg d)")
    case None
    then show ?thesis
      using detach_none [of p d E True False] Cons.prems by (simp add: same_driver_def)
  next
    case (Some u)
    have "reg_ok (dr_heap d) (snd (reg_remove p (dr_reg d)))"
      by (rule reg_ok_remove [OF Cons.prems])
    then show ?thesis
      unfolding detach_one(1,2) [OF Some refl] by (rule reg_ok_update) simp
  qed
  then show ?case
    using Cons.IH by simp
qed simp

text \<open>Detaching at shutdown takes exactly the data volumes: the volumes of the operating system stay
  registered unchanged, the filter of every data volume is deleted and no other device is touched.\<close>

lemma detach_all_effect:
  assumes "reg_ok (dr_heap d) (dr_reg d)" "handle_detach_all_volumes E d = (r, d')"
  shows "r = Inr [] \<and> reg_ok (dr_heap d') (dr_reg d') \<and>
    (\<forall>p v. reg_get p (dr_reg d') = Some v \<longleftrightarrow> reg_get p (dr_reg d) = Some v \<and> is_os_volume (dr_heap d ! v)) \<and>
    (\<forall>p v. reg_get p (dr_reg d') = Some v \<longrightarrow> dr_heap d' ! v = dr_heap d ! v) \<and>
    (\<forall>f. f \<noteq> 0 \<longrightarrow> dr_dev d' f =
       (if \<exists>p v. reg_get p (dr_reg d) = Some v \<and> \<not> is_os_volume (dr_heap d ! v) \<and> av_filter_device (dr_heap d ! v) = f
        then None else dr_dev d f))"
proof -
  have d': "d' = fold (\<lambda>q d. snd (detach_volume_with_dismount E q True False d)) (data_paths d) d" and r: "r = Inr []"
    using assms(2) by (simp_all add: handle_detach_all_volumes_def)
  note all = detach_fold [OF assms(1), where E = E and qs = "data_paths d", folded d']
  have reg: "reg_get p (dr_reg d') = Some v \<longleftrightarrow> reg_get p (dr_reg d) = Some v \<and> is_os_volume (dr_heap d ! v)" for p v
    using all [of p] data_path_iff [OF assms(1), of p] by auto
  have heap: "dr_heap d' ! v = dr_heap d ! v" if "reg_get p (dr_reg d') = Some v" for p v
  proof -
    have "reg_get p (dr_reg d) = Some v" "is_os_volume (dr_heap d ! v)"
      using that reg by auto
    then have "\<forall>q \<in> set (data_paths d). reg_get q (dr_reg d) \<noteq> Some v"
      using data_path_iff [OF assms(1)] by auto
    then show ?thesis
      using all by blast
  qed
  have dev: "dr_dev d' f = (if \<exists>p v. reg_get p (dr_reg d) = Some v \<and> \<not> is_os_volume (dr_heap d ! v) \<and> av_filter_device (dr_heap d ! v) = f
      then None else dr_dev d f)" if "f \<noteq> 0" for f
  proof (cases "\<exists>p v. reg_get p (dr_reg d) = Some v \<and> \<not> is_os_volume (dr_heap d ! v) \<and> av_filter_device (dr_heap d ! v) = f")
    case True
    then obtain p v where v: "reg_get p (dr_reg d) = Some v" "\<not> is_os_volume (dr_heap d ! v)" "av_filter_device (dr_heap d ! v) = f"
      by blast
    then have "p \<in> set (data_paths d)"
      using data_path_iff [OF assms(1)] by blast
    then have "dr_dev d' f = None"
      using detach_fold_filter [OF assms(1) _ v(1), of "data_paths d" E] v(3) that unfolding d' by simp
    then show ?thesis
      using True by (simp only: if_True)
  next
    case False
    have "\<forall>q \<in> set (data_paths d). \<forall>u. reg_get q (dr_reg d) = Some u \<longrightarrow> av_filter_device (dr_heap d ! u) \<noteq> f"
      using False data_path_iff [OF assms(1)] by force
    then have "dr_dev d' f = dr_dev d f"
      using all by blast
    then show ?thesis
      using False by (simp only: if_False)
  qed
  show ?thesis
    using r reg heap dev detach_fold_ok [OF assms(1), of E "data_paths d"] d' by blast
qed


section \<open>Properties\<close>

text \<open>C40: a refused detachment takes the volume off the books.  When the file system cannot be
  locked, the request fails, but the volume has left the registry already, while its filter and its thread
  are still bound to it: a second attempt no longer finds the volume.\<close>

theorem failed_detach_loses_volume:
  assumes "reg_ok (dr_heap d) (dr_reg d)" "decode_req (de_volume_request (ev_codec E)) input = Inr req"
    "reg_get (vr_volume_path req) (dr_reg d) = Some v"
    "\<not> (is_os_volume (dr_heap d ! v) \<and> has_encrypted_data (dr_heap d ! v))"
    "dismount_volume E (win32_volume_path_to_nt (vr_volume_path req)) False (dr_world d) = (Inl e, w1)"
    "handle_detach E input d = (r, d')"
  shows "r = Inl e \<and> reg_get (vr_volume_path req) (dr_reg d') = None \<and> dr_dev d' = dr_dev d \<and>
    fst (handle_detach E input d') = Inl (NotFound ''volume is not attached'')"
proof -
  let ?p = "vr_volume_path req"
  have rm: "reg_remove ?p (dr_reg d) = (Some v, snd (reg_remove ?p (dr_reg d)))"
    using assms(3) by (simp add: reg_remove_def reg_get_def)
  let ?d = "(update_volume v (\<lambda>x. x\<lparr>av_filter_device := 0\<rparr>) (d\<lparr>dr_reg := snd (reg_remove ?p (dr_reg d))\<rparr>))\<lparr>dr_world := w1\<rparr>"
  have "detach_volume_with_dismount E ?p False True d = (Inl e, ?d)"
    unfolding detach_volume_with_dismount_def by (subst rm) (simp add: assms(5) update_volume_def)
  then have rd: "r = Inl e" "d' = ?d"
    using assms(2,3,4,6) by (auto simp: handle_detach_def split: if_splits)
  have dev: "dr_dev d' = dr_dev d"
    by (simp add: rd(2) update_volume_def)
  have none: "reg_get ?p (dr_reg d') = None"
    using reg_get_remove [OF assms(1), of ?p ?p] by (simp add: rd update_volume_def)
  then have "fst (detach_volume_with_dismount E ?p False True d') = Inl (NotFound ''volume is not attached'')"
    by (rule detach_unknown)
  then show ?thesis
    using none rd(1) assms(2) dev by (auto simp: handle_detach_def split: sum.split prod.split)
qed

definition locked_kernel :: "(nat \<Rightarrow> byte) nt_kernel" where
  "locked_kernel = ram_kernel\<lparr>zw_fs_control_file := (\<lambda>w h c. (STATUS_UNSUCCESSFUL, w))\<rparr>"

theorem failed_detach_loses_volume_witness:
  "let E = toy_drv_env (lift_nt_kernel locked_kernel);
       (r, d') = handle_detach E vol_bytes (toy_loaded Ioctl Idle)
   in r = Inl (Io ''FSCTL_LOCK_VOLUME failed (files open)'') \<and> dr_dev d' 1 = Some toy_ext \<and>
      fst (handle_detach E vol_bytes d') = Inl (NotFound ''volume is not attached'')"
proof -
  let ?E = "toy_drv_env (lift_nt_kernel locked_kernel)"
  have "dismount_volume ?E (win32_volume_path_to_nt ''vol'') False (dr_world (toy_loaded Ioctl Idle)) =
      (Inl (Io ''FSCTL_LOCK_VOLUME failed (files open)''), (toy_cells, \<lambda>a. 0))"
    by (simp add: dismount_volume_def open_volume_handle_raw_def send_fsctl_def toy_drv_env_def lift_nt_kernel_def locked_kernel_def
        ram_kernel_def nt_success_def STATUS_SUCCESS_def STATUS_UNSUCCESSFUL_def Let_def)
  then show ?thesis
    using failed_detach_loses_volume [OF toy_loaded_ok vol_bytes_request, of Ioctl Idle 0 "lift_nt_kernel locked_kernel"]
    by (simp add: is_os_volume_def split: prod.split)
qed



text \<open>C39: preparing a volume that is in use under another path.  The request only looks for its own
  path in the registry.  When the filter it finds serves a volume registered under another path, the
  filter and its thread are handed to the new, keyless volume, and every read through the thread of at
  least a sector then fails, although the first volume is still registered with its key.\<close>

theorem prepare_displaces_bound_volume:
  assumes "decode_req (de_prepare_req (ev_codec E)) input = Inr req" "pr_vmk req = []" "pr_metadata_block req = []"
    "pr_nt_device_path req = nt" "nt \<noteq> []"
    "reg_ok (dr_heap d) (dr_reg d)" "reg_get (pr_volume_path req) (dr_reg d) = None" "rg_driver_object (dr_reg d) \<noteq> 0"
    "reg_get q (dr_reg d) = Some u" "find_filter (ev_devices E) nt d = (Some (f, l), d1)"
    "dr_dev d f = Some ext" "de_volume ext = Some u" "de_vthread ext = Some vt"
    "kv_open_query (ev_kernel E) (dr_world d1) (nil_volume_id nt) = (Inr geom, w1)"
    "handle_jvck_prepare E input d = (r, d')"
  shows "reg_get q (dr_reg d') = Some u \<and> dr_heap d' ! u = dr_heap d ! u \<and>
    (\<exists>v ext' vt'. v \<noteq> u \<and> dr_dev d' f = Some ext' \<and> de_volume ext' = Some v \<and> de_vthread ext' = Some vt' \<and> vt_current vt' = v \<and>
      av_cipher_supplier (dr_heap d' ! v) = None \<and>
      (\<forall>IM irp bc w. 0 < av_sector_size (dr_heap d' ! v) \<and> av_sector_size (dr_heap d' ! v) \<le> irp_length irp \<longrightarrow>
         irp_status (fst (process_read IM irp (dr_heap d' ! v) bc w)) = STATUS_UNSUCCESSFUL))"
proof -
  define v where "v = length (dr_heap d)"
  obtain o1 t where lay: "prepare_layout req (kv_sector_size geom) (kv_total_sectors geom) = (o1, t)"
    by fastforce
  define vol where "vol = (provisional_volume (pr_volume_path req) (kv_sector_size geom) o1 t (attach_source_of req) f :: 'a attached_volume)"
  have same: "dr_heap d1 = dr_heap d" "dr_reg d1 = dr_reg d" "dr_dev d1 = dr_dev d"
    using find_filter_same [OF assms(10)] by (simp_all add: same_driver_def)
  define h1 where "h1 = dr_heap d @ [vol]"
  define d2 where "d2 = d1\<lparr>dr_world := kv_drop (ev_kernel E) w1 geom, dr_heap := h1, dr_reg := reg_insert h1 v (dr_reg d)\<rparr>"
  obtain w2 where w2: "d' = (filter_bind_volume (ev_devices E) f v d2)\<lparr>dr_world := w2\<rparr>"
    using assms(1-5,7,8,10,14,15) lay
    by (auto simp: handle_jvck_prepare_def handle_jvck_prepare_adddevice_path_def Let_def register_volume_def same v_def vol_def
        h1_def d2_def split: prod.splits)
  have h': "dr_heap d' = h1" and r': "dr_reg d' = reg_insert h1 v (dr_reg d)"
    unfolding w2 by (simp_all add: d2_def)
  have u: "u < v"
    using assms(6,9) by (auto simp: v_def reg_ok_def)
  have ok: "reg_ok h1 (dr_reg d)"
    unfolding h1_def by (rule reg_ok_alloc [OF assms(6)])
  have pth: "av_volume_path (h1 ! v) \<noteq> q" and hv: "h1 ! v = vol"
    using assms(7,9) by (auto simp: h1_def v_def vol_def nth_append)
  have q: "reg_get q (dr_reg d') = Some u" "dr_heap d' ! u = dr_heap d ! u"
    using reg_get_insert [OF ok, of q v] pth assms(9) u by (auto simp: r' h' h1_def v_def nth_append)
  have dev: "dr_dev d' f = Some (ext\<lparr>de_volume := Some v, de_vthread := Some (set_current v vt)\<rparr>)"
    using assms(11,13) unfolding w2
    by (simp add: filter_bind_volume_def set_ext_volume_def dev_bind_def bind_volume_def d2_def same)
  have "irp_status (fst (process_read IM irp vol bc w)) = STATUS_UNSUCCESSFUL"
    if "0 < av_sector_size vol" "av_sector_size vol \<le> irp_length irp" for IM irp bc and w :: 'a
    using that div_greater_zero_iff [of "unat (irp_length irp)" "unat (kv_sector_size geom)"]
    by (auto simp: process_read_def Let_def vol_def provisional_volume_def dummy_sector_io_def complete_irp_def word_le_unat
        word_less_unat split: option.split)
  moreover have "av_cipher_supplier vol = None"
    by (simp add: vol_def provisional_volume_def av_cipher_supplier_def Let_def)
  ultimately show ?thesis
    using q dev u hv h' by (auto simp: set_current_def vt_signal_def intro!: exI [of _ v])
qed

text \<open>The volume \<open>vol\<close> behind filter 1, whose device is known, and a kernel that answers the
  geometry queries: a request for the path \<open>D:\<close> finds that filter.\<close>

definition sized_kernel :: "(nat \<Rightarrow> byte) nt_kernel" where
  "sized_kernel = ram_kernel\<lparr>zw_device_io_control_file := (\<lambda>w h code n. (STATUS_SUCCESS,
     if code = IOCTL_DISK_GET_DRIVE_GEOMETRY then replicate 20 0 @ le_bytes 4 (512 :: u32) @ replicate 8 0
     else le_bytes 8 (307200 :: u64)))\<rparr>"

definition alias_codec :: ioctl_codec where
  "alias_codec = toy_codec\<lparr>de_prepare_req := (\<lambda>b. Inr \<lparr>pr_volume_path = ''D:'', pr_nt_device_path = ''D'', pr_use_header = 0,
     pr_use_footer = 1, pr_metadata_size = 262144, pr_vmk = [], pr_metadata_block = [], pr_is_os_volume = False\<rparr>)\<rparr>"

definition alias_drv :: "(jvck_cells \<times> (nat \<Rightarrow> byte)) drv" where
  "alias_drv = (toy_loaded Handover Idle)\<lparr>dr_reg := add_pdo_filter 5 1 1 [] (dr_reg (toy_loaded Handover Idle))\<rparr>"

lemma alias_drv_simps [simp]:
  "dr_heap alias_drv = dr_heap (toy_loaded Handover Idle)" "dr_dev alias_drv = [1 \<mapsto> toy_ext]" "dr_world alias_drv = (toy_cells, \<lambda>a. 0)"
  "reg_get q (dr_reg alias_drv) = (if q = ''vol'' then Some 0 else None)" "rg_driver_object (dr_reg alias_drv) = 1"
  "rg_pdo_filters (dr_reg alias_drv) = [\<lparr>pf_pdo = 5, pf_filter_do = 1, pf_lower_do = 1, pf_pdo_name = []\<rparr>]"
  using toy_loaded_simps(4) [of q Handover Idle]
  by (simp_all add: alias_drv_def add_pdo_filter_def reg_get_def)

lemma alias_drv_ok: "reg_ok (dr_heap alias_drv) (dr_reg alias_drv)"
  using toy_loaded_ok [of Handover Idle] by (simp add: alias_drv_def reg_ok_def reg_get_def add_pdo_filter_def)

lemma alias_find:
  "find_filter (ev_devices (toy_drv_env K)) ''D'' alias_drv = (Some (1, 1), alias_drv)"
  by (simp add: find_filter_def find_filter_for_volume_def toy_drv_env_def toy_services_def nt_success_def Let_def
      device_name_string_def find_pdo_filter_by_name_def find_pdo_filter_def to_ascii_lowercase_def trim_end_backslashes_def)

lemma sized_open:
  "kv_open_query (lift_nt_kernel sized_kernel) w (nil_volume_id p) = (Inr \<lparr>kv_handle = 1, kv_sector_size = 512, kv_total_sectors = 600\<rparr>, w)"
proof -
  have ioctl: "kv_device_ioctl (lift_nt_kernel sized_kernel) w h code n = Inr
      (if code = IOCTL_DISK_GET_DRIVE_GEOMETRY then replicate 20 0 @ le_bytes 4 (512 :: u32) @ replicate 8 0
       else le_bytes 8 (307200 :: u64))" for h code n
    by (simp add: kv_device_ioctl_def sized_kernel_def lift_nt_kernel_def STATUS_SUCCESS_def nt_success_def)
  have "decode_geometry (kv_device_ioctl (lift_nt_kernel sized_kernel) w 1) m = Inr (512, 600)" for m
    by (simp add: decode_geometry_def ioctl buf_slice_def DISK_GEOMETRY_BYTES_PER_SECTOR_OFFSET_def
        IOCTL_DISK_GET_DRIVE_GEOMETRY_def IOCTL_DISK_GET_LENGTH_INFO_def Let_def of_le_bytes_le_bytes)
  moreover have "kv_open (lift_nt_kernel sized_kernel) w (nil_volume_id p) 0 0 =
      (Inr \<lparr>kv_handle = 1, kv_sector_size = 0, kv_total_sectors = 0\<rparr>, w)"
    by (simp add: kv_open_def allow_extended_dasd_io_def sized_kernel_def lift_nt_kernel_def ram_kernel_def STATUS_SUCCESS_def nt_success_def)
  ultimately show ?thesis
    by (simp add: kv_open_query_def kv_query_geometry_def)
qed

theorem prepare_displaces_bound_volume_witness:
  "\<exists>r d' ext' v. handle_jvck_prepare ((toy_drv_env (lift_nt_kernel sized_kernel))\<lparr>ev_codec := alias_codec\<rparr>) [] alias_drv = (r, d') \<and>
     reg_get ''vol'' (dr_reg d') = Some 0 \<and> dr_dev d' 1 = Some ext' \<and> de_volume ext' = Some v \<and> v \<noteq> 0 \<and>
     av_cipher_supplier (dr_heap d' ! v) = None"
proof -
  let ?E = "(toy_drv_env (lift_nt_kernel sized_kernel))\<lparr>ev_codec := alias_codec\<rparr> :: (jvck_cells \<times> (nat \<Rightarrow> byte)) drv_env"
  obtain r d' where run: "handle_jvck_prepare ?E [] alias_drv = (r, d')"
    by fastforce
  have dec: "decode_req (de_prepare_req (ev_codec ?E)) [] = Inr \<lparr>pr_volume_path = ''D:'', pr_nt_device_path = ''D'', pr_use_header = 0,
     pr_use_footer = 1, pr_metadata_size = 262144, pr_vmk = [], pr_metadata_block = [], pr_is_os_volume = False\<rparr>"
    by (simp add: decode_req_def alias_codec_def)
  have find: "find_filter (ev_devices ?E) ''D'' alias_drv = (Some (1, 1), alias_drv)"
    using alias_find [of "lift_nt_kernel sized_kernel"] by simp
  have open_ok: "kv_open_query (ev_kernel ?E) (dr_world alias_drv) (nil_volume_id ''D'') =
      (Inr \<lparr>kv_handle = 1, kv_sector_size = 512, kv_total_sectors = 600\<rparr>, dr_world alias_drv)"
    using sized_open by (simp add: toy_drv_env_def)
  have st: "reg_get ''vol'' (dr_reg alias_drv) = Some 0" "dr_dev alias_drv 1 = Some toy_ext" "de_volume toy_ext = Some 0"
    "de_vthread toy_ext = Some toy_vt" "rg_driver_object (dr_reg alias_drv) \<noteq> 0" "reg_get ''D:'' (dr_reg alias_drv) = None"
    by (simp_all add: toy_ext_def)
  show ?thesis
    using prepare_displaces_bound_volume [OF dec _ _ _ _ alias_drv_ok _ st(5) st(1) find st(2,3,4) open_ok run] st(6) run by auto
qed

end
