(* ===== verification/Sample_Driver.thy ===== *)
theory Sample_Driver
  imports Ioctl_Effects Boot_Handover Kernel_Support
begin

text \<open>
  The sample driver (\<open>sample/windrv/src/lib.rs\<close>) and its control device
  (\<open>lib/windrv/src/device.rs\<close>): \<open>DriverEntry\<close>, \<open>AddDevice\<close>, the dispatch routine of all
  devices, control requests with their buffers, shutdown and unload.

  The state is the state of the driver of the theories before, the control device and the entry points
  that the driver object holds.  Requests that the driver sends to itself come back through the same
  dispatch routine.  The I/O manager and the security functions are parameters.  Not modelled: log output, the
  flags of device objects and the size of the expanded stack.  The provider is a constant of the
  environment, so installing it sets a flag.
\<close>


section \<open>State and services\<close>

record 'w sample_driver =
  sd_drv :: "'w drv"
  sd_random_source :: "'w random_source"
  sd_provider :: bool
  sd_global_registry :: bool
  sd_control_device :: "device option"
  sd_add_device :: bool
  sd_unload :: bool
  sd_major_functions :: bool

record control_device_security =
  cds_sddl :: string
  cds_class_guid :: win_guid

text \<open>\<open>cs_expand_stack\<close>: the status of \<open>KeExpandKernelStackAndCallout\<close> and whether the callout
  ran; \<open>cs_build_request\<close>: the IRP of \<open>IoBuildDeviceIoControlRequest\<close> without buffers.\<close>

record 'w control_services =
  cs_create_device_secure :: "'w \<Rightarrow> string \<Rightarrow> string \<Rightarrow> win_guid \<Rightarrow> (ntstatus \<times> device) \<times> 'w"
  cs_create_symbolic_link :: "'w \<Rightarrow> string \<Rightarrow> string \<Rightarrow> ntstatus \<times> 'w"
  cs_delete_symbolic_link :: "'w \<Rightarrow> string \<Rightarrow> ntstatus \<times> 'w"
  cs_register_shutdown :: "'w \<Rightarrow> device \<Rightarrow> 'w"
  cs_unregister_shutdown :: "'w \<Rightarrow> device \<Rightarrow> 'w"
  cs_primary_token :: "u64 \<Rightarrow> u64"
  cs_token_is_admin :: "u64 \<Rightarrow> bool"
  cs_dereference_token :: "u64 \<Rightarrow> 'w \<Rightarrow> 'w"
  cs_expand_stack :: "'w \<Rightarrow> ntstatus \<times> bool"
  cs_build_request :: "'w \<Rightarrow> u32 \<Rightarrow> device \<Rightarrow> irp option"

record 'w sample_env =
  se_env :: "'w drv_env"
  se_control :: "'w control_services"
  se_io :: "'w io_manager"
  se_platform :: "'w platform"
  se_codec :: handover_codec
  se_gen_random :: "'w gen_random"
  se_passive :: bool
  se_work_item :: bool
  se_work_ctx :: bool

abbreviation "upd_drv f s \<equiv> s\<lparr>sd_drv := f (sd_drv s)\<rparr>"

definition STATUS_INVALID_DEVICE_REQUEST :: ntstatus where "STATUS_INVALID_DEVICE_REQUEST = 0xC0000010"


section \<open>The control device\<close>

definition DEVICE_NAME :: string where "DEVICE_NAME = CHR 0x5C # ''Device'' @ CHR 0x5C # ''VolumeCryptKitSample''"
definition SYMLINK_NAME :: string where "SYMLINK_NAME = CHR 0x5C # ''DosDevices'' @ CHR 0x5C # ''VolumeCryptKitSample''"

definition control_ext :: device_extension where
  "control_ext = \<lparr>de_kind = DEVICE_KIND_CONTROL, de_lower_device = 0, de_volume = None, de_vthread = None\<rparr>"

definition control_device_create :: "'w dev_services \<Rightarrow> 'w control_services \<Rightarrow> control_device_security \<Rightarrow> 'w drv \<Rightarrow> device vck_result \<times> 'w drv" where
  "control_device_create DS CS security d =
     (case cs_create_device_secure CS (dr_world d) DEVICE_NAME (cds_sddl security) (cds_class_guid security) of
        ((status, device), w1) \<Rightarrow>
          (case ntstatus_to_result status ''IoCreateDeviceSecure failed'' of
             Inl e \<Rightarrow> (Inl e, d\<lparr>dr_world := w1\<rparr>)
           | Inr _ \<Rightarrow>
               (case cs_create_symbolic_link CS w1 SYMLINK_NAME DEVICE_NAME of
                  (status, w2) \<Rightarrow>
                    (case ntstatus_to_result status ''IoCreateSymbolicLink failed'' of
                       Inl e \<Rightarrow> (Inl e, d\<lparr>dr_world := ds_delete DS w2 device\<rparr>)
                     | Inr _ \<Rightarrow>
                         (Inr device, d\<lparr>dr_dev := (dr_dev d)(device := Some control_ext), dr_world := cs_register_shutdown CS w2 device\<rparr>)))))"

text \<open>When the link cannot be deleted the device object stays.\<close>

definition control_device_destroy :: "'w dev_services \<Rightarrow> 'w control_services \<Rightarrow> device \<Rightarrow> 'w drv \<Rightarrow> unit vck_result \<times> 'w drv" where
  "control_device_destroy DS CS device d =
     (let w1 = cs_unregister_shutdown CS (dr_world d) device
      in case cs_delete_symbolic_link CS w1 SYMLINK_NAME of
           (status, w2) \<Rightarrow>
             (case ntstatus_to_result status ''IoDeleteSymbolicLink failed'' of
                Inl e \<Rightarrow> (Inl e, d\<lparr>dr_world := w2\<rparr>)
              | Inr _ \<Rightarrow> (Inr (), d\<lparr>dr_dev := (dr_dev d)(device := None), dr_world := ds_delete DS w2 device\<rparr>)))"

definition CONTROL_DEVICE_SDDL :: string where
  "CONTROL_DEVICE_SDDL = ''D:P(A;;GA;;;SY)(A;;GA;;;BA)(A;;GRGX;;;AU)''"

definition CONTROL_DEVICE_CLASS_GUID :: win_guid where
  "CONTROL_DEVICE_CLASS_GUID =
     \<lparr>wg_data1 = 0x8F3C1A2B, wg_data2 = 0x5D74, wg_data3 = 0x4E96, wg_data4 = [0xA1, 0xB0, 0x2C, 0x9E, 0x7F, 0x46, 0xD3, 0xA8]\<rparr>"

definition sample_device_security :: control_device_security where
  "sample_device_security = \<lparr>cds_sddl = CONTROL_DEVICE_SDDL, cds_class_guid = CONTROL_DEVICE_CLASS_GUID\<rparr>"


section \<open>Loading\<close>

definition handover_of :: "vck_handover_payload \<Rightarrow> handover_info" where
  "handover_of payload = \<lparr>hi_partition_guid = hp_partition_guid payload, hi_vmk = hp_vmk payload\<rparr>"

definition driver_entry :: "'w sample_env \<Rightarrow> u64 \<Rightarrow> 'w sample_driver \<Rightarrow> ntstatus \<times> 'w sample_driver" where
  "driver_entry E driver s =
     (let s0 = s\<lparr>sd_random_source := set_random_source (sd_random_source s) (KERNEL_RNG (se_gen_random E)), sd_provider := True\<rparr>
      in if driver = 0 then (STATUS_INVALID_PARAMETER, s0)
         else (case control_device_create (ev_devices (se_env E)) (se_control E) sample_device_security (sd_drv s0) of
                 (Inl e, d1) \<Rightarrow> (STATUS_UNSUCCESSFUL, s0\<lparr>sd_drv := d1\<rparr>)
               | (Inr device, d1) \<Rightarrow>
                   let d2 = d1\<lparr>dr_reg := set_driver_object driver (dr_reg d1)\<rparr>;
                       d3 = (case read_handover (se_codec E) (se_platform E) (dr_world d2) of
                               (Inr payload, w) \<Rightarrow> d2\<lparr>dr_reg := set_handover (handover_of payload) (dr_reg d2), dr_world := w\<rparr>
                             | (Inl _, w) \<Rightarrow> d2\<lparr>dr_world := w\<rparr>)
                   in (STATUS_SUCCESS,
                       s0\<lparr>sd_drv := d3, sd_control_device := Some device, sd_global_registry := True, sd_add_device := True,
                          sd_unload := True, sd_major_functions := True\<rparr>)))"

text \<open>The first source stays: a second load keeps it, and the source of the driver answers with the
  bytes of the kernel.\<close>

lemma driver_entry_random:
  assumes "driver_entry E driver s = (st, s')" "sd_random_source s \<in> {None, Some (KERNEL_RNG (se_gen_random E))}"
  shows "fill_random (sd_random_source s') = KERNEL_RNG (se_gen_random E)"
proof -
  have "sd_random_source s' = Some (KERNEL_RNG (se_gen_random E))"
    using assms by (auto simp: driver_entry_def set_random_source_def Let_def split: if_splits prod.splits sum.splits)
  then show ?thesis
    by (intro ext) (simp add: fill_random_def)
qed

text \<open>The kernel's source meets what the metadata store expects of its source.\<close>

lemma kernel_rng_delivers:
  assumes "gen_random_ok gen" "\<And>n w. nt_success (fst (gen n BCRYPT_USE_SYSTEM_PREFERRED_RNG w))"
    "\<And>n w. disk (snd (snd (gen n BCRYPT_USE_SYSTEM_PREFERRED_RNG w))) = disk w"
  shows "rng_delivers (Some (KERNEL_RNG gen)) disk"
  unfolding rng_delivers_def
proof (intro allI)
  fix w and n :: nat
  obtain st random w1 where g: "gen (of_nat n) BCRYPT_USE_SYSTEM_PREFERRED_RNG w = (st, random, w1)"
    by (metis prod.exhaust)
  have "nt_success st" "disk w1 = disk w"
    using assms(2) [of "of_nat n" w] assms(3) [of "of_nat n" w] g by simp_all
  then show "\<exists>salt w'. fill_random (Some (KERNEL_RNG gen)) w n = (Inr salt, w') \<and> length salt = n \<and> disk w' = disk w"
    using kernel_rng_fills [OF assms(1) g] by (simp add: fill_random_def)
qed

definition add_device :: "'w sample_env \<Rightarrow> device \<Rightarrow> 'w sample_driver \<Rightarrow> ntstatus \<times> 'w sample_driver" where
  "add_device E pdo s =
     (let DS = ev_devices (se_env E);
          pdo_name = device_name_string (ds_query_name DS (dr_world (sd_drv s)) pdo)
      in case attach_filter_to_raw_device DS pdo (sd_drv s) of
           (Inr (filter_do, lower_do), d1) \<Rightarrow>
             (STATUS_SUCCESS, s\<lparr>sd_drv := d1\<lparr>dr_reg := add_pdo_filter pdo filter_do lower_do pdo_name (dr_reg d1)\<rparr>\<rparr>)
         | (Inl _, d1) \<Rightarrow> (STATUS_SUCCESS, s\<lparr>sd_drv := d1\<rparr>))"


section \<open>Control requests\<close>

text \<open>The callout may run although expanding the stack reports a failure; then the request is dispatched
  again on the current stack, as in the code.\<close>

definition run_dispatch :: "'w sample_env \<Rightarrow> auth_context \<Rightarrow> bytes \<Rightarrow> 'w drv \<Rightarrow> bytes vck_result \<times> 'w drv" where
  "run_dispatch E ctx input d =
     (let dispatch = dispatch_ioctl (authorize (cs_token_is_admin (se_control E))) (se_env E) ctx input;
          (status, ran) = cs_expand_stack (se_control E) (dr_world d);
          (result, d1) = (if ran then (case dispatch d of (r, d1) \<Rightarrow> (Some r, d1)) else (None, d))
      in if nt_success status
         then (case result of None \<Rightarrow> Inl (Io ''dispatch callout did not run'') | Some r \<Rightarrow> r, d1)
         else dispatch d1)"

text \<open>Copying the answer into the system buffer and completing the request.\<close>

definition finish_control :: "irp \<Rightarrow> bytes vck_result \<Rightarrow> ntstatus \<times> irp" where
  "finish_control irp result =
     (case result of
        Inl _ \<Rightarrow> (STATUS_UNSUCCESSFUL, complete_irp irp STATUS_UNSUCCESSFUL 0)
      | Inr response \<Rightarrow>
          if length response > unat (irp_output_length irp)
          then (STATUS_BUFFER_TOO_SMALL, complete_irp irp STATUS_BUFFER_TOO_SMALL 0)
          else if response = [] then (STATUS_SUCCESS, complete_irp irp STATUS_SUCCESS 0)
          else (case irp_system_buffer irp of
                  None \<Rightarrow> (STATUS_INVALID_PARAMETER, complete_irp irp STATUS_INVALID_PARAMETER 0)
                | Some buf \<Rightarrow>
                    (STATUS_SUCCESS, complete_irp (irp\<lparr>irp_system_buffer := Some (buf_write 0 response buf)\<rparr>) STATUS_SUCCESS (length response))))"

definition control_input :: "irp \<Rightarrow> bytes option" where
  "control_input irp =
     (if irp_input_length irp = 0 then Some []
      else map_option (take (unat (irp_input_length irp))) (irp_system_buffer irp))"

definition dispatch_device_control :: "'w sample_env \<Rightarrow> irp \<Rightarrow> 'w drv \<Rightarrow> ntstatus \<times> irp \<times> 'w drv" where
  "dispatch_device_control E irp d =
     (if \<not> irp_has_stack irp then (STATUS_INVALID_PARAMETER, complete_irp irp STATUS_INVALID_PARAMETER 0, d)
      else (case control_input irp of
              None \<Rightarrow> (STATUS_INVALID_PARAMETER, complete_irp irp STATUS_INVALID_PARAMETER 0, d)
            | Some input \<Rightarrow>
                let token = from_process (cs_primary_token (se_control E)) (irp_process irp);
                    ctx = \<lparr>ac_ioctl_code = irp_ioctl_code irp,
                           ac_requestor_mode = (if irp_requestor_mode irp = 0 then KernelMode else UserMode),
                           ac_requestor_token = token\<rparr>;
                    (result, d1) = run_dispatch E ctx input d;
                    (status, irp1) = finish_control irp result
                in (status, irp1,
                    case token of None \<Rightarrow> d1 | Some t \<Rightarrow> d1\<lparr>dr_world := token_drop (cs_dereference_token (se_control E)) t (dr_world d1)\<rparr>)))"


section \<open>Shutdown and unload\<close>

text \<open>A request to the own control device arrives at \<open>dispatch_device_control\<close> and is completed before
  the call returns, so its status block is that of the IRP.\<close>

definition send_self_ioctl :: "'w sample_env \<Rightarrow> device \<Rightarrow> u32 \<Rightarrow> 'w drv \<Rightarrow> ntstatus \<times> 'w drv" where
  "send_self_ioctl E device code d =
     (case cs_build_request (se_control E) (dr_world d) code device of
        None \<Rightarrow> (STATUS_UNSUCCESSFUL, d)
      | Some irp \<Rightarrow>
          (case dispatch_device_control E irp d of
             (status, irp1, d1) \<Rightarrow> (if status = STATUS_PENDING then irp_status irp1 else status, d1)))"

definition driver_shutdown :: "'w sample_env \<Rightarrow> 'w sample_driver \<Rightarrow> 'w sample_driver" where
  "driver_shutdown E s =
     (case sd_control_device s of
        None \<Rightarrow> s
      | Some device \<Rightarrow> upd_drv (\<lambda>d. snd (send_self_ioctl E device IOCTL_VCK_DETACH_ALL_VOLUMES d)) s)"

datatype unload_outcome = Unloaded | BugCheck u32 u64

definition VCK_BUGCHECK :: u32 where "VCK_BUGCHECK = 0x56434B00"
definition STATUS_INVALID_DEVICE_STATE :: u64 where "STATUS_INVALID_DEVICE_STATE = 0xC0000184"

definition driver_unload :: "'w sample_env \<Rightarrow> 'w sample_driver \<Rightarrow> unload_outcome \<times> 'w sample_driver" where
  "driver_unload E s =
     (let s1 = driver_shutdown E s
      in if has_encrypted_os_volume (dr_heap (sd_drv s1)) (dr_reg (sd_drv s1))
         then (BugCheck VCK_BUGCHECK STATUS_INVALID_DEVICE_STATE, s1)
         else (Unloaded,
               case sd_control_device s1 of
                 None \<Rightarrow> s1
               | Some device \<Rightarrow>
                   upd_drv (\<lambda>d. snd (control_device_destroy (ev_devices (se_env E)) (se_control E) device d)) (s1\<lparr>sd_control_device := None\<rparr>)))"

definition handle_shutdown :: "'w sample_env \<Rightarrow> 'w sample_driver \<Rightarrow> 'w sample_driver" where
  "handle_shutdown E s =
     driver_shutdown E
       (case sd_control_device s of
          None \<Rightarrow> s
        | Some dev \<Rightarrow> upd_drv (\<lambda>d. snd (send_self_ioctl E dev IOCTL_VCK_PAUSE_OS_VOLUME d)) s)"


section \<open>Dispatch\<close>

text \<open>The dispatch routine is only called for device objects of the driver; otherwise the outcome is
  \<open>None\<close>.  An IRP of a filter device is completed by the filter.\<close>

definition dispatch_any ::
    "'w sample_env \<Rightarrow> device \<Rightarrow> irp option \<Rightarrow> 'w sample_driver \<Rightarrow> (ntstatus \<times> irp option \<times> 'w sample_driver) option" where
  "dispatch_any E device_object irp s =
     (case irp of
        None \<Rightarrow> Some (STATUS_INVALID_PARAMETER, None, s)
      | Some irp \<Rightarrow>
          if device_object = 0 then Some (STATUS_INVALID_PARAMETER, Some (complete_irp irp STATUS_INVALID_PARAMETER 0), s)
          else (case dr_dev (sd_drv s) device_object of
                  None \<Rightarrow> None
                | Some ext \<Rightarrow>
                    if de_kind ext = DEVICE_KIND_FILTER
                    then (case start_filter_device (ev_kernel (se_env E)) (se_io E) (ev_devices (se_env E)) (ev_provider (se_env E))
                                 (se_passive E) (se_work_item E) (se_work_ctx E) device_object irp (sd_drv s) of
                            (status, d1) \<Rightarrow> Some (status, None, s\<lparr>sd_drv := d1\<rparr>))
                    else let major = (if irp_has_stack irp then irp_major irp else MJ_OTHER)
                         in (case major of
                               MJ_DEVICE_CONTROL \<Rightarrow>
                                 (case dispatch_device_control E irp (sd_drv s) of
                                    (status, irp1, d1) \<Rightarrow> Some (status, Some irp1, s\<lparr>sd_drv := d1\<rparr>))
                             | MJ_CREATE \<Rightarrow> Some (STATUS_SUCCESS, Some (complete_irp irp STATUS_SUCCESS 0), s)
                             | MJ_CLOSE \<Rightarrow> Some (STATUS_SUCCESS, Some (complete_irp irp STATUS_SUCCESS 0), s)
                             | MJ_CLEANUP \<Rightarrow> Some (STATUS_SUCCESS, Some (complete_irp irp STATUS_SUCCESS 0), s)
                             | MJ_SHUTDOWN \<Rightarrow> Some (STATUS_SUCCESS, Some (complete_irp irp STATUS_SUCCESS 0), handle_shutdown E s)
                             | _ \<Rightarrow> Some (STATUS_INVALID_DEVICE_REQUEST, Some (complete_irp irp STATUS_INVALID_DEVICE_REQUEST 0), s))))"

end
