(* ===== verification/Driver_Life.thy ===== *)
theory Driver_Life
  imports Sample_Driver
begin

text \<open>
  The life of the driver: what requests, shutdown and unload do to the volumes.  The steps a running
  driver can take are an inductive relation over its dispatch routine and \<open>AddDevice\<close>; the
  mount at \<open>START_DEVICE\<close> is treated with the boot.
\<close>


section \<open>What the I/O manager promises\<close>

text \<open>The callout runs exactly when expanding the stack succeeds; a request built by the driver is a
  control request without buffers from kernel mode.\<close>

definition control_services_ok :: "'w control_services \<Rightarrow> bool" where
  "control_services_ok CS \<longleftrightarrow>
     (\<forall>w. snd (cs_expand_stack CS w) \<longleftrightarrow> nt_success (fst (cs_expand_stack CS w))) \<and>
     (\<forall>w code dev irp. cs_build_request CS w code dev = Some irp \<longrightarrow>
        irp_has_stack irp \<and> irp_major irp = MJ_DEVICE_CONTROL \<and> irp_ioctl_code irp = code \<and>
        irp_input_length irp = 0 \<and> irp_output_length irp = 0 \<and> irp_requestor_mode irp = 0)"

lemma run_dispatch_once:
  assumes "control_services_ok (se_control E)"
  shows "run_dispatch E ctx input d = dispatch_ioctl (authorize (cs_token_is_admin (se_control E))) (se_env E) ctx input d"
proof -
  obtain st ran where x: "cs_expand_stack (se_control E) (dr_world d) = (st, ran)"
    by (metis prod.exhaust)
  then have "ran = nt_success st"
    using assms unfolding control_services_ok_def by (metis fst_conv snd_conv)
  then show ?thesis
    by (simp add: run_dispatch_def x Let_def split: prod.split)
qed

text \<open>A request to itself carries kernel rights, and an empty answer always fits.\<close>

lemma send_self_ioctl_effect:
  assumes "control_services_ok (se_control E)" "cs_build_request (se_control E) (dr_world d) code dev = Some irp"
    "\<And>ctx. ac_ioctl_code ctx = code \<Longrightarrow> ac_requestor_mode ctx = KernelMode \<Longrightarrow>
       dispatch_ioctl (authorize (cs_token_is_admin (se_control E))) (se_env E) ctx [] d = (Inr [], d1)"
  shows "\<exists>w. send_self_ioctl E dev code d = (STATUS_SUCCESS, d1\<lparr>dr_world := w\<rparr>)"
proof -
  have irp: "irp_has_stack irp" "irp_ioctl_code irp = code" "irp_input_length irp = 0" "irp_requestor_mode irp = 0"
    using assms(1,2) unfolding control_services_ok_def by blast+
  have self: "\<exists>w. d1 = d1\<lparr>dr_world := w\<rparr>"
    by (rule exI [of _ "dr_world d1"]) simp
  have "STATUS_SUCCESS \<noteq> STATUS_PENDING"
    by (simp add: STATUS_SUCCESS_def STATUS_PENDING_def)
  then show ?thesis
    using irp assms(2,3) self
    by (auto simp: send_self_ioctl_def dispatch_device_control_def control_input_def run_dispatch_once [OF assms(1)]
        finish_control_def Let_def split: option.split)
qed

lemma kernel_authorized: "ac_requestor_mode ctx = KernelMode \<Longrightarrow> authorize f ctx = Inr ()"
  by (simp add: authorize_def require_administrator_def)

lemma self_pause:
  assumes "control_services_ok (se_control E)" "cs_build_request (se_control E) (dr_world d) IOCTL_VCK_PAUSE_OS_VOLUME dev \<noteq> None"
  shows "\<exists>w. send_self_ioctl E dev IOCTL_VCK_PAUSE_OS_VOLUME d = (STATUS_SUCCESS, (snd (handle_pause_os_volume d))\<lparr>dr_world := w\<rparr>)"
  using assms(2) by (auto intro!: send_self_ioctl_effect [OF assms(1)]
      simp: dispatch_ioctl_def kernel_authorized ioctl_values handle_pause_os_volume_def)

lemma self_detach_all:
  assumes "control_services_ok (se_control E)" "cs_build_request (se_control E) (dr_world d) IOCTL_VCK_DETACH_ALL_VOLUMES dev \<noteq> None"
  shows "\<exists>w. send_self_ioctl E dev IOCTL_VCK_DETACH_ALL_VOLUMES d =
    (STATUS_SUCCESS, (snd (handle_detach_all_volumes (se_env E) d))\<lparr>dr_world := w\<rparr>)"
  using assms(2) by (auto intro!: send_self_ioctl_effect [OF assms(1)]
      simp: dispatch_ioctl_def kernel_authorized ioctl_values handle_detach_all_volumes_def)


section \<open>Shutdown and unload of the volumes\<close>

text \<open>The volumes of a running driver: a consistent registry and a control device.\<close>

definition driver_up :: "'w sample_env \<Rightarrow> device \<Rightarrow> 'w sample_driver \<Rightarrow> bool" where
  "driver_up E dev s \<longleftrightarrow> control_services_ok (se_control E) \<and> (\<forall>w code. cs_build_request (se_control E) w code dev \<noteq> None) \<and>
     sd_control_device s = Some dev \<and> dr_dev (sd_drv s) dev = Some control_ext \<and> dev \<noteq> 0 \<and>
     reg_ok (dr_heap (sd_drv s)) (dr_reg (sd_drv s))"

lemma driver_shutdown_eq:
  assumes "driver_up E dev s"
  shows "\<exists>w. driver_shutdown E s = s\<lparr>sd_drv := (snd (handle_detach_all_volumes (se_env E) (sd_drv s)))\<lparr>dr_world := w\<rparr>\<rparr>"
  using self_detach_all [of E "sd_drv s" dev] assms by (force simp: driver_up_def driver_shutdown_def)

lemma handle_shutdown_eq:
  assumes "driver_up E dev s"
  shows "\<exists>w1 w2. handle_shutdown E s =
    s\<lparr>sd_drv := (snd (handle_detach_all_volumes (se_env E) ((snd (handle_pause_os_volume (sd_drv s)))\<lparr>dr_world := w1\<rparr>)))\<lparr>dr_world := w2\<rparr>\<rparr>"
proof -
  obtain w1 where w1: "send_self_ioctl E dev IOCTL_VCK_PAUSE_OS_VOLUME (sd_drv s) =
      (STATUS_SUCCESS, (snd (handle_pause_os_volume (sd_drv s)))\<lparr>dr_world := w1\<rparr>)"
    using self_pause [of E "sd_drv s" dev] assms by (auto simp: driver_up_def)
  let ?s = "s\<lparr>sd_drv := (snd (handle_pause_os_volume (sd_drv s)))\<lparr>dr_world := w1\<rparr>\<rparr>"
  obtain w2 where "send_self_ioctl E dev IOCTL_VCK_DETACH_ALL_VOLUMES (sd_drv ?s) =
      (STATUS_SUCCESS, (snd (handle_detach_all_volumes (se_env E) (sd_drv ?s)))\<lparr>dr_world := w2\<rparr>)"
    using self_detach_all [of E "sd_drv ?s" dev] assms by (auto simp: driver_up_def)
  then have "handle_shutdown E s = s\<lparr>sd_drv := (snd (handle_detach_all_volumes (se_env E) (sd_drv ?s)))\<lparr>dr_world := w2\<rparr>\<rparr>"
    using assms w1 by (simp add: handle_shutdown_def driver_shutdown_def driver_up_def)
  then show ?thesis
    by auto
qed

text \<open>An encrypted operating-system volume outlives everything a request can do.\<close>

lemma guarded_run_dispatch: "guarded p v d \<Longrightarrow> guarded p v (snd (run_dispatch E ctx input d))"
  by (auto simp: run_dispatch_def Let_def guarded_dispatch split: prod.split)
    (metis guarded_dispatch snd_conv)+

lemma guarded_control: "guarded p v d \<Longrightarrow> dispatch_device_control E irp d = (st, irp', d') \<Longrightarrow> guarded p v d'"
  using guarded_run_dispatch [of p v d E]
  by (auto simp: dispatch_device_control_def Let_def split: if_splits option.splits prod.splits) (metis snd_conv)+

lemma guarded_send_self: "guarded p v d \<Longrightarrow> guarded p v (snd (send_self_ioctl E dev code d))"
  by (auto simp: send_self_ioctl_def split: option.split prod.split intro: guarded_control)

lemma guarded_driver_shutdown: "guarded p v (sd_drv s) \<Longrightarrow> guarded p v (sd_drv (driver_shutdown E s))"
  by (auto simp: driver_shutdown_def guarded_send_self split: option.split)

lemma guarded_handle_shutdown: "guarded p v (sd_drv s) \<Longrightarrow> guarded p v (sd_drv (handle_shutdown E s))"
  by (auto simp: handle_shutdown_def guarded_send_self split: option.split intro!: guarded_driver_shutdown)

text \<open>Outside of \<open>START_DEVICE\<close> a filter leaves volumes and registry alone.\<close>

lemma filter_request_frame:
  assumes "start_filter_device K IM DS P x y z f irp d = (st, d')" "\<not> (irp_major irp = MJ_PNP \<and> irp_minor_start irp)"
  shows "dr_heap d' = dr_heap d \<and> dr_reg d' = dr_reg d"
proof -
  have "False" if "handle_filter_irp IM h ext irp w = (s, Started i, ext1, w1)" for h ext w s ext1 w1 i
    using that assms(2)
    by (auto simp: handle_filter_irp_def handle_filter_pnp_def pass_through_def intercept_size_ioctl_def filter_transfer_def Let_def
        split: irp_major_function.splits option.splits if_splits prod.splits)
  then show ?thesis
    using assms(1) by (fastforce simp: start_filter_device_def Let_def split: option.splits prod.splits filter_outcome.splits)
qed


section \<open>Steps of the running driver\<close>

inductive driver_step :: "'w sample_env \<Rightarrow> 'w sample_driver \<Rightarrow> 'w sample_driver \<Rightarrow> bool" for E where
  request: "dispatch_any E dev (Some irp) s = Some (st, out, s') \<Longrightarrow>
     \<not> (irp_major irp = MJ_PNP \<and> irp_minor_start irp) \<Longrightarrow> driver_step E s s'"
| new_device: "add_device E pdo s = (st, s') \<Longrightarrow> driver_step E s s'"

inductive_cases driver_stepE: "driver_step E s s'"

lemma guarded_dispatch_any:
  assumes "dispatch_any E dev (Some irp) s = Some (st, out, s')" "\<not> (irp_major irp = MJ_PNP \<and> irp_minor_start irp)"
    "guarded p v (sd_drv s)"
  shows "guarded p v (sd_drv s')"
proof -
  have "guarded p v d'" if "start_filter_device K IM DS P x y z f irp (sd_drv s) = (st, d')" for K IM DS P x y z f st d'
    using filter_request_frame [OF that assms(2)] assms(3) guarded_cong by blast
  then show ?thesis
    using assms(1,3) guarded_handle_shutdown [OF assms(3)]
    by (auto simp: dispatch_any_def Let_def split: if_splits option.splits prod.splits irp_major_function.splits dest: guarded_control)
qed

lemma guarded_add_device:
  assumes "add_device E pdo s = (st, s')" "guarded p v (sd_drv s)"
  shows "guarded p v (sd_drv s')"
proof -
  obtain r d1 where a: "attach_filter_to_raw_device (ev_devices (se_env E)) pdo (sd_drv s) = (r, d1)"
    by (metis prod.exhaust)
  have "guarded p v d1"
    using attach_frame(1) [OF a] assms(2) guarded_cong by blast
  moreover have "guarded p v (d\<lparr>dr_reg := add_pdo_filter q f l n (dr_reg d)\<rparr>) = guarded p v d" for q f l n and d :: "'a drv"
    by (simp add: guarded_def reg_ok_def reg_get_def add_pdo_filter_def)
  ultimately show ?thesis
    using assms(1) a by (auto simp: add_device_def Let_def split: sum.splits prod.splits)
qed

lemma guarded_steps: "(driver_step E)\<^sup>*\<^sup>* s s' \<Longrightarrow> guarded p v (sd_drv s) \<Longrightarrow> guarded p v (sd_drv s')"
  by (induction rule: rtranclp_induct) (auto elim!: driver_stepE intro: guarded_dispatch_any guarded_add_device)



text \<open>Pausing the volumes of the operating system and then detaching the data volumes.\<close>

lemma quiesce_effect:
  assumes "reg_ok (dr_heap d) (dr_reg d)" "handle_pause_os_volume d = (r1, dp)" "d1 = dp\<lparr>dr_world := w1\<rparr>"
    "handle_detach_all_volumes E d1 = (r2, d2)"
  shows "(\<forall>p v. reg_get p (dr_reg d2) = Some v \<longleftrightarrow> reg_get p (dr_reg d) = Some v \<and> is_os_volume (dr_heap d ! v)) \<and>
    (\<forall>p v. reg_get p (dr_reg d2) = Some v \<longrightarrow>
       av_encrypted_boundary (dr_heap d2 ! v) = av_encrypted_boundary (dr_heap d ! v) \<and>
       av_io_config (dr_heap d2 ! v) = av_io_config (dr_heap d ! v) \<and>
       (\<forall>bsz w. \<exists>x. sweep_step bsz (dr_heap d2 ! v) w = (Inr False, x, w))) \<and>
    (\<forall>f. f \<noteq> 0 \<longrightarrow> dr_dev d2 f =
       (if \<exists>p v. reg_get p (dr_reg d) = Some v \<and> \<not> is_os_volume (dr_heap d ! v) \<and> av_filter_device (dr_heap d ! v) = f
        then None else dr_dev d f))"
proof (intro conjI allI impI)
  note pause = pause_os_effect [OF assms(1,2)]
  have ok1: "reg_ok (dr_heap d1) (dr_reg d1)"
    using pause_os_reg_ok [OF assms(1,2)] by (simp add: assms(3))
  note det = detach_all_effect [OF ok1 assms(4)]
  have h1: "dr_heap d1 ! v = (if is_os_volume (dr_heap d ! v)
      then (dr_heap d ! v)\<lparr>av_encryption := pause (av_encryption (dr_heap d ! v))\<rparr> else dr_heap d ! v)" if "reg_get p (dr_reg d) = Some v" for p v
    using pause that by (simp add: assms(3))
  have same: "dr_reg d1 = dr_reg d" "dr_dev d1 = dr_dev d"
    using pause by (simp_all add: assms(3))
  have os: "is_os_volume (dr_heap d1 ! v) = is_os_volume (dr_heap d ! v)" "av_filter_device (dr_heap d1 ! v) = av_filter_device (dr_heap d ! v)"
    if "reg_get p (dr_reg d) = Some v" for p v
    using h1 [OF that] by (simp_all add: is_os_volume_def)
  show reg: "reg_get p (dr_reg d2) = Some v \<longleftrightarrow> reg_get p (dr_reg d) = Some v \<and> is_os_volume (dr_heap d ! v)" for p v
    using det os same by auto
  have paused: "dr_heap d2 ! v = (dr_heap d ! v)\<lparr>av_encryption := pause (av_encryption (dr_heap d ! v))\<rparr>"
    if "reg_get p (dr_reg d2) = Some v" for p v
  proof -
    have "dr_heap d2 ! v = dr_heap d1 ! v"
      using det that by blast
    then show ?thesis
      using reg [of p v] that h1 [of p v] by simp
  qed
  then show "av_encrypted_boundary (dr_heap d2 ! v) = av_encrypted_boundary (dr_heap d ! v)"
    "av_io_config (dr_heap d2 ! v) = av_io_config (dr_heap d ! v)" if "reg_get p (dr_reg d2) = Some v" for p v
    using that by simp_all
  show "\<exists>x. sweep_step bsz (dr_heap d2 ! v) w = (Inr False, x, w)" if "reg_get p (dr_reg d2) = Some v" for p v bsz w
    using paused [OF that] paused_sweep_step [where e = "av_encryption (dr_heap d ! v)" and bsz = bsz and w = w] by metis
  have iff: "(\<exists>p v. reg_get p (dr_reg d1) = Some v \<and> \<not> is_os_volume (dr_heap d1 ! v) \<and> av_filter_device (dr_heap d1 ! v) = f) \<longleftrightarrow>
      (\<exists>p v. reg_get p (dr_reg d) = Some v \<and> \<not> is_os_volume (dr_heap d ! v) \<and> av_filter_device (dr_heap d ! v) = f)" for f
    using os same by metis
  have "dr_dev d2 f = (if \<exists>p v. reg_get p (dr_reg d1) = Some v \<and> \<not> is_os_volume (dr_heap d1 ! v) \<and> av_filter_device (dr_heap d1 ! v) = f
      then None else dr_dev d1 f)" if "f \<noteq> 0" for f
    using det that by blast
  from this [unfolded iff same(2)]
  show "dr_dev d2 f = (if \<exists>p v. reg_get p (dr_reg d) = Some v \<and> \<not> is_os_volume (dr_heap d ! v) \<and> av_filter_device (dr_heap d ! v) = f
      then None else dr_dev d f)" if "f \<noteq> 0" for f
    using that by blast
qed


section \<open>A small running driver\<close>

definition toy_control_services :: "'w control_services" where
  "toy_control_services =
     \<lparr>cs_create_device_secure = (\<lambda>w n sd g. ((STATUS_SUCCESS, 2), w)), cs_create_symbolic_link = (\<lambda>w a b. (STATUS_SUCCESS, w)),
      cs_delete_symbolic_link = (\<lambda>w a. (STATUS_SUCCESS, w)), cs_register_shutdown = (\<lambda>w dv. w), cs_unregister_shutdown = (\<lambda>w dv. w),
      cs_primary_token = (\<lambda>p. 0), cs_token_is_admin = (\<lambda>t. False), cs_dereference_token = (\<lambda>t w. w),
      cs_expand_stack = (\<lambda>w. (STATUS_SUCCESS, True)),
      cs_build_request = (\<lambda>w code dv. Some ((toy_irp MJ_DEVICE_CONTROL 0 0)\<lparr>irp_ioctl_code := code, irp_requestor_mode := 0\<rparr>))\<rparr>"

definition silent_platform :: "'w platform" where
  "silent_platform =
     \<lparr>pf_allocate_pool = (\<lambda>w n. (None, w)), pf_write_memory = (\<lambda>w a b. w), pf_read_memory = (\<lambda>w a n. replicate n 0), pf_ucs2 = (\<lambda>s. True),
      pf_set_variable = (\<lambda>w n g v. (False, w)), pf_boot = (\<lambda>w. w), pf_get_variable = (\<lambda>w n g k. (STATUS_UNSUCCESSFUL, 0, [])),
      pf_pool = (\<lambda>w n. True), pf_map = (\<lambda>w a n. True)\<rparr>"

definition toy_sample_env :: "'w nt_kernel \<Rightarrow> 'w sample_env" where
  "toy_sample_env K =
     \<lparr>se_env = toy_drv_env K, se_control = toy_control_services, se_io = toy_im, se_platform = silent_platform,
      se_codec = toy_handover_codec [], se_gen_random = (\<lambda>n f w. (0, replicate (unat n) 0x5A, w)), se_passive = True, se_work_item = True, se_work_ctx = True\<rparr>"

definition toy_running :: "attach_source \<Rightarrow> engine_state \<Rightarrow> (jvck_cells \<times> (nat \<Rightarrow> byte)) sample_driver" where
  "toy_running src st =
     \<lparr>sd_drv = (toy_loaded src st)\<lparr>dr_dev := [1 \<mapsto> toy_ext, 2 \<mapsto> control_ext]\<rparr>, sd_random_source = None, sd_provider = True,
      sd_global_registry = True, sd_control_device = Some 2, sd_add_device = True,
      sd_unload = True, sd_major_functions = True\<rparr>"

lemma toy_control_ok: "control_services_ok toy_control_services"
  by (simp add: control_services_ok_def toy_control_services_def toy_irp_def nt_success_def STATUS_SUCCESS_def)

lemma toy_running_up: "driver_up (toy_sample_env K) 2 (toy_running src st)"
  using toy_loaded_ok [of src st] toy_control_ok
  by (simp add: driver_up_def toy_sample_env_def toy_running_def) (simp add: toy_control_services_def)

lemma toy_running_guarded: "guarded ''vol'' 0 (sd_drv (toy_running Handover st))"
  using toy_loaded_guarded [of st] by (simp add: toy_running_def guarded_def)


section \<open>Properties\<close>



text \<open>C29: the shutdown request.  It succeeds; afterwards exactly the volumes of the operating system
  are registered, with their boundary and their cipher unchanged and with a sweep that makes no further
  step; the filter of every data volume is deleted and no other device is touched.\<close>

theorem shutdown_quiesces:
  fixes s :: "'w sample_driver"
  defines "d \<equiv> sd_drv s"
  assumes "driver_up E dev s" "irp_has_stack irp" "irp_major irp = MJ_SHUTDOWN"
  shows "\<exists>s'. dispatch_any E dev (Some irp) s = Some (STATUS_SUCCESS, Some (complete_irp irp STATUS_SUCCESS 0), s') \<and>
    (\<forall>p v. reg_get p (dr_reg (sd_drv s')) = Some v \<longleftrightarrow> reg_get p (dr_reg d) = Some v \<and> is_os_volume (dr_heap d ! v)) \<and>
    (\<forall>p v. reg_get p (dr_reg (sd_drv s')) = Some v \<longrightarrow>
       av_encrypted_boundary (dr_heap (sd_drv s') ! v) = av_encrypted_boundary (dr_heap d ! v) \<and>
       av_io_config (dr_heap (sd_drv s') ! v) = av_io_config (dr_heap d ! v) \<and>
       (\<forall>bsz w. \<exists>x. sweep_step bsz (dr_heap (sd_drv s') ! v) w = (Inr False, x, w))) \<and>
    (\<forall>f. f \<noteq> 0 \<longrightarrow> dr_dev (sd_drv s') f =
       (if \<exists>p v. reg_get p (dr_reg d) = Some v \<and> \<not> is_os_volume (dr_heap d ! v) \<and> av_filter_device (dr_heap d ! v) = f
        then None else dr_dev d f))"
proof -
  have up: "sd_control_device s = Some dev" "dr_dev d dev = Some control_ext" "dev \<noteq> 0" "reg_ok (dr_heap d) (dr_reg d)"
    using assms(2) by (simp_all add: driver_up_def d_def)
  obtain r1 dp where dp: "handle_pause_os_volume d = (r1, dp)"
    by (metis prod.exhaust)
  obtain w1 w2 where sh: "handle_shutdown E s =
      s\<lparr>sd_drv := (snd (handle_detach_all_volumes (se_env E) (dp\<lparr>dr_world := w1\<rparr>)))\<lparr>dr_world := w2\<rparr>\<rparr>"
    using handle_shutdown_eq [OF assms(2)] dp unfolding d_def by auto
  obtain r2 d2 where d2: "handle_detach_all_volumes (se_env E) (dp\<lparr>dr_world := w1\<rparr>) = (r2, d2)"
    by (metis prod.exhaust)
  let ?s = "s\<lparr>sd_drv := d2\<lparr>dr_world := w2\<rparr>\<rparr>"
  have disp: "dispatch_any E dev (Some irp) s = Some (STATUS_SUCCESS, Some (complete_irp irp STATUS_SUCCESS 0), ?s)"
    using up assms(3,4) sh d2 by (simp add: dispatch_any_def d_def control_ext_def DEVICE_KIND_CONTROL_def DEVICE_KIND_FILTER_def)
  have eq: "dr_reg d2 = dr_reg (sd_drv ?s)" "dr_heap d2 = dr_heap (sd_drv ?s)" "dr_dev d2 = dr_dev (sd_drv ?s)"
    by simp_all
  show ?thesis
    using disp quiesce_effect [OF up(4) dp refl d2, unfolded eq] by blast
qed

theorem shutdown_quiesces_witness:
  "\<exists>s' w. dispatch_any (toy_sample_env (lift_nt_kernel ram_kernel)) 2 (Some (toy_irp MJ_SHUTDOWN 0 0)) (toy_running Ioctl Encrypting) =
     Some (STATUS_SUCCESS, w, s') \<and> dr_dev (sd_drv s') 1 = None \<and> dr_dev (sd_drv s') 2 = Some control_ext"
proof -
  have "irp_has_stack (toy_irp MJ_SHUTDOWN 0 0)" "irp_major (toy_irp MJ_SHUTDOWN 0 0) = MJ_SHUTDOWN"
    by (simp_all add: toy_irp_def)
  from shutdown_quiesces [OF toy_running_up this, of "lift_nt_kernel ram_kernel" Ioctl Encrypting] obtain s' where
    "dispatch_any (toy_sample_env (lift_nt_kernel ram_kernel)) 2 (Some (toy_irp MJ_SHUTDOWN 0 0)) (toy_running Ioctl Encrypting) =
     Some (STATUS_SUCCESS, Some (complete_irp (toy_irp MJ_SHUTDOWN 0 0) STATUS_SUCCESS 0), s')"
    and dev: "\<forall>f. f \<noteq> 0 \<longrightarrow> dr_dev (sd_drv s') f =
       (if \<exists>p v. reg_get p (dr_reg (sd_drv (toy_running Ioctl Encrypting))) = Some v \<and> \<not> is_os_volume (dr_heap (sd_drv (toy_running Ioctl Encrypting)) ! v) \<and>
            av_filter_device (dr_heap (sd_drv (toy_running Ioctl Encrypting)) ! v) = f
        then None else dr_dev (sd_drv (toy_running Ioctl Encrypting)) f)"
    by blast
  moreover have "dr_dev (sd_drv s') 1 = None" "dr_dev (sd_drv s') 2 = Some control_ext"
    using dev by (auto simp: toy_running_def is_os_volume_def toy_volume_def)
  ultimately show ?thesis
    by blast
qed

text \<open>Unloading.  When no encrypted volume of the operating system is registered the driver gives
  up its control device and leaves no data volume behind; otherwise it ends in the bug check.\<close>

theorem unload_exact:
  assumes "driver_up E dev s" "driver_unload E s = (outcome, s')"
  shows "if \<exists>p v. reg_get p (dr_reg (sd_drv s)) = Some v \<and> is_os_volume (dr_heap (sd_drv s) ! v) \<and> has_encrypted_data (dr_heap (sd_drv s) ! v)
    then outcome = BugCheck VCK_BUGCHECK STATUS_INVALID_DEVICE_STATE
    else outcome = Unloaded \<and> sd_control_device s' = None \<and>
      (\<forall>p v. reg_get p (dr_reg (sd_drv s')) = Some v \<longrightarrow> is_os_volume (dr_heap (sd_drv s') ! v) \<and> \<not> has_encrypted_data (dr_heap (sd_drv s') ! v))"
proof -
  let ?d = "sd_drv s"
  have up: "sd_control_device s = Some dev" "reg_ok (dr_heap ?d) (dr_reg ?d)"
    using assms(1) by (simp_all add: driver_up_def)
  obtain w where sh: "driver_shutdown E s = s\<lparr>sd_drv := (snd (handle_detach_all_volumes (se_env E) ?d))\<lparr>dr_world := w\<rparr>\<rparr>"
    using driver_shutdown_eq [OF assms(1)] by blast
  obtain r1 d1 where d1: "handle_detach_all_volumes (se_env E) ?d = (r1, d1)"
    by (metis prod.exhaust)
  note det = detach_all_effect [OF up(2) d1]
  have reg: "reg_get p (dr_reg d1) = Some v \<longleftrightarrow> reg_get p (dr_reg ?d) = Some v \<and> is_os_volume (dr_heap ?d ! v)"
    and heap: "reg_get p (dr_reg d1) = Some v \<Longrightarrow> dr_heap d1 ! v = dr_heap ?d ! v" for p v
    using det by blast+
  have enc: "has_encrypted_os_volume (dr_heap d1) (dr_reg d1) \<longleftrightarrow>
      (\<exists>p v. reg_get p (dr_reg ?d) = Some v \<and> is_os_volume (dr_heap ?d ! v) \<and> has_encrypted_data (dr_heap ?d ! v))"
    using has_encrypted_os_volume_iff [of "dr_heap d1" "dr_reg d1"] det reg heap by metis
  have frame: "dr_heap (snd (control_device_destroy DS CS dv d)) = dr_heap d" "dr_reg (snd (control_device_destroy DS CS dv d)) = dr_reg d"
    for DS CS dv and d :: "'a drv"
    by (simp_all add: control_device_destroy_def Let_def split: prod.split sum.split)
  show ?thesis
  proof (cases "has_encrypted_os_volume (dr_heap d1) (dr_reg d1)")
    case True
    then show ?thesis
      using assms(2) sh d1 enc by (auto simp: driver_unload_def Let_def)
  next
    case False
    then have "outcome = Unloaded" "sd_control_device s' = None" "dr_heap (sd_drv s') = dr_heap d1" "dr_reg (sd_drv s') = dr_reg d1"
      using assms(2) sh d1 up(1) frame by (auto simp: driver_unload_def Let_def)
    then show ?thesis
      using False enc reg heap by (metis (no_types, lifting))
  qed
qed

theorem unload_exact_witness:
  "fst (driver_unload (toy_sample_env (lift_nt_kernel ram_kernel)) (toy_running Handover Idle)) =
     BugCheck VCK_BUGCHECK STATUS_INVALID_DEVICE_STATE \<and>
   fst (driver_unload (toy_sample_env (lift_nt_kernel ram_kernel)) (toy_running Ioctl Idle)) = Unloaded"
proof -
  have "reg_get ''vol'' (dr_reg (sd_drv (toy_running src st))) = Some 0" for src st
    by (simp add: toy_running_def)
  moreover have "is_os_volume (dr_heap (sd_drv (toy_running Handover st)) ! 0) \<and> has_encrypted_data (dr_heap (sd_drv (toy_running Handover st)) ! 0)" for st
    using toy_running_guarded [of st] by (simp add: guarded_def)
  moreover have "\<not> is_os_volume (dr_heap (sd_drv (toy_running Ioctl st)) ! v)" if "reg_get p (dr_reg (sd_drv (toy_running Ioctl st))) = Some v" for p v st
    using that by (auto simp: toy_running_def is_os_volume_def split: if_splits)
  ultimately show ?thesis
    using unload_exact [OF toy_running_up prod.collapse [symmetric]] by (metis (no_types, lifting))
qed

text \<open>The answer to a control request.  The request is completed with the returned status, which is
  never pending.  It succeeds exactly when the handler does, the answer fits the output buffer and there is
  a buffer for it; then the buffer starts with the answer.  The effect on the driver does not depend on the
  size of the output buffer: a request whose answer does not fit has been carried out although it is
  reported as failed.\<close>

theorem control_reply_exact:
  assumes "control_services_ok (se_control E)" "irp_has_stack irp" "control_input irp = Some input"
    "ctx = \<lparr>ac_ioctl_code = irp_ioctl_code irp, ac_requestor_mode = (if irp_requestor_mode irp = 0 then KernelMode else UserMode),
            ac_requestor_token = from_process (cs_primary_token (se_control E)) (irp_process irp)\<rparr>"
    "dispatch_ioctl (authorize (cs_token_is_admin (se_control E))) (se_env E) ctx input d = (r, d1)"
    "dispatch_device_control E irp d = (st, irp', d')"
  shows "st = irp_status irp' \<and> st \<noteq> STATUS_PENDING \<and>
    (st = STATUS_SUCCESS \<longleftrightarrow> (\<exists>resp. r = Inr resp \<and> length resp \<le> unat (irp_output_length irp) \<and> (resp = [] \<or> irp_system_buffer irp \<noteq> None))) \<and>
    (\<forall>resp buf. st = STATUS_SUCCESS \<and> r = Inr resp \<and> irp_system_buffer irp = Some buf \<longrightarrow>
       irp_information irp' = length resp \<and> irp_system_buffer irp' = Some (resp @ drop (length resp) buf)) \<and>
    same_driver d1 d' \<and> (\<forall>n. snd (snd (dispatch_device_control E (irp\<lparr>irp_output_length := n\<rparr>) d)) = d')"
proof -
  let ?drop = "\<lambda>d. case from_process (cs_primary_token (se_control E)) (irp_process irp) of None \<Rightarrow> d
    | Some t \<Rightarrow> d\<lparr>dr_world := token_drop (cs_dereference_token (se_control E)) t (dr_world d)\<rparr>"
  have run: "dispatch_device_control E (irp\<lparr>irp_output_length := n\<rparr>) d =
      (fst (finish_control (irp\<lparr>irp_output_length := n\<rparr>) r), snd (finish_control (irp\<lparr>irp_output_length := n\<rparr>) r), ?drop d1)" for n
  proof -
    have "control_input (irp\<lparr>irp_output_length := n\<rparr>) = Some input"
      using assms(3) by (auto simp: control_input_def)
    then show ?thesis
      using assms(2,5) by (simp add: dispatch_device_control_def run_dispatch_once [OF assms(1)] assms(4) Let_def
          split: prod.split split del: if_split)
  qed
  have eq: "st = fst (finish_control irp r)" "irp' = snd (finish_control irp r)" "d' = ?drop d1"
    using run [of "irp_output_length irp"] assms(6) by simp_all
  have "same_driver d1 d'"
    unfolding eq by (simp add: same_driver_def split: option.split)
  moreover have "snd (snd (dispatch_device_control E (irp\<lparr>irp_output_length := n\<rparr>) d)) = d'" for n
    using run [of n] eq(3) by simp
  moreover have "st = irp_status irp' \<and> st \<noteq> STATUS_PENDING"
    unfolding eq by (auto simp: finish_control_def complete_irp_def STATUS_SUCCESS_def STATUS_PENDING_def STATUS_UNSUCCESSFUL_def
        STATUS_BUFFER_TOO_SMALL_def STATUS_INVALID_PARAMETER_def split: sum.split option.split)
  moreover have "st = STATUS_SUCCESS \<longleftrightarrow> (\<exists>resp. r = Inr resp \<and> length resp \<le> unat (irp_output_length irp) \<and> (resp = [] \<or> irp_system_buffer irp \<noteq> None))"
    unfolding eq by (auto simp: finish_control_def STATUS_SUCCESS_def STATUS_UNSUCCESSFUL_def STATUS_BUFFER_TOO_SMALL_def
        STATUS_INVALID_PARAMETER_def split: sum.split option.split)
  moreover have "irp_information irp' = length resp \<and> irp_system_buffer irp' = Some (resp @ drop (length resp) buf)"
    if "st = STATUS_SUCCESS" "r = Inr resp" "irp_system_buffer irp = Some buf" for resp buf
    using that unfolding eq by (auto simp: finish_control_def complete_irp_def buf_write_def STATUS_SUCCESS_def STATUS_BUFFER_TOO_SMALL_def split: if_splits)
  ultimately show ?thesis
    by blast
qed

theorem control_reply_exact_witness:
  "\<exists>irp' d'. dispatch_device_control ((toy_sample_env (lift_nt_kernel ram_kernel))\<lparr>se_env := (toy_drv_env (lift_nt_kernel ram_kernel))
       \<lparr>ev_codec := toy_codec\<lparr>en_volume_list := (\<lambda>_. Inr [1, 2, 3])\<rparr>\<rparr>\<rparr>)
     ((toy_irp MJ_DEVICE_CONTROL 0 0)\<lparr>irp_ioctl_code := IOCTL_VCK_LIST_VOLUMES, irp_requestor_mode := 0, irp_output_length := 4,
       irp_system_buffer := Some [0, 0, 0, 9]\<rparr>) (toy_loaded Ioctl Idle) = (STATUS_SUCCESS, irp', d') \<and>
     irp_system_buffer irp' = Some [1, 2, 3, 9]"
proof -
  let ?E = "(toy_sample_env (lift_nt_kernel ram_kernel))\<lparr>se_env := (toy_drv_env (lift_nt_kernel ram_kernel))
       \<lparr>ev_codec := toy_codec\<lparr>en_volume_list := (\<lambda>_. Inr [1, 2, 3])\<rparr>\<rparr>\<rparr>"
  let ?irp = "(toy_irp MJ_DEVICE_CONTROL 0 0)\<lparr>irp_ioctl_code := IOCTL_VCK_LIST_VOLUMES, irp_requestor_mode := 0, irp_output_length := 4,
       irp_system_buffer := Some [0, 0, 0, 9]\<rparr>"
  have e: "control_services_ok (se_control ?E)" "irp_has_stack ?irp" "control_input ?irp = Some []"
    using toy_control_ok by (simp_all add: toy_sample_env_def toy_irp_def control_input_def)
  obtain st irp' d' where run: "dispatch_device_control ?E ?irp (toy_loaded Ioctl Idle) = (st, irp', d')"
    by (metis prod.exhaust)
  have disp: "dispatch_ioctl (authorize f) (se_env ?E) \<lparr>ac_ioctl_code = irp_ioctl_code ?irp, ac_requestor_mode =
      (if irp_requestor_mode ?irp = 0 then KernelMode else UserMode), ac_requestor_token = t\<rparr> [] (toy_loaded Ioctl Idle) =
      (Inr [1, 2, 3], toy_loaded Ioctl Idle)" for f t
    by (simp add: dispatch_ioctl_def kernel_authorized ioctl_values handle_list_volumes_def encode_resp_def)
  note all = control_reply_exact [OF e refl disp run]
  have "st = STATUS_SUCCESS"
    using conjunct1 [OF conjunct2 [OF conjunct2 [OF all]]] by (simp only:) simp
  then show ?thesis
    using all run by simp
qed

end
