(* ===== verification/System_Boot.thy ===== *)
theory System_Boot
  imports Loader_Run Driver_Life
begin

text \<open>
  From the configuration file to the mounted system volume: the run of the loader, the start of the
  system, \<open>DriverEntry\<close>, \<open>AddDevice\<close> and the mount when the device starts, composed.
\<close>


section \<open>What the driver's start leaves alone\<close>

definition platform_same :: "'w platform \<Rightarrow> 'w \<Rightarrow> 'w \<Rightarrow> bool" where
  "platform_same P w w' \<longleftrightarrow>
     pf_read_memory P w' = pf_read_memory P w \<and> pf_get_variable P w' = pf_get_variable P w \<and> pf_pool P w' = pf_pool P w \<and> pf_map P w' = pf_map P w"

lemma platform_same_trans: "platform_same P w1 w2 \<Longrightarrow> platform_same P w2 w3 \<Longrightarrow> platform_same P w1 w3"
  by (simp add: platform_same_def)

lemma read_handover_same: "platform_same P w w' \<Longrightarrow> fst (read_handover M P w') = fst (read_handover M P w)"
  by (auto simp: read_handover_def read_handover_variable_def read_handover_payload_def platform_same_def Let_def
      split: sum.split prod.split)

text \<open>Creating the control device succeeds and touches neither memory nor firmware variables.\<close>

definition control_starts :: "'w platform \<Rightarrow> 'w control_services \<Rightarrow> bool" where
  "control_starts P CS \<longleftrightarrow>
     (\<forall>w n sd g. nt_success (fst (fst (cs_create_device_secure CS w n sd g))) \<and> platform_same P w (snd (cs_create_device_secure CS w n sd g))) \<and>
     (\<forall>w a b. nt_success (fst (cs_create_symbolic_link CS w a b)) \<and> platform_same P w (snd (cs_create_symbolic_link CS w a b))) \<and>
     (\<forall>w dv. platform_same P w (cs_register_shutdown CS w dv))"

lemma control_device_created:
  assumes "control_starts P CS"
  shows "\<exists>dev w. control_device_create DS CS security d = (Inr dev, d\<lparr>dr_dev := (dr_dev d)(dev := Some control_ext), dr_world := w\<rparr>) \<and>
    platform_same P (dr_world d) w"
proof -
  obtain st dev w1 where c1: "cs_create_device_secure CS (dr_world d) DEVICE_NAME (cds_sddl security) (cds_class_guid security) = ((st, dev), w1)"
    by (metis prod.exhaust)
  obtain st2 w2 where c2: "cs_create_symbolic_link CS w1 SYMLINK_NAME DEVICE_NAME = (st2, w2)"
    by (metis prod.exhaust)
  have ok: "nt_success st" "platform_same P (dr_world d) w1" "nt_success st2" "platform_same P w1 w2"
    "platform_same P w2 (cs_register_shutdown CS w2 dev)"
    using assms c1 c2 unfolding control_starts_def by (metis fst_conv snd_conv)+
  have "platform_same P (dr_world d) (cs_register_shutdown CS w2 dev)"
    by (rule platform_same_trans [OF ok(2) platform_same_trans [OF ok(4,5)]])
  then show ?thesis
    using ok c1 c2 by (auto simp: control_device_create_def ntstatus_to_result_def)
qed


section \<open>Loading the driver\<close>

definition driver_init :: "'w \<Rightarrow> 'w sample_driver" where
  "driver_init w =
     \<lparr>sd_drv = \<lparr>dr_heap = [], dr_reg = registry_new, dr_dev = (\<lambda>_. None), dr_completed = [], dr_world = w\<rparr>,
      sd_random_source = None, sd_provider = False, sd_global_registry = False, sd_control_device = None, sd_add_device = False, sd_unload = False, sd_major_functions = False\<rparr>"

lemma driver_entry_handover:
  assumes "control_starts (se_platform E) (se_control E)" "driver \<noteq> 0"
    "read_handover (se_codec E) (se_platform E) w = (Inr payload, z)"
  shows "\<exists>s dev. driver_entry E driver (driver_init w) = (STATUS_SUCCESS, s) \<and> sd_control_device s = Some dev \<and> sd_add_device s \<and>
    sd_major_functions s \<and> rg_handover (dr_reg (sd_drv s)) = Some (handover_of payload) \<and> rg_driver_object (dr_reg (sd_drv s)) = driver \<and>
    reg_ok (dr_heap (sd_drv s)) (dr_reg (sd_drv s))"
proof -
  let ?d = "sd_drv (driver_init w)"
  obtain dev w1 where c: "control_device_create (ev_devices (se_env E)) (se_control E) sample_device_security ?d =
      (Inr dev, ?d\<lparr>dr_dev := (dr_dev ?d)(dev := Some control_ext), dr_world := w1\<rparr>)"
    and same: "platform_same (se_platform E) (dr_world ?d) w1"
    using control_device_created [OF assms(1)] by blast
  obtain z1 where rd: "read_handover (se_codec E) (se_platform E) w1 = (Inr payload, z1)"
    using read_handover_same [OF same, of "se_codec E"] assms(3) by (metis driver_init_def drv.select_convs(5) fst_conv prod.collapse sample_driver.select_convs(1))
  show ?thesis
    using assms(2) c rd
    by (simp add: driver_entry_def Let_def driver_init_def set_handover_def set_driver_object_def registry_new_def reg_ok_def reg_get_def
        bt_ok_def bt_get_def)
qed

text \<open>Attaching below the file system gives an unbound filter.\<close>

lemma add_device_unbound:
  assumes "attach_filter_to_raw_device (ev_devices (se_env E)) pdo (sd_drv s) = (Inr (f, l), d1)"
  shows "\<exists>s'. add_device E pdo s = (STATUS_SUCCESS, s') \<and> dr_dev (sd_drv s') f = Some (filter_ext l None) \<and> l \<noteq> 0 \<and>
    dr_heap (sd_drv s') = dr_heap (sd_drv s) \<and> rg_handover (dr_reg (sd_drv s')) = rg_handover (dr_reg (sd_drv s)) \<and>
    rg_entries (dr_reg (sd_drv s')) = rg_entries (dr_reg (sd_drv s)) \<and>
    find_pdo_filter pdo (dr_reg (sd_drv s')) \<noteq> None"
proof -
  have "dr_dev d1 f = Some (filter_ext l None)" "l \<noteq> 0"
    using assms by (auto simp: attach_filter_to_raw_device_def install_filter_def create_and_attach_def Let_def
        split: prod.splits sum.splits if_splits)
  moreover have "dr_heap d1 = dr_heap (sd_drv s)" "dr_reg d1 = dr_reg (sd_drv s)"
    using attach_frame(1) [OF assms] by simp_all
  ultimately show ?thesis
    using assms by (auto simp: add_device_def Let_def add_pdo_filter_def find_pdo_filter_def find_None_iff)
qed


section \<open>What starting the machine leaves of the volume\<close>

text \<open>\<open>D\<close> is what is on the volume.  None of the services that the loader, the start of the
  system and the start of the driver use writes to it.\<close>

definition loader_keeps :: "'w loader_env \<Rightarrow> ('w \<Rightarrow> 'd) \<Rightarrow> bool" where
  "loader_keeps LE D \<longleftrightarrow>
     (\<forall>v w. D (cpu_write_cr0 (le_processor LE) v w) = D w) \<and> (\<forall>v w. D (cpu_write_cr4 (le_processor LE) v w) = D w) \<and>
     (\<forall>w h. D (snd (fw_open_block_io (le_firmware LE) w h)) = D w) \<and> (\<forall>w h. D (fw_close_block_io (le_firmware LE) w h) = D w) \<and>
     (\<forall>w n. D (snd (pf_allocate_pool (le_platform LE) w n)) = D w) \<and> (\<forall>w a bs. D (pf_write_memory (le_platform LE) w a bs) = D w) \<and>
     (\<forall>w n g v. D (snd (pf_set_variable (le_platform LE) w n g v)) = D w) \<and> (\<forall>w. D (pf_boot (le_platform LE) w) = D w)"

definition driver_keeps :: "'w sample_env \<Rightarrow> ('w \<Rightarrow> 'd) \<Rightarrow> bool" where
  "driver_keeps SE D \<longleftrightarrow>
     (\<forall>w a bs. D (pf_write_memory (se_platform SE) w a bs) = D w) \<and>
     (\<forall>w n sd g. D (snd (cs_create_device_secure (se_control SE) w n sd g)) = D w) \<and>
     (\<forall>w a b. D (snd (cs_create_symbolic_link (se_control SE) w a b)) = D w) \<and>
     (\<forall>w dv. D (cs_register_shutdown (se_control SE) w dv) = D w) \<and>
     (\<forall>w. D (snd (ds_create_device (ev_devices (se_env SE)) w)) = D w) \<and>
     (\<forall>w f t. D (snd (ds_attach (ev_devices (se_env SE)) w f t)) = D w) \<and>
     (\<forall>w f. D (ds_delete (ev_devices (se_env SE)) w f) = D w)"

lemma xmm_keeps: "loader_keeps LE D \<Longrightarrow> D (report_and_enable_xmm (le_processor LE) w) = D w"
  by (simp add: loader_keeps_def report_and_enable_xmm_def Let_def)

lemma hook_keeps:
  assumes "loader_keeps LE D" "install_decrypt_hook C A (le_firmware LE) guid vmk lo = (r, lo1)"
  shows "D (lo_world lo1) = D (lo_world lo)"
proof -
  let ?FW = "le_firmware LE"
  have close: "D (fw_close_block_io ?FW w h) = D w" for w h
    using assms(1) by (simp add: loader_keeps_def)
  have opened: "fw_open_block_io ?FW w h = (x, w1) \<Longrightarrow> D w1 = D w" for w h x w1
    using assms(1) by (metis loader_keeps_def snd_conv)
  have locate: "D w1 = D w" if "locate_block_io_volume ?FW guid w = (x, w1)" for w x w1
    using that by (auto simp: locate_block_io_volume_def close dest: opened split: option.splits prod.splits if_splits)
  have inst: "lo_world lo2 = lo_world lo1" if "hook_install p eng lo1 = (x, lo2)" for p eng x and lo1 lo2 :: "'a loader"
    using that by (auto simp: hook_install_def split: option.splits)
  have eng: "D (lo_world lo2) = D (lo_world lo1)" if "engine_install ?FW eng lo1 = (x, lo2)" for eng lo1 x lo2
    using that by (auto simp: engine_install_def close dest: opened dest!: inst split: option.splits prod.splits if_splits sum.splits)
  show ?thesis
    using assms(2)
    by (auto simp: install_decrypt_hook_def Let_def close dest: locate dest!: eng split: prod.splits sum.splits)
qed

lemma publish_keeps:
  assumes "loader_keeps LE D" "loader_install_handover M (le_platform LE) payload w = (r, w1)"
  shows "D w1 = D w"
proof -
  have "D w2 = D w" if "pf_allocate_pool (le_platform LE) w n = (x, w2)" for w n x w2
    using assms(1) that by (metis loader_keeps_def snd_conv)
  moreover have "D w2 = D w" if "pf_set_variable (le_platform LE) w n g v = (x, w2)" for w n g v x w2
    using assms(1) that by (metis loader_keeps_def snd_conv)
  moreover have "D (pf_write_memory (le_platform LE) w a bs) = D w" for w a bs
    using assms(1) by (simp add: loader_keeps_def)
  ultimately show ?thesis
    using assms(2) by (auto simp: loader_install_handover_def Let_def split: sum.splits prod.splits option.splits if_splits bool.splits)
qed

lemma read_handover_keeps:
  assumes "driver_keeps SE D" "read_handover M (se_platform SE) w = (r, w1)"
  shows "D w1 = D w"
  using assms by (auto simp: driver_keeps_def read_handover_def read_handover_payload_def Let_def split: sum.splits prod.splits if_splits)

lemma control_create_keeps:
  assumes "driver_keeps SE D" "control_device_create DS (se_control SE) sec d = (Inr dev, d1)"
  shows "D (dr_world d1) = D (dr_world d)"
proof -
  have "D w1 = D w" if "cs_create_device_secure (se_control SE) w n sd g = (x, w1)" for w n sd g x w1
    using assms(1) that by (metis driver_keeps_def snd_conv)
  moreover have "D w1 = D w" if "cs_create_symbolic_link (se_control SE) w a b = (x, w1)" for w a b x w1
    using assms(1) that by (metis driver_keeps_def snd_conv)
  moreover have "D (cs_register_shutdown (se_control SE) w dv) = D w" for w dv
    using assms(1) by (simp add: driver_keeps_def)
  ultimately show ?thesis
    using assms(2) by (fastforce simp: control_device_create_def Let_def split: sum.splits prod.splits if_splits)
qed

lemma driver_entry_keeps:
  assumes "driver_keeps SE D" "driver_entry SE driver s = (STATUS_SUCCESS, s1)"
  shows "D (dr_world (sd_drv s1)) = D (dr_world (sd_drv s))"
proof -
  obtain dev d1 where c: "control_device_create (ev_devices (se_env SE)) (se_control SE) sample_device_security (sd_drv s) = (Inr dev, d1)"
    using assms(2)
    by (auto simp: driver_entry_def Let_def STATUS_SUCCESS_def STATUS_INVALID_PARAMETER_def STATUS_UNSUCCESSFUL_def
        split: if_splits sum.splits prod.splits)
  obtain r w1 where r: "read_handover (se_codec SE) (se_platform SE) (dr_world d1) = (r, w1)"
    by (metis prod.exhaust)
  have "dr_world (sd_drv s1) = w1"
    using assms(2) c r
    by (cases r) (auto simp: driver_entry_def Let_def STATUS_SUCCESS_def STATUS_INVALID_PARAMETER_def split: if_splits)
  then show ?thesis
    using control_create_keeps [OF assms(1) c] read_handover_keeps [OF assms(1) r] by simp
qed

lemma add_device_keeps:
  assumes "driver_keeps SE D" "add_device SE pdo s = (st, s1)"
  shows "D (dr_world (sd_drv s1)) = D (dr_world (sd_drv s))"
proof -
  let ?DS = "ev_devices (se_env SE)"
  have "D w1 = D w" if "ds_create_device ?DS w = (x, w1)" for w x w1
    using assms(1) that by (metis driver_keeps_def snd_conv)
  moreover have "D w1 = D w" if "ds_attach ?DS w f t = (x, w1)" for w f t x w1
    using assms(1) that by (metis driver_keeps_def snd_conv)
  moreover have "D (ds_delete ?DS w f) = D w" for w f
    using assms(1) by (simp add: driver_keeps_def)
  ultimately have att: "D (dr_world d1) = D (dr_world d)" if "attach_filter_to_raw_device ?DS pdo d = (x, d1)" for d x d1
    using that
    by (fastforce simp: attach_filter_to_raw_device_def install_filter_def create_and_attach_def Let_def
        split: sum.splits prod.splits if_splits)
  show ?thesis
    using assms(2) by (auto simp: add_device_def Let_def dest: att split: sum.splits prod.splits)
qed

section \<open>From the configuration to a driver that is ready\<close>

text \<open>A driver that finds the key loads, draws its salts from the kernel, and once its filter is attached to
  a device it is in the state from which the boot-time mount starts, with the volume as it was.\<close>

lemma driver_starts:
  assumes "read_handover (se_codec SE) (se_platform SE) wb = (Inr (config_payload cfg), z)"
    "control_starts (se_platform SE) (se_control SE)" "driver \<noteq> 0"
    "\<And>d. \<exists>d1. attach_filter_to_raw_device (ev_devices (se_env SE)) pdo d = (Inr (f, l), d1)" "f \<noteq> 0" "driver_keeps SE D"
  shows "\<exists>s1 s2. driver_entry SE driver (driver_init wb) = (STATUS_SUCCESS, s1) \<and>
    fill_random (sd_random_source s1) = KERNEL_RNG (se_gen_random SE) \<and> add_device SE pdo s1 = (STATUS_SUCCESS, s2) \<and>
    boot_ready \<lparr>hi_partition_guid = cfg_partition_guid cfg, hi_vmk = cfg_vmk cfg\<rparr> f l (sd_drv s2) \<and>
    D (dr_world (sd_drv s2)) = D wb"
proof -
  obtain s1 dev where s1: "driver_entry SE driver (driver_init wb) = (STATUS_SUCCESS, s1)"
    "rg_handover (dr_reg (sd_drv s1)) = Some (handover_of (config_payload cfg))" "reg_ok (dr_heap (sd_drv s1)) (dr_reg (sd_drv s1))"
    using driver_entry_handover [OF assms(2,3,1)] by blast
  obtain d1 where "attach_filter_to_raw_device (ev_devices (se_env SE)) pdo (sd_drv s1) = (Inr (f, l), d1)"
    using assms(4) by blast
  from add_device_unbound [OF this] obtain s2 where s2: "add_device SE pdo s1 = (STATUS_SUCCESS, s2)"
    "dr_dev (sd_drv s2) f = Some (filter_ext l None)" "l \<noteq> 0" "dr_heap (sd_drv s2) = dr_heap (sd_drv s1)"
    "rg_handover (dr_reg (sd_drv s2)) = rg_handover (dr_reg (sd_drv s1))" "rg_entries (dr_reg (sd_drv s2)) = rg_entries (dr_reg (sd_drv s1))"
    by blast
  have "reg_ok (dr_heap (sd_drv s2)) (dr_reg (sd_drv s2))"
    using s1(3) s2(4,6) by (simp add: reg_ok_def reg_get_def)
  then have "boot_ready \<lparr>hi_partition_guid = cfg_partition_guid cfg, hi_vmk = cfg_vmk cfg\<rparr> f l (sd_drv s2)"
    using s1(2) s2 assms(5) by (simp add: boot_ready_def handover_of_def config_payload_def)
  moreover have "D (dr_world (sd_drv s2)) = D wb"
    using driver_entry_keeps [OF assms(6) s1(1)] add_device_keeps [OF assms(6) s2(1)] by (simp add: driver_init_def)
  ultimately show ?thesis
    using s1(1) s2(1) driver_entry_random [OF s1(1)] by (auto simp: driver_init_def)
qed

text \<open>On a machine that can boot, the loader passes control on with consistent hooks, leaves the volume as it
  was and the key where the driver finds it.\<close>

lemma loader_keeps_volume:
  assumes "loader_ready LE (report_and_enable_xmm (le_processor LE) w) cfg next_loader" "loader_keeps LE D"
  shows "\<exists>r lo1 w2 z. install_decrypt_hook (le_crypto LE) (le_aes LE) (le_firmware LE) (cfg_partition_guid cfg) (cfg_vmk cfg)
      (loader_init (report_and_enable_xmm (le_processor LE) w)) = (r, lo1) \<and> hooks_ok lo1 \<and>
    D w2 = D w \<and> D (pf_boot (le_platform LE) w2) = D w \<and>
    read_handover (le_codec LE) (le_platform LE) (pf_boot (le_platform LE) w2) = (Inr (config_payload cfg), z) \<and>
    loader_run LE (loader_init w) = (case chainload_next (le_services LE) next_loader w2 of (res, w3) \<Rightarrow> (res, lo1\<lparr>lo_world := w3\<rparr>))"
proof -
  obtain r lo1 w2 z where run: "install_decrypt_hook (le_crypto LE) (le_aes LE) (le_firmware LE) (cfg_partition_guid cfg) (cfg_vmk cfg)
      (loader_init (report_and_enable_xmm (le_processor LE) w)) = (r, lo1)" "hooks_ok lo1"
    "loader_install_handover (le_codec LE) (le_platform LE) (config_payload cfg) (lo_world lo1) = (Inr (), w2)"
    "read_handover (le_codec LE) (le_platform LE) (pf_boot (le_platform LE) w2) = (Inr (config_payload cfg), z)"
    "loader_run LE (loader_init w) = (case chainload_next (le_services LE) next_loader w2 of (res, w3) \<Rightarrow> (res, lo1\<lparr>lo_world := w3\<rparr>))"
    using loader_hands_over [OF assms(1)] by metis
  have "D w2 = D w"
    using xmm_keeps [OF assms(2)] hook_keeps [OF assms(2) run(1)] publish_keeps [OF assms(2) run(3)] by (simp add: loader_init_def)
  then show ?thesis
    using run(1,2,4,5) assms(2) unfolding loader_keeps_def by metis
qed


section \<open>From the handover to the mounted volume\<close>

text \<open>The driver \<open>d\<close> has the system volume \<open>v\<close> of the store mounted at filter \<open>f\<close>, after the volumes \<open>h\<close> it had
  before: registered, bound with a thread, at the boundary and in the direction of \<open>cells\<close>.\<close>

definition os_volume_mounted ::
    "'w nt_kernel \<Rightarrow> lower_device_io \<Rightarrow> jvck_crypto \<Rightarrow> 'w random_source \<Rightarrow> aes256 \<Rightarrow> xts_volume_cipher \<Rightarrow> 'w jvck_store \<Rightarrow> jvck_cells
      \<Rightarrow> (jvck_cells \<times> 'w) vol_heap \<Rightarrow> device \<Rightarrow> (jvck_cells \<times> 'w) drv \<Rightarrow> (jvck_cells \<times> 'w) attached_volume \<Rightarrow> bool" where
  "os_volume_mounted K me C rng A x st cells h f d v \<longleftrightarrow>
     dr_heap d = h @ [v] \<and> reg_get (av_volume_path v) (dr_reg d) = Some (length h) \<and>
     (\<exists>ext. dr_dev d f = Some ext \<and> de_volume ext = Some (length h) \<and> de_vthread ext \<noteq> None) \<and> is_os_volume v \<and>
     drv_vol_ok K me C rng A x st v \<and> vol_synced v \<and> av_encrypted_boundary v = jc_offset cells \<and>
     av_offset_sector v = g_offset_sector (js_geometry st) \<and> data_sectors v = g_data_sectors (js_geometry st) \<and>
     en_state (av_encryption v) = resumed_state (from_u16 (jc_state cells))
       \<lparr>eo_sector = jc_offset cells, eo_total_sectors = g_data_sectors (js_geometry st)\<rparr>"

text \<open>A driver environment for the volume: the control device can be created, the filter attaches to the
  device of the volume as \<open>f\<close> above \<open>l\<close>, the sample's provider is used, the mount is run, and none of this writes to
  the disk.\<close>

definition driver_can_mount ::
    "(jvck_cells \<times> 'w) sample_env \<Rightarrow> u64 \<Rightarrow> device \<Rightarrow> device \<Rightarrow> device \<Rightarrow> handover_info \<Rightarrow> 'w nt_kernel \<Rightarrow> lower_device_io \<Rightarrow> ('w \<Rightarrow> nat \<Rightarrow> byte)
      \<Rightarrow> jvck_crypto \<Rightarrow> 'w random_source \<Rightarrow> aes256 \<Rightarrow> bool" where
  "driver_can_mount SE driver pdo f l hi K me disk C rng A \<longleftrightarrow>
     control_starts (se_platform SE) (se_control SE) \<and> driver \<noteq> 0 \<and>
     (\<forall>d. \<exists>d1. attach_filter_to_raw_device (ev_devices (se_env SE)) pdo d = (Inr (f, l), d1)) \<and> f \<noteq> 0 \<and>
     driver_keeps SE (\<lambda>cw. disk (snd cw)) \<and> ev_kernel (se_env SE) = lift_nt_kernel K \<and>
     ev_provider (se_env SE) = Some (sample_provider C rng A) \<and> (se_passive SE \<or> se_work_item SE \<and> se_work_ctx SE) \<and>
     (\<forall>w'. handover_probe K w' hi l = Some me)"

lemma driver_mounts:
  fixes SE :: "(jvck_cells \<times> 'w) sample_env" and wb :: "jvck_cells \<times> 'w"
  assumes "read_handover (se_codec SE) (se_platform SE) wb = (Inr (config_payload cfg), z)"
    "driver_can_mount SE driver pdo f l \<lparr>hi_partition_guid = cfg_partition_guid cfg, hi_vmk = cfg_vmk cfg\<rparr> K me disk C rng A"
    "sweep_reliable K me disk C rng A st" "use_footer (js_options st) \<noteq> 0"
    "xts_new A (fvek_key1 (js_secrets st)) (fvek_key2 (js_secrets st)) = Inr x"
    "jvck_ld.replicas_hold K me disk C st cells (snd wb)" "jc_offset cells \<le> g_data_sectors (js_geometry st)" "cfg_vmk cfg = js_vmk st"
  shows "\<exists>s1 s2 d3 v. driver_entry SE driver (driver_init wb) = (STATUS_SUCCESS, s1) \<and>
    fill_random (sd_random_source s1) = KERNEL_RNG (se_gen_random SE) \<and> add_device SE pdo s1 = (STATUS_SUCCESS, s2) \<and>
    on_start_device_completed (ev_kernel (se_env SE)) (ev_devices (se_env SE)) (ev_provider (se_env SE))
      (se_passive SE) (se_work_item SE) (se_work_ctx SE) f (sd_drv s2) = (STATUS_SUCCESS, d3) \<and>
    os_volume_mounted K me C rng A x st cells (dr_heap (sd_drv s2)) f d3 v \<and>
    disk (snd (dr_world (sd_drv s2))) = disk (snd wb)"
proof -
  let ?hi = "\<lparr>hi_partition_guid = cfg_partition_guid cfg, hi_vmk = cfg_vmk cfg\<rparr>"
  note S = assms(2) [unfolded driver_can_mount_def]
  have att: "\<exists>d1. attach_filter_to_raw_device (ev_devices (se_env SE)) pdo d = (Inr (f, l), d1)" for d
    using S by blast
  have env: "control_starts (se_platform SE) (se_control SE)" "driver \<noteq> 0" "f \<noteq> 0" "driver_keeps SE (\<lambda>cw. disk (snd cw))"
    "ev_kernel (se_env SE) = lift_nt_kernel K" "ev_provider (se_env SE) = Some (sample_provider C rng A)"
    "se_passive SE \<or> se_work_item SE \<and> se_work_ctx SE" "\<And>w'. handover_probe K w' ?hi l = Some me"
    using S by auto
  obtain s1 s2 where b: "driver_entry SE driver (driver_init wb) = (STATUS_SUCCESS, s1)"
    "fill_random (sd_random_source s1) = KERNEL_RNG (se_gen_random SE)" "add_device SE pdo s1 = (STATUS_SUCCESS, s2)"
    "boot_ready ?hi f l (sd_drv s2)" "disk (snd (dr_world (sd_drv s2))) = disk (snd wb)"
    using driver_starts [OF assms(1) env(1,2) att env(3,4)] by blast
  obtain cells2 w3 where w3: "dr_world (sd_drv s2) = (cells2, w3)"
    by (metis prod.exhaust)
  have hold: "jvck_ld.replicas_hold K me disk C st cells w3"
    using replicas_hold_disk [of disk w3 "snd wb", OF _ assms(6)] b(5) w3 by simp
  define d3 where "d3 = try_mount_handover_volume (lift_nt_kernel K) (ev_devices (se_env SE)) (Some (sample_provider C rng A)) f (sd_drv s2)"
  have "hi_vmk ?hi = js_vmk st"
    using assms(8) by simp
  from mount_held [OF assms(3-5) hold assms(7) env(8) this b(4) w3 d3_def]
  obtain v where "os_volume_mounted K me C rng A x st cells (dr_heap (sd_drv s2)) f d3 v"
    unfolding os_volume_mounted_def by blast
  moreover have "on_start_device_completed (ev_kernel (se_env SE)) (ev_devices (se_env SE)) (ev_provider (se_env SE))
      (se_passive SE) (se_work_item SE) (se_work_ctx SE) f (sd_drv s2) = (STATUS_SUCCESS, d3)"
    using env(5-7) by (auto simp: on_start_device_completed_def mount_work_routine_def d3_def)
  ultimately show ?thesis
    using b by blast
qed


section \<open>A small machine with a driver and a disk\<close>

text \<open>The small platform, firmware with one partition and the boot-time kernel on one world: the cells of the
  store, the memory and variables of the platform with the handles whose protocol is open, and the disk.\<close>

definition platform_within :: "'w platform \<Rightarrow> ('c \<times> ('w \<times> 'h) \<times> 'e) platform" where
  "platform_within P =
     \<lparr>pf_allocate_pool = (\<lambda>(c, (w, h), e) n. case pf_allocate_pool P w n of (r, w1) \<Rightarrow> (r, c, (w1, h), e)),
      pf_write_memory = (\<lambda>(c, (w, h), e) a bs. (c, (pf_write_memory P w a bs, h), e)),
      pf_read_memory = (\<lambda>(c, (w, h), e). pf_read_memory P w), pf_ucs2 = pf_ucs2 P,
      pf_set_variable = (\<lambda>(c, (w, h), e) n g v. case pf_set_variable P w n g v of (r, w1) \<Rightarrow> (r, c, (w1, h), e)),
      pf_boot = (\<lambda>(c, (w, h), e). (c, (pf_boot P w, h), e)), pf_get_variable = (\<lambda>(c, (w, h), e). pf_get_variable P w),
      pf_pool = (\<lambda>(c, (w, h), e). pf_pool P w), pf_map = (\<lambda>(c, (w, h), e). pf_map P w)\<rparr>"

definition firmware_within :: "('c \<times> ('w \<times> u64 list) \<times> (nat \<Rightarrow> byte)) firmware" where
  "firmware_within =
     \<lparr>fw_locate_block_io = (\<lambda>w. Some [3]), fw_partition_guid = (\<lambda>w h. Some (replicate 16 0)),
      fw_open_block_io = (\<lambda>(c, (w, hs), e) h. if h \<in> set hs then (None, c, (w, hs), e) else (Some (h + 6), c, (w, h # hs), e)),
      fw_close_block_io = (\<lambda>(c, (w, hs), e) h. (c, (w, filter (\<lambda>x. x \<noteq> h) hs), e)),
      fw_media = (\<lambda>w p. Some toy_media),
      fw_read_blocks = (\<lambda>(c, wh, e) p m lba n. (EFI_SUCCESS, map e [unat lba * 512..<unat lba * 512 + n])),
      fw_write_blocks = (\<lambda>(c, wh, e) p m lba buf. (EFI_SUCCESS, c, wh, put_bytes (unat lba * 512) buf e))\<rparr>"

lemma platform_within_ok:
  assumes "platform_ok P"
  shows "platform_ok (platform_within P)"
  using assms unfolding platform_ok_def by (auto simp: platform_within_def split: prod.splits)

lemma lift_irp:
  "irp_read (lift_nt_kernel K) cw = irp_read K (snd cw)"
  "irp_write (lift_nt_kernel K) cw dv a b = (r, cw1) \<longleftrightarrow> irp_write K (snd cw) dv a b = (r, snd cw1) \<and> fst cw1 = fst cw"
  "snd (snd (irp_write (lift_nt_kernel K) cw dv a b)) = snd (irp_write K (snd cw) dv a b)"
  by (cases cw1; auto simp: lift_nt_kernel_def split: prod.splits)+

lemma fsd_lift:
  assumes "fsd_ok K dv disk"
  shows "fsd_ok (lift_nt_kernel K) dv (\<lambda>cw. disk (snd cw))"
  using assms unfolding fsd_ok_def lift_irp by blast

lemma fsd_reliable_lift:
  assumes "fsd_reliable K dv lim"
  shows "fsd_reliable (lift_nt_kernel K :: ('c \<times> 'w) nt_kernel) dv lim"
proof -
  have "\<exists>s w'. irp_write (lift_nt_kernel K) cw dv off bs = (Some s, w') \<and> nt_success (irp_final_status s)"
    if lim: "unat off + length bs \<le> lim" for cw :: "'c \<times> 'w" and off bs
  proof -
    obtain s w' where "irp_write K (snd cw) dv off bs = (Some s, w')" "nt_success (irp_final_status s)"
      using assms lim unfolding fsd_reliable_def by blast
    then show ?thesis
      by (intro exI [of _ s] exI [of _ "(fst cw, w')"]) (simp add: lift_irp)
  qed
  then show ?thesis
    using assms unfolding fsd_reliable_def lift_irp(1) by blast
qed

type_synonym boot_world = "(toy_platform_world \<times> u64 list) \<times> (nat \<Rightarrow> byte)"

definition chain_rng :: "boot_world random_source" where
  "chain_rng = Some (\<lambda>w n. (Inr (replicate n 0x5A), w))"

definition chain_store :: "boot_world jvck_store" where
  "chain_store = \<lparr>js_io = ld_sector_io (lift_nt_kernel boot_kernel) toy_device, js_options = toy_options, js_vmk = [1, 2, 3],
     js_geometry = \<lparr>g_offset_sector = 0, g_data_sectors = 88, g_sector_size = 512\<rparr>,
     js_volume_sectors = 600, js_header = toy_header, js_secrets = toy_secrets, js_codec = jvck_cbc_codec toy_crypto\<rparr>"

definition chain_env :: "(jvck_cells \<times> boot_world) sample_env" where
  "chain_env = (toy_sample_env (lift_nt_kernel (lift_nt_kernel boot_kernel)))
     \<lparr>se_env := (toy_drv_env (lift_nt_kernel (lift_nt_kernel boot_kernel)))\<lparr>ev_provider := Some (sample_provider toy_crypto chain_rng toy_aes)\<rparr>,
      se_platform := platform_within toy_platform, se_codec := toy_handover_codec (hi_partition_guid boot_handover)\<rparr>"

abbreviation chain_machine :: "(jvck_cells \<times> boot_world) loader_env" where
  "chain_machine \<equiv> (toy_machine (platform_within toy_platform) (hi_partition_guid boot_handover))\<lparr>le_firmware := firmware_within\<rparr>"

lemma chain_sweep: "sweep_reliable (lift_nt_kernel boot_kernel) toy_device snd toy_crypto chain_rng toy_aes chain_store"
proof -
  have boot: "fsd_ok boot_kernel (ld_device_object toy_device) (\<lambda>w. w)" "geometry_ok (ld_sector_size toy_device) (ld_total_sectors toy_device)"
    "fsd_reliable boot_kernel (ld_device_object toy_device) (unat (ld_sector_size toy_device) * unat (ld_total_sectors toy_device))"
    "crypto_ok toy_crypto" "aes_ok toy_aes"
    using boot_sweep by (simp_all add: sweep_reliable_def jvck_env_ok_def ld_reliable_def ld_ok_def)
  have "ld_reliable (lift_nt_kernel boot_kernel) toy_device (snd :: boot_world \<Rightarrow> nat \<Rightarrow> byte)"
    using fsd_lift [OF boot(1)] fsd_reliable_lift [OF boot(3)] boot(2) by (simp add: ld_reliable_def ld_ok_def)
  moreover have "rng_delivers chain_rng snd"
    by (simp add: rng_delivers_def chain_rng_def fill_random_def)
  moreover have "store_ok (ld_sector_io (lift_nt_kernel boot_kernel) toy_device) (jvck_cbc_codec toy_crypto) chain_store"
    using toy_geometry
    by (simp add: store_ok_def chain_store_def toy_options_def ld_sector_io_def byte_sector_io_def toy_device_def ld_new_def)
      (simp add: toy_header_def)
  ultimately show ?thesis
    using boot(4,5) by (simp add: sweep_reliable_def jvck_env_ok_def)
qed

lemma loader_ready_firmware: "loader_ready (E\<lparr>le_firmware := F\<rparr>) w = loader_ready E w"
  by (simp add: loader_ready_def fun_eq_iff)

lemma chain_ready:
  "loader_ready chain_machine w \<lparr>cfg_partition_guid = hi_partition_guid boot_handover, cfg_vmk = [1, 2, 3], cfg_osloader = ustr ''/EFI/os''\<rparr>
     (4 # 1 # map ucast (map ucast (win_path (ustr ''/EFI/os'')) @ [0 :: u16]) @ [0x7F, 0xFF])"
  unfolding loader_ready_firmware
  by (rule toy_machine_ready [OF platform_within_ok [OF toy_handover_ok(1)]])
    (auto simp: platform_within_def toy_platform_def MAX_PAYLOAD_LEN_def split: prod.splits)

lemma chain_keeps: "loader_keeps chain_machine (\<lambda>cw. snd (snd cw))" "driver_keeps chain_env (\<lambda>cw. snd (snd cw))"
  by (auto simp: loader_keeps_def toy_machine_def fixed_processor_def firmware_within_def platform_within_def split: prod.splits)
    (auto simp: driver_keeps_def chain_env_def toy_sample_env_def toy_drv_env_def toy_services_def toy_control_services_def platform_within_def
      split: prod.splits)

lemma toy_control_starts: "control_starts P toy_control_services"
  by (simp add: control_starts_def toy_control_services_def platform_same_def nt_success_def STATUS_SUCCESS_def)

lemma chain_can_mount:
  "driver_can_mount chain_env 1 1 7 1 \<lparr>hi_partition_guid = hi_partition_guid boot_handover, hi_vmk = [1, 2, 3]\<rparr>
     (lift_nt_kernel boot_kernel) toy_device snd toy_crypto chain_rng toy_aes"
proof -
  have "\<exists>d1. attach_filter_to_raw_device (ev_devices (se_env chain_env)) 1 d = (Inr (7, 1), d1)" for d
    by (simp add: attach_filter_to_raw_device_def create_and_attach_def install_filter_def chain_env_def toy_sample_env_def toy_drv_env_def
        toy_services_def nt_success_def STATUS_SUCCESS_def Let_def)
  moreover have "handover_probe (lift_nt_kernel boot_kernel) w' \<lparr>hi_partition_guid = hi_partition_guid boot_handover, hi_vmk = [1, 2, 3]\<rparr> 1 = Some toy_device"
    for w' :: boot_world
    using boot_probe by (cases w') (simp add: handover_probe_lift boot_handover_def)
  ultimately show ?thesis
    using chain_keeps(2)
    by (simp add: driver_can_mount_def) (simp add: chain_env_def toy_sample_env_def toy_drv_env_def toy_control_starts)
qed

lemma chain_same: "se_platform chain_env = le_platform chain_machine" "se_codec chain_env = le_codec chain_machine"
  by (simp_all add: chain_env_def toy_machine_def)

lemma chain_key: "use_footer (js_options chain_store) \<noteq> 0"
    "xts_new toy_aes (fvek_key1 (js_secrets chain_store)) (fvek_key2 (js_secrets chain_store)) = Inr boot_xts"
  using boot_key by (simp_all add: chain_store_def toy_options_def toy_store_def)


section \<open>Properties\<close>

text \<open>C2: an encrypted system boots.  Let the progress of a sweep be stored on the system volume and the
  machine restart, with the partition and the master key of the volume in the configuration file.  Then the
  loader passes control on with consistent hooks, the driver loads, takes over the key and draws its salts
  from the kernel, attaches to the device of the volume, and when that device starts it mounts the volume:
  registered as the system volume, bound with a running thread, at the stored boundary and in the stored
  direction, and every reader sees the plaintext of the volume as it was when the progress was stored.\<close>

theorem encrypted_system_boots:
  fixes LE :: "(jvck_cells \<times> 'w) loader_env" and SE :: "(jvck_cells \<times> 'w) sample_env" and w :: "jvck_cells \<times> 'w"
  assumes "loader_ready LE (report_and_enable_xmm (le_processor LE) w) cfg next_loader" "loader_keeps LE (\<lambda>cw. disk (snd cw))"
    "se_platform SE = le_platform LE" "se_codec SE = le_codec LE"
    "driver_can_mount SE driver pdo f l \<lparr>hi_partition_guid = cfg_partition_guid cfg, hi_vmk = cfg_vmk cfg\<rparr> K me disk C rng A"
    "sweep_reliable K me disk C rng A st" "use_footer (js_options st) \<noteq> 0"
    "xts_new A (fvek_key1 (js_secrets st)) (fvek_key2 (js_secrets st)) = Inr x"
    "js_store rng st (cells0, w0) off = (r, cells1, w1)" "eo_sector off \<le> g_data_sectors (js_geometry st)"
    "disk (snd w) = disk w1" "cfg_vmk cfg = js_vmk st"
  shows "\<exists>lo1 w2 s1 s2 d3 v. loader_run LE (loader_init w) =
      (case chainload_next (le_services LE) next_loader w2 of (res, w3) \<Rightarrow> (res, lo1\<lparr>lo_world := w3\<rparr>)) \<and> hooks_ok lo1 \<and>
    driver_entry SE driver (driver_init (pf_boot (le_platform LE) w2)) = (STATUS_SUCCESS, s1) \<and>
    fill_random (sd_random_source s1) = KERNEL_RNG (se_gen_random SE) \<and> add_device SE pdo s1 = (STATUS_SUCCESS, s2) \<and>
    on_start_device_completed (ev_kernel (se_env SE)) (ev_devices (se_env SE)) (ev_provider (se_env SE))
      (se_passive SE) (se_work_item SE) (se_work_ctx SE) f (sd_drv s2) = (STATUS_SUCCESS, d3) \<and>
    os_volume_mounted K me C rng A x st (cells0\<lparr>jc_offset := eo_sector off\<rparr>) (dr_heap (sd_drv s2)) f d3 v \<and>
    vol_view (xts_as_volume_cipher A x) v (disk_sector disk (unat (ld_sector_size me)) (snd (dr_world (sd_drv s2)))) =
      logical_sector (xts_as_volume_cipher A x) (eo_sector off)
        (\<lambda>i. disk_sector disk (unat (ld_sector_size me)) w1 (unat (g_offset_sector (js_geometry st)) + i))"
proof -
  obtain lo1 w2 z where b: "hooks_ok lo1" "disk (snd (pf_boot (le_platform LE) w2)) = disk (snd w)"
    "read_handover (se_codec SE) (se_platform SE) (pf_boot (le_platform LE) w2) = (Inr (config_payload cfg), z)"
    "loader_run LE (loader_init w) = (case chainload_next (le_services LE) next_loader w2 of (res, w3) \<Rightarrow> (res, lo1\<lparr>lo_world := w3\<rparr>))"
    using loader_keeps_volume [OF assms(1,2)] assms(3,4) by metis
  let ?wb = "pf_boot (le_platform LE) w2"
  have "jvck_ld.replicas_hold K me disk C st (cells0\<lparr>jc_offset := eo_sector off\<rparr>) w1"
    using js_store_hold [OF _ _ assms(9)] assms(6) by (simp add: sweep_reliable_def)
  then have hold: "jvck_ld.replicas_hold K me disk C st (cells0\<lparr>jc_offset := eo_sector off\<rparr>) (snd ?wb)"
    using b(2) assms(11) by (intro replicas_hold_disk [of disk "snd ?wb" w1]) simp_all
  obtain s1 s2 d3 v where m: "driver_entry SE driver (driver_init ?wb) = (STATUS_SUCCESS, s1)"
    "fill_random (sd_random_source s1) = KERNEL_RNG (se_gen_random SE)" "add_device SE pdo s1 = (STATUS_SUCCESS, s2)"
    "on_start_device_completed (ev_kernel (se_env SE)) (ev_devices (se_env SE)) (ev_provider (se_env SE))
      (se_passive SE) (se_work_item SE) (se_work_ctx SE) f (sd_drv s2) = (STATUS_SUCCESS, d3)"
    "os_volume_mounted K me C rng A x st (cells0\<lparr>jc_offset := eo_sector off\<rparr>) (dr_heap (sd_drv s2)) f d3 v"
    "disk (snd (dr_world (sd_drv s2))) = disk (snd ?wb)"
    using driver_mounts [OF b(3) assms(5-8) hold] assms(10,12) by auto
  have "vol_view (xts_as_volume_cipher A x) v (disk_sector disk (unat (ld_sector_size me)) (snd (dr_world (sd_drv s2)))) =
      logical_sector (xts_as_volume_cipher A x) (eo_sector off)
        (\<lambda>i. disk_sector disk (unat (ld_sector_size me)) w1 (unat (g_offset_sector (js_geometry st)) + i))"
    using m(5,6) b(2) assms(11) by (simp add: os_volume_mounted_def vol_view_def disk_sector_def)
  then show ?thesis
    using b(1,4) m(1-5) by blast
qed

theorem encrypted_system_boots_witness:
  "\<exists>(s2 :: (jvck_cells \<times> boot_world) sample_driver) d3 v. on_start_device_completed (ev_kernel (se_env chain_env)) (ev_devices (se_env chain_env)) (ev_provider (se_env chain_env))
      (se_passive chain_env) (se_work_item chain_env) (se_work_ctx chain_env) 7 (sd_drv s2) = (STATUS_SUCCESS, d3) \<and>
    dr_heap d3 = dr_heap (sd_drv s2) @ [v] \<and> is_os_volume v \<and> av_encrypted_boundary v = 40"
proof -
  let ?off = "\<lparr>eo_sector = 40, eo_total_sectors = 88\<rparr>"
  let ?cfg = "\<lparr>cfg_partition_guid = hi_partition_guid boot_handover, cfg_vmk = [1, 2, 3], cfg_osloader = ustr ''/EFI/os''\<rparr>"
  obtain r cells1 w1 where js: "js_store chain_rng chain_store (toy_cells, (((\<lambda>a. 0, []), []), \<lambda>a. 0)) ?off = (r, cells1, w1)"
    by (metis prod.exhaust)
  have can: "driver_can_mount chain_env 1 1 7 1 \<lparr>hi_partition_guid = cfg_partition_guid ?cfg, hi_vmk = cfg_vmk ?cfg\<rparr>
     (lift_nt_kernel boot_kernel) toy_device snd toy_crypto chain_rng toy_aes"
    using chain_can_mount by simp
  have "snd (snd (toy_cells, w1)) = snd w1" "eo_sector ?off \<le> g_data_sectors (js_geometry chain_store)" "cfg_vmk ?cfg = js_vmk chain_store"
    by (simp_all add: chain_store_def)
  note boot = encrypted_system_boots [where LE = chain_machine and SE = chain_env and w = "(toy_cells, w1)" and disk = snd,
      OF chain_ready chain_keeps(1) chain_same can chain_sweep chain_key js this(2,1,3)]
  then obtain d3 v and s2 :: "(jvck_cells \<times> boot_world) sample_driver" where "on_start_device_completed (ev_kernel (se_env chain_env)) (ev_devices (se_env chain_env)) (ev_provider (se_env chain_env))
      (se_passive chain_env) (se_work_item chain_env) (se_work_ctx chain_env) 7 (sd_drv s2) = (STATUS_SUCCESS, d3)"
    "os_volume_mounted (lift_nt_kernel boot_kernel) toy_device toy_crypto chain_rng toy_aes boot_xts chain_store (toy_cells\<lparr>jc_offset := eo_sector ?off\<rparr>)
       (dr_heap (sd_drv s2)) 7 d3 v"
    by blast
  then show ?thesis
    by (auto simp: os_volume_mounted_def)
qed

end
