(* ===== verification/Boot_Writes.thy ===== *)
theory Boot_Writes
  imports System_Boot
begin

text \<open>
  What the next boot stage writes.  The image that the loader starts reads and writes the system volume
  through the hooked protocol until the driver takes over.  A sequence of such transfers is compared with the
  same sequence on a plain disk, and the volume that the driver mounts afterwards with the plain disk that
  results.
\<close>


section \<open>Transfers of the started image\<close>

datatype boot_transfer = BootRead u64 nat | BootWrite u64 bytes

text \<open>The blocks of the reads, in order, and the loader's state; \<open>None\<close> when a call does not
  return or fails.\<close>

fun run_transfers ::
    "'w firmware \<Rightarrow> u64 \<Rightarrow> u32 \<Rightarrow> nat \<Rightarrow> boot_transfer list \<Rightarrow> 'w loader \<Rightarrow> (bytes list \<times> 'w loader) option" where
  "run_transfers FW p mid ss [] lo = Some ([], lo)"
| "run_transfers FW p mid ss (BootRead lba k # ts) lo =
     (case call_read_blocks FW p mid lba (k * ss) True lo of
        None \<Rightarrow> None
      | Some (status, buf) \<Rightarrow>
          if status \<noteq> EFI_SUCCESS then None
          else map_option (\<lambda>(rs, lo1). (buf # rs, lo1)) (run_transfers FW p mid ss ts lo))"
| "run_transfers FW p mid ss (BootWrite lba buf # ts) lo =
     (case call_write_blocks FW p mid lba (Some buf) lo of
        None \<Rightarrow> None
      | Some (status, lo1) \<Rightarrow> if status \<noteq> EFI_SUCCESS then None else run_transfers FW p mid ss ts lo1)"

text \<open>The same transfers on a plain disk.\<close>

fun plain_transfers :: "nat \<Rightarrow> boot_transfer list \<Rightarrow> (nat \<Rightarrow> bytes) \<Rightarrow> bytes list \<times> (nat \<Rightarrow> bytes)" where
  "plain_transfers ss [] f = ([], f)"
| "plain_transfers ss (BootRead lba k # ts) f =
     (case plain_transfers ss ts f of (rs, f1) \<Rightarrow> (get_sectors f (unat lba) k # rs, f1))"
| "plain_transfers ss (BootWrite lba buf # ts) f = plain_transfers ss ts (put_sectors ss (unat lba) buf f)"

text \<open>Whole blocks; reads anywhere on the volume, writes in the data region \<open>[off, off + tot)\<close>.\<close>

fun transfer_within :: "nat \<Rightarrow> nat \<Rightarrow> nat \<Rightarrow> nat \<Rightarrow> boot_transfer \<Rightarrow> bool" where
  "transfer_within ss cap off tot (BootRead lba k) \<longleftrightarrow> 0 < k \<and> unat lba + k \<le> cap"
| "transfer_within ss cap off tot (BootWrite lba buf) \<longleftrightarrow>
     buf \<noteq> [] \<and> ss dvd length buf \<and> off \<le> unat lba \<and> unat lba + length buf div ss \<le> off + tot"

lemma run_transfers_plain:
  assumes "aes_ok A" "fw_disk_ok FW p mid ss cap raw" "hooks_ok lo" "find_entry p (lo_hook_table lo) = Some e"
    "he_engine e = Some eng" "hk_cipher_supplier eng () = Some (xts_as_volume_cipher A x)" "off + tot \<le> cap"
    "list_all (transfer_within ss cap off tot) ts" "\<And>w lba buf. platform_same P w (snd (fw_write_blocks FW w p mid lba buf))"
  shows "\<exists>rs lo'. run_transfers FW p mid ss ts lo = Some (rs, lo') \<and>
    plain_transfers ss ts (boot_view (xts_as_volume_cipher A x) (hk_geometry eng) (raw (lo_world lo))) =
      (rs, boot_view (xts_as_volume_cipher A x) (hk_geometry eng) (raw (lo_world lo'))) \<and>
    platform_same P (lo_world lo) (lo_world lo') \<and> (\<forall>i. i < off \<or> off + tot \<le> i \<longrightarrow> raw (lo_world lo') i = raw (lo_world lo) i)"
  using assms(3,4,8)
proof (induction ts arbitrary: lo)
  case Nil
  then show ?case
    by (simp add: platform_same_def)
next
  case (Cons t ts)
  note tr = hooked_transfer [OF assms(1,2) Cons.prems(1,2) assms(5,6)]
  show ?case
  proof (cases t)
    case (BootRead lba k)
    then have "0 < k" "unat lba + k \<le> cap" "list_all (transfer_within ss cap off tot) ts"
      using Cons.prems(3) by simp_all
    then show ?thesis
      using tr(1) [of lba k] Cons.IH [OF Cons.prems(1,2)] BootRead by fastforce
  next
    case (BootWrite lba buf)
    have ss: "0 < ss"
      using assms(2) by (simp add: fw_disk_ok_def)
    obtain k where k: "length buf = k * ss"
      using Cons.prems(3) BootWrite by (metis dvdE list.pred_inject(2) mult.commute transfer_within.simps(2))
    have r: "0 < k" "unat lba + k \<le> cap" "off \<le> unat lba" "unat lba + k \<le> off + tot" "list_all (transfer_within ss cap off tot) ts"
      using Cons.prems(3) BootWrite k ss assms(7) by (auto intro: gr0I)
    obtain w' out where w': "call_write_blocks FW p mid lba (Some buf) lo = Some (EFI_SUCCESS, lo\<lparr>lo_world := w'\<rparr>)"
      "fw_write_blocks FW (lo_world lo) p mid lba out = (EFI_SUCCESS, w')" "length out = length buf"
      "raw w' = put_sectors ss (unat lba) out (raw (lo_world lo))"
      "boot_view (xts_as_volume_cipher A x) (hk_geometry eng) (raw w') =
        put_sectors ss (unat lba) buf (boot_view (xts_as_volume_cipher A x) (hk_geometry eng) (raw (lo_world lo)))"
      using tr(2) [OF r(2,1) k] by blast
    have lo1: "hooks_ok (lo\<lparr>lo_world := w'\<rparr>)" "find_entry p (lo_hook_table (lo\<lparr>lo_world := w'\<rparr>)) = Some e"
      using Cons.prems(1,2) by (simp_all add: hooks_ok_def)
    have same: "platform_same P (lo_world lo) w'"
      using assms(9) [of "lo_world lo" lba out] w'(2) by simp
    have keep: "raw w' i = raw (lo_world lo) i" if "i < off \<or> off + tot \<le> i" for i
      using that r w'(3) k ss unfolding w'(4) by (intro put_sectors_outside) auto
    obtain rs lo' where ih: "run_transfers FW p mid ss ts (lo\<lparr>lo_world := w'\<rparr>) = Some (rs, lo')"
      "plain_transfers ss ts (boot_view (xts_as_volume_cipher A x) (hk_geometry eng) (raw w')) =
        (rs, boot_view (xts_as_volume_cipher A x) (hk_geometry eng) (raw (lo_world lo')))"
      "platform_same P w' (lo_world lo')" "\<forall>i. i < off \<or> off + tot \<le> i \<longrightarrow> raw (lo_world lo') i = raw w' i"
      using Cons.IH [OF lo1 r(5)] by auto
    show ?thesis
      using BootWrite w'(1,5) ih keep platform_same_trans [OF same ih(3)] by (intro exI [of _ rs] exI [of _ lo']) simp
  qed
qed


section \<open>The hook of a stored volume\<close>

text \<open>The firmware has the volume as a partition whose protocol nobody holds, with the block size and the
  number of blocks of the driver's device, and transfers reach the same disk \<open>D\<close>.\<close>

definition firmware_serves ::
    "'w firmware \<Rightarrow> guid \<Rightarrow> ('w \<Rightarrow> u64 set) \<Rightarrow> (u64 \<Rightarrow> u64) \<Rightarrow> u64 \<Rightarrow> u32 \<Rightarrow> lower_device_io \<Rightarrow> ('w \<Rightarrow> nat \<Rightarrow> byte) \<Rightarrow> 'w \<Rightarrow> bool" where
  "firmware_serves FW guid held proto h mid me D w \<longleftrightarrow>
     fw_exclusive FW held proto \<and> h \<notin> held w \<and> proto h \<noteq> 0 \<and>
     (\<exists>hs. fw_locate_block_io FW w = Some hs \<and> find (guid_matches FW w guid) hs = Some h) \<and>
     (\<forall>w. \<exists>m. fw_media FW w (proto h) = Some m \<and> bm_media_present m \<and> bm_media_id m = mid \<and>
        bm_block_size m = ld_sector_size me \<and> saturating_add_one (bm_last_block m) = ld_total_sectors me) \<and>
     fw_disk_ok FW (proto h) mid (unat (ld_sector_size me)) (unat (ld_total_sectors me)) (disk_sector D (unat (ld_sector_size me)))"

lemma uefi_reads_same:
  assumes "ld_reliable K me disk" "fw_disk_ok FW p mid (unat (ld_sector_size me)) (unat (ld_total_sectors me)) (disk_sector D (unat (ld_sector_size me)))"
    "D w = disk w'"
  shows "same_reads (uefi_sector_io FW \<lparr>uv_handle = h, uv_block_io = p, uv_media_id = mid, uv_sector_size = ld_sector_size me,
      uv_total_sectors = ld_total_sectors me\<rparr>) w (ld_sector_io K me) w'"
proof -
  let ?ss = "unat (ld_sector_size me)"
  have io: "sio_sector_size (ld_sector_io K me) = ld_sector_size me" "sio_total_sectors (ld_sector_io K me) = ld_total_sectors me"
    by (simp_all add: ld_sector_io_def byte_sector_io_def)
  have "sio_read_sectors (ld_sector_io K me) w' lba ?ss = Inr (disk_sector disk ?ss w' (unat lba))"
    if "unat lba < unat (ld_total_sectors me)" for lba
    using ldr.read_reliable [OF assms(1), of lba 1] that unsigned_less [of "ld_sector_size me", where ?'a = nat]
    by (simp add: io get_sectors_def)
  moreover have "fw_read_blocks FW w p mid lba ?ss = (EFI_SUCCESS, disk_sector D ?ss w (unat lba))"
    if "unat lba < unat (ld_total_sectors me)" for lba
  proof -
    have "unat lba + 1 \<le> unat (ld_total_sectors me)"
      using that by simp
    then have "fw_read_blocks FW w p mid lba (1 * ?ss) = (EFI_SUCCESS, get_sectors (disk_sector D ?ss w) (unat lba) 1)"
      using assms(2) unfolding fw_disk_ok_def by blast
    then show ?thesis
      by (simp add: get_sectors_def)
  qed
  ultimately show ?thesis
    using assms(3) by (simp add: same_reads_def io uefi_sector_io_def disk_sector_def)
qed

abbreviation store_hook_geometry :: "guid \<Rightarrow> 'w jvck_store \<Rightarrow> u64 \<Rightarrow> hook_geometry" where
  "store_hook_geometry guid st b \<equiv>
     \<lparr>hg_partition_guid = guid, hg_offset_sector = g_offset_sector (js_geometry st),
      hg_encrypted_offset = \<lparr>eo_sector = b, eo_total_sectors = g_data_sectors (js_geometry st)\<rparr>\<rparr>"

lemma hook_installed_for_store:
  fixes w0 :: "jvck_cells \<times> 'w"
  assumes "firmware_serves FW guid held proto h mid me (\<lambda>cw. disk (snd cw)) w0"
    "\<And>w h. disk (snd (snd (fw_open_block_io FW w h))) = disk (snd w)"
    "sweep_reliable K me disk C rng A st" "use_footer (js_options st) \<noteq> 0"
    "xts_new A (fvek_key1 (js_secrets st)) (fvek_key2 (js_secrets st)) = Inr x"
    "jvck_ld.replicas_hold K me disk C st cells (snd w0)"
  shows "\<exists>lo1 e eng. install_decrypt_hook C A FW guid (js_vmk st) (loader_init w0) = (Inr (), lo1) \<and>
    find_entry (proto h) (lo_hook_table lo1) = Some e \<and> he_engine e = Some eng \<and>
    hk_geometry eng = store_hook_geometry guid st (jc_offset cells) \<and>
    hk_cipher_supplier eng () = Some (xts_as_volume_cipher A x)"
proof -
  note F = assms(1) [unfolded firmware_serves_def]
  obtain hs where hs: "fw_locate_block_io FW w0 = Some hs" "find (guid_matches FW w0 guid) hs = Some h"
    using F by blast
  have ex: "fw_exclusive FW held proto" "h \<notin> held w0" "proto h \<noteq> 0"
    using F by simp_all
  have rel: "jvck_env_ok K me disk C rng" "store_ok (ld_sector_io K me) (jvck_cbc_codec C) st" "ld_reliable K me disk"
    using assms(3) by (simp_all add: sweep_reliable_def jvck_env_ok_def)
  obtain wo where wo: "fw_open_block_io FW w0 h = (Some (proto h), wo)"
    using fw_exclusiveD(1) [OF ex(1,2)] by blast
  have D: "disk (snd wo) = disk (snd w0)"
    using assms(2) [of w0 h] wo by simp
  let ?v = "\<lparr>uv_handle = h, uv_block_io = proto h, uv_media_id = mid, uv_sector_size = ld_sector_size me, uv_total_sectors = ld_total_sectors me\<rparr>"
  obtain m where m: "fw_media FW wo (proto h) = Some m" "bm_media_present m" "bm_media_id m = mid"
    "bm_block_size m = ld_sector_size me" "saturating_add_one (bm_last_block m) = ld_total_sectors me"
    using F by blast
  have loc: "locate_block_io_volume FW guid w0 = (Inr ?v, wo)"
    using hs wo m by (simp add: locate_block_io_volume_def)
  have reads: "same_reads (uefi_sector_io FW ?v) wo (drop_cells (lift_sector_io (ld_sector_io K me))) (snd w0)"
    using uefi_reads_same [where D = "\<lambda>cw. disk (snd cw)" and w = wo and w' = "snd w0" and h = h, OF rel(3) _ D] F by simp
  let ?sup = "static_get_cipher A \<lparr>scs_key1 = fvek_key1 (js_secrets st), scs_key2 = fvek_key2 (js_secrets st)\<rparr>"
  let ?g = "store_hook_geometry guid st (jc_offset cells)"
  have "res_ok (hook_parameters C A guid (uefi_sector_io FW ?v) (js_vmk st) wo) = Some (?g, ?sup)"
    using hook_parameters_agree [OF reads, of C A guid "js_vmk st" rng None cells]
      sample_attach_held [OF rel(1,2) assms(6,4), of A None cells] by simp
  then have par: "hook_parameters C A guid (uefi_sector_io FW ?v) (js_vmk st) wo = Inr (?g, ?sup)"
    by (auto simp: res_ok_def split: sum.splits)
  have init: "lo_world (loader_init w0) = w0" "None \<in> set (lo_hook_table (loader_init w0))"
    by (simp_all add: loader_init_def MAX_HOOKS_def)
  obtain lo1 e where "install_decrypt_hook C A FW guid (js_vmk st) (loader_init w0) = (Inr (), lo1)"
    "find_entry (proto h) (lo_hook_table lo1) = Some e" "he_engine e = Some (hook_engine_new ?g ?sup)"
    using decrypt_hook_installs [where lo = "loader_init w0" and v = ?v and ?w1.0 = wo, OF ex(1) loader_init_ok(1) _ _ _ ex(3) _ par loader_init_ok(2)]
      hs ex(2) loc init by auto
  moreover have "?sup () = Some (xts_as_volume_cipher A x)"
    using assms(5) by (simp add: static_get_cipher_def res_ok_def)
  ultimately show ?thesis
    by (auto simp: hook_engine_new_def)
qed


section \<open>From the writes of the boot to the mounted volume\<close>

text \<open>Memory and variables that are the same before the system starts give the driver the same key.\<close>

lemma boot_handover_same:
  assumes "platform_ok P" "platform_same P w w'"
  shows "fst (read_handover M P (pf_boot P w')) = fst (read_handover M P (pf_boot P w))"
proof -
  have p: "pf_read_memory P (pf_boot P w') = pf_read_memory P (pf_boot P w)" "pf_get_variable P (pf_boot P w') = pf_get_variable P (pf_boot P w)"
    using assms unfolding platform_ok_def platform_same_def by (simp_all add: fun_eq_iff)
  have pool: "pf_pool P (pf_boot P v) (unat (n :: u32))" "m \<le> MAX_PAYLOAD_LEN \<Longrightarrow> pf_map P (pf_boot P v) a m" for v n a m
    using assms(1) unsigned_less [of n, where ?'a = nat] unfolding platform_ok_def by simp_all
  show ?thesis
    by (auto simp: read_handover_def read_handover_variable_def read_handover_payload_def p pool Let_def split: sum.split prod.split)
qed

text \<open>The image of the next boot stage can be loaded, which leaves the volume and the handover alone; and
  so do block transfers to the memory of the machine.\<close>

definition image_starts :: "'w loader_env \<Rightarrow> bytes \<Rightarrow> ('w \<Rightarrow> 'd) \<Rightarrow> u64 \<Rightarrow> u32 \<Rightarrow> bool" where
  "image_starts LE next_loader D p mid \<longleftrightarrow>
     (\<forall>w. fst (bs_load_image (le_services LE) w next_loader) \<noteq> None \<and> D (snd (bs_load_image (le_services LE) w next_loader)) = D w \<and>
       platform_same (le_platform LE) w (snd (bs_load_image (le_services LE) w next_loader))) \<and>
     (\<forall>w lba buf. platform_same (le_platform LE) w (snd (fw_write_blocks (le_firmware LE) w p mid lba buf)))"

lemma image_started:
  assumes "image_starts LE next_loader D p mid"
  shows "\<exists>img w3. chainload_next (le_services LE) next_loader w2 =
      (case bs_start_image (le_services LE) w3 img of (ok, w4) \<Rightarrow> (if ok then Inr () else Inl (Io ''StartImage(next loader) failed''), w4)) \<and>
    D w3 = D w2 \<and> platform_same (le_platform LE) w2 w3"
proof -
  obtain img w3 where "bs_load_image (le_services LE) w2 next_loader = (Some img, w3)" "D w3 = D w2" "platform_same (le_platform LE) w2 w3"
    using assms unfolding image_starts_def by (metis not_None_eq prod.collapse)
  then show ?thesis
    by (intro exI [of _ img] exI [of _ w3]) (auto simp: chainload_next_def split: prod.splits bool.splits)
qed

text \<open>The data region of a store lies within the volume and has no metadata sector in it.\<close>

lemma store_region:
  assumes "sweep_reliable K me disk C rng A st"
  shows "unat (g_offset_sector (js_geometry st)) + unat (g_data_sectors (js_geometry st)) \<le> unat (ld_total_sectors me)"
    "lba \<in> set (store_lbas st) \<Longrightarrow> unat lba < unat (g_offset_sector (js_geometry st)) \<or>
       unat (g_offset_sector (js_geometry st)) + unat (g_data_sectors (js_geometry st)) \<le> unat lba"
proof -
  let ?e = "\<lparr>en_offset_sector = g_offset_sector (js_geometry st),
    en_encrypted_offset = \<lparr>eo_sector = 0, eo_total_sectors = g_data_sectors (js_geometry st)\<rparr>, en_state = Idle\<rparr>"
  have "engine_ok (unat (ld_sector_size me)) (unat (ld_total_sectors me)) (unat ` set (store_lbas st)) ?e"
    by (rule engine_for_ok [OF sweep_reliable_ok [OF assms]]) (simp add: engine_for_def)
  then show "unat (g_offset_sector (js_geometry st)) + unat (g_data_sectors (js_geometry st)) \<le> unat (ld_total_sectors me)"
    "lba \<in> set (store_lbas st) \<Longrightarrow> unat lba < unat (g_offset_sector (js_geometry st)) \<or>
       unat (g_offset_sector (js_geometry st)) + unat (g_data_sectors (js_geometry st)) \<le> unat lba"
    by (force simp: engine_ok_def en_total_def not_less)+
qed

text \<open>What the hook shows of the data region is what the driver shows of the mounted volume.\<close>

lemma boot_view_mounted:
  assumes "os_volume_mounted K me C rng A x st cells h f d v" "i < unat (g_data_sectors (js_geometry st))"
  shows "vol_view c v raw i = boot_view c (store_hook_geometry guid st (jc_offset cells)) raw (unat (g_offset_sector (js_geometry st)) + i)"
  using assms by (simp add: os_volume_mounted_def vol_view_def boot_view_def Let_def)


text \<open>The state in which the loader starts the image: the hook of the volume is active, the disk is as it
  was, and the driver will find the key.\<close>

lemma loader_starts_image:
  fixes LE :: "(jvck_cells \<times> 'w) loader_env" and w :: "jvck_cells \<times> 'w"
  assumes "loader_ready LE (report_and_enable_xmm (le_processor LE) w) cfg next_loader" "loader_keeps LE (\<lambda>cw. disk (snd cw))"
    "firmware_serves (le_firmware LE) (cfg_partition_guid cfg) held proto h mid me (\<lambda>cw. disk (snd cw)) (report_and_enable_xmm (le_processor LE) w)"
    "image_starts LE next_loader (\<lambda>cw. disk (snd cw)) (proto h) mid"
    "sweep_reliable K me disk (le_crypto LE) rng (le_aes LE) st" "use_footer (js_options st) \<noteq> 0"
    "xts_new (le_aes LE) (fvek_key1 (js_secrets st)) (fvek_key2 (js_secrets st)) = Inr x"
    "jvck_ld.replicas_hold K me disk (le_crypto LE) st cells w1" "disk (snd w) = disk w1" "cfg_vmk cfg = js_vmk st"
  shows "\<exists>lo1 img w3 e eng. loader_run LE (loader_init w) =
      (case bs_start_image (le_services LE) w3 img of
         (ok, w4) \<Rightarrow> (if ok then Inr () else Inl (Io ''StartImage(next loader) failed''), lo1\<lparr>lo_world := w4\<rparr>)) \<and>
    hooks_ok lo1 \<and> find_entry (proto h) (lo_hook_table lo1) = Some e \<and> he_engine e = Some eng \<and>
    hk_geometry eng = store_hook_geometry (cfg_partition_guid cfg) st (jc_offset cells) \<and>
    hk_cipher_supplier eng () = Some (xts_as_volume_cipher (le_aes LE) x) \<and> disk (snd w3) = disk w1 \<and>
    fst (read_handover (le_codec LE) (le_platform LE) (pf_boot (le_platform LE) w3)) = Inr (config_payload cfg)"
proof -
  let ?D = "\<lambda>cw. disk (snd cw)" and ?w0 = "report_and_enable_xmm (le_processor LE) w"
  obtain r lo1 w2 z where b: "install_decrypt_hook (le_crypto LE) (le_aes LE) (le_firmware LE) (cfg_partition_guid cfg) (cfg_vmk cfg)
      (loader_init ?w0) = (r, lo1)" "hooks_ok lo1" "?D w2 = ?D w"
    "read_handover (le_codec LE) (le_platform LE) (pf_boot (le_platform LE) w2) = (Inr (config_payload cfg), z)"
    "loader_run LE (loader_init w) = (case chainload_next (le_services LE) next_loader w2 of (res, w3) \<Rightarrow> (res, lo1\<lparr>lo_world := w3\<rparr>))"
    using loader_keeps_volume [OF assms(1,2)] by metis
  have "?D ?w0 = disk w1"
    using xmm_keeps [OF assms(2)] assms(9) by simp
  then have hold: "jvck_ld.replicas_hold K me disk (le_crypto LE) st cells (snd ?w0)"
    by (rule replicas_hold_disk [OF _ assms(8)])
  have "?D (snd (fw_open_block_io (le_firmware LE) v n)) = ?D v" for v n
    using assms(2) unfolding loader_keeps_def by blast
  note hook = hook_installed_for_store [OF assms(3) this assms(5-7) hold]
  obtain img w3 where ld: "chainload_next (le_services LE) next_loader w2 =
      (case bs_start_image (le_services LE) w3 img of (ok, w4) \<Rightarrow> (if ok then Inr () else Inl (Io ''StartImage(next loader) failed''), w4))"
    "?D w3 = ?D w2" "platform_same (le_platform LE) w2 w3"
    using image_started [OF assms(4)] by blast
  have "fst (read_handover (le_codec LE) (le_platform LE) (pf_boot (le_platform LE) w3)) = Inr (config_payload cfg)"
    using boot_handover_same [OF _ ld(3)] b(4) assms(1) by (simp add: loader_ready_def)
  moreover have "loader_run LE (loader_init w) =
      (case bs_start_image (le_services LE) w3 img of
         (ok, w4) \<Rightarrow> (if ok then Inr () else Inl (Io ''StartImage(next loader) failed''), lo1\<lparr>lo_world := w4\<rparr>))"
    using b(5) ld(1) by (simp split: prod.splits)
  moreover have "disk (snd w3) = disk w1"
    using ld(2) b(3) assms(9) by simp
  ultimately show ?thesis
    using hook b(1,2) assms(10) by (metis prod.inject)
qed


section \<open>A small firmware on the world of the driver\<close>

lemma chain_firmware_serves:
  "firmware_serves (le_firmware chain_machine) (hi_partition_guid boot_handover) (\<lambda>(c, (p, hs), e). set hs) (\<lambda>h. h + 6) 3 0 toy_device
     (\<lambda>cw. snd (snd cw)) (c, (p, []), e)"
proof -
  let ?FW = "firmware_within :: (jvck_cells \<times> boot_world) firmware" and ?D = "\<lambda>cw :: jvck_cells \<times> boot_world. snd (snd cw)"
  have ex: "fw_exclusive ?FW (\<lambda>(c, (p, hs), e). set hs) (\<lambda>h. h + 6)"
    by (auto simp: fw_exclusive_def firmware_within_def)
  have wr: "\<exists>w'. fw_write_blocks ?FW w 9 0 lba buf = (EFI_SUCCESS, w') \<and> disk_sector ?D 512 w' = put_sectors 512 (unat lba) buf (disk_sector ?D 512 w)"
    if "length buf = k * 512" for w lba k buf
  proof -
    obtain c p e where w: "w = (c, p, e)"
      by (metis prod.exhaust)
    let ?w' = "(c, p, put_bytes (unat lba * 512) buf e)"
    have "disk_sector ?D 512 ?w' = put_sectors 512 (unat lba) buf (disk_sector ?D 512 w)"
      using that by (intro disk_sector_write [of 512 buf k]) (simp_all add: put_bytes_def w fun_eq_iff)
    then show ?thesis
      by (simp add: firmware_within_def w)
  qed
  have rd: "fw_read_blocks ?FW w 9 0 lba (k * 512) = (EFI_SUCCESS, get_sectors (disk_sector ?D 512 w) (unat lba) k)" for w lba k
    by (cases w) (simp add: firmware_within_def get_disk_sectors add_mult_distrib)
  have m: "fw_media ?FW w p = Some toy_media" for w p
    by (simp add: firmware_within_def)
  have "fw_disk_ok ?FW 9 0 512 600 (disk_sector ?D 512)"
    unfolding fw_disk_ok_def using wr rd m by (simp add: toy_media_def)
  moreover have "fw_locate_block_io ?FW (c, (p, []), e) = Some [3]" "guid_matches ?FW (c, (p, []), e) (hi_partition_guid boot_handover) 3"
    by (simp_all add: firmware_within_def guid_matches_def boot_handover_def)
  ultimately show ?thesis
    using ex m by (simp add: firmware_serves_def toy_device_def ld_new_def saturating_add_one_def toy_media_def)
qed

lemma chain_image: "image_starts chain_machine next_loader (\<lambda>cw. snd (snd cw)) p mid"
  by (auto simp: image_starts_def toy_machine_def toy_boot_services_def firmware_within_def platform_same_def platform_within_def split: prod.splits)


section \<open>Properties\<close>

text \<open>C1: what the boot writes is what the running system reads.  Let the progress of a sweep be stored on the
  system volume, encrypted in part or in full, and the machine restart.  The image that the loader starts
  then makes any sequence of transfers through the hooked protocol: reads anywhere on the volume, writes to its
  data region.  Every transfer returns and succeeds, the reads give what a plain disk with the plaintext of the
  volume gives, and the volume that the driver mounts afterwards, at the stored boundary and in the stored
  direction, shows the plain disk that these writes leave.\<close>

theorem boot_writes_reach_system:
  fixes LE :: "(jvck_cells \<times> 'w) loader_env" and SE :: "(jvck_cells \<times> 'w) sample_env" and w :: "jvck_cells \<times> 'w"
  assumes "loader_ready LE (report_and_enable_xmm (le_processor LE) w) cfg next_loader" "loader_keeps LE (\<lambda>cw. disk (snd cw))"
    "le_crypto LE = C" "le_aes LE = A" "se_platform SE = le_platform LE" "se_codec SE = le_codec LE"
    "driver_can_mount SE driver pdo f l \<lparr>hi_partition_guid = cfg_partition_guid cfg, hi_vmk = cfg_vmk cfg\<rparr> K me disk C rng A"
    "firmware_serves (le_firmware LE) (cfg_partition_guid cfg) held proto h mid me (\<lambda>cw. disk (snd cw)) (report_and_enable_xmm (le_processor LE) w)"
    "image_starts LE next_loader (\<lambda>cw. disk (snd cw)) (proto h) mid"
    "sweep_reliable K me disk C rng A st" "use_footer (js_options st) \<noteq> 0"
    "xts_new A (fvek_key1 (js_secrets st)) (fvek_key2 (js_secrets st)) = Inr x"
    "js_store rng st (cells0, w0) off = (r, cells1, w1)" "eo_sector off \<le> g_data_sectors (js_geometry st)"
    "disk (snd w) = disk w1" "cfg_vmk cfg = js_vmk st"
    "list_all (transfer_within (unat (ld_sector_size me)) (unat (ld_total_sectors me))
       (unat (g_offset_sector (js_geometry st))) (unat (g_data_sectors (js_geometry st)))) ts"
  shows "\<exists>lo1 img w3 rs lo2 plain s1 s2 d3 v. loader_run LE (loader_init w) =
      (case bs_start_image (le_services LE) w3 img of
         (ok, w4) \<Rightarrow> (if ok then Inr () else Inl (Io ''StartImage(next loader) failed''), lo1\<lparr>lo_world := w4\<rparr>)) \<and>
    run_transfers (le_firmware LE) (proto h) mid (unat (ld_sector_size me)) ts (lo1\<lparr>lo_world := w3\<rparr>) = Some (rs, lo2) \<and>
    plain_transfers (unat (ld_sector_size me)) ts
      (boot_view (xts_as_volume_cipher A x) (store_hook_geometry (cfg_partition_guid cfg) st (eo_sector off))
        (disk_sector disk (unat (ld_sector_size me)) w1)) = (rs, plain) \<and>
    driver_entry SE driver (driver_init (pf_boot (le_platform LE) (lo_world lo2))) = (STATUS_SUCCESS, s1) \<and>
    add_device SE pdo s1 = (STATUS_SUCCESS, s2) \<and>
    on_start_device_completed (ev_kernel (se_env SE)) (ev_devices (se_env SE)) (ev_provider (se_env SE))
      (se_passive SE) (se_work_item SE) (se_work_ctx SE) f (sd_drv s2) = (STATUS_SUCCESS, d3) \<and>
    os_volume_mounted K me C rng A x st (cells0\<lparr>jc_offset := eo_sector off\<rparr>) (dr_heap (sd_drv s2)) f d3 v \<and>
    (\<forall>i < unat (data_sectors v).
      vol_view (xts_as_volume_cipher A x) v (disk_sector disk (unat (ld_sector_size me)) (snd (dr_world (sd_drv s2)))) i =
      plain (unat (av_offset_sector v) + i))"
proof -
  let ?FW = "le_firmware LE" and ?P = "le_platform LE" and ?ss = "unat (ld_sector_size me)" and ?c = "xts_as_volume_cipher A x"
  let ?cells = "cells0\<lparr>jc_offset := eo_sector off\<rparr>" and ?raw = "disk_sector (\<lambda>cw. disk (snd cw)) (unat (ld_sector_size me))"
  let ?g = "store_hook_geometry (cfg_partition_guid cfg) st (eo_sector off)"
  have ok: "aes_ok A" "platform_ok ?P" "jvck_ld.replicas_hold K me disk C st ?cells w1"
    using assms(1,10) js_store_hold [OF _ _ assms(13)] by (simp_all add: sweep_reliable_def loader_ready_def)
  obtain lo1 img w3 e eng where b: "loader_run LE (loader_init w) =
      (case bs_start_image (le_services LE) w3 img of
         (ok, w4) \<Rightarrow> (if ok then Inr () else Inl (Io ''StartImage(next loader) failed''), lo1\<lparr>lo_world := w4\<rparr>))"
    "hooks_ok lo1" "find_entry (proto h) (lo_hook_table lo1) = Some e" "he_engine e = Some eng" "hk_geometry eng = ?g"
    "hk_cipher_supplier eng () = Some ?c" "disk (snd w3) = disk w1"
    "fst (read_handover (le_codec LE) ?P (pf_boot ?P w3)) = Inr (config_payload cfg)"
    using loader_starts_image [OF assms(1,2,8,9), of K rng st x ?cells w1] assms(3,4,10-12,15,16) ok(3) by auto
  have fd: "fw_disk_ok ?FW (proto h) mid ?ss (unat (ld_total_sectors me)) ?raw"
    "\<And>v lba buf. platform_same ?P v (snd (fw_write_blocks ?FW v (proto h) mid lba buf))"
    using assms(8,9) unfolding firmware_serves_def image_starts_def by blast+
  have lo1: "hooks_ok (lo1\<lparr>lo_world := w3\<rparr>)" "find_entry (proto h) (lo_hook_table (lo1\<lparr>lo_world := w3\<rparr>)) = Some e"
    using b(2,3) by (simp_all add: hooks_ok_def)
  note run_all = run_transfers_plain [OF ok(1) fd(1) lo1 b(4,6) store_region(1) [OF assms(10)] assms(17) fd(2), unfolded b(5)]
  then obtain rs lo2 where run: "run_transfers ?FW (proto h) mid ?ss ts (lo1\<lparr>lo_world := w3\<rparr>) = Some (rs, lo2)"
    "plain_transfers ?ss ts (boot_view ?c ?g (?raw w3)) = (rs, boot_view ?c ?g (?raw (lo_world lo2)))"
    "platform_same ?P w3 (lo_world lo2)" "\<And>lba. lba \<in> set (store_lbas st) \<Longrightarrow> ?raw (lo_world lo2) (unat lba) = ?raw w3 (unat lba)"
    using store_region(2) [OF assms(10)] by (simp add: split_paired_Ex) blast
  let ?wb = "pf_boot ?P (lo_world lo2)"
  have wb: "disk (snd ?wb) = disk (snd (lo_world lo2))"
    using assms(2) unfolding loader_keeps_def by blast
  have "jvck_ld.replicas_hold K me disk C st ?cells (snd ?wb)"
    using run(4) wb b(7) by (intro replicas_hold_sectors [OF _ ok(3)]) (simp add: disk_sector_def)
  moreover obtain z where "read_handover (se_codec SE) (se_platform SE) ?wb = (Inr (config_payload cfg), z)"
    using boot_handover_same [OF ok(2) run(3)] b(8) assms(5,6) by (metis prod.collapse)
  ultimately obtain s1 s2 d3 v where m: "driver_entry SE driver (driver_init ?wb) = (STATUS_SUCCESS, s1)" "add_device SE pdo s1 = (STATUS_SUCCESS, s2)"
    "on_start_device_completed (ev_kernel (se_env SE)) (ev_devices (se_env SE)) (ev_provider (se_env SE))
      (se_passive SE) (se_work_item SE) (se_work_ctx SE) f (sd_drv s2) = (STATUS_SUCCESS, d3)"
    "os_volume_mounted K me C rng A x st ?cells (dr_heap (sd_drv s2)) f d3 v" "disk (snd (dr_world (sd_drv s2))) = disk (snd ?wb)"
    using driver_mounts [OF _ assms(7,10-12), where wb = ?wb and z = z and cells = ?cells] assms(14,16) by auto
  have same: "disk_sector disk ?ss (snd (dr_world (sd_drv s2))) = ?raw (lo_world lo2)" "?raw w3 = disk_sector disk ?ss w1"
    using m(5) wb b(7) by (simp_all add: disk_sector_def fun_eq_iff)
  have view: "\<forall>i < unat (data_sectors v). vol_view ?c v (disk_sector disk ?ss (snd (dr_world (sd_drv s2)))) i =
      boot_view ?c ?g (?raw (lo_world lo2)) (unat (av_offset_sector v) + i)"
    using boot_view_mounted [OF m(4)] m(4) same(1) by (simp add: os_volume_mounted_def)
  show ?thesis
    by (intro exI conjI) (rule b(1) run(1) run(2) [unfolded same(2)] m(1-4) view)+
qed

theorem boot_writes_reach_system_witness:
  "\<exists>(lo1 :: (jvck_cells \<times> boot_world) loader) rs lo2 s1 s2 d3 v.
     run_transfers firmware_within 9 0 512 [BootWrite 39 (replicate 1024 7), BootRead 39 1] lo1 = Some (rs, lo2) \<and> rs = [replicate 512 7] \<and>
     driver_entry chain_env 1 (driver_init (pf_boot (le_platform chain_machine) (lo_world lo2))) = (STATUS_SUCCESS, s1) \<and>
     add_device chain_env 1 s1 = (STATUS_SUCCESS, s2) \<and>
     on_start_device_completed (ev_kernel (se_env chain_env)) (ev_devices (se_env chain_env)) (ev_provider (se_env chain_env))
       (se_passive chain_env) (se_work_item chain_env) (se_work_ctx chain_env) 7 (sd_drv s2) = (STATUS_SUCCESS, d3) \<and>
     dr_heap d3 = dr_heap (sd_drv s2) @ [v] \<and> av_encrypted_boundary v = 40 \<and>
     vol_view (xts_as_volume_cipher toy_aes boot_xts) v (disk_sector snd 512 (snd (dr_world (sd_drv s2)))) 40 = replicate 512 7"
proof -
  let ?off = "\<lparr>eo_sector = 40, eo_total_sectors = 88\<rparr>"
  define ts where "ts = [BootWrite 39 (replicate 1024 7), BootRead 39 1]"
  let ?cfg = "\<lparr>cfg_partition_guid = hi_partition_guid boot_handover, cfg_vmk = [1, 2, 3], cfg_osloader = ustr ''/EFI/os''\<rparr>"
  obtain r cells1 w1 where js: "js_store chain_rng chain_store (toy_cells, (((\<lambda>a. 0, []), []), \<lambda>a. 0)) ?off = (r, cells1, w1)"
    by (metis prod.exhaust)
  define w where "w = (toy_cells, ((fst (fst w1), [] :: u64 list), snd w1))"
  have can: "driver_can_mount chain_env 1 1 7 1 \<lparr>hi_partition_guid = cfg_partition_guid ?cfg, hi_vmk = cfg_vmk ?cfg\<rparr>
     (lift_nt_kernel boot_kernel) toy_device snd toy_crypto chain_rng toy_aes"
    using chain_can_mount by simp
  have le: "le_crypto chain_machine = toy_crypto" "le_aes chain_machine = toy_aes"
    "report_and_enable_xmm (le_processor chain_machine) w = w"
    by (simp_all add: toy_machine_def report_and_enable_xmm_def has_aes_ni_def fixed_processor_def)
  have serves: "firmware_serves (le_firmware chain_machine) (cfg_partition_guid ?cfg) (\<lambda>(c, (p, hs), e). set hs) (\<lambda>h. h + 6) 3 0 toy_device
      (\<lambda>cw. snd (snd cw)) (report_and_enable_xmm (le_processor chain_machine) w)"
    unfolding le(3) using chain_firmware_serves [of toy_cells "fst (fst w1)" "snd w1"] by (simp add: w_def)
  have st: "eo_sector ?off \<le> g_data_sectors (js_geometry chain_store)" "snd (snd w) = snd w1" "cfg_vmk ?cfg = js_vmk chain_store"
    "list_all (transfer_within (unat (ld_sector_size toy_device)) (unat (ld_total_sectors toy_device))
       (unat (g_offset_sector (js_geometry chain_store))) (unat (g_data_sectors (js_geometry chain_store)))) ts"
    by (simp_all add: chain_store_def w_def toy_device_def ld_new_def ts_def)
  note boot = boot_writes_reach_system [where LE = chain_machine and SE = chain_env and w = w and disk = snd and proto = "\<lambda>h. h + 6" and h = 3,
      OF chain_ready chain_keeps(1) le(1,2) chain_same can serves chain_image chain_sweep chain_key js st]
  have size: "unat (ld_sector_size toy_device) = 512"
    by (simp add: toy_device_def ld_new_def)
  have plain: "plain_transfers 512 ts g = ([replicate 512 7], put_sectors 512 39 (replicate 1024 7) g)"
    "put_sectors 512 39 (replicate 1024 7) g 40 = replicate 512 (7 :: byte)" for g
    by (simp_all add: get_sectors_def put_sectors_def buf_slice_def ts_def)
  have fw: "le_firmware chain_machine = firmware_within" "(3 :: u64) + 6 = 9"
    by simp_all
  obtain lo1 rs lo2 pl g s1 d3 v and s2 :: "(jvck_cells \<times> boot_world) sample_driver" where m:
    "run_transfers firmware_within 9 0 512 ts lo1 = Some (rs, lo2)" "plain_transfers 512 ts g = (rs, pl)"
    "driver_entry chain_env 1 (driver_init (pf_boot (le_platform chain_machine) (lo_world lo2))) = (STATUS_SUCCESS, s1)"
    "add_device chain_env 1 s1 = (STATUS_SUCCESS, s2)"
    "on_start_device_completed (ev_kernel (se_env chain_env)) (ev_devices (se_env chain_env)) (ev_provider (se_env chain_env))
       (se_passive chain_env) (se_work_item chain_env) (se_work_ctx chain_env) 7 (sd_drv s2) = (STATUS_SUCCESS, d3)"
    "os_volume_mounted (lift_nt_kernel boot_kernel) toy_device toy_crypto chain_rng toy_aes boot_xts chain_store (toy_cells\<lparr>jc_offset := eo_sector ?off\<rparr>)
       (dr_heap (sd_drv s2)) 7 d3 v"
    "\<forall>i < unat (data_sectors v). vol_view (xts_as_volume_cipher toy_aes boot_xts) v (disk_sector snd 512 (snd (dr_world (sd_drv s2)))) i =
       pl (unat (av_offset_sector v) + i)"
    using boot unfolding size fw by blast
  have v: "data_sectors v = 88" "av_offset_sector v = 0" "av_encrypted_boundary v = 40" "dr_heap d3 = dr_heap (sd_drv s2) @ [v]"
    using m(6) by (simp_all add: os_volume_mounted_def chain_store_def)
  have "rs = [replicate 512 7]" "pl 40 = replicate 512 7"
    using m(2) plain by auto
  then show ?thesis
    using m(1,3-5,7) v unfolding ts_def by (intro exI conjI) auto
qed

end
