(* ===== verification/Thread_Life.thy ===== *)
theory Thread_Life
  imports Volume_Thread
begin

text \<open>
  The volume thread among the other threads of the system (\<open>thread_main\<close>, \<open>enqueue\<close> and
  \<open>stop\<close> of \<open>lib/windrv/src/filter/volume_thread.rs\<close>, \<open>unbind_filter\<close> of
  \<open>filter/manager.rs\<close>).

  Any number of callers dispatch requests while the thread runs its loop and another thread takes the
  filter apart.  A step is one access to shared state: the pointer in the device extension, the lock of the queue,
  the shutdown flag, the wake event.  The lock is held from the look at the flag to the push.  Serving one
  request and moving the boundary by one batch are single steps, as nothing but the thread moves the boundary;
  binding another volume to a running thread is left to \<open>Volume_Thread\<close>.  The steps
  of the thread are a relation of their own, so that they can be counted.
\<close>


section \<open>State\<close>

text \<open>A caller between \<open>handle_filter_irp\<close>'s read of \<open>ext.vthread\<close> and the end of \<open>enqueue\<close>.\<close>

datatype caller =
    CIdle
  | CLoaded irp bool
  | CLocked irp bool
  | CChecked irp bool
  | CPushed

text \<open>Where the thread is: at the top of the loop, in the burst after \<open>n\<close> requests, with a request in
  hand, before the sweep batch, waiting, in the final loop, or gone.\<close>

datatype main_pc =
    MTop
  | MBurst nat
  | MHand nat irp_entry
  | MSweep bool
  | MWait
  | MDrain
  | MDrainHand irp_entry
  | MEnd

text \<open>Where \<open>unbind_filter\<close> is: not called, in \<open>stop\<close>, about to clear the pointer, about to drop
  the box, done.\<close>

datatype unbind_pc = UNone | USignal | UWait | UClear | UDrop | UDone

record 'w life =
  li_vol :: "'w attached_volume"
  li_world :: 'w
  li_queue :: "irp_entry list"
  li_lock :: "nat option"
  li_shutdown :: bool
  li_wake :: bool
  li_created :: bool
  li_pointer :: bool
  li_freed :: bool
  li_main :: main_pc
  li_cipher :: "volume_cipher option"
  li_unbind :: unbind_pc
  li_callers :: "nat \<Rightarrow> caller"
  li_accepted :: "irp_entry list"
  li_refused :: "irp list"
  li_done :: "(irp_entry \<times> irp) list"
  li_freed_used :: bool

text \<open>After \<open>VolumeThread::start\<close>; the flag says whether the thread could be created.\<close>

definition life_start :: "bool \<Rightarrow> 'w attached_volume \<Rightarrow> 'w \<Rightarrow> 'w life" where
  "life_start created v w =
     \<lparr>li_vol = v, li_world = w, li_queue = [], li_lock = None, li_shutdown = False, li_wake = False, li_created = created,
      li_pointer = True, li_freed = False, li_main = (if created then MTop else MEnd), li_cipher = None, li_unbind = UNone,
      li_callers = (\<lambda>_. CIdle), li_accepted = [], li_refused = [], li_done = [], li_freed_used = False\<rparr>"

abbreviation pending_entry :: "irp \<Rightarrow> bool \<Rightarrow> irp_entry" where
  "pending_entry irp wr \<equiv> \<lparr>ie_irp = irp\<lparr>irp_pending := True\<rparr>, ie_is_write = wr\<rparr>"

abbreviation cancelled :: "irp_entry \<Rightarrow> irp_entry \<times> irp" where
  "cancelled ep \<equiv> (ep, complete_irp (ie_irp ep) STATUS_CANCELLED 0)"


section \<open>Steps of the thread\<close>

text \<open>The flag allows sweep batches to fail; a failing batch is logged.\<close>

inductive main_step :: "'w io_manager \<Rightarrow> bool \<Rightarrow> 'w life \<Rightarrow> 'w life \<Rightarrow> bool" for IM fl
where
  main_top: "li_main s = MTop \<Longrightarrow> \<not> li_shutdown s \<Longrightarrow> main_step IM fl s (s\<lparr>li_main := MBurst 0\<rparr>)"
| main_break: "li_main s = MTop \<Longrightarrow> li_shutdown s \<Longrightarrow> main_step IM fl s (s\<lparr>li_main := MDrain\<rparr>)"
| main_pop: "li_main s = MBurst n \<Longrightarrow> n < MAX_IRP_BURST \<Longrightarrow> li_lock s = None \<Longrightarrow> li_queue s = ep # q \<Longrightarrow>
    main_step IM fl s (s\<lparr>li_queue := q, li_main := MHand n ep\<rparr>)"
| main_empty: "li_main s = MBurst n \<Longrightarrow> n < MAX_IRP_BURST \<Longrightarrow> li_lock s = None \<Longrightarrow> li_queue s = [] \<Longrightarrow>
    main_step IM fl s (s\<lparr>li_main := MSweep (0 < n)\<rparr>)"
| main_full: "li_main s = MBurst n \<Longrightarrow> \<not> n < MAX_IRP_BURST \<Longrightarrow> main_step IM fl s (s\<lparr>li_main := MSweep (0 < n)\<rparr>)"
| main_serve: "li_main s = MHand n ep \<Longrightarrow> serve_entry IM (li_vol s) ep (li_cipher s) (li_world s) = (irp1, bc1, w1) \<Longrightarrow>
    main_step IM fl s (s\<lparr>li_main := MBurst (Suc n), li_cipher := bc1, li_world := w1, li_done := li_done s @ [(ep, irp1)]\<rparr>)"
| main_sweep: "li_main s = MSweep did \<Longrightarrow> sweep_step BATCH_SECTORS (li_vol s) (li_world s) = (r, v1, w1) \<Longrightarrow> fl \<or> is_ok r \<Longrightarrow>
    main_step IM fl s (s\<lparr>li_main := (if did \<or> r = Inr True then MTop else MWait), li_cipher := None, li_vol := v1, li_world := w1\<rparr>)"
| main_wait: "li_main s = MWait \<Longrightarrow> main_step IM fl s (s\<lparr>li_main := MTop, li_wake := False\<rparr>)"
| main_drain: "li_main s = MDrain \<Longrightarrow> li_lock s = None \<Longrightarrow> li_queue s = ep # q \<Longrightarrow>
    main_step IM fl s (s\<lparr>li_queue := q, li_main := MDrainHand ep\<rparr>)"
| main_cancel: "li_main s = MDrainHand ep \<Longrightarrow> main_step IM fl s (s\<lparr>li_main := MDrain, li_done := li_done s @ [cancelled ep]\<rparr>)"
| main_exit: "li_main s = MDrain \<Longrightarrow> li_lock s = None \<Longrightarrow> li_queue s = [] \<Longrightarrow> main_step IM fl s (s\<lparr>li_main := MEnd\<rparr>)"


section \<open>Steps of the other threads\<close>

text \<open>The commands of the control interface.\<close>

inductive vol_command :: "'w attached_volume \<Rightarrow> 'w \<Rightarrow> 'w attached_volume \<Rightarrow> 'w \<Rightarrow> bool"
where
  cmd_encrypt: "start_encrypt (av_offset_store v) (av_encryption v) w = (e1, w1) \<Longrightarrow> vol_command v w (v\<lparr>av_encryption := e1\<rparr>) w1"
| cmd_decrypt: "start_decrypt (av_offset_store v) (av_encryption v) w = (e1, w1) \<Longrightarrow> vol_command v w (v\<lparr>av_encryption := e1\<rparr>) w1"
| cmd_pause: "vol_command v w (v\<lparr>av_encryption := pause (av_encryption v)\<rparr>) w"
| cmd_resume: "vol_command v w (v\<lparr>av_encryption := engine_resume (av_offset_store v) (av_encryption v) w\<rparr>) w"

text \<open>A caller in \<open>enqueue\<close>.  One that takes the lock of a box that was dropped uses freed memory.\<close>

inductive call_step :: "(irp_entry \<Rightarrow> bool) \<Rightarrow> 'w life \<Rightarrow> 'w life \<Rightarrow> bool" for ok
where
  call_load: "li_callers s c = CIdle \<Longrightarrow> li_pointer s \<Longrightarrow> ok (pending_entry irp wr) \<Longrightarrow>
    call_step ok s (s\<lparr>li_callers := (li_callers s)(c := CLoaded irp wr)\<rparr>)"
| call_lock: "li_callers s c = CLoaded irp wr \<Longrightarrow> li_lock s = None \<Longrightarrow>
    call_step ok s (s\<lparr>li_callers := (li_callers s)(c := CLocked irp wr), li_lock := Some c, li_freed_used := (li_freed_used s \<or> li_freed s)\<rparr>)"
| call_refuse: "li_callers s c = CLocked irp wr \<Longrightarrow> li_shutdown s \<Longrightarrow>
    call_step ok s (s\<lparr>li_callers := (li_callers s)(c := CIdle), li_lock := None,
      li_refused := li_refused s @ [complete_irp irp STATUS_CANCELLED 0]\<rparr>)"
| call_check: "li_callers s c = CLocked irp wr \<Longrightarrow> \<not> li_shutdown s \<Longrightarrow>
    call_step ok s (s\<lparr>li_callers := (li_callers s)(c := CChecked irp wr)\<rparr>)"
| call_push: "li_callers s c = CChecked irp wr \<Longrightarrow>
    call_step ok s (s\<lparr>li_callers := (li_callers s)(c := CPushed), li_lock := None, li_queue := li_queue s @ [pending_entry irp wr],
      li_accepted := li_accepted s @ [pending_entry irp wr]\<rparr>)"
| call_signal: "li_callers s c = CPushed \<Longrightarrow> call_step ok s (s\<lparr>li_callers := (li_callers s)(c := CIdle), li_wake := True\<rparr>)"

text \<open>\<open>unbind_filter\<close>, with \<open>stop\<close>.  Dropping the box completes what is left in the queue.\<close>

inductive unbind_step :: "'w life \<Rightarrow> 'w life \<Rightarrow> bool"
where
  unbind_flag: "li_unbind s = UNone \<Longrightarrow> unbind_step s (s\<lparr>li_unbind := USignal, li_shutdown := True\<rparr>)"
| unbind_signal: "li_unbind s = USignal \<Longrightarrow> unbind_step s (s\<lparr>li_unbind := UWait, li_wake := True\<rparr>)"
| unbind_wait: "li_unbind s = UWait \<Longrightarrow> li_created s \<longrightarrow> li_main s = MEnd \<Longrightarrow> unbind_step s (s\<lparr>li_unbind := UClear\<rparr>)"
| unbind_clear: "li_unbind s = UClear \<Longrightarrow> unbind_step s (s\<lparr>li_unbind := UDrop, li_pointer := False\<rparr>)"
| unbind_drop: "li_unbind s = UDrop \<Longrightarrow> li_lock s = None \<Longrightarrow>
    unbind_step s (s\<lparr>li_unbind := UDone, li_freed := True, li_queue := [], li_done := li_done s @ map cancelled (li_queue s)\<rparr>)"

inductive other_step :: "(irp_entry \<Rightarrow> bool) \<Rightarrow> 'w life \<Rightarrow> 'w life \<Rightarrow> bool" for ok
where
  other_call: "call_step ok s s' \<Longrightarrow> other_step ok s s'"
| other_unbind: "unbind_step s s' \<Longrightarrow> other_step ok s s'"
| command: "vol_command (li_vol s) (li_world s) v1 w1 \<Longrightarrow> other_step ok s (s\<lparr>li_vol := v1, li_world := w1\<rparr>)"
| wake: "other_step ok s (s\<lparr>li_wake := True\<rparr>)"

text \<open>Runs, with the number of steps the thread has made.\<close>

inductive life_run :: "'w io_manager \<Rightarrow> (irp_entry \<Rightarrow> bool) \<Rightarrow> bool \<Rightarrow> 'w life \<Rightarrow> nat \<Rightarrow> 'w life \<Rightarrow> bool" for IM ok fl s0
where
  life_init: "life_run IM ok fl s0 0 s0"
| life_main: "life_run IM ok fl s0 n s \<Longrightarrow> main_step IM fl s s' \<Longrightarrow> life_run IM ok fl s0 (Suc n) s'"
| life_other: "life_run IM ok fl s0 n s \<Longrightarrow> other_step ok s s' \<Longrightarrow> life_run IM ok fl s0 n s'"

lemmas life_call = life_other [OF _ other_call]
lemmas life_unbind = life_other [OF _ other_unbind]

lemma life_run_trans:
  assumes "life_run IM ok fl s0 n s" "life_run IM ok fl s m s'"
  shows "life_run IM ok fl s0 (n + m) s'"
  using assms(2,1) by (induction rule: life_run.induct) (auto intro: life_run.intros)


section \<open>Invariant\<close>

primrec in_hand :: "main_pc \<Rightarrow> irp_entry list" where
  "in_hand MTop = []" | "in_hand (MBurst n) = []" | "in_hand (MHand n ep) = [ep]" | "in_hand (MSweep b) = []" | "in_hand MWait = []"
| "in_hand MDrain = []" | "in_hand (MDrainHand ep) = [ep]" | "in_hand MEnd = []"

primrec leaving :: "main_pc \<Rightarrow> bool" where
  "leaving MTop = False" | "leaving (MBurst n) = False" | "leaving (MHand n ep) = False" | "leaving (MSweep b) = False" | "leaving MWait = False"
| "leaving MDrain = True" | "leaving (MDrainHand ep) = True" | "leaving MEnd = True"

primrec holds_lock :: "caller \<Rightarrow> bool" where
  "holds_lock CIdle = False" | "holds_lock (CLoaded irp wr) = False" | "holds_lock (CLocked irp wr) = True"
| "holds_lock (CChecked irp wr) = True" | "holds_lock CPushed = False"

primrec is_checked :: "caller \<Rightarrow> bool" where
  "is_checked CIdle = False" | "is_checked (CLoaded irp wr) = False" | "is_checked (CLocked irp wr) = False"
| "is_checked (CChecked irp wr) = True" | "is_checked CPushed = False"

primrec caller_ok :: "(irp_entry \<Rightarrow> bool) \<Rightarrow> caller \<Rightarrow> bool" where
  "caller_ok ok CIdle = True" | "caller_ok ok (CLoaded irp wr) = ok (pending_entry irp wr)" | "caller_ok ok (CLocked irp wr) = ok (pending_entry irp wr)"
| "caller_ok ok (CChecked irp wr) = ok (pending_entry irp wr)" | "caller_ok ok CPushed = True"

lemma checked_holds: "is_checked c \<Longrightarrow> holds_lock c"
  by (cases c) simp_all

text \<open>Mutual exclusion: the lock is held by the caller who is in the critical section.\<close>

definition lock_ok :: "(nat \<Rightarrow> caller) \<Rightarrow> nat option \<Rightarrow> bool" where
  "lock_ok f l \<longleftrightarrow> (\<forall>c. holds_lock (f c) \<longleftrightarrow> l = Some c)"

lemma lock_ok_steps:
  "lock_ok f l \<Longrightarrow> \<not> holds_lock (f c) \<Longrightarrow> \<not> holds_lock x \<Longrightarrow> lock_ok (f(c := x)) l"
  "lock_ok f None \<Longrightarrow> holds_lock x \<Longrightarrow> lock_ok (f(c := x)) (Some c)"
  "lock_ok f l \<Longrightarrow> holds_lock (f c) \<Longrightarrow> holds_lock x \<Longrightarrow> lock_ok (f(c := x)) l"
  "lock_ok f l \<Longrightarrow> holds_lock (f c) \<Longrightarrow> \<not> holds_lock x \<Longrightarrow> lock_ok (f(c := x)) None"
  unfolding lock_ok_def by (metis fun_upd_apply option.inject option.distinct(1))+

lemma lock_okD: "lock_ok f l \<Longrightarrow> holds_lock (f c) \<Longrightarrow> l = Some c" "lock_ok f None \<Longrightarrow> \<not> is_checked (f c)"
  using checked_holds by (auto simp: lock_ok_def)

definition none_checked :: "(nat \<Rightarrow> caller) \<Rightarrow> bool" where
  "none_checked f \<longleftrightarrow> (\<forall>c. \<not> is_checked (f c))"

lemma none_checked_upd: "none_checked f \<Longrightarrow> \<not> is_checked x \<Longrightarrow> none_checked (f(c := x))"
  by (simp add: none_checked_def)

lemma none_checkedD: "none_checked f \<Longrightarrow> f c \<noteq> CChecked irp wr"
  unfolding none_checked_def by (metis is_checked.simps(4))

lemma lock_free_unchecked: "lock_ok f None \<Longrightarrow> none_checked f"
  by (simp add: none_checked_def lock_okD(2))

text \<open>Requests go through the queue in order, and once the thread is gone nobody is between the look at
  the flag and the push.\<close>

definition life_inv :: "(irp_entry \<Rightarrow> bool) \<Rightarrow> 'w life \<Rightarrow> bool" where
  "life_inv ok s \<longleftrightarrow>
     lock_ok (li_callers s) (li_lock s) \<and> (\<forall>c. caller_ok ok (li_callers s c)) \<and>
     li_accepted s = map fst (li_done s) @ in_hand (li_main s) @ li_queue s \<and>
     (li_unbind s = UNone \<longleftrightarrow> \<not> li_shutdown s) \<and> (li_created s \<and> leaving (li_main s) \<longrightarrow> li_shutdown s) \<and>
     (\<not> li_created s \<longrightarrow> li_main s = MEnd) \<and>
     (li_created s \<and> li_main s = MEnd \<longrightarrow> li_queue s = [] \<and> none_checked (li_callers s)) \<and>
     (li_unbind s \<in> {UClear, UDrop, UDone} \<longrightarrow> li_main s = MEnd) \<and> (li_freed s \<longleftrightarrow> li_unbind s = UDone) \<and>
     (li_freed s \<and> \<not> li_freed_used s \<longrightarrow> li_queue s = [] \<and> li_lock s = None)"

lemma life_start_inv: "life_inv ok (life_start created v w)"
  by (simp add: life_inv_def life_start_def lock_ok_def none_checked_def)

lemma main_step_inv: "main_step IM fl s s' \<Longrightarrow> life_inv ok s \<Longrightarrow> life_inv ok s'"
  by (induction rule: main_step.induct) (auto simp: life_inv_def lock_free_unchecked)

lemma call_step_inv:
  assumes "call_step ok s s'" "life_inv ok s"
  shows "life_inv ok s'"
  using assms
proof (induction rule: call_step.induct)
  case (call_load s c irp wr)
  then show ?case
    by (simp add: life_inv_def lock_ok_steps(1) none_checked_upd)
next
  case (call_lock s c irp wr)
  then have "lock_ok ((li_callers s)(c := CLocked irp wr)) (Some c)" "caller_ok ok (CLoaded irp wr)"
    unfolding life_inv_def by (metis lock_ok_steps(2) holds_lock.simps(3))+
  then show ?case
    using call_lock by (auto simp: life_inv_def none_checked_upd)
next
  case (call_refuse s c irp wr)
  then have "lock_ok ((li_callers s)(c := CIdle)) None"
    using lock_ok_steps(4) [of "li_callers s" "li_lock s" c CIdle] by (simp add: life_inv_def)
  then show ?case
    using call_refuse by (auto simp: life_inv_def none_checked_upd)
next
  case (call_check s c irp wr)
  then have "lock_ok ((li_callers s)(c := CChecked irp wr)) (li_lock s)" "caller_ok ok (CLocked irp wr)" "li_lock s = Some c"
    unfolding life_inv_def by (metis lock_ok_steps(3) lock_okD(1) holds_lock.simps(3,4))+
  then show ?case
    using call_check by (auto simp: life_inv_def none_checked_upd)
next
  case (call_push s c irp wr)
  then have "lock_ok ((li_callers s)(c := CPushed)) None" "li_lock s = Some c" "li_created s \<longrightarrow> li_main s \<noteq> MEnd"
    using lock_ok_steps(4) [of "li_callers s" "li_lock s" c CPushed] lock_okD(1) [of "li_callers s" "li_lock s" c] none_checkedD [of "li_callers s" c irp wr]
    by (auto simp: life_inv_def)
  then show ?case
    using call_push by (auto simp: life_inv_def)
next
  case (call_signal s c)
  then show ?case
    by (simp add: life_inv_def lock_ok_steps(1) none_checked_upd)
qed

lemma unbind_step_inv: "unbind_step s s' \<Longrightarrow> life_inv ok s \<Longrightarrow> life_inv ok s'"
  by (induction rule: unbind_step.induct) (auto simp: life_inv_def comp_def)

lemma other_step_inv:
  assumes "other_step ok s s'" "life_inv ok s"
  shows "life_inv ok s'"
  using assms
proof (induction rule: other_step.induct)
  case (other_call s s')
  then show ?case
    by (rule call_step_inv)
next
  case (other_unbind s s')
  then show ?case
    by (rule unbind_step_inv)
qed (simp_all add: life_inv_def)

lemma life_run_inv:
  assumes "life_run IM ok fl s0 n s" "life_inv ok s0"
  shows "life_inv ok s"
  using assms by (induction rule: life_run.induct) (auto intro: main_step_inv other_step_inv)


section \<open>The thread as it was specified\<close>

text \<open>A state of the interleaved system follows a state of \<open>vt_run\<close>: the request in hand is still in the
  abstract queue, and so are the requests \<open>ds\<close> that were cancelled at the end.\<close>

definition follows :: "'w vt_state \<Rightarrow> irp_entry list \<Rightarrow> 'w life \<Rightarrow> bool" where
  "follows a ds s \<longleftrightarrow>
     ts_vol a = li_vol s \<and> ts_world a = li_world s \<and> ts_cipher a = li_cipher s \<and> \<not> vt_shutdown (ts_vt a) \<and>
     ts_accepted a = li_accepted s \<and> li_done s = ts_done a @ map cancelled ds \<and>
     vt_queue (ts_vt a) = ds @ in_hand (li_main s) @ li_queue s \<and> (ds \<noteq> [] \<longrightarrow> leaving (li_main s) \<and> li_shutdown s)"

definition thread_start :: "bool \<Rightarrow> 'w attached_volume \<Rightarrow> 'w \<Rightarrow> 'w vt_state" where
  "thread_start created v w = \<lparr>ts_vol = v, ts_vt = vt_start created 0, ts_cipher = None, ts_world = w, ts_accepted = [], ts_done = []\<rparr>"

lemma life_start_follows: "follows (thread_start created v w) [] (life_start created v w)"
  by (simp add: follows_def thread_start_def life_start_def vt_start_def)

lemma vol_command_run:
  assumes "vol_command v w v1 w1" "vt_run IM ok a0 a" "ts_vol a = v" "ts_world a = w"
  shows "vt_run IM ok a0 (a\<lparr>ts_vol := v1, ts_world := w1\<rparr>)"
  using assms
proof (cases rule: vol_command.cases)
  case (cmd_encrypt e1)
  then show ?thesis
    using run_start_encrypt [OF assms(2)] assms(3,4) by simp
next
  case (cmd_decrypt e1)
  then show ?thesis
    using run_start_decrypt [OF assms(2)] assms(3,4) by simp
next
  case cmd_pause
  then show ?thesis
    using run_pause [OF assms(2)] assms(3,4) by (cases a) simp
next
  case cmd_resume
  then show ?thesis
    using run_resume [OF assms(2)] assms(3,4) by (cases a) simp
qed

lemma follows_exI: "vt_run IM ok a0 a \<Longrightarrow> follows a ds s \<Longrightarrow> \<exists>a ds. vt_run IM ok a0 a \<and> follows a ds s"
  by blast

lemma main_step_follows:
  assumes "main_step IM False s s'" "life_inv ok s" "vt_run IM ok a0 a" "follows a ds s"
  shows "\<exists>a ds. vt_run IM ok a0 a \<and> follows a ds s'"
  using assms
proof (induction rule: main_step.induct)
  case (main_serve s n ep irp1 bc1 w1)
  then have f: "ds = []" "vt_queue (ts_vt a) = ep # li_queue s" "serve_entry IM (ts_vol a) ep (ts_cipher a) (ts_world a) = (irp1, bc1, w1)"
    by (auto simp: follows_def)
  show ?case
    by (rule follows_exI [OF run_serve [OF main_serve.prems(2) f(2,3)], of ds])
      (use main_serve f(1) in \<open>simp add: follows_def\<close>)
next
  case (main_sweep s did r v1 w1)
  then obtain again where r: "r = Inr again"
    by (auto simp: is_ok_iff)
  have f: "ds = []" "sweep_step BATCH_SECTORS (ts_vol a) (ts_world a) = (Inr again, v1, w1)"
    using main_sweep r by (auto simp: follows_def)
  show ?case
    by (rule follows_exI [OF run_sweep [OF main_sweep.prems(2) f(2)], of ds])
      (use main_sweep f(1) in \<open>simp add: follows_def\<close>)
next
  case (main_cancel s ep)
  then have "li_shutdown s"
    by (auto simp: life_inv_def)
  then show ?case
    by (intro follows_exI [OF main_cancel.prems(2), of "ds @ [ep]"]) (use main_cancel in \<open>simp add: follows_def\<close>)
qed (rule follows_exI [where ds = ds], assumption, force simp: follows_def)+

lemma call_step_follows:
  assumes "call_step ok s s'" "life_inv ok s" "vt_run IM ok a0 a" "follows a ds s"
  shows "\<exists>a ds. vt_run IM ok a0 a \<and> follows a ds s'"
  using assms
proof (induction rule: call_step.induct)
  case (call_push s c irp wr)
  obtain vt1 where vt1: "enqueue (ts_vt a) irp wr = (STATUS_PENDING, irp\<lparr>irp_pending := True\<rparr>, vt1)"
    "vt_queue vt1 = vt_queue (ts_vt a) @ [pending_entry irp wr]" "\<not> vt_shutdown vt1"
    using call_push.prems(3) by (simp add: enqueue_def vt_signal_def Let_def follows_def)
  have "caller_ok ok (li_callers s c)"
    using call_push.prems(1) by (simp add: life_inv_def)
  then have k: "ok (pending_entry irp wr)"
    using call_push.hyps by simp
  have n: "\<not> vt_shutdown (ts_vt a)"
    using call_push.prems(3) by (simp add: follows_def)
  show ?case
    by (rule follows_exI [OF run_enqueue [OF call_push.prems(2) vt1(1) refl n k], of ds])
      (use call_push.prems(3) vt1(2,3) in \<open>simp add: follows_def\<close>)
qed (rule follows_exI [where ds = ds], assumption, simp add: follows_def)+

lemma unbind_step_follows:
  assumes "unbind_step s s'" "life_inv ok s" "vt_run IM ok a0 a" "follows a ds s"
  shows "\<exists>a ds. vt_run IM ok a0 a \<and> follows a ds s'"
  using assms
proof (induction rule: unbind_step.induct)
  case (unbind_drop s)
  then have "li_main s = MEnd" "li_shutdown s"
    by (auto simp: life_inv_def)
  then show ?case
    by (intro follows_exI [OF unbind_drop.prems(2), of "ds @ li_queue s"]) (use unbind_drop in \<open>simp add: follows_def\<close>)
qed (rule follows_exI [where ds = ds], assumption, simp add: follows_def)+

lemma other_step_follows:
  assumes "other_step ok s s'" "life_inv ok s" "vt_run IM ok a0 a" "follows a ds s"
  shows "\<exists>a ds. vt_run IM ok a0 a \<and> follows a ds s'"
  using assms
proof (induction rule: other_step.induct)
  case (command s v1 w1)
  then have r: "vt_run IM ok a0 (a\<lparr>ts_vol := v1, ts_world := w1\<rparr>)"
    by (intro vol_command_run) (auto simp: follows_def)
  show ?case
    by (rule follows_exI [OF r, of ds]) (use command.prems(3) in \<open>simp add: follows_def\<close>)
next
  case (wake s)
  then show ?case
    by (intro follows_exI [of IM ok a0 a ds]) (simp_all add: follows_def)
qed (rule call_step_follows unbind_step_follows, assumption+)+

lemma life_run_follows:
  assumes "life_run IM ok False s0 n s" "life_inv ok s0" "follows a0 [] s0"
  shows "\<exists>a ds. vt_run IM ok a0 a \<and> follows a ds s"
  using assms
proof (induction rule: life_run.induct)
  case life_init
  then show ?case
    using run_init by blast
next
  case (life_main n s s')
  then show ?case
    using main_step_follows [OF _ life_run_inv] by blast
next
  case (life_other n s s')
  then show ?case
    using other_step_follows [OF _ life_run_inv] by blast
qed


section \<open>Stopping\<close>

primrec main_phase :: "main_pc \<Rightarrow> nat" where
  "main_phase MTop = 2" | "main_phase (MBurst n) = 5" | "main_phase (MHand n ep) = 6" | "main_phase (MSweep b) = 4" | "main_phase MWait = 3"
| "main_phase MDrain = 1" | "main_phase (MDrainHand ep) = 2" | "main_phase MEnd = 0"

text \<open>How many steps the thread has left once the flag is raised: two for each request that is or will be in the
  queue, and those of the turn it is in.\<close>

definition stop_variant :: "'w life \<Rightarrow> nat" where
  "stop_variant s = (if li_main s = MEnd then 0
     else 2 * (length (li_queue s) + (if none_checked (li_callers s) then 0 else 1)) + main_phase (li_main s))"

lemma stop_variant_bound: "stop_variant s \<le> 2 * length (li_queue s) + 8"
proof -
  have "main_phase (li_main s) \<le> 6"
    by (cases "li_main s") simp_all
  then show ?thesis
    by (simp add: stop_variant_def)
qed

lemma main_step_variant: "main_step IM fl s s' \<Longrightarrow> li_shutdown s \<Longrightarrow> stop_variant s' < stop_variant s \<and> li_shutdown s'"
  by (induction rule: main_step.induct) (auto simp: stop_variant_def)

lemma call_step_variant:
  assumes "call_step ok s s'" "life_inv ok s" "li_shutdown s"
  shows "stop_variant s' \<le> stop_variant s \<and> li_shutdown s'"
  using assms
proof (induction rule: call_step.induct)
  case (call_push s c irp wr)
  have "life_inv ok (s\<lparr>li_callers := (li_callers s)(c := CPushed), li_lock := None, li_queue := li_queue s @ [pending_entry irp wr],
      li_accepted := li_accepted s @ [pending_entry irp wr]\<rparr>)"
    by (rule call_step_inv [OF call_step.call_push [OF call_push.hyps] call_push.prems(1)])
  then have "none_checked ((li_callers s)(c := CPushed))"
    by (simp add: life_inv_def lock_free_unchecked)
  moreover have "\<not> none_checked (li_callers s)"
    using call_push.hyps none_checkedD by metis
  ultimately show ?case
    using call_push.prems(2) by (simp add: stop_variant_def)
qed (auto simp: stop_variant_def none_checked_upd)

lemma unbind_step_variant:
  "unbind_step s s' \<Longrightarrow> life_inv ok s \<Longrightarrow> li_shutdown s \<Longrightarrow> stop_variant s' \<le> stop_variant s \<and> li_shutdown s'"
  by (induction rule: unbind_step.induct) (auto simp: life_inv_def stop_variant_def)

lemma other_step_variant:
  assumes "other_step ok s s'" "life_inv ok s" "li_shutdown s"
  shows "stop_variant s' \<le> stop_variant s \<and> li_shutdown s'"
  using assms
proof (induction rule: other_step.induct)
  case (other_call s s')
  then show ?case
    by (rule call_step_variant)
next
  case (other_unbind s s')
  then show ?case
    by (rule unbind_step_variant)
qed (simp_all add: stop_variant_def)

lemma life_run_variant:
  assumes "life_run IM ok fl s n s'" "life_inv ok s" "li_shutdown s"
  shows "n + stop_variant s' \<le> stop_variant s \<and> li_shutdown s'"
  using assms
proof (induction rule: life_run.induct)
  case (life_main n s' s'')
  then show ?case
    using main_step_variant [OF life_main.hyps(2)] by auto
next
  case (life_other n s' s'')
  then show ?case
    using other_step_variant [OF life_other.hyps(2) life_run_inv [OF life_other.hyps(1)]] by auto
qed simp

lemma main_enabled:
  assumes "li_lock s = None" "li_main s \<noteq> MEnd"
  shows "\<exists>s'. main_step IM True s s'"
proof (cases "li_main s")
  case (MHand n ep)
  then show ?thesis
    using main_serve by (metis prod_cases3)
next
  case (MSweep did)
  then show ?thesis
    using main_sweep by (metis prod_cases3)
next
  case (MBurst n)
  then show ?thesis
    using assms(1) main_pop main_empty main_full by (metis neq_Nil_conv)
next
  case MDrain
  then show ?thesis
    using assms(1) main_drain main_exit by (metis neq_Nil_conv)
qed (use assms(2) main_top main_break main_wait main_cancel in blast)+

lemma lock_released:
  assumes "life_inv ok s" "li_shutdown s" "li_lock s = Some c"
  shows "\<exists>s'. other_step ok s s' \<and> li_lock s' = None"
proof -
  have "holds_lock (li_callers s c)"
    using assms(1,3) by (simp add: life_inv_def lock_ok_def)
  then have "\<exists>s'. call_step ok s s' \<and> li_lock s' = None"
    using call_refuse [of s c _ _ ok] call_push [of s c _ _ ok] assms(2) by (cases "li_callers s c") fastforce+
  then show ?thesis
    using other_call by blast
qed

lemma thread_can_end:
  assumes "life_inv ok s" "li_shutdown s"
  shows "\<exists>n s'. life_run IM ok True s n s' \<and> li_main s' = MEnd"
  using assms
proof (induction "stop_variant s" arbitrary: s rule: less_induct)
  case less
  show ?case
  proof (cases "li_main s = MEnd")
    case True
    then show ?thesis
      using life_init by blast
  next
    case False
    have "\<exists>s1. life_run IM ok True s 0 s1 \<and> li_lock s1 = None"
      using lock_released [OF less.prems] life_init life_other by (cases "li_lock s") blast+
    then obtain s1 where s1: "life_run IM ok True s 0 s1" "li_lock s1 = None"
      by blast
    note v1 = life_run_variant [OF s1(1) less.prems] and i1 = life_run_inv [OF s1(1) less.prems(1)]
    show ?thesis
    proof (cases "li_main s1 = MEnd")
      case True
      then show ?thesis
        using s1(1) by blast
    next
      case False
      then obtain s2 where m: "main_step IM True s1 s2"
        using main_enabled [OF s1(2)] by blast
      have "stop_variant s2 < stop_variant s" "li_shutdown s2"
        using main_step_variant [OF m] v1 by auto
      then obtain n s' where "life_run IM ok True s2 n s'" "li_main s' = MEnd"
        using less.hyps main_step_inv [OF m i1] by blast
      then show ?thesis
        using life_run_trans [OF life_main [OF s1(1) m]] by blast
    qed
  qed
qed


lemma life_run_created: "life_run IM ok fl s0 n s \<Longrightarrow> li_created s = li_created s0"
  by (induction rule: life_run.induct) (auto elim!: main_step.cases other_step.cases call_step.cases unbind_step.cases)


section \<open>A request\<close>

lemma one_request_queued:
  assumes "ok (pending_entry irp wr)"
  shows "\<exists>s. life_run IM ok fl (life_start True v w) 0 s \<and> li_queue s = [pending_entry irp wr] \<and> li_accepted s = [pending_entry irp wr] \<and>
    li_lock s = None \<and> li_unbind s = UNone \<and> \<not> li_shutdown s \<and> li_main s = MTop \<and> li_done s = []"
proof -
  let ?s0 = "life_start True v w"
  let ?s1 = "?s0\<lparr>li_callers := (li_callers ?s0)(0 := CLoaded irp wr)\<rparr>"
  let ?s2 = "?s1\<lparr>li_callers := (li_callers ?s1)(0 := CLocked irp wr), li_lock := Some 0, li_freed_used := (li_freed_used ?s1 \<or> li_freed ?s1)\<rparr>"
  let ?s3 = "?s2\<lparr>li_callers := (li_callers ?s2)(0 := CChecked irp wr)\<rparr>"
  let ?s4 = "?s3\<lparr>li_callers := (li_callers ?s3)(0 := CPushed), li_lock := None, li_queue := li_queue ?s3 @ [pending_entry irp wr],
    li_accepted := li_accepted ?s3 @ [pending_entry irp wr]\<rparr>"
  have "life_run IM ok fl ?s0 0 ?s1"
    by (rule life_call [OF life_init call_load]) (simp_all add: life_start_def assms)
  then have "life_run IM ok fl ?s0 0 ?s2"
    by (rule life_call [OF _ call_lock]) (simp_all add: life_start_def)
  then have "life_run IM ok fl ?s0 0 ?s3"
    by (rule life_call [OF _ call_check]) (simp_all add: life_start_def)
  then have "life_run IM ok fl ?s0 0 ?s4"
    by (rule life_call [OF _ call_push]) simp
  then show ?thesis
    by - (rule exI, rule conjI, assumption, simp add: life_start_def)
qed

lemma one_request_served:
  assumes "ok (pending_entry irp wr)"
  shows "\<exists>s. life_run IM ok fl (life_start True v w) 3 s \<and> length (li_done s) = 1 \<and> \<not> li_shutdown s"
proof -
  obtain s where s: "life_run IM ok fl (life_start True v w) 0 s" "li_queue s = [pending_entry irp wr]" "li_lock s = None" "\<not> li_shutdown s"
    "li_main s = MTop" "li_done s = []"
    using one_request_queued [where ok = ok and irp = irp and wr = wr and IM = IM and fl = fl and v = v and w = w] assms by blast
  let ?s1 = "s\<lparr>li_main := MBurst 0\<rparr>"
  let ?s2 = "?s1\<lparr>li_queue := [], li_main := MHand 0 (pending_entry irp wr)\<rparr>"
  obtain irp1 bc1 w1 where sv: "serve_entry IM (li_vol ?s2) (pending_entry irp wr) (li_cipher ?s2) (li_world ?s2) = (irp1, bc1, w1)"
    using prod_cases3 by blast
  have "life_run IM ok fl (life_start True v w) (Suc 0) ?s1"
    by (rule life_main [OF s(1) main_top]) (simp_all add: s)
  then have "life_run IM ok fl (life_start True v w) (Suc (Suc 0)) ?s2"
    by (rule life_main [OF _ main_pop]) (simp_all add: s MAX_IRP_BURST_def)
  then have "life_run IM ok fl (life_start True v w) (Suc (Suc (Suc 0))) (?s2\<lparr>li_main := MBurst (Suc 0), li_cipher := bc1, li_world := w1,
      li_done := li_done ?s2 @ [(pending_entry irp wr, irp1)]\<rparr>)"
    by (rule life_main [OF _ main_serve]) (simp, rule sv)
  then show ?thesis
    using s(4,6) unfolding numeral_3_eq_3 by - (rule exI, rule conjI, assumption, simp)
qed

lemma toy_entry_pending: "entry_ok 512 0 88 (pending_entry (ie_irp (toy_entry wr)) wr)"
  by (simp add: entry_ok_def toy_entry_def toy_irp_def)


section \<open>Properties\<close>

text \<open>C4: the thread is a plain disk for every interleaving.  Callers dispatch requests to the data region at
  any time, each through the pointer of the device extension, the lock, the flag and the queue, while the
  thread serves and sweeps, commands change the direction of the sweep, and the filter may be unbound at any
  time.  As long as no sweep batch fails, the requests are completed in the order in which they were
  accepted, each at most once: first those that a plain disk with the plaintext of the volume serves, then, only after
  the thread was told to stop, requests that are cancelled.  When the thread's memory has been freed, every accepted request has
  been completed, provided that no caller used the freed memory.\<close>

theorem concurrent_thread_refines_plain_disk:
  assumes "sweep_ok K me disk C rng A st" "drv_vol_ok K me C rng A x st v" "vol_synced v"
    "ss = unat (ld_sector_size me)" "off = unat (av_offset_sector v)" "tot = unat (data_sectors v)"
    "life_run IM (entry_ok ss off tot) False (life_start created v w) n s"
  shows "\<exists>cs ds. li_done s = cs @ map cancelled ds \<and>
    plain_run ss off tot (vol_view (xts_as_volume_cipher A x) v (disk_sector disk ss (snd w))) cs
      (vol_view (xts_as_volume_cipher A x) (li_vol s) (disk_sector disk ss (snd (li_world s)))) \<and>
    (ds \<noteq> [] \<longrightarrow> li_shutdown s) \<and>
    li_accepted s = map fst (li_done s) @ in_hand (li_main s) @ li_queue s \<and>
    (li_freed s \<and> \<not> li_freed_used s \<longrightarrow> map fst (li_done s) = li_accepted s)"
proof -
  let ?ok = "entry_ok ss off tot" and ?a0 = "thread_start created v w"
  have inv: "life_inv ?ok s"
    by (rule life_run_inv [OF assms(7) life_start_inv])
  obtain a ds where a: "vt_run IM ?ok ?a0 a" "follows a ds s"
    using life_run_follows [OF assms(7) life_start_inv life_start_follows] by blast
  have "sweep.run_inv K me disk C rng A st x off tot (vol_view (xts_as_volume_cipher A x) v (disk_sector disk ss (snd w))) ?a0"
    unfolding sweep.run_inv_def using assms(1-6)
    by (simp add: thread_start_def vt_start_def burst_cipher_ok_def plain_run.intros)
  then have "sweep.run_inv K me disk C rng A st x off tot (vol_view (xts_as_volume_cipher A x) v (disk_sector disk ss (snd w))) a"
    using sweep.vt_run_inv [where K = K and me = me and disk = disk and C = C and rng = rng and A = A and st = st and x = x]
      assms(4) a(1) by simp
  then have pr: "plain_run ss off tot (vol_view (xts_as_volume_cipher A x) v (disk_sector disk ss (snd w))) (ts_done a)
      (vol_view (xts_as_volume_cipher A x) (li_vol s) (disk_sector disk ss (snd (li_world s))))"
    unfolding sweep.run_inv_def using assms(4) a(2) by (simp add: follows_def)
  have "li_freed s \<and> \<not> li_freed_used s \<longrightarrow> map fst (li_done s) = li_accepted s"
    using inv by (auto simp: life_inv_def)
  then show ?thesis
    using a(2) inv pr unfolding follows_def life_inv_def by blast
qed

theorem concurrent_thread_refines_plain_disk_witness:
  "\<exists>s cs. life_run toy_im (entry_ok 512 0 88) False (life_start True (toy_volume const_rng 40 Encrypting) (toy_cells, \<lambda>a. of_nat a)) 3 s \<and>
     length (li_done s) = 1 \<and> li_done s = cs \<and>
     plain_run 512 0 88
       (vol_view (xts_as_volume_cipher toy_aes toy_xts) (toy_volume const_rng 40 Encrypting) (disk_sector (\<lambda>w. w) 512 (\<lambda>a. of_nat a))) cs
       (vol_view (xts_as_volume_cipher toy_aes toy_xts) (li_vol s) (disk_sector (\<lambda>w. w) 512 (snd (li_world s))))"
proof -
  let ?v = "toy_volume const_rng 40 Encrypting" and ?irp = "ie_irp (toy_entry True)"
  obtain s where s: "life_run toy_im (entry_ok 512 0 88) False (life_start True ?v (toy_cells, \<lambda>a. of_nat a)) 3 s"
    "length (li_done s) = 1" "\<not> li_shutdown s"
    using one_request_served [where ok = "entry_ok 512 0 88" and irp = ?irp and wr = True and IM = toy_im and fl = False and v = ?v and w = "(toy_cells, \<lambda>a. of_nat a)"] toy_entry_pending by blast
  have ok: "drv_vol_ok ram_kernel toy_device toy_crypto const_rng toy_aes toy_xts toy_store ?v" "vol_synced ?v"
    using toy_volume_ok [of 40 const_rng Encrypting] by simp_all
  have dev: "512 = unat (ld_sector_size toy_device)" "0 = unat (av_offset_sector ?v)" "88 = unat (data_sectors ?v)"
    by (simp_all add: toy_device_def ld_new_def)
  obtain cs ds where r: "li_done s = cs @ map cancelled ds"
    "plain_run 512 0 88 (vol_view (xts_as_volume_cipher toy_aes toy_xts) ?v (disk_sector (\<lambda>w. w) 512 (snd (toy_cells, \<lambda>a. of_nat a)))) cs
      (vol_view (xts_as_volume_cipher toy_aes toy_xts) (li_vol s) (disk_sector (\<lambda>w. w) 512 (snd (li_world s))))" "ds \<noteq> [] \<longrightarrow> li_shutdown s"
    using concurrent_thread_refines_plain_disk [OF toy_sweep(2) ok dev s(1)] by (elim exE conjE)
  have "li_done s = cs"
    using r(1,3) s(3) by simp
  then show ?thesis
    using s(1,2) r(2) [unfolded snd_conv] by blast
qed

text \<open>C22: a thread that is told to stop ends.  Once the flag is raised, the thread makes at most two steps for
  each queued request and eight more, whatever the other threads do, and it can always reach its end; at
  its end every accepted request has been completed, and none is accepted afterwards.\<close>

theorem stopped_thread_ends:
  assumes "life_run IM ok True (life_start True v w) n s" "li_shutdown s"
  shows "(\<exists>m s'. life_run IM ok True s m s' \<and> li_main s' = MEnd) \<and>
    (\<forall>m s'. life_run IM ok True s m s' \<longrightarrow> m \<le> 2 * length (li_queue s) + 8 \<and>
      (li_main s' = MEnd \<longrightarrow> map fst (li_done s') = li_accepted s' \<and> none_checked (li_callers s')))"
proof -
  have inv: "life_inv ok s"
    by (rule life_run_inv [OF assms(1) life_start_inv])
  have "m \<le> 2 * length (li_queue s) + 8" if "life_run IM ok True s m s'" for m s'
    using life_run_variant [OF that inv assms(2)] stop_variant_bound [of s] by linarith
  moreover have "map fst (li_done s') = li_accepted s' \<and> none_checked (li_callers s')" if "life_run IM ok True s m s'" "li_main s' = MEnd" for m s'
    using life_run_inv [OF life_run_trans [OF assms(1) that(1)] life_start_inv] life_run_created [OF life_run_trans [OF assms(1) that(1)]] that(2)
    by (simp add: life_inv_def life_start_def)
  ultimately show ?thesis
    using thread_can_end [OF inv assms(2)] by blast
qed

theorem stopped_thread_ends_witness:
  "\<exists>(s :: (jvck_cells \<times> (nat \<Rightarrow> byte)) life) m s'.
     life_run toy_im (\<lambda>_. True) True (life_start True (toy_volume const_rng 40 Encrypting) (toy_cells, \<lambda>a. of_nat a)) 0 s \<and>
     li_accepted s \<noteq> [] \<and> li_shutdown s \<and> life_run toy_im (\<lambda>_. True) True s m s' \<and> li_main s' = MEnd \<and> m \<le> 10 \<and> map fst (li_done s') = li_accepted s'"
proof -
  let ?v = "toy_volume const_rng 40 Encrypting" and ?w = "(toy_cells, \<lambda>a. of_nat a :: byte)"
  obtain s where s: "life_run toy_im (\<lambda>_. True) True (life_start True ?v ?w) 0 s" "li_queue s = [pending_entry (ie_irp (toy_entry True)) True]"
    "li_accepted s = [pending_entry (ie_irp (toy_entry True)) True]" "li_unbind s = UNone" "li_main s = MTop"
    using one_request_queued [where ok = "\<lambda>_. True" and irp = "ie_irp (toy_entry True)" and wr = True and IM = toy_im and fl = True and v = ?v and w = ?w] by blast
  let ?s = "s\<lparr>li_unbind := USignal, li_shutdown := True\<rparr>"
  have run: "life_run toy_im (\<lambda>_. True) True (life_start True ?v ?w) 0 ?s"
    by (rule life_unbind [OF s(1) unbind_flag [OF s(4)]])
  obtain m s' where "life_run toy_im (\<lambda>_. True) True ?s m s'" "li_main s' = MEnd" "m \<le> 2 * length (li_queue ?s) + 8"
    "map fst (li_done s') = li_accepted s'"
    using stopped_thread_ends [OF run] by auto
  then show ?thesis
    using run s by (intro exI [of _ ?s] exI [of _ m] exI [of _ s']) simp
qed

text \<open>C38: the memory of the thread can be used after it was freed.  A caller that has read the pointer of the
  device extension is not waited for: the filter can be unbound, the thread end and its box be dropped
  before the caller takes the lock in it.\<close>

theorem freed_thread_used:
  assumes "ok (pending_entry irp wr)"
  shows "\<exists>s. life_run IM ok False (life_start True v w) 2 s \<and> li_freed s \<and> li_freed_used s \<and> li_callers s 0 = CLocked irp wr"
proof -
  let ?s0 = "life_start True v w"
  let ?s1 = "?s0\<lparr>li_callers := (li_callers ?s0)(0 := CLoaded irp wr)\<rparr>"
  let ?s2 = "?s1\<lparr>li_unbind := USignal, li_shutdown := True\<rparr>"
  let ?s3 = "?s2\<lparr>li_unbind := UWait, li_wake := True\<rparr>"
  let ?s4 = "?s3\<lparr>li_main := MDrain\<rparr>\<lparr>li_main := MEnd\<rparr>"
  let ?s5 = "?s4\<lparr>li_unbind := UClear\<rparr>\<lparr>li_unbind := UDrop, li_pointer := False\<rparr>"
  let ?s6 = "?s5\<lparr>li_unbind := UDone, li_freed := True, li_queue := [], li_done := li_done ?s5 @ map cancelled (li_queue ?s5)\<rparr>"
  have "life_run IM ok False ?s0 0 ?s1"
    by (rule life_call [OF life_init call_load]) (simp_all add: life_start_def assms)
  then have "life_run IM ok False ?s0 0 ?s2"
    by (rule life_unbind [OF _ unbind_flag]) (simp add: life_start_def)
  then have "life_run IM ok False ?s0 0 ?s3"
    by (rule life_unbind [OF _ unbind_signal]) simp
  then have "life_run IM ok False ?s0 (Suc 0) (?s3\<lparr>li_main := MDrain\<rparr>)"
    by (rule life_main [OF _ main_break]) (simp_all add: life_start_def)
  then have "life_run IM ok False ?s0 (Suc (Suc 0)) ?s4"
    by (rule life_main [OF _ main_exit]) (simp_all add: life_start_def)
  then have "life_run IM ok False ?s0 (Suc (Suc 0)) (?s4\<lparr>li_unbind := UClear\<rparr>)"
    by (rule life_unbind [OF _ unbind_wait]) simp_all
  then have "life_run IM ok False ?s0 (Suc (Suc 0)) ?s5"
    by (rule life_unbind [OF _ unbind_clear]) simp
  then have "life_run IM ok False ?s0 (Suc (Suc 0)) ?s6"
    by (rule life_unbind [OF _ unbind_drop]) (simp_all add: life_start_def)
  then have "life_run IM ok False ?s0 (Suc (Suc 0))
      (?s6\<lparr>li_callers := (li_callers ?s6)(0 := CLocked irp wr), li_lock := Some 0, li_freed_used := (li_freed_used ?s6 \<or> li_freed ?s6)\<rparr>)"
    by (rule life_call [OF _ call_lock]) (simp_all add: life_start_def)
  then show ?thesis
    unfolding numeral_2_eq_2 by - (rule exI, rule conjI, assumption, simp)
qed

theorem freed_thread_used_witness:
  "\<exists>s. life_run toy_im (entry_ok 512 0 88) False (life_start True (toy_volume const_rng 40 Encrypting) (toy_cells, \<lambda>a. of_nat a)) 2 s \<and>
     li_freed s \<and> li_freed_used s"
  using freed_thread_used [where ok = "entry_ok 512 0 88" and irp = "ie_irp (toy_entry True)" and wr = True and IM = toy_im and
      v = "toy_volume const_rng 40 Encrypting" and w = "(toy_cells, \<lambda>a. of_nat a)", OF toy_entry_pending] by blast

end
