(* ===== verification/Irp_Stack.thy ===== *)
theory Irp_Stack
  imports Filter_Io
begin

text \<open>
  The stack locations of an IRP: the macros of \<open>lib/windrv/src/ntddk_ex.rs\<close>,
  \<open>skip_current_stack_location\<close> of \<open>filter/irp.rs\<close>, and how \<open>filter/io.rs\<close> prepares the location of
  the next driver.

  \<open>Filter_Io\<close> takes an IRP as a record of the request and of the current stack location.  Here the
  locations are an array, lowest driver first, and the current location is kept twice, as a pointer and
  as a number, as the I/O manager keeps it.  The lemmas show that the filter hands on the request it
  was given, that it leaves the locations of the drivers above alone, and that its completion routine sees
  the request again, so that the flat record is enough.
\<close>


section \<open>Stack locations\<close>

datatype completion_routine = OnSize u64 | OnStart device | OnOther nat

record io_stack_location =
  sl_major :: irp_major_function
  sl_minor_start :: bool
  sl_byte_offset :: u64
  sl_length :: u32
  sl_ioctl_code :: u32
  sl_routine :: "completion_routine option"
  sl_control :: byte

text \<open>The pointer is an index into the array; outside the array is memory that is not a location.\<close>

record stack_irp =
  si_locations :: "io_stack_location list"
  si_current_location :: byte
  si_current :: int
  si_pending_returned :: bool
  si_status :: ntstatus
  si_information :: nat
  si_system_buffer :: "bytes option"

definition SL_PENDING_RETURNED :: byte where "SL_PENDING_RETURNED = 0x01"
definition SL_INVOKE_ON_CANCEL :: byte where "SL_INVOKE_ON_CANCEL = 0x20"
definition SL_INVOKE_ON_SUCCESS :: byte where "SL_INVOKE_ON_SUCCESS = 0x40"
definition SL_INVOKE_ON_ERROR :: byte where "SL_INVOKE_ON_ERROR = 0x80"

definition sl_deref :: "stack_irp \<Rightarrow> int \<Rightarrow> io_stack_location option" where
  "sl_deref irp p = (if 0 \<le> p \<and> p < int (length (si_locations irp)) then Some (si_locations irp ! nat p) else None)"

definition sl_store :: "int \<Rightarrow> io_stack_location \<Rightarrow> stack_irp \<Rightarrow> stack_irp option" where
  "sl_store p l irp = (if sl_deref irp p = None then None else Some (irp\<lparr>si_locations := (si_locations irp)[nat p := l]\<rparr>))"

definition IoGetCurrentIrpStackLocation :: "stack_irp \<Rightarrow> int" where
  "IoGetCurrentIrpStackLocation irp = si_current irp"

definition IoGetNextIrpStackLocation :: "stack_irp \<Rightarrow> int" where
  "IoGetNextIrpStackLocation irp = si_current irp - 1"

definition current_sl :: "stack_irp \<Rightarrow> int" where
  "current_sl irp = si_current irp"

definition next_sl :: "stack_irp \<Rightarrow> int" where
  "next_sl irp = current_sl irp - 1"

definition skip_current_stack_location :: "stack_irp \<Rightarrow> stack_irp" where
  "skip_current_stack_location irp = irp\<lparr>si_current_location := si_current_location irp + 1, si_current := si_current irp + 1\<rparr>"


section \<open>The filter on the stack\<close>

text \<open>Copying the current location to the next one, with a completion routine of the filter's own.  \<open>None\<close>
  stands for an access outside the array.\<close>

definition copy_to_next :: "completion_routine \<Rightarrow> stack_irp \<Rightarrow> stack_irp option" where
  "copy_to_next routine irp =
     (case sl_deref irp (current_sl irp) of
        None \<Rightarrow> None
      | Some cur \<Rightarrow>
          sl_store (next_sl irp) (cur\<lparr>sl_routine := Some routine, sl_control := SL_INVOKE_ON_SUCCESS OR SL_INVOKE_ON_ERROR OR SL_INVOKE_ON_CANCEL\<rparr>) irp)"

text \<open>\<open>IofCallDriver\<close> is a parameter: the IRP and the world to the status, the IRP and the world after
  the lower drivers.\<close>

type_synonym 'w call_driver = "stack_irp \<Rightarrow> 'w \<Rightarrow> ntstatus \<times> stack_irp \<times> 'w"

definition stack_pass_through :: "'w call_driver \<Rightarrow> stack_irp \<Rightarrow> 'w \<Rightarrow> ntstatus \<times> stack_irp \<times> 'w" where
  "stack_pass_through call irp w = call (skip_current_stack_location irp) w"

definition stack_intercept_size_ioctl ::
    "'w call_driver \<Rightarrow> bool \<Rightarrow> u64 \<Rightarrow> stack_irp \<Rightarrow> 'w \<Rightarrow> (ntstatus \<times> stack_irp \<times> 'w) option" where
  "stack_intercept_size_ioctl call allocated data_bytes irp w =
     (if \<not> allocated then Some (stack_pass_through call irp w)
      else map_option (\<lambda>irp1. call irp1 w) (copy_to_next (OnSize data_bytes) irp))"

definition stack_filter_pnp ::
    "'w call_driver \<Rightarrow> device \<Rightarrow> stack_irp \<Rightarrow> 'w \<Rightarrow> (ntstatus \<times> stack_irp \<times> 'w) option" where
  "stack_filter_pnp call filter_do irp w =
     (case sl_deref irp (current_sl irp) of
        None \<Rightarrow> None
      | Some stack \<Rightarrow>
          if \<not> sl_minor_start stack then Some (stack_pass_through call irp w)
          else map_option (\<lambda>irp1. call irp1 w) (copy_to_next (OnStart filter_do) irp))"

text \<open>What both completion routines do at the end, and \<open>enqueue\<close> with a request it keeps.\<close>

definition mark_pending :: "stack_irp \<Rightarrow> stack_irp option" where
  "mark_pending irp =
     (case sl_deref irp (current_sl irp) of
        None \<Rightarrow> None
      | Some l \<Rightarrow> sl_store (current_sl irp) (l\<lparr>sl_control := sl_control l OR SL_PENDING_RETURNED\<rparr>) irp)"

definition propagate_pending :: "stack_irp \<Rightarrow> stack_irp option" where
  "propagate_pending irp = (if si_pending_returned irp then mark_pending irp else Some irp)"

definition stack_size_completion :: "u64 \<Rightarrow> stack_irp \<Rightarrow> stack_irp option" where
  "stack_size_completion data_bytes irp =
     (case sl_deref irp (current_sl irp) of
        None \<Rightarrow> None
      | Some stack \<Rightarrow>
          propagate_pending
            (if nt_success (si_status irp) then
               (case size_field_offset (sl_ioctl_code stack) of
                  None \<Rightarrow> irp
                | Some field_off \<Rightarrow>
                    (case si_system_buffer irp of
                       None \<Rightarrow> irp
                     | Some sysbuf \<Rightarrow>
                         if si_information irp \<ge> field_off + 8
                         then irp\<lparr>si_system_buffer := Some (buf_write field_off (le_bytes 8 data_bytes) sysbuf)\<rparr>
                         else irp))
             else irp))"


section \<open>What the next driver sees\<close>

text \<open>\<open>IofCallDriver\<close> as documented: it makes the next location the current one and calls the dispatch
  routine of the driver below.\<close>

definition calls_lower :: "'w call_driver \<Rightarrow> 'w call_driver \<Rightarrow> bool" where
  "calls_lower call dispatch \<longleftrightarrow>
     (\<forall>irp w. call irp w = dispatch (irp\<lparr>si_current_location := si_current_location irp - 1, si_current := si_current irp - 1\<rparr>) w)"

text \<open>The pointer and the number of the current location belong together.\<close>

definition in_step :: "stack_irp \<Rightarrow> bool" where
  "in_step irp \<longleftrightarrow> si_current_location irp = of_int (si_current irp) + 1"

lemma in_step_skip: "in_step (skip_current_stack_location irp) \<longleftrightarrow> in_step irp"
  by (simp add: in_step_def skip_current_stack_location_def add.commute)

lemma pass_through_transparent: "calls_lower call dispatch \<Longrightarrow> stack_pass_through call irp w = dispatch irp w"
  by (cases irp) (simp add: calls_lower_def stack_pass_through_def skip_current_stack_location_def)

lemma sl_deref_buffer [simp]: "sl_deref (irp\<lparr>si_system_buffer := x\<rparr>) p = sl_deref irp p"
  by (simp add: sl_deref_def)

lemma sl_store_deref:
  assumes "sl_store p l irp = Some irp1"
  shows "sl_deref irp1 q = (if q = p then Some l else sl_deref irp q)" "irp1 = irp\<lparr>si_locations := si_locations irp1\<rparr>"
  using assms by (auto simp: sl_store_def sl_deref_def split: if_splits)

lemma copy_to_next_ok:
  assumes "sl_deref irp (si_current irp) = Some cur" "0 < si_current irp"
  shows "\<exists>irp1. copy_to_next routine irp = Some irp1 \<and> irp1 = irp\<lparr>si_locations := si_locations irp1\<rparr> \<and>
    sl_deref irp1 (si_current irp - 1) = Some (cur\<lparr>sl_routine := Some routine, sl_control := 0xE0\<rparr>) \<and>
    (\<forall>p. p \<noteq> si_current irp - 1 \<longrightarrow> sl_deref irp1 p = sl_deref irp p)"
proof -
  have ctl: "SL_INVOKE_ON_SUCCESS OR SL_INVOKE_ON_ERROR OR SL_INVOKE_ON_CANCEL = (0xE0 :: byte)"
    by (simp add: SL_INVOKE_ON_SUCCESS_def SL_INVOKE_ON_ERROR_def SL_INVOKE_ON_CANCEL_def)
  have "sl_deref irp (si_current irp - 1) \<noteq> None"
    using assms by (simp add: sl_deref_def split: if_splits)
  then obtain irp1 where "sl_store (si_current irp - 1) (cur\<lparr>sl_routine := Some routine, sl_control := 0xE0\<rparr>) irp = Some irp1"
    by (auto simp: sl_store_def)
  then show ?thesis
    using sl_store_deref assms(1) by (auto simp: copy_to_next_def current_sl_def next_sl_def ctl)
qed

text \<open>The flat record of \<open>Filter_Io\<close>; the other fields come from \<open>b\<close>.\<close>

definition flat_irp :: "irp \<Rightarrow> stack_irp \<Rightarrow> irp option" where
  "flat_irp b irp = map_option (\<lambda>l. b\<lparr>irp_major := sl_major l, irp_minor_start := sl_minor_start l, irp_byte_offset := sl_byte_offset l,
     irp_length := sl_length l, irp_ioctl_code := sl_ioctl_code l, irp_system_buffer := si_system_buffer irp,
     irp_status := si_status irp, irp_information := si_information irp\<rparr>) (sl_deref irp (si_current irp))"

lemma propagate_pending_flat:
  assumes "sl_deref irp (si_current irp) = Some l"
  shows "\<exists>irp1. propagate_pending irp = Some irp1 \<and> flat_irp b irp1 = flat_irp b irp \<and>
    sl_deref irp1 (si_current irp) = Some (l\<lparr>sl_control := (if si_pending_returned irp then sl_control l OR SL_PENDING_RETURNED else sl_control l)\<rparr>) \<and>
    (\<forall>p. p \<noteq> si_current irp \<longrightarrow> sl_deref irp1 p = sl_deref irp p)"
proof (cases "si_pending_returned irp")
  case True
  obtain irp1 where st: "sl_store (si_current irp) (l\<lparr>sl_control := sl_control l OR SL_PENDING_RETURNED\<rparr>) irp = Some irp1"
    using assms by (auto simp: sl_store_def)
  then have "si_current irp1 = si_current irp" "si_system_buffer irp1 = si_system_buffer irp" "si_status irp1 = si_status irp"
    "si_information irp1 = si_information irp"
    by (auto simp: sl_store_def split: if_splits)
  then have "flat_irp b irp1 = flat_irp b irp"
    using sl_store_deref(1) [OF st] assms by (simp add: flat_irp_def)
  then show ?thesis
    using True st sl_store_deref(1) [OF st] assms by (simp add: propagate_pending_def mark_pending_def current_sl_def)
qed (use assms in \<open>simp add: propagate_pending_def\<close>)


lemma watched_query_below:
  assumes "calls_lower call dispatch" "in_step irp" "sl_deref irp (si_current irp) = Some cur" "0 < si_current irp"
  shows "\<exists>irp1. stack_intercept_size_ioctl call True data_bytes irp w = Some (dispatch irp1 w) \<and> in_step irp1 \<and>
      flat_irp b irp1 = flat_irp b irp \<and> sl_deref irp1 (si_current irp1) = Some (cur\<lparr>sl_routine := Some (OnSize data_bytes), sl_control := 0xE0\<rparr>) \<and>
      (\<forall>p. p \<noteq> si_current irp1 \<longrightarrow> sl_deref irp1 p = sl_deref irp p)"
proof -
  obtain irp0 where c: "copy_to_next (OnSize data_bytes) irp = Some irp0" "irp0 = irp\<lparr>si_locations := si_locations irp0\<rparr>"
    "sl_deref irp0 (si_current irp - 1) = Some (cur\<lparr>sl_routine := Some (OnSize data_bytes), sl_control := 0xE0\<rparr>)"
    "\<forall>p. p \<noteq> si_current irp - 1 \<longrightarrow> sl_deref irp0 p = sl_deref irp p"
    using copy_to_next_ok [OF assms(3,4)] by blast
  have f: "si_current irp0 = si_current irp" "si_current_location irp0 = si_current_location irp" "si_status irp0 = si_status irp"
    "si_system_buffer irp0 = si_system_buffer irp" "si_information irp0 = si_information irp"
    by (subst c(2), simp)+
  let ?irp1 = "irp0\<lparr>si_current_location := si_current_location irp0 - 1, si_current := si_current irp0 - 1\<rparr>"
  have d: "sl_deref (irp0\<lparr>si_current_location := n, si_current := m\<rparr>) p = sl_deref irp0 p" for n m p
    by (simp add: sl_deref_def)
  have "stack_intercept_size_ioctl call True data_bytes irp w = Some (dispatch ?irp1 w)"
    using c(1) assms(1) by (simp add: stack_intercept_size_ioctl_def calls_lower_def)
  moreover have "in_step ?irp1"
    using assms(2) f by (simp add: in_step_def)
  moreover have "flat_irp b ?irp1 = flat_irp b irp"
    using c(3) f assms(3) by (simp add: flat_irp_def d)
  moreover have "sl_deref ?irp1 (si_current ?irp1) = Some (cur\<lparr>sl_routine := Some (OnSize data_bytes), sl_control := 0xE0\<rparr>)"
    "\<forall>p. p \<noteq> si_current ?irp1 \<longrightarrow> sl_deref ?irp1 p = sl_deref irp p"
    using c(3,4) f unfolding d by simp_all
  ultimately show ?thesis
    by blast
qed

lemma size_completion_on_stack:
  assumes "sl_deref irp (si_current irp) = Some cur"
  shows "\<exists>irp2. stack_size_completion data_bytes irp = Some irp2 \<and>
      flat_irp b irp2 = map_option (size_ioctl_completion data_bytes) (flat_irp b irp) \<and>
      (si_pending_returned irp \<longrightarrow> (\<exists>l. sl_deref irp2 (si_current irp) = Some l \<and> bit (sl_control l) 0)) \<and>
      (\<forall>p. p \<noteq> si_current irp \<longrightarrow> sl_deref irp2 p = sl_deref irp p)"
proof -
  define irp3 where "irp3 = (if nt_success (si_status irp) then
     (case size_field_offset (sl_ioctl_code cur) of
        None \<Rightarrow> irp
      | Some field_off \<Rightarrow>
          (case si_system_buffer irp of
             None \<Rightarrow> irp
           | Some sysbuf \<Rightarrow>
               if si_information irp \<ge> field_off + 8
               then irp\<lparr>si_system_buffer := Some (buf_write field_off (le_bytes 8 data_bytes) sysbuf)\<rparr> else irp)) else irp)"
  have e: "si_current irp3 = si_current irp" "si_pending_returned irp3 = si_pending_returned irp" "sl_deref irp3 p = sl_deref irp p" for p
    by (auto simp: irp3_def sl_deref_def split: option.splits)
  have "flat_irp b irp3 = map_option (size_ioctl_completion data_bytes) (flat_irp b irp)"
    using assms by (auto simp: flat_irp_def e irp3_def size_ioctl_completion_def split: option.splits)
  moreover have "stack_size_completion data_bytes irp = propagate_pending irp3"
    using assms by (simp add: stack_size_completion_def current_sl_def irp3_def)
  moreover have "bit (c OR SL_PENDING_RETURNED) 0" for c
    by (simp add: SL_PENDING_RETURNED_def bit_or_iff)
  ultimately show ?thesis
    using propagate_pending_flat [of irp3 cur b] assms e by auto
qed


section \<open>Properties\<close>

text \<open>C25: the filter keeps the discipline of the IRP stack.  A request that is passed through reaches the driver below
  exactly as the filter got it.  A size query that is watched reaches it at the next location with the same
  parameters and the filter's completion routine, and no other location changes.  When the I/O manager then
  returns to the filter's location, the completion routine changes the answer as the flat model says, hands on
  that the request is pending, and changes no other location.\<close>

theorem filter_keeps_stack:
  assumes "calls_lower call dispatch" "in_step irp" "sl_deref irp (si_current irp) = Some cur" "0 < si_current irp"
    "si_current irp' = si_current irp" "sl_deref irp' (si_current irp) = Some cur"
  shows "stack_intercept_size_ioctl call False data_bytes irp w = Some (dispatch irp w) \<and>
    (\<exists>irp1. stack_intercept_size_ioctl call True data_bytes irp w = Some (dispatch irp1 w) \<and> in_step irp1 \<and>
      flat_irp b irp1 = flat_irp b irp \<and> sl_deref irp1 (si_current irp1) = Some (cur\<lparr>sl_routine := Some (OnSize data_bytes), sl_control := 0xE0\<rparr>) \<and>
      (\<forall>p. p \<noteq> si_current irp1 \<longrightarrow> sl_deref irp1 p = sl_deref irp p)) \<and>
    (\<exists>irp2. stack_size_completion data_bytes irp' = Some irp2 \<and>
      flat_irp b irp2 = map_option (size_ioctl_completion data_bytes) (flat_irp b irp') \<and>
      (si_pending_returned irp' \<longrightarrow> (\<exists>l. sl_deref irp2 (si_current irp) = Some l \<and> bit (sl_control l) 0)) \<and>
      (\<forall>p. p \<noteq> si_current irp \<longrightarrow> sl_deref irp2 p = sl_deref irp' p))"
  using pass_through_transparent [OF assms(1)] watched_query_below [OF assms(1-4)] size_completion_on_stack [of irp' cur data_bytes b] assms(5,6)
  by (simp add: stack_intercept_size_ioctl_def)

text \<open>An IRP with three locations, the filter in the middle, above a driver that answers with 600 sectors.\<close>

definition toy_location :: io_stack_location where
  "toy_location = \<lparr>sl_major = MJ_DEVICE_CONTROL, sl_minor_start = False, sl_byte_offset = 0, sl_length = 0,
     sl_ioctl_code = IOCTL_DISK_GET_LENGTH_INFO, sl_routine = Some (OnOther 5), sl_control = 0xE0\<rparr>"

definition toy_stack :: stack_irp where
  "toy_stack = \<lparr>si_locations = replicate 3 toy_location, si_current_location = 2, si_current = 1, si_pending_returned = False,
     si_status = STATUS_SUCCESS, si_information = 8, si_system_buffer = Some (le_bytes 8 (307200 :: u64))\<rparr>"

theorem filter_keeps_stack_witness:
  "\<exists>irp2. stack_size_completion 45056 (toy_stack\<lparr>si_pending_returned := True\<rparr>) = Some irp2 \<and>
     (\<exists>l. sl_deref irp2 1 = Some l \<and> bit (sl_control l) 0) \<and> sl_deref irp2 2 = Some toy_location"
proof -
  let ?call = "\<lambda>irp (w :: unit). (STATUS_SUCCESS, irp\<lparr>si_current_location := si_current_location irp - 1, si_current := si_current irp - 1\<rparr>, w)"
  have "calls_lower ?call (\<lambda>irp w. (STATUS_SUCCESS, irp, w))" "in_step toy_stack" "sl_deref toy_stack (si_current toy_stack) = Some toy_location"
    "0 < si_current toy_stack" "si_current (toy_stack\<lparr>si_pending_returned := True\<rparr>) = si_current toy_stack"
    "sl_deref (toy_stack\<lparr>si_pending_returned := True\<rparr>) (si_current toy_stack) = Some toy_location"
    by (simp_all add: calls_lower_def in_step_def toy_stack_def sl_deref_def)
  note st = filter_keeps_stack [OF this, of 45056]
  have "si_current toy_stack = 1" "si_pending_returned (toy_stack\<lparr>si_pending_returned := True\<rparr>)"
    "sl_deref (toy_stack\<lparr>si_pending_returned := True\<rparr>) 2 = Some toy_location"
    by (simp_all add: toy_stack_def sl_deref_def)
  then show ?thesis
    using st by fastforce
qed

end
