(* ===== verification/Crypto_Test.thy ===== *)
theory Crypto_Test
  imports Xts_Cipher Nt_Io
begin

text \<open>
  The driver's wrapper of the sector cipher (\<open>lib/windrv/src/crypto/aes_xts.rs\<close>), the self-test driver
  (\<open>sample/crypto-test/src/lib.rs\<close> and \<open>tests.rs\<close>), and the parts that are declared but not written:
  the executor (\<open>lib/windrv/src/executor.rs\<close>) and the asynchronous protocol
  (\<open>lib/loader/src/hook/block_io2.rs\<close>).  A call of \<open>todo!\<close> panics; the model keeps its message, without the prefix that the macro puts before it.
\<close>


section \<open>The wrapper\<close>

record aes_xts_cipher =
  axc_inner :: xts_volume_cipher

definition aes_xts_new :: "aes256 \<Rightarrow> bytes \<Rightarrow> bytes \<Rightarrow> aes_xts_cipher vck_result" where
  "aes_xts_new A key1 key2 = res_bind (xts_new A key1 key2) (\<lambda>c. Inr \<lparr>axc_inner = c\<rparr>)"

definition axc_decrypt_sector :: "aes256 \<Rightarrow> aes_xts_cipher \<Rightarrow> u64 \<Rightarrow> bytes \<Rightarrow> bytes" where
  "axc_decrypt_sector A c rel_sector buf = decrypt_sector_inner A (axc_inner c) rel_sector buf"

definition axc_encrypt_sector :: "aes256 \<Rightarrow> aes_xts_cipher \<Rightarrow> u64 \<Rightarrow> bytes \<Rightarrow> bytes" where
  "axc_encrypt_sector A c rel_sector buf = encrypt_sector_inner A (axc_inner c) rel_sector buf"

definition axc_encrypt_area :: "aes256 \<Rightarrow> aes_xts_cipher \<Rightarrow> bytes \<Rightarrow> nat \<Rightarrow> u64 \<Rightarrow> bytes" where
  "axc_encrypt_area A c buf sector_size first_rel_sector = encrypt_area A (axc_inner c) buf sector_size first_rel_sector"

definition axc_decrypt_area :: "aes256 \<Rightarrow> aes_xts_cipher \<Rightarrow> bytes \<Rightarrow> nat \<Rightarrow> u64 \<Rightarrow> bytes" where
  "axc_decrypt_area A c buf sector_size first_rel_sector = decrypt_area A (axc_inner c) buf sector_size first_rel_sector"

text \<open>\<open>impl VolumeCipher for AesXtsCipher\<close>.\<close>

definition axc_as_volume_cipher :: "aes256 \<Rightarrow> aes_xts_cipher \<Rightarrow> volume_cipher" where
  "axc_as_volume_cipher A c =
     \<lparr>vc_encrypt_sector = axc_encrypt_sector A c, vc_decrypt_sector = axc_decrypt_sector A c,
      vc_encrypt_area = axc_encrypt_area A c, vc_decrypt_area = axc_decrypt_area A c\<rparr>"

lemma axc_is_xts: "axc_as_volume_cipher A c = xts_as_volume_cipher A (axc_inner c)"
  by (simp add: axc_as_volume_cipher_def xts_as_volume_cipher_def axc_encrypt_sector_def axc_decrypt_sector_def axc_encrypt_area_def
      axc_decrypt_area_def fun_eq_iff)

text \<open>The wrapper keeps the contract of a volume cipher, so that it can take the place of the shared cipher
  everywhere.\<close>

interpretation axc: volume_cipher_spec "axc_as_volume_cipher A c" "aes_ok A" for A c
  unfolding axc_is_xts by (rule xts.volume_cipher_spec_axioms)


section \<open>The self-test driver\<close>

text \<open>Panics, with their message.\<close>

type_synonym 'a outcome = "string + 'a"

record report =
  rp_passed :: u32
  rp_failed :: u32

definition report_default :: report where
  "report_default = \<lparr>rp_passed = 0, rp_failed = 0\<rparr>"

definition report_record :: "bool \<Rightarrow> report \<Rightarrow> report" where
  "report_record ok r = (if ok then r\<lparr>rp_passed := rp_passed r + 1\<rparr> else r\<lparr>rp_failed := rp_failed r + 1\<rparr>)"

definition check_hkdf_derivation :: bool where "check_hkdf_derivation = False"
definition check_header_crc32 :: bool where "check_header_crc32 = False"
definition check_encrypted_metadata_roundtrip :: bool where "check_encrypted_metadata_roundtrip = False"
definition check_aes_xts_sector_roundtrip :: bool where "check_aes_xts_sector_roundtrip = False"

definition run_all :: report where
  "run_all =
     (let r1 = report_record check_hkdf_derivation report_default;
          r2 = report_record check_header_crc32 r1;
          r3 = report_record check_encrypted_metadata_roundtrip r2
      in report_record check_aes_xts_sector_roundtrip r3)"

text \<open>\<open>DriverEntry\<close> of the self-test driver: the report it logs, and what it returns.\<close>

definition crypto_test_driver_entry :: "report \<times> ntstatus outcome" where
  "crypto_test_driver_entry = (run_all, Inl ''return STATUS based on report'')"


section \<open>Declared and not written\<close>

definition executor_spawn :: "'f \<Rightarrow> unit outcome" where
  "executor_spawn fut = Inl ''enqueue future, poll on waker from IRP completion''"

definition executor_block_on :: "'f \<Rightarrow> 'a outcome" where
  "executor_block_on fut = Inl ''poll loop with KeWaitForSingleObject on a waker event''"

definition block_io2_install :: "unit vck_result outcome" where
  "block_io2_install = Inl ''save original ReadBlocksEx and patch EFI_BLOCK_IO2_PROTOCOL vtable''"

definition block_io2_uninstall :: "'h \<Rightarrow> unit vck_result outcome" where
  "block_io2_uninstall self = Inl ''restore original EFI_BLOCK_IO2_PROTOCOL ReadBlocksEx pointer''"

definition hooked_read_blocks_ex :: "unit outcome" where
  "hooked_read_blocks_ex = Inl ''hooked EFI_BLOCK_IO2_PROTOCOL.ReadBlocksEx: original read then AES-XTS decrypt on completion''"


section \<open>Properties\<close>

text \<open>The report counts the checks: passed and failed together are the number of checks, as long as their
  number fits in 32 bits.\<close>

lemma report_counts:
  assumes "length cs < 2 ^ 32"
  shows "unat (rp_passed (fold report_record cs report_default)) = length (filter (\<lambda>b. b) cs) \<and>
    unat (rp_failed (fold report_record cs report_default)) = length (filter (\<lambda>b. \<not> b) cs)"
proof -
  have "rp_passed (fold report_record cs r) = rp_passed r + of_nat (length (filter (\<lambda>b. b) cs)) \<and>
      rp_failed (fold report_record cs r) = rp_failed r + of_nat (length (filter (\<lambda>b. \<not> b) cs))" for r
    by (induction cs arbitrary: r) (auto simp: report_record_def)
  moreover have "length (filter P cs) < 2 ^ 32" for P
    using assms length_filter_le [of P cs] by linarith
  ultimately show ?thesis
    by (simp add: report_default_def unat_of_nat_less)
qed

text \<open>The driver's wrapper is the shared cipher: with the same keys it is created exactly when the shared
  cipher is, and both give the same bytes.\<close>

theorem driver_wrapper_is_shared_cipher:
  "res_map (axc_as_volume_cipher A) (aes_xts_new A key1 key2) = res_map (xts_as_volume_cipher A) (xts_new A key1 key2)"
  by (cases "xts_new A key1 key2") (simp_all add: aes_xts_new_def axc_is_xts res_simps)

text \<open>The self-test never reports success.  All four checks are recorded as failed, although none of
  them looks at the primitive it is named after, and the entry point panics where it should return a status.\<close>

theorem self_test_never_passes:
  "rp_passed (fst crypto_test_driver_entry) = 0 \<and> rp_failed (fst crypto_test_driver_entry) = 4 \<and>
   (\<forall>st. snd crypto_test_driver_entry \<noteq> Inr st)"
  by (simp add: crypto_test_driver_entry_def run_all_def report_record_def report_default_def check_hkdf_derivation_def check_header_crc32_def
      check_encrypted_metadata_roundtrip_def check_aes_xts_sector_roundtrip_def Let_def)

end
