(* ===== verification/Spec2Isabelle.thy ===== *)
theory Spec2Isabelle
  imports Boot_Writes Thread_Life Irp_Stack Crypto_Test Kernel_Support
begin

text \<open>
  Verification of volumecrypt-kit, a toolkit in Rust for the encryption of whole volumes, the system
  volume included.  The paths below are relative to \<open>src/\<close>.


  \<^bold>\<open>The program.\<close>  A volume is encrypted in place by a sweep that moves a boundary through its data
  sectors: sectors below the boundary are ciphertext, sectors above it plaintext.  The boundary, the
  direction of the sweep and the volume keys are kept on the volume in JVCK metadata blocks, sealed under a
  master key and replicated in the header and the footer of the volume.  A filter driver
  (\<open>lib/windrv\<close>, \<open>sample/windrv\<close>) sits below the file system, hides the metadata,
  translates every transfer and runs the sweep in one thread for each volume; an application controls it
  with device control requests.  During boot, before the driver exists, a UEFI loader
  (\<open>lib/loader\<close>, \<open>sample/loader\<close>) reads its configuration from the boot partition, hooks
  the block protocol of the system partition, publishes the master key in memory that survives the start
  of the system and starts the next image.  The driver finds the key there and mounts the system volume
  when its device starts.  Both sides share \<open>lib/common\<close>.


  \<^bold>\<open>The theories\<close>, from the bottom up.

  Shared vocabulary.
  \<^item> \<open>Vck_Prelude\<close>: words, buffers, slices, little-endian codecs, results and their sequencing.
  \<^item> \<open>Vck_Common\<close>: \<open>lib/common/src/error.rs\<close>, \<open>types.rs\<close>, \<open>rng.rs\<close>,
    \<open>store.rs\<close>, \<open>jvck/options.rs\<close>.
  \<^item> \<open>Cipher_Spec\<close>, \<open>Sector_Io\<close>, \<open>Offset_Store\<close>: the contracts of the traits
    \<open>VolumeCipher\<close>, \<open>SectorIo\<close> and \<open>EncryptedOffsetStore\<close> as locales, with what their
    clients derive from them.

  The cipher and the metadata.
  \<^item> \<open>Xts_Cipher\<close>: \<open>lib/common/src/xts.rs\<close>.  The batched routines compute the
    block-by-block definition and are inverse to each other; the cipher interprets \<open>volume_cipher_spec\<close>.
  \<^item> \<open>Jvck_Metadata\<close>, \<open>Jvck_Codec\<close>, \<open>Jvck_Geometry\<close>, \<open>Jvck_Store\<close>:
    \<open>lib/common/src/jvck/metadata.rs\<close>, \<open>codec.rs\<close>, \<open>store.rs\<close>.  Round trips of the
    block, authentication before use, disjointness of metadata and data, recovery of the largest offset,
    creation, opening and reopening.  \<open>metadata_codec_spec\<close> and \<open>jvck_env\<close> are interpreted on
    the code's codec and on the lower device of the driver.

  The driver.
  \<^item> \<open>Nt_Io\<close>: \<open>lib/windrv/src/nt.rs\<close>, \<open>io.rs\<close>: the two implementations of
    \<open>SectorIo\<close> and the interpretation of \<open>sector_device\<close> and \<open>reliable_device\<close> on them.
  \<^item> \<open>Kernel_Support\<close>: \<open>lib/windrv/src/ntddk_ex.rs\<close>, \<open>debug.rs\<close>, \<open>rng.rs\<close>:
    the clock read under a concurrent writer, the panic line, the random source, kernel strings.
  \<^item> \<open>Crypto_Pipeline\<close>, \<open>Enc_Engine\<close>, \<open>Engine_Driver\<close>:
    \<open>crypto/pipeline.rs\<close>, \<open>offset/engine.rs\<close>.  The state machine of the sweep: no step
    changes what a reader sees, a restart after any successful step recovers it, failures are contained, and on a
    reliable device the sweep ends.  The lemmas are proved in the locales \<open>sweep_env\<close> and
    \<open>reliable_sweep\<close> and interpreted on the lower device, AES-XTS and the JVCK store.
  \<^item> \<open>Btree_Map\<close>, \<open>Vol_Registry\<close>: \<open>registry.rs\<close>, \<open>provider.rs\<close>: volumes
    live in a heap, the registry maps paths to heap indices.
  \<^item> \<open>Filter_Io\<close>, \<open>Volume_Thread\<close>, \<open>Filter_Manager\<close>, \<open>Handover_Mount\<close>:
    \<open>filter/io.rs\<close>, \<open>irp.rs\<close>, \<open>volume_thread.rs\<close>, \<open>manager.rs\<close>,
    \<open>handover_mount.rs\<close>.  The thread is a step relation over requests, commands and sweep batches;
    it refines a plain disk.  Attaching leaks no device; the boot-time mount restores a volume.
  \<^item> \<open>Thread_Life\<close>: the same thread among the other threads of the system, at the granularity of
    accesses to shared state: \<open>enqueue\<close> under its lock, the loop and the final loop of the thread, control
    commands, \<open>unbind_filter\<close>.  It follows the step relation of \<open>Volume_Thread\<close>, so it refines the same
    plain disk; once told to stop it ends within a number of its own steps that is linear in the queue.
  \<^item> \<open>Irp_Stack\<close>: the array of stack locations behind the flat request of \<open>Filter_Io\<close>, and how the
    filter skips, copies and marks locations.
  \<^item> \<open>Ioctl_Codes\<close>, \<open>Ioctl_Types\<close>, \<open>Sample_Provider\<close>, \<open>Ioctl_Control\<close>,
    \<open>Ioctl_Attach\<close>, \<open>Ioctl_Dispatch\<close>, \<open>Ioctl_Effects\<close>: \<open>lib/common/src/ioctl.rs\<close>,
    \<open>ioctl/codes.rs\<close>, \<open>types.rs\<close>, \<open>dispatch.rs\<close>,
    \<open>sample/windrv/src/provider.rs\<close>: all twelve handlers, authorization, and what they do.
  \<^item> \<open>Sample_Driver\<close>, \<open>Driver_Life\<close>: \<open>sample/windrv/src/lib.rs\<close>, \<open>device.rs\<close>:
    \<open>DriverEntry\<close>, \<open>AddDevice\<close>, the dispatch routine, shutdown and unload; the life of the
    driver as a step relation.
  \<^item> \<open>Crypto_Test\<close>: the driver's wrapper of the cipher (\<open>crypto/aes_xts.rs\<close>), another instance of
    \<open>volume_cipher_spec\<close>; the self-test driver (\<open>sample/crypto-test\<close>); the functions that are
    declared and not written (\<open>executor.rs\<close>, \<open>hook/block_io2.rs\<close>), which panic.

  The loader.
  \<^item> \<open>Boot_Handover\<close>: both ends of the handover (\<open>lib/common/src/handover\<close>,
    \<open>lib/loader/src/handover.rs\<close>, \<open>lib/windrv/src/handover.rs\<close>).
  \<^item> \<open>Loader_Hook\<close>, \<open>Loader_Boot\<close>: \<open>lib/loader/src/hook\<close> and the UEFI part of
    \<open>jvck/store.rs\<close>: the hooks refine a plain disk, and loader and driver agree on a volume.
  \<^item> \<open>Vck_Config\<close>: \<open>sample/common/src/config.rs\<close>, with reference printers.
  \<^item> \<open>Loader_Run\<close>: \<open>sample/loader/src/main.rs\<close>, \<open>chainload.rs\<close>, \<open>cpu.rs\<close>.

  The whole.
  \<^item> \<open>System_Boot\<close>: configuration file, loader, start of the system, \<open>DriverEntry\<close>,
    \<open>AddDevice\<close> and mount composed into one theorem.
  \<^item> \<open>Boot_Writes\<close>: the same with the transfers of the starting system between the loader and the
    driver: what they read and write through the hook is a plain disk, and the mounted volume shows what they
    left.


  \<^bold>\<open>How code becomes definitions.\<close>  A struct is a record, an enumeration a datatype, an integer a
  word of its width.  Arithmetic is that of a release build: it wraps unless the code says
  \<open>checked\<close> or \<open>saturating\<close>.  \<open>usize\<close> values that count bytes of one buffer are natural
  numbers.  A fallible function returns \<open>vck_error + 'a\<close>; each \<open>Err\<close> and each early return is a
  branch.  Stateful code passes its state: the driver's state is the record \<open>drv\<close> (heap of volumes,
  registry, device extensions, completed requests, world), the loader's the record \<open>loader\<close>.  The
  atomic cells of a JVCK store are a component of the world, because the store is shared.  Shared
  pointers to volumes are heap indices.  A loop is a recursive function with a termination proof; the
  only loop that may run on, the clock, is a partial function, and its theorem says when it returns.
  There is no fuel.  The bounds in the definitions are the code's: 13 devices in a stack
  walk, 100 attempts to dismount, 64 requests in a burst, 64 KiB of handover payload.


  \<^bold>\<open>Parameters and hypotheses.\<close>  Code outside the repository is a parameter: the AES block cipher,
  HKDF, CBC, HMAC and CRC, the services of the NT kernel, the I/O and object manager, msgpack, the parser for
  identifiers, the UEFI firmware and boot services, the processor.  What is used of them is stated by
  named predicates (\<open>aes_ok\<close>, \<open>crypto_ok\<close>, \<open>ld_ok\<close>, \<open>ld_reliable\<close>,
  \<open>rng_delivers\<close>, \<open>codec_ok\<close>, \<open>platform_ok\<close>, \<open>control_services_ok\<close>,
  \<open>gen_random_ok\<close> and others), each satisfied by a concrete instance in a witness.


  \<^bold>\<open>Not modelled.\<close>  Log output other than the form of a line, zeroisation of keys on drop,
  memory safety of the unsafe blocks other than the life of the volume thread and the bounds of the stack locations,
  IRQL, the sizes of stacks.  The instructions that read and write control registers, CPUID and the debug
  port are parameters.  Declarations with no behaviour (modules, traits without bodies, accessors of one field, the
  forwarding of \<open>SectorIo\<close> through \<open>Arc\<close>) have no definition of their own.  The command-line tools
  in Go are another program.  Serving one request and one batch of the sweep are single steps, as only the
  volume's thread moves its boundary; the threads of different volumes share no state but the registry, whose
  operations hold its lock, and are not interleaved with each other.


  \<^bold>\<open>What the modelling showed\<close> beside the proofs, each stated as a theorem or visible in a
  definition: a failed detachment loses the volume, \<open>PREPARE\<close> under another path displaces a bound
  volume, a transfer that crosses the end of the data region is accepted, a failed store of the boundary
  lets readers see ciphertext, a protocol hooked twice never returns, a request whose answer does not fit
  is carried out, a dispatching caller can use the memory of a volume thread that unbinding has freed, the
  self-test driver can only fail, and characters outside ASCII in the configuration come back as their UTF-8 bytes.
\<close>

end
